(* ===== verification/Prelude.thy ===== *)
theory Prelude
  imports Main "HOL-Library.List_Lexorder" "HOL-Library.Char_ord" "HOL-Library.Multiset"
begin

text \<open>
  Shared vocabulary of the development: the collections of simplification facts, the Go
  types every component uses, and the functions of Go's \<open>strings\<close> package that the sources
  call, with the few lemmas about them and about lists that the component proofs share.

  A Go string is a sequence of bytes and is modelled as \<^typ>\<open>string\<close>, one character per byte.
  A \<open>time.Time\<close> is an integer number of nanoseconds since the zero time (year 1), so that
  \<open>t.IsZero()\<close> is \<open>t = 0\<close>; a \<open>time.Duration\<close> is an integer number of nanoseconds.  The Go
  types \<open>int\<close> and \<open>int64\<close> are \<^typ>\<open>int\<close>; where the sources guard against overflow, the
  bounds are written out.
\<close>

named_theorems norm_simps
  "normal forms of trimmed strings, key statuses and key records"

named_theorems pool_simps
  "field equations of the pool operations"

type_synonym time = int
type_synonym duration = int

abbreviation millisecond :: duration where
  "millisecond \<equiv> 1000000"

abbreviation second :: duration where
  "second \<equiv> 1000000000"

abbreviation minute :: duration where
  "minute \<equiv> 60000000000"

abbreviation hour :: duration where
  "hour \<equiv> 3600000000000"

abbreviation max_int64 :: int where
  "max_int64 \<equiv> 9223372036854775807"

abbreviation min_int64 :: int where
  "min_int64 \<equiv> - 9223372036854775808"

section \<open>Go strings\<close>

text \<open>\<open>strings.HasPrefix\<close>, \<open>strings.HasSuffix\<close>, \<open>strings.TrimPrefix\<close>, \<open>strings.TrimSuffix\<close>
  and \<open>strings.Contains\<close>.\<close>

fun strip_prefix :: "string \<Rightarrow> string \<Rightarrow> string option" where
  "strip_prefix [] s = Some s"
| "strip_prefix (c # p) [] = None"
| "strip_prefix (c # p) (d # s) = (if c = d then strip_prefix p s else None)"

definition has_prefix :: "string \<Rightarrow> string \<Rightarrow> bool" where
  "has_prefix s p \<longleftrightarrow> strip_prefix p s \<noteq> None"

definition has_suffix :: "string \<Rightarrow> string \<Rightarrow> bool" where
  "has_suffix s p \<longleftrightarrow> has_prefix (rev s) (rev p)"

definition trim_prefix :: "string \<Rightarrow> string \<Rightarrow> string" where
  "trim_prefix s p = (case strip_prefix p s of None \<Rightarrow> s | Some r \<Rightarrow> r)"

definition trim_suffix :: "string \<Rightarrow> string \<Rightarrow> string" where
  "trim_suffix s p = rev (trim_prefix (rev s) (rev p))"

fun contains :: "string \<Rightarrow> string \<Rightarrow> bool" where
  "contains [] sub = (sub = [])"
| "contains (c # s) sub = (has_prefix (c # s) sub \<or> contains s sub)"

text \<open>\<open>strings.TrimSpace\<close> removes every leading and trailing rune that \<open>unicode.IsSpace\<close>
  accepts.  The table below lists the UTF-8 encodings of exactly those runes, so trimming
  removes byte sequences.\<close>

definition space_encodings :: "string list" where
  "space_encodings =
     [[CHR 0x09], [CHR 0x0A], [CHR 0x0B], [CHR 0x0C], [CHR 0x0D], [CHR 0x20],
      [CHR 0xC2, CHR 0x85], [CHR 0xC2, CHR 0xA0], [CHR 0xE1, CHR 0x9A, CHR 0x80],
      [CHR 0xE2, CHR 0x80, CHR 0x80], [CHR 0xE2, CHR 0x80, CHR 0x81],
      [CHR 0xE2, CHR 0x80, CHR 0x82], [CHR 0xE2, CHR 0x80, CHR 0x83],
      [CHR 0xE2, CHR 0x80, CHR 0x84], [CHR 0xE2, CHR 0x80, CHR 0x85],
      [CHR 0xE2, CHR 0x80, CHR 0x86], [CHR 0xE2, CHR 0x80, CHR 0x87],
      [CHR 0xE2, CHR 0x80, CHR 0x88], [CHR 0xE2, CHR 0x80, CHR 0x89],
      [CHR 0xE2, CHR 0x80, CHR 0x8A], [CHR 0xE2, CHR 0x80, CHR 0xA8],
      [CHR 0xE2, CHR 0x80, CHR 0xA9], [CHR 0xE2, CHR 0x80, CHR 0xAF],
      [CHR 0xE2, CHR 0x81, CHR 0x9F], [CHR 0xE3, CHR 0x80, CHR 0x80]]"

fun first_strip :: "string list \<Rightarrow> string \<Rightarrow> string option" where
  "first_strip [] s = None"
| "first_strip (e # es) s =
     (case strip_prefix e s of None \<Rightarrow> first_strip es s | Some r \<Rightarrow> Some r)"

fun trim_with :: "string list \<Rightarrow> string \<Rightarrow> string" where
  "trim_with es s =
     (case first_strip es s of
        None \<Rightarrow> s
      | Some r \<Rightarrow> if length r < length s then trim_with es r else s)"

declare trim_with.simps [simp del]

definition trim_right_space :: "string \<Rightarrow> string" where
  "trim_right_space s = rev (trim_with (map rev space_encodings) (rev s))"

definition trim_space :: "string \<Rightarrow> string" where
  "trim_space s = trim_right_space (trim_with space_encodings s)"

text \<open>\<open>strings.ToLower\<close> and \<open>strings.ToUpper\<close> on ASCII letters; other bytes are kept, which is
  what the Go functions do for every rune without a case mapping.\<close>

definition ascii_lower :: "char \<Rightarrow> char" where
  "ascii_lower c =
     (let n = (of_char c :: nat) in if 65 \<le> n \<and> n \<le> 90 then char_of (n + 32) else c)"

definition ascii_upper :: "char \<Rightarrow> char" where
  "ascii_upper c =
     (let n = (of_char c :: nat) in if 97 \<le> n \<and> n \<le> 122 then char_of (n - 32) else c)"

definition to_lower :: "string \<Rightarrow> string" where
  "to_lower = map ascii_lower"

definition to_upper :: "string \<Rightarrow> string" where
  "to_upper = map ascii_upper"

section \<open>Lemmas on the string functions\<close>

lemma strip_prefix_Some_iff: "strip_prefix p s = Some r \<longleftrightarrow> s = p @ r"
  by (induction p s rule: strip_prefix.induct) auto

lemma strip_prefix_append [simp]: "strip_prefix p (p @ r) = Some r"
  by (simp add: strip_prefix_Some_iff)

lemma has_prefix_iff: "has_prefix s p \<longleftrightarrow> (\<exists>r. s = p @ r)"
  by (auto simp: has_prefix_def strip_prefix_Some_iff)

lemma has_suffix_iff: "has_suffix s p \<longleftrightarrow> (\<exists>r. s = r @ p)"
proof -
  have "has_suffix s p \<longleftrightarrow> (\<exists>r. rev s = rev p @ r)"
    by (simp add: has_suffix_def has_prefix_iff)
  also have "\<dots> \<longleftrightarrow> (\<exists>r. s = r @ p)"
    by (metis rev_append rev_rev_ident)
  finally show ?thesis .
qed

lemma contains_iff: "contains s sub \<longleftrightarrow> (\<exists>a b. s = a @ sub @ b)"
proof (induction s)
  case Nil
  show ?case by auto
next
  case (Cons c s)
  have "(\<exists>a b. c # s = a @ sub @ b) \<longleftrightarrow>
        (\<exists>b. c # s = sub @ b) \<or> (\<exists>a b. s = a @ sub @ b)"
    by (metis append_Cons append_Nil list.exhaust list.inject)
  with Cons show ?case by (simp add: has_prefix_iff)
qed

lemma first_strip_Some_append:
  "first_strip es s = Some r \<Longrightarrow> first_strip es (s @ t) \<noteq> None"
  by (induction es) (auto simp: strip_prefix_Some_iff split: option.splits)

lemma first_strip_prefix_None: "first_strip es (s @ t) = None \<Longrightarrow> first_strip es s = None"
  by (cases "first_strip es s") (auto dest: first_strip_Some_append [where t = t])

lemma first_strip_shorter:
  "[] \<notin> set es \<Longrightarrow> first_strip es s = Some r \<Longrightarrow> length r < length s"
  by (induction es) (auto simp: strip_prefix_Some_iff split: option.splits)

lemma first_strip_trim_with:
  "[] \<notin> set es \<Longrightarrow> first_strip es (trim_with es s) = None"
proof (induction es s rule: trim_with.induct)
  case (1 es s)
  show ?case
  proof (cases "first_strip es s")
    case None
    then show ?thesis by (simp add: trim_with.simps [of es s])
  next
    case (Some r)
    with "1.prems" have "length r < length s" by (blast intro: first_strip_shorter)
    with Some "1.IH" "1.prems" show ?thesis by (simp add: trim_with.simps [of es s])
  qed
qed

lemma trim_with_None: "first_strip es s = None \<Longrightarrow> trim_with es s = s"
  by (simp add: trim_with.simps [of es s])

lemma trim_with_suffix: "\<exists>p. s = p @ trim_with es s"
proof (induction es s rule: trim_with.induct)
  case (1 es s)
  show ?case
  proof (cases "first_strip es s")
    case None
    then show ?thesis by (simp add: trim_with.simps [of es s])
  next
    case (Some r)
    have "\<exists>p. s = p @ r"
      using Some by (induction es) (auto simp: strip_prefix_Some_iff split: option.splits)
    then show ?thesis
    proof (cases "length r < length s")
      case True
      with Some "1.IH" obtain q where "r = q @ trim_with es r" by blast
      with \<open>\<exists>p. s = p @ r\<close> Some True show ?thesis
        by (auto simp: trim_with.simps [of es s]) (metis append_assoc)
    qed (simp add: Some trim_with.simps [of es s])
  qed
qed

lemma space_encodings_nonempty: "[] \<notin> set space_encodings"
  by (simp add: space_encodings_def)

lemma space_encodings_rev_nonempty: "[] \<notin> set (map rev space_encodings)"
  by (simp add: space_encodings_def)

lemma trim_right_space_fixed:
  "first_strip space_encodings s = None \<Longrightarrow>
     first_strip space_encodings (trim_right_space s) = None"
proof -
  assume none: "first_strip space_encodings s = None"
  obtain p where "rev s = p @ trim_with (map rev space_encodings) (rev s)"
    using trim_with_suffix by blast
  then have "s = trim_right_space s @ rev p"
    by (metis rev_append rev_rev_ident trim_right_space_def)
  with none show ?thesis by (metis first_strip_prefix_None)
qed

lemma trim_right_space_idem [simp]: "trim_right_space (trim_right_space s) = trim_right_space s"
  by (simp add: trim_right_space_def first_strip_trim_with [OF space_encodings_rev_nonempty]
      trim_with_None)

lemma trim_space_idem [simp, norm_simps]: "trim_space (trim_space s) = trim_space s"
proof -
  have "first_strip space_encodings (trim_with space_encodings s) = None"
    by (rule first_strip_trim_with [OF space_encodings_nonempty])
  then have "first_strip space_encodings (trim_space s) = None"
    by (simp add: trim_space_def trim_right_space_fixed)
  then show ?thesis
    by (simp add: trim_space_def trim_with_None)
qed

lemma trim_space_Nil [simp]: "trim_space [] = []"
  by code_simp

lemma ascii_lower_idem [simp]: "ascii_lower (ascii_lower c) = ascii_lower c"
  by (simp add: ascii_lower_def Let_def)

lemma to_lower_idem [simp]: "to_lower (to_lower s) = to_lower s"
  by (simp add: to_lower_def)

lemma to_lower_Nil [simp]: "to_lower [] = []"
  by (simp add: to_lower_def)

section \<open>Lemmas on lists\<close>

text \<open>A list updated at one address: what a map over its elements reads afterwards.\<close>

lemma map_fun_upd_distinct:
  "distinct xs \<Longrightarrow> i < length xs \<Longrightarrow> map (f(xs ! i := v)) xs = (map f xs)[i := v]"
  by (induction xs arbitrary: i) (auto simp: nth_Cons split: nat.splits)

lemma sort_key_idem [simp]: "sort_key f (sort_key f xs) = sort_key f xs"
  by (simp add: sort_key_id_if_sorted)

lemma distinct_map_filter_keep: "distinct (map f xs) \<Longrightarrow> distinct (map f (filter P xs))"
  by (induction xs) auto

end
