(* ===== verification/GoText.thy ===== *)
theory GoText
  imports Prelude
begin

text \<open>
  Conversions between Go strings and runes, and the length-limited error texts built from them.
  \<open>to_runes\<close> is \<open>[]rune(s)\<close>: each element is the UTF-8 encoding of one rune, and a byte that
  starts no valid encoding becomes the encoding of U+FFFD.  The last lemmas show that the
  error-text normalisation of the balancer and of the key store is idempotent, so a text
  normalised by one component passes through the other unchanged.
\<close>

section \<open>UTF-8 decoding\<close>

text \<open>The ranges that the continuation bytes of a leading byte must lie in; \<open>None\<close> for a byte
  that starts no encoding.\<close>

definition tail_ranges :: "nat \<Rightarrow> (nat \<times> nat) list option" where
  "tail_ranges n =
     (if n < 0x80 then Some []
      else if n < 0xC2 then None
      else if n \<le> 0xDF then Some [(0x80, 0xBF)]
      else if n = 0xE0 then Some [(0xA0, 0xBF), (0x80, 0xBF)]
      else if n = 0xED then Some [(0x80, 0x9F), (0x80, 0xBF)]
      else if n \<le> 0xEF then Some [(0x80, 0xBF), (0x80, 0xBF)]
      else if n = 0xF0 then Some [(0x90, 0xBF), (0x80, 0xBF), (0x80, 0xBF)]
      else if n \<le> 0xF3 then Some [(0x80, 0xBF), (0x80, 0xBF), (0x80, 0xBF)]
      else if n = 0xF4 then Some [(0x80, 0x8F), (0x80, 0xBF), (0x80, 0xBF)]
      else None)"

fun tail_ok :: "(nat \<times> nat) list \<Rightarrow> string \<Rightarrow> bool" where
  "tail_ok [] s = True"
| "tail_ok ((lo, hi) # rs) [] = False"
| "tail_ok ((lo, hi) # rs) (c # s) = (lo \<le> of_char c \<and> of_char c \<le> hi \<and> tail_ok rs s)"

text \<open>The number of bytes of the encoding at the head of a string, 0 when there is none.\<close>

fun rune_len :: "string \<Rightarrow> nat" where
  "rune_len [] = 0"
| "rune_len (c # s) =
     (case tail_ranges (of_char c) of
        None \<Rightarrow> 0
      | Some rs \<Rightarrow> if tail_ok rs s then Suc (length rs) else 0)"

definition rune_error :: string where
  "rune_error = [CHR 0xEF, CHR 0xBF, CHR 0xBD]"

fun to_runes :: "string \<Rightarrow> string list" where
  "to_runes [] = []"
| "to_runes (c # s) =
     (let n = rune_len (c # s)
      in if n = 0 then rune_error # to_runes s
         else take n (c # s) # to_runes (drop (n - 1) s))"

text \<open>\<open>normalizeLastError\<close> of \<open>pool.go\<close> and \<open>normalizeRuntimeLastError\<close> of \<open>store.go\<close>, which
  are the same function.\<close>

abbreviation maxLastErrorLength :: nat where
  "maxLastErrorLength \<equiv> 240"

definition normalizeLastError :: "string \<Rightarrow> string" where
  "normalizeLastError message =
     (let m = trim_space message in
      if m = [] then []
      else let runes = to_runes m in
        if length runes \<le> maxLastErrorLength then m
        else if maxLastErrorLength \<le> 3 then concat (take maxLastErrorLength runes)
        else concat (take (maxLastErrorLength - 3) runes) @ ''...'')"

definition normalizeRuntimeLastError :: "string \<Rightarrow> string" where
  "normalizeRuntimeLastError message =
     (let m = trim_space message in
      if m = [] then []
      else let runes = to_runes m in
        if length runes \<le> 240 then m
        else concat (take 237 runes) @ ''...'')"

section \<open>Decoding an encoded text gives the runes back\<close>

definition is_rune :: "string \<Rightarrow> bool" where
  "is_rune r \<longleftrightarrow> r \<noteq> [] \<and> rune_len r = length r"

lemma tail_ok_append: "tail_ok rs s \<Longrightarrow> tail_ok rs (s @ t)"
  by (induction rs s rule: tail_ok.induct) auto

lemma tail_ok_take: "tail_ok rs s \<Longrightarrow> tail_ok rs (take (length rs) s)"
  by (induction rs s rule: tail_ok.induct) auto

lemma tail_ok_length: "tail_ok rs s \<Longrightarrow> length rs \<le> length s"
  by (induction rs s rule: tail_ok.induct) auto

lemma rune_len_append: "is_rune r \<Longrightarrow> rune_len (r @ t) = length r"
  by (cases r) (auto simp: is_rune_def tail_ok_append split: option.splits if_splits)

lemma rune_len_le: "rune_len s \<le> length s"
  by (cases s) (auto dest: tail_ok_length split: option.splits)

lemma is_rune_take:
  assumes "rune_len s \<noteq> 0" shows "is_rune (take (rune_len s) s)"
proof (cases s)
  case (Cons c s')
  with assms obtain rs where rs: "tail_ranges (of_char c) = Some rs" "tail_ok rs s'"
    by (auto split: option.splits if_splits)
  with tail_ok_take [OF rs(2)] tail_ok_length [OF rs(2)] Cons show ?thesis
    by (simp add: is_rune_def)
qed (use assms in simp)

lemma is_rune_error: "is_rune rune_error"
  by (simp add: is_rune_def rune_error_def tail_ranges_def)

lemma to_runes_is_rune: "r \<in> set (to_runes s) \<Longrightarrow> is_rune r"
proof (induction s rule: to_runes.induct)
  case (2 c s)
  then show ?case
    using is_rune_take [of "c # s"] is_rune_error
    by (cases "rune_len (c # s) = 0") (auto simp: Let_def simp del: rune_len.simps)
qed simp

lemma to_runes_Cons_rune:
  assumes "is_rune r" shows "to_runes (r @ s) = r # to_runes s"
proof -
  from assms obtain c r' where r: "r = c # r'" by (cases r) (auto simp: is_rune_def)
  have "rune_len (c # r' @ s) = Suc (length r')"
    using rune_len_append [OF assms, of s] r by simp
  with r show ?thesis by (simp add: Let_def del: rune_len.simps)
qed

lemma to_runes_concat: "\<forall>r \<in> set rs. is_rune r \<Longrightarrow> to_runes (concat rs) = rs"
  by (induction rs) (auto simp: to_runes_Cons_rune)

lemma is_rune_prefix_eq:
  assumes "is_rune a" and "is_rune b" and "a @ x = b @ y" shows "a = b"
  using rune_len_append [OF assms(1), of x] rune_len_append [OF assms(2), of y] assms(3)
  by (metis append_eq_append_conv)

section \<open>Normalisation of error texts\<close>

lemma space_encodings_runes: "e \<in> set space_encodings \<Longrightarrow> is_rune e \<and> e \<noteq> rune_error"
  by (auto simp: space_encodings_def is_rune_def tail_ranges_def rune_error_def)

lemma first_strip_SomeD: "first_strip es s = Some r \<Longrightarrow> \<exists>e \<in> set es. s = e @ r"
  by (induction es) (auto simp: strip_prefix_Some_iff split: option.splits)

lemma first_strip_NoneD: "first_strip es (e @ r) = None \<Longrightarrow> e \<notin> set es"
  by (induction es) (auto split: option.splits)

lemma first_rune_not_space:
  assumes none: "first_strip space_encodings s = None" and runes: "to_runes s = r # rs"
  shows "first_strip space_encodings (r @ t) = None"
proof (rule ccontr)
  assume "first_strip space_encodings (r @ t) \<noteq> None"
  then obtain e y where e: "e \<in> set space_encodings" "r @ t = e @ y"
    by (auto dest: first_strip_SomeD)
  have "is_rune r" using runes to_runes_is_rune [of r s] by simp
  with e is_rune_prefix_eq [of r e t y] have "r = e" by (blast dest: space_encodings_runes)
  with e have "r \<noteq> rune_error" by (auto dest: space_encodings_runes)
  moreover obtain c s' where s: "s = c # s'" using runes by (cases s) auto
  ultimately have "r = take (rune_len s) s"
    using runes by (auto simp: Let_def simp del: rune_len.simps split: if_splits)
  then have "s = r @ drop (rune_len s) s" by simp
  with none have "r \<notin> set space_encodings" using first_strip_NoneD by metis
  with e \<open>r = e\<close> show False by simp
qed

lemma rev_space_not_dot: "first_strip (map rev space_encodings) (CHR ''.'' # s) = None"
  by (simp add: space_encodings_def)

lemma trim_space_left: "first_strip space_encodings (trim_space s) = None"
  by (simp add: trim_space_def trim_right_space_fixed
      first_strip_trim_with [OF space_encodings_nonempty])

lemma trim_space_fixed:
  "first_strip space_encodings s = None \<Longrightarrow>
     first_strip (map rev space_encodings) (rev s) = None \<Longrightarrow> trim_space s = s"
  by (simp add: trim_space_def trim_right_space_def trim_with_None)

lemma truncated_trimmed:
  assumes "to_runes (trim_space m) \<noteq> []" and "0 < n"
  shows "trim_space (concat (take n (to_runes (trim_space m))) @ ''...'')
       = concat (take n (to_runes (trim_space m))) @ ''...''"
proof -
  obtain r rs where runes: "to_runes (trim_space m) = r # rs" using assms by (cases "to_runes (trim_space m)") auto
  then have "concat (take n (r # rs)) @ ''...'' = r @ concat (take (n - 1) rs) @ ''...''"
    using assms by (cases n) auto
  then have "first_strip space_encodings (concat (take n (r # rs)) @ ''...'') = None"
    using first_rune_not_space [OF trim_space_left runes] by simp
  then show ?thesis
    using runes by (intro trim_space_fixed) (simp_all add: rev_space_not_dot)
qed

lemma normalizeRuntimeLastError_eq: "normalizeRuntimeLastError = normalizeLastError"
  by (simp add: fun_eq_iff normalizeRuntimeLastError_def normalizeLastError_def Let_def)

lemma normalizeLastError_runes: "length (to_runes (normalizeLastError m)) \<le> maxLastErrorLength"
proof -
  have "to_runes (concat (take 237 rs) @ ''...'') = take 237 rs @ [''.'', ''.'', ''.'']"
    if "\<forall>r \<in> set rs. is_rune r" for rs
  proof -
    have "is_rune ''.''" by (simp add: is_rune_def tail_ranges_def)
    with that have "\<forall>r \<in> set (take 237 rs @ [''.'', ''.'', ''.'']). is_rune r"
      by (auto dest: in_set_takeD)
    from to_runes_concat [OF this] show ?thesis by simp
  qed
  then show ?thesis
    using to_runes_is_rune by (auto simp: normalizeLastError_def Let_def)
qed

lemma normalizeLastError_idem [simp, norm_simps]:
  "normalizeLastError (normalizeLastError m) = normalizeLastError m"
proof -
  let ?n = "normalizeLastError m"
  have "trim_space ?n = ?n"
  proof (cases "length (to_runes (trim_space m)) \<le> maxLastErrorLength")
    case True
    then show ?thesis by (simp add: normalizeLastError_def Let_def)
  next
    case False
    then have "to_runes (trim_space m) \<noteq> []" by (metis le0 list.size(3))
    with False show ?thesis
      using truncated_trimmed [of m 237] by (auto simp: normalizeLastError_def Let_def)
  qed
  then show ?thesis
    using normalizeLastError_runes [of m] unfolding normalizeLastError_def [of ?n] by (simp add: Let_def)
qed

end
