(* ===== verification/Float64.thy ===== *)
theory Float64
  imports Prelude Complex_Main
begin

text \<open>
  The \<open>float64\<close> arithmetic of the scheduling costs.  A finite \<open>float64\<close> is the rational number
  it denotes, and every arithmetic operation is the exact operation followed by \<open>fl\<close>, rounding
  to the nearest representable number, ties to even: 53 significant bits and the subnormal
  spacing \<open>2\<^sup>-\<^sup>1\<^sup>0\<^sup>7\<^sup>4\<close>.  Overflow to infinity and not-a-number are not modelled: every cost of
  the balancer is clamped to \<open>[1, 3600000]\<close> milliseconds before it is divided by a success
  rate, as the bounds of \<open>StatsHandle\<close> show.  No fused multiply-add is assumed.

  The lemmas are what the cost bounds need: rounding is monotone, integers below \<open>2\<^sup>5\<^sup>3\<close> and
  the powers of two the bounds mention are exact.
\<close>

fun ilog2 :: "nat \<Rightarrow> nat" where
  "ilog2 n = (if n < 2 then 0 else Suc (ilog2 (n div 2)))"

declare ilog2.simps [simp del]

text \<open>Rounding to the nearest integer, ties to even.\<close>

definition rne :: "rat \<Rightarrow> int" where
  "rne x = (let f = \<lfloor>x\<rfloor>; d = x - of_int f in
     if d < 1 / 2 then f
     else if 1 / 2 < d then f + 1
     else if even f then f else f + 1)"

text \<open>Rounding of a non-negative number given in units of \<open>2\<^sup>-\<^sup>1\<^sup>0\<^sup>7\<^sup>4\<close>.\<close>

definition quantum :: "rat \<Rightarrow> nat" where
  "quantum m = ilog2 (nat \<lfloor>m\<rfloor>) - 52"

definition round_units :: "rat \<Rightarrow> rat" where
  "round_units m = of_int (rne (m / 2 ^ quantum m)) * 2 ^ quantum m"

definition fl :: "rat \<Rightarrow> rat" where
  "fl x = (if x < 0 then - round_units (- x * 2 ^ 1074) else round_units (x * 2 ^ 1074)) / 2 ^ 1074"

definition fadd :: "rat \<Rightarrow> rat \<Rightarrow> rat" where
  "fadd x y = fl (x + y)"

definition fsub :: "rat \<Rightarrow> rat \<Rightarrow> rat" where
  "fsub x y = fl (x - y)"

definition fmul :: "rat \<Rightarrow> rat \<Rightarrow> rat" where
  "fmul x y = fl (x * y)"

definition fdiv :: "rat \<Rightarrow> rat \<Rightarrow> rat" where
  "fdiv x y = fl (x / y)"

definition float64 :: "int \<Rightarrow> rat" where
  "float64 n = fl (of_int n)"

section \<open>Rounding is monotone\<close>

lemma ilog2_bounds: "0 < n \<Longrightarrow> 2 ^ ilog2 n \<le> n \<and> n < 2 ^ Suc (ilog2 n)"
proof (induction n rule: ilog2.induct)
  case (1 n)
  show ?case
  proof (cases "n < 2")
    case True
    with "1.prems" show ?thesis by (simp add: ilog2.simps [of n])
  next
    case False
    then have "2 ^ ilog2 (n div 2) \<le> n div 2 \<and> n div 2 < 2 ^ Suc (ilog2 (n div 2))"
      by (intro "1.IH") auto
    with False show ?thesis by (auto simp: ilog2.simps [of n])
  qed
qed

lemma ilog2_le: "m < 2 ^ Suc k \<Longrightarrow> ilog2 m \<le> k"
proof (cases "m = 0")
  case True
  then show ?thesis by (simp add: ilog2.simps [of 0])
next
  case False
  assume "m < 2 ^ Suc k"
  with False ilog2_bounds [of m] have "2 ^ ilog2 m < (2::nat) ^ Suc k" by simp
  then show ?thesis using power_less_imp_less_exp [of "2::nat" "ilog2 m" "Suc k"] by simp
qed

lemma ilog2_mono: "m \<le> n \<Longrightarrow> ilog2 m \<le> ilog2 n"
proof (cases "n = 0")
  case False
  assume "m \<le> n"
  with ilog2_bounds [of n] False have "m < 2 ^ Suc (ilog2 n)" by simp
  then show ?thesis by (rule ilog2_le)
qed simp

lemma rne_cases: "rne x = \<lfloor>x\<rfloor> \<and> x - of_int \<lfloor>x\<rfloor> \<le> 1 / 2 \<or> rne x = \<lfloor>x\<rfloor> + 1 \<and> 1 / 2 \<le> x - of_int \<lfloor>x\<rfloor>"
  by (auto simp: rne_def Let_def)

lemma rne_mono: assumes "x \<le> y" shows "rne x \<le> rne y"
proof (cases "\<lfloor>x\<rfloor> = \<lfloor>y\<rfloor>")
  case True
  with assms show ?thesis by (auto simp: rne_def Let_def)
next
  case False
  with assms floor_mono [OF assms] have "\<lfloor>x\<rfloor> + 1 \<le> \<lfloor>y\<rfloor>" by simp
  with rne_cases [of x] rne_cases [of y] show ?thesis by auto
qed

lemma rne_of_int [simp]: "rne (of_int n) = n"
  by (simp add: rne_def)

lemma rne_le_int: "x \<le> of_int n \<Longrightarrow> rne x \<le> n"
  using rne_mono [of x "of_int n"] by simp

lemma rne_ge_int: "of_int n \<le> x \<Longrightarrow> n \<le> rne x"
  using rne_mono [of "of_int n" x] by simp

lemma floor_less_pow: fixes m :: rat assumes "0 \<le> m" shows "m < 2 ^ Suc (ilog2 (nat \<lfloor>m\<rfloor>))"
proof -
  have "nat \<lfloor>m\<rfloor> < 2 ^ Suc (ilog2 (nat \<lfloor>m\<rfloor>))"
    using ilog2_bounds [of "nat \<lfloor>m\<rfloor>"] by (cases "nat \<lfloor>m\<rfloor> = 0") (simp_all add: ilog2.simps [of 0])
  then have "\<lfloor>m\<rfloor> < 2 ^ Suc (ilog2 (nat \<lfloor>m\<rfloor>))"
    using assms by (simp add: nat_less_iff)
  then have "m < of_int (2 ^ Suc (ilog2 (nat \<lfloor>m\<rfloor>)))"
    by (simp only: floor_less_iff)
  then show ?thesis by simp
qed

lemma pow_le_floor: fixes m :: rat assumes "0 < ilog2 (nat \<lfloor>m\<rfloor>)" shows "2 ^ ilog2 (nat \<lfloor>m\<rfloor>) \<le> m"
proof -
  have "nat \<lfloor>m\<rfloor> \<noteq> 0" using assms by (metis ilog2.simps less_irrefl pos2)
  then have "2 ^ ilog2 (nat \<lfloor>m\<rfloor>) \<le> nat \<lfloor>m\<rfloor>" using ilog2_bounds [of "nat \<lfloor>m\<rfloor>"] by simp
  then have "of_nat (2 ^ ilog2 (nat \<lfloor>m\<rfloor>)) \<le> (of_nat (nat \<lfloor>m\<rfloor>) :: rat)"
    by (simp only: of_nat_le_iff)
  moreover have "of_nat (nat \<lfloor>m\<rfloor>) \<le> m" using \<open>nat \<lfloor>m\<rfloor> \<noteq> 0\<close> by simp
  ultimately show ?thesis by (metis of_nat_numeral of_nat_power order_trans)
qed

lemma round_units_upper:
  assumes "0 \<le> m" and "quantum m < k" shows "round_units m \<le> 2 ^ (52 + k)"
proof -
  let ?q = "quantum m" and ?l = "ilog2 (nat \<lfloor>m\<rfloor>)"
  have "m < 2 ^ Suc ?l" by (rule floor_less_pow [OF assms(1)])
  also have "\<dots> \<le> (2 ^ (53 + ?q) :: rat)"
    by (rule power_increasing) (auto simp: quantum_def)
  finally have "m / 2 ^ ?q \<le> of_int (2 ^ 53)"
    by (simp add: field_simps power_add)
  then have "rne (m / 2 ^ ?q) \<le> 2 ^ 53" by (rule rne_le_int)
  then have "(of_int (rne (m / 2 ^ ?q)) :: rat) \<le> of_int (2 ^ 53)"
    by (simp only: of_int_le_iff)
  then have "round_units m \<le> 2 ^ 53 * 2 ^ ?q"
    unfolding round_units_def by (intro mult_right_mono) auto
  also have "\<dots> = (2 ^ (53 + ?q) :: rat)" by (simp add: power_add)
  also have "\<dots> \<le> 2 ^ (52 + k)" by (rule power_increasing) (use assms in auto)
  finally show ?thesis .
qed

lemma round_units_lower:
  assumes "0 < quantum m" shows "2 ^ (52 + quantum m) \<le> round_units m"
proof -
  let ?q = "quantum m"
  have l: "ilog2 (nat \<lfloor>m\<rfloor>) = 52 + ?q" using assms by (simp add: quantum_def)
  then have "2 ^ (52 + ?q) \<le> m" using pow_le_floor [of m] by simp
  then have "of_int (2 ^ 52) \<le> m / 2 ^ ?q" by (simp add: field_simps power_add)
  then have "2 ^ 52 \<le> rne (m / 2 ^ ?q)" by (rule rne_ge_int)
  then have "(of_int (2 ^ 52) :: rat) \<le> of_int (rne (m / 2 ^ ?q))" by (simp only: of_int_le_iff)
  then have "2 ^ 52 * 2 ^ ?q \<le> round_units m"
    unfolding round_units_def by (intro mult_right_mono) auto
  then show ?thesis by (simp add: power_add)
qed

lemma round_units_mono: assumes "0 \<le> m" and "m \<le> n" shows "round_units m \<le> round_units n"
proof -
  have le: "quantum m \<le> quantum n"
    unfolding quantum_def by (intro diff_le_mono ilog2_mono nat_mono floor_mono assms)
  show ?thesis
  proof (cases "quantum m = quantum n")
    case True
    have "rne (m / 2 ^ quantum n) \<le> rne (n / 2 ^ quantum n)"
      by (rule rne_mono) (simp add: divide_right_mono assms)
    with True show ?thesis by (simp add: round_units_def mult_right_mono)
  next
    case False
    with le have "quantum m < quantum n" by simp
    then have "round_units m \<le> 2 ^ (52 + quantum n)" by (rule round_units_upper [OF assms(1)])
    also have "\<dots> \<le> round_units n"
      using \<open>quantum m < quantum n\<close> by (intro round_units_lower) auto
    finally show ?thesis .
  qed
qed

lemma round_units_0 [simp]: "round_units 0 = 0"
  by (simp add: round_units_def rne_def)

lemma round_units_nonneg: "0 \<le> m \<Longrightarrow> 0 \<le> round_units m"
  using round_units_mono [of 0 m] by simp

lemma fl_mono: assumes "x \<le> y" shows "fl x \<le> fl y"
proof -
  consider "0 \<le> x" | "x < 0" "0 \<le> y" | "y < 0" using assms by linarith
  then show ?thesis
  proof cases
    case 1
    with assms round_units_mono [of "x * 2 ^ 1074" "y * 2 ^ 1074"] show ?thesis
      unfolding fl_def by (intro divide_right_mono) auto
  next
    case 2
    with round_units_nonneg [of "- x * 2 ^ 1074"] round_units_nonneg [of "y * 2 ^ 1074"]
    have "- round_units (- x * 2 ^ 1074) \<le> round_units (y * 2 ^ 1074)" by simp
    with 2 show ?thesis unfolding fl_def by (intro divide_right_mono) auto
  next
    case 3
    with assms round_units_mono [of "- y * 2 ^ 1074" "- x * 2 ^ 1074"] show ?thesis
      unfolding fl_def by (intro divide_right_mono) auto
  qed
qed

section \<open>Exact values\<close>

lemma round_units_exact:
  assumes "n < 2 ^ 53" shows "round_units (of_nat n * 2 ^ j) = of_nat n * 2 ^ j"
proof -
  let ?m = "of_nat n * 2 ^ j :: rat"
  have fl: "nat \<lfloor>?m\<rfloor> = n * 2 ^ j"
    by (metis floor_of_nat nat_int of_nat_mult of_nat_numeral of_nat_power)
  have "n * 2 ^ j < 2 ^ 53 * 2 ^ j" using assms by (intro mult_strict_right_mono) auto
  then have "n * 2 ^ j < 2 ^ Suc (52 + j)" by (simp add: power_add)
  then have "ilog2 (n * 2 ^ j) \<le> 52 + j" by (rule ilog2_le)
  then have q: "quantum ?m \<le> j" by (simp add: quantum_def fl)
  then have "?m / 2 ^ quantum ?m = of_int (int n * 2 ^ (j - quantum ?m))"
    by (simp add: field_simps flip: power_add)
  then have "round_units ?m = of_int (int n * 2 ^ (j - quantum ?m)) * 2 ^ quantum ?m"
    unfolding round_units_def by (metis rne_of_int)
  also have "\<dots> = ?m" using q by (simp add: ac_simps flip: power_add)
  finally show ?thesis .
qed

lemma fl_exact:
  assumes "x * 2 ^ 1074 = of_nat n * 2 ^ j" and "n < 2 ^ 53" shows "fl x = x"
proof -
  have "0 \<le> x * 2 ^ 1074" using assms by simp
  then have "0 \<le> x" by (simp add: zero_le_mult_iff)
  then have "fl x = round_units (of_nat n * 2 ^ j) / 2 ^ 1074"
    using assms(1) by (simp add: fl_def)
  also have "\<dots> = x" using assms by (simp add: round_units_exact field_simps)
  finally show ?thesis .
qed

lemma fl_of_nat: "n < 2 ^ 53 \<Longrightarrow> fl (of_nat n) = of_nat n"
  by (rule fl_exact [where n = n and j = 1074]) auto

lemma fl_nonneg_int: assumes "0 \<le> n" and "n < 2 ^ 53" shows "fl (of_int n) = of_int n"
  using fl_of_nat [of "nat n"] assms by (simp add: nat_less_iff)

lemma fl_numeral [simp]: "numeral w < (2 :: int) ^ 53 \<Longrightarrow> fl (numeral w) = numeral w"
  using fl_nonneg_int [of "numeral w"] by simp

lemma fl_0 [simp]: "fl 0 = 0"
  using fl_nonneg_int [of 0] by simp

lemma fl_1 [simp]: "fl 1 = 1"
  using fl_nonneg_int [of 1] by simp

lemma fl_quarter [simp]: "fl (1 / 4) = 1 / 4"
  by (rule fl_exact [where n = 1 and j = 1072]) (simp_all add: power_add [of 2 1072 2, simplified])

lemma fl_sixteenth [simp]: "fl (1 / 16) = 1 / 16"
  by (rule fl_exact [where n = 1 and j = 1070]) (simp_all add: power_add [of 2 1070 4, simplified])

lemma fl_le_numeral: "x \<le> numeral w \<Longrightarrow> numeral w < (2 :: int) ^ 53 \<Longrightarrow> fl x \<le> numeral w"
  using fl_mono [of x "numeral w"] by simp

lemma fl_ge_1: "1 \<le> x \<Longrightarrow> 1 \<le> fl x"
  using fl_mono [of 1 x] by simp

lemma fl_le_1: "x \<le> 1 \<Longrightarrow> fl x \<le> 1"
  using fl_mono [of x 1] by simp

lemma fl_ge_0: "0 \<le> x \<Longrightarrow> 0 \<le> fl x"
  using fl_mono [of 0 x] by simp

end
