(* ===== verification/KeyRecord.thy ===== *)
theory KeyRecord
  imports GoText Float64
begin

text \<open>
  The data model of \<open>internal/keystore/store.go\<close> and \<open>recent_stats.go\<close>: key records, their
  run-time statistics, the normal forms of keys, statuses and records, and the delta encoding
  with which the statistics persister ships counters to a store.
\<close>

section \<open>Statistics\<close>

record recent_stats =
  RecentRequests :: int
  RecentSuccessCount :: int
  HeaderSamples :: int
  AvgHeaderMS :: rat
  ResponseSamples :: int
  AvgResponseMS :: rat

record runtime_stats =
  RecentStats :: recent_stats
  TotalRequests :: int
  SuccessCount :: int
  LastStatus :: int
  UnauthorizedCount :: int
  ForbiddenCount :: int
  RateLimitCount :: int
  OtherErrorCount :: int
  LastError :: string

definition zero_recent :: recent_stats where
  "zero_recent = \<lparr>RecentRequests = 0, RecentSuccessCount = 0, HeaderSamples = 0, AvgHeaderMS = 0,
     ResponseSamples = 0, AvgResponseMS = 0\<rparr>"

definition zero_stats :: runtime_stats where
  "zero_stats = \<lparr>RecentStats = zero_recent, TotalRequests = 0, SuccessCount = 0, LastStatus = 0,
     UnauthorizedCount = 0, ForbiddenCount = 0, RateLimitCount = 0, OtherErrorCount = 0,
     LastError = []\<rparr>"

text \<open>The part of \<open>TotalRequests\<close> that no other counter classifies.\<close>

definition InterruptedCount :: "runtime_stats \<Rightarrow> int" where
  "InterruptedCount s = max 0 (TotalRequests s - SuccessCount s - UnauthorizedCount s
     - ForbiddenCount s - RateLimitCount s - OtherErrorCount s)"

definition DeltaSince :: "runtime_stats \<Rightarrow> runtime_stats \<Rightarrow> runtime_stats \<times> bool" where
  "DeltaSince s prev =
     (if TotalRequests s < TotalRequests prev \<or> SuccessCount s < SuccessCount prev \<or>
         UnauthorizedCount s < UnauthorizedCount prev \<or> ForbiddenCount s < ForbiddenCount prev \<or>
         RateLimitCount s < RateLimitCount prev \<or> OtherErrorCount s < OtherErrorCount prev
      then (zero_stats, False)
      else
        let delta = zero_stats\<lparr>
              TotalRequests := TotalRequests s - TotalRequests prev,
              SuccessCount := SuccessCount s - SuccessCount prev,
              UnauthorizedCount := UnauthorizedCount s - UnauthorizedCount prev,
              ForbiddenCount := ForbiddenCount s - ForbiddenCount prev,
              RateLimitCount := RateLimitCount s - RateLimitCount prev,
              OtherErrorCount := OtherErrorCount s - OtherErrorCount prev\<rparr>;
            delta = (if TotalRequests delta > 0 \<or> SuccessCount delta > 0 \<or>
                        UnauthorizedCount delta > 0 \<or> ForbiddenCount delta > 0 \<or>
                        RateLimitCount delta > 0 \<or> OtherErrorCount delta > 0
                     then delta\<lparr>LastStatus := LastStatus s, LastError := LastError s\<rparr>
                     else delta);
            delta = (if RecentStats s \<noteq> RecentStats prev
                     then delta\<lparr>RecentStats := RecentStats s\<rparr> else delta)
        in (delta, True))"

definition ApplyDelta :: "runtime_stats \<Rightarrow> runtime_stats \<Rightarrow> runtime_stats" where
  "ApplyDelta s delta =
     (let s = (if TotalRequests delta > 0
               then s\<lparr>LastStatus := LastStatus delta,
                      LastError := normalizeRuntimeLastError (LastError delta)\<rparr>
               else s);
          s = s\<lparr>TotalRequests := TotalRequests s + TotalRequests delta,
                SuccessCount := SuccessCount s + SuccessCount delta,
                UnauthorizedCount := UnauthorizedCount s + UnauthorizedCount delta,
                ForbiddenCount := ForbiddenCount s + ForbiddenCount delta,
                RateLimitCount := RateLimitCount s + RateLimitCount delta,
                OtherErrorCount := OtherErrorCount s + OtherErrorCount delta\<rparr>
      in if RecentRequests (RecentStats delta) > 0
         then s\<lparr>RecentStats := RecentStats delta\<rparr> else s)"

definition stats_IsZero :: "runtime_stats \<Rightarrow> bool" where
  "stats_IsZero s \<longleftrightarrow> RecentRequests (RecentStats s) = 0 \<and> TotalRequests s = 0 \<and>
     SuccessCount s = 0 \<and> LastStatus s = 0 \<and> UnauthorizedCount s = 0 \<and> ForbiddenCount s = 0 \<and>
     RateLimitCount s = 0 \<and> OtherErrorCount s = 0 \<and> LastError s = []"

section \<open>Key records\<close>

abbreviation KeyStatusActive :: string where
  "KeyStatusActive \<equiv> ''active''"

abbreviation KeyStatusDisabledManual :: string where
  "KeyStatusDisabledManual \<equiv> ''disabled_manual''"

abbreviation KeyStatusDisabledAuto :: string where
  "KeyStatusDisabledAuto \<equiv> ''disabled_auto''"

record key_record =
  rec_Key :: string
  rec_Remark :: string
  rec_Status :: string
  rec_DisableReason :: string
  rec_DisabledAt :: "time option"
  rec_DisabledBy :: string
  rec_Stats :: runtime_stats
  rec_Version :: int
  rec_CreatedAt :: time
  rec_UpdatedAt :: time

definition NormalizeStatus :: "string \<Rightarrow> string" where
  "NormalizeStatus status =
     (let s = trim_space status in
      if s = [] \<or> s = KeyStatusActive then KeyStatusActive
      else if s = KeyStatusDisabledManual then KeyStatusDisabledManual
      else if s = KeyStatusDisabledAuto then KeyStatusDisabledAuto
      else KeyStatusActive)"

definition IsActiveStatus :: "string \<Rightarrow> bool" where
  "IsActiveStatus status \<longleftrightarrow> NormalizeStatus status = KeyStatusActive"

definition NormalizeRecord :: "key_record \<Rightarrow> key_record" where
  "NormalizeRecord r =
     (let r = r\<lparr>rec_Key := trim_space (rec_Key r), rec_Remark := trim_space (rec_Remark r),
                rec_Status := NormalizeStatus (rec_Status r)\<rparr>;
          r = (if rec_Version r < 0 then r\<lparr>rec_Version := 0\<rparr> else r)
      in if rec_Status r = KeyStatusActive
         then r\<lparr>rec_DisableReason := [], rec_DisabledAt := None, rec_DisabledBy := []\<rparr>
         else r)"

definition normalizeVendor :: "string \<Rightarrow> string" where
  "normalizeVendor vendorID = trim_space vendorID"

text \<open>The loop of \<open>NormalizeKeys\<close>: \<open>seen\<close> is the set of keys met, \<open>out\<close> the result so far.\<close>

fun normalize_keys_loop :: "string list \<Rightarrow> string list \<Rightarrow> string list \<Rightarrow> string list" where
  "normalize_keys_loop seen out [] = out"
| "normalize_keys_loop seen out (raw # rest) =
     (let key = trim_space raw in
      if key = [] then normalize_keys_loop seen out rest
      else if key \<in> set seen then normalize_keys_loop seen out rest
      else normalize_keys_loop (key # seen) (out @ [key]) rest)"

definition NormalizeKeys :: "string list \<Rightarrow> string list" where
  "NormalizeKeys keys = sort (normalize_keys_loop [] [] keys)"

definition sortRecords :: "key_record list \<Rightarrow> key_record list" where
  "sortRecords records = sort_key rec_Key records"

definition nextRecordVersion :: "int \<Rightarrow> int" where
  "nextRecordVersion current = (if current < 0 then 0 else current) + 1"

text \<open>A partitioned record map, an association list from vendor ids to records.\<close>

type_synonym record_map = "(string \<times> key_record list) list"

definition cloneRecordMap :: "record_map \<Rightarrow> record_map" where
  "cloneRecordMap src =
     map (\<lambda>(vendor, records). (vendor, sortRecords (map NormalizeRecord records))) src"

definition toKeyMap :: "record_map \<Rightarrow> (string \<times> string list) list" where
  "toKeyMap src = map (\<lambda>(vendor, records). (vendor, map rec_Key records)) src"

section \<open>Normal forms\<close>

lemma NormalizeStatus_cases:
  "NormalizeStatus s = KeyStatusActive \<or> NormalizeStatus s = KeyStatusDisabledManual \<or>
   NormalizeStatus s = KeyStatusDisabledAuto"
  by (simp add: NormalizeStatus_def Let_def)

lemma trim_status_words [simp]:
  "trim_space KeyStatusActive = KeyStatusActive"
  "trim_space KeyStatusDisabledManual = KeyStatusDisabledManual"
  "trim_space KeyStatusDisabledAuto = KeyStatusDisabledAuto"
  by code_simp+

lemma NormalizeStatus_words [simp, norm_simps]:
  "NormalizeStatus KeyStatusActive = KeyStatusActive"
  "NormalizeStatus KeyStatusDisabledManual = KeyStatusDisabledManual"
  "NormalizeStatus KeyStatusDisabledAuto = KeyStatusDisabledAuto"
  by (simp_all add: NormalizeStatus_def)

lemma NormalizeStatus_idem [simp, norm_simps]:
  "NormalizeStatus (NormalizeStatus s) = NormalizeStatus s"
  using NormalizeStatus_cases [of s] by auto

lemma IsActiveStatus_words [simp, norm_simps]:
  "IsActiveStatus KeyStatusActive" "\<not> IsActiveStatus KeyStatusDisabledManual"
  "\<not> IsActiveStatus KeyStatusDisabledAuto"
  "IsActiveStatus (NormalizeStatus s) \<longleftrightarrow> IsActiveStatus s"
  by (simp_all add: IsActiveStatus_def)

text \<open>A record in normal form, and the characterisation the store proofs use.\<close>

definition normal_record :: "key_record \<Rightarrow> bool" where
  "normal_record r \<longleftrightarrow> trim_space (rec_Key r) = rec_Key r \<and> trim_space (rec_Remark r) = rec_Remark r \<and>
     NormalizeStatus (rec_Status r) = rec_Status r \<and> 0 \<le> rec_Version r \<and>
     (rec_Status r = KeyStatusActive \<longrightarrow>
        rec_DisableReason r = [] \<and> rec_DisabledAt r = None \<and> rec_DisabledBy r = [])"

lemma normal_record_iff: "normal_record r \<longleftrightarrow> NormalizeRecord r = r"
proof
  assume "normal_record r"
  then show "NormalizeRecord r = r"
    by (auto simp: normal_record_def NormalizeRecord_def Let_def)
next
  assume eq: "NormalizeRecord r = r"
  have "normal_record (NormalizeRecord r)"
    by (simp add: normal_record_def NormalizeRecord_def Let_def)
  with eq show "normal_record r" by simp
qed

lemma normal_record_Normalize [simp, norm_simps]: "normal_record (NormalizeRecord r)"
  by (simp add: normal_record_def NormalizeRecord_def Let_def)

lemma NormalizeRecord_idem [simp, norm_simps]: "NormalizeRecord (NormalizeRecord r) = NormalizeRecord r"
  using normal_record_Normalize normal_record_iff by blast

lemma NormalizeRecord_fields [simp]:
  "rec_Key (NormalizeRecord r) = trim_space (rec_Key r)"
  "rec_Status (NormalizeRecord r) = NormalizeStatus (rec_Status r)"
  "rec_Version (NormalizeRecord r) = max 0 (rec_Version r)"
  "rec_Stats (NormalizeRecord r) = rec_Stats r"
  "rec_CreatedAt (NormalizeRecord r) = rec_CreatedAt r"
  "rec_UpdatedAt (NormalizeRecord r) = rec_UpdatedAt r"
  "rec_Remark (NormalizeRecord r) = trim_space (rec_Remark r)"
  by (simp_all add: NormalizeRecord_def Let_def)

text \<open>\<open>NormalizeKeys\<close> computes the sorted set of the trimmed, non-empty keys.\<close>

lemma normalize_keys_loop_spec:
  assumes "set seen = set out" and "distinct out" and "[] \<notin> set out"
  shows "set (normalize_keys_loop seen out ks) = set out \<union> (trim_space ` set ks - {[]}) \<and>
         distinct (normalize_keys_loop seen out ks)"
  using assms
proof (induction seen out ks rule: normalize_keys_loop.induct)
  case (2 seen out raw rest)
  then show ?case by (auto simp: Let_def)
qed simp

lemma set_NormalizeKeys [simp]: "set (NormalizeKeys ks) = trim_space ` set ks - {[]}"
  using normalize_keys_loop_spec [of "[]" "[]" ks] by (simp add: NormalizeKeys_def)

lemma distinct_NormalizeKeys [simp]: "distinct (NormalizeKeys ks)"
  using normalize_keys_loop_spec [of "[]" "[]" ks] by (simp add: NormalizeKeys_def)

lemma sorted_NormalizeKeys [simp]: "sorted (NormalizeKeys ks)"
  by (simp add: NormalizeKeys_def)

lemma sortRecords_set [simp]: "set (sortRecords rs) = set rs"
  by (simp add: sortRecords_def)

lemma sortRecords_length [simp]: "length (sortRecords rs) = length rs"
  by (simp add: sortRecords_def)

lemma sortRecords_Nil_iff [simp]: "sortRecords rs = [] \<longleftrightarrow> rs = []"
  by (metis length_0_conv sortRecords_length)

lemma sortRecords_sorted [simp]: "sorted (map rec_Key (sortRecords rs))"
  by (simp add: sortRecords_def)

lemma sortRecords_distinct [simp]:
  "distinct (map rec_Key (sortRecords rs)) \<longleftrightarrow> distinct (map rec_Key rs)"
  using mset_eq_imp_distinct_iff [of "map rec_Key (sortRecords rs)" "map rec_Key rs"]
  by (simp add: sortRecords_def)

lemma sortRecords_id: "sorted (map rec_Key rs) \<Longrightarrow> sortRecords rs = rs"
  by (simp add: sortRecords_def sort_key_id_if_sorted)

section \<open>Delta encoding\<close>

text \<open>What the persister ships and the store applies restores the counters of the snapshot.\<close>

definition counters :: "runtime_stats \<Rightarrow> int list" where
  "counters s = [TotalRequests s, SuccessCount s, UnauthorizedCount s, ForbiddenCount s,
     RateLimitCount s, OtherErrorCount s]"

lemma DeltaSince_True_iff: "snd (DeltaSince s prev) \<longleftrightarrow> list_all2 (\<le>) (counters prev) (counters s)"
  by (auto simp: DeltaSince_def counters_def Let_def)

lemma ApplyDelta_DeltaSince_counters:
  "DeltaSince s prev = (d, True) \<Longrightarrow> counters (ApplyDelta prev d) = counters s"
  by (auto simp: DeltaSince_def ApplyDelta_def counters_def Let_def zero_stats_def split: if_splits)

lemma zero_recent_RecentRequests [simp]: "RecentRequests zero_recent = 0"
  by (simp add: zero_recent_def)

lemma ApplyDelta_DeltaSince_recent:
  "DeltaSince s prev = (d, True) \<Longrightarrow>
     RecentStats s = RecentStats prev \<or> RecentRequests (RecentStats s) > 0 \<Longrightarrow>
     RecentStats (ApplyDelta prev d) = RecentStats s"
  by (auto simp: DeltaSince_def ApplyDelta_def Let_def zero_stats_def split: if_splits)

lemma ApplyDelta_DeltaSince_last:
  "DeltaSince s prev = (d, True) \<Longrightarrow> TotalRequests prev < TotalRequests s \<Longrightarrow>
     LastStatus (ApplyDelta prev d) = LastStatus s \<and>
     LastError (ApplyDelta prev d) = normalizeLastError (LastError s)"
  by (auto simp: DeltaSince_def ApplyDelta_def Let_def zero_stats_def normalizeRuntimeLastError_eq
      split: if_splits)

lemma ApplyDelta_DeltaSince_last_kept:
  "DeltaSince s prev = (d, True) \<Longrightarrow> TotalRequests prev = TotalRequests s \<Longrightarrow>
     LastStatus (ApplyDelta prev d) = LastStatus prev \<and>
     LastError (ApplyDelta prev d) = LastError prev"
  by (auto simp: DeltaSince_def ApplyDelta_def Let_def zero_stats_def split: if_splits)

end
