(* ===== verification/FileStore.thy ===== *)
theory FileStore
  imports KeyRecord "HOL-Library.AList"
begin

text \<open>
  The file-backed key store of \<open>internal/keystore/file_store.go\<close>.  The state is the in-memory
  partition map and the contents of the file on disk; every operation takes the clock reading
  \<open>now\<close> and the outcome \<open>io\<close> of the directory, write and rename system calls, and returns an
  error or a result with the next state.  The JSON codec is the identity between a snapshot
  and the file that holds it.

  The lemmas show that the store invariant (normal, sorted, duplicate-free partitions) is kept,
  that the file always reloads to the in-memory map, that a failed write changes nothing, and
  what each operation does to the record of a key.
\<close>

section \<open>State and operations\<close>

abbreviation CurrentSchemaVersion :: int where
  "CurrentSchemaVersion \<equiv> 3"

abbreviation LegacySchemaVersion :: int where
  "LegacySchemaVersion \<equiv> 1"

datatype store_error =
    FilePathRequired
  | VendorIDRequired
  | KeyRequired
  | ErrKeyNotFound
  | ErrVersionMismatch
  | ReadFileError
  | ParseFileError
  | SaveFileError
  | SchemaVersionError int
  | DatabaseError

record file_snapshot =
  snap_SchemaVersion :: int
  snap_Vendors :: record_map

datatype disk_file = NoFile | UnreadableFile | MalformedFile | SnapshotFile file_snapshot

record file_store =
  fs_data :: record_map
  fs_disk :: disk_file

definition load_file :: "disk_file \<Rightarrow> store_error + record_map" where
  "load_file f =
     (case f of
        NoFile \<Rightarrow> Inr []
      | UnreadableFile \<Rightarrow> Inl ReadFileError
      | MalformedFile \<Rightarrow> Inl ParseFileError
      | SnapshotFile snap \<Rightarrow>
          (let version = (if snap_SchemaVersion snap = 0 then LegacySchemaVersion
                          else snap_SchemaVersion snap)
           in if version \<noteq> CurrentSchemaVersion \<and> snap_Vendors snap \<noteq> []
              then Inl (SchemaVersionError version)
              else Inr (map (\<lambda>(vendorID, records).
                         (vendorID, sortRecords (map NormalizeRecord records)))
                       (snap_Vendors snap))))"

definition NewFileStore :: "string \<Rightarrow> disk_file \<Rightarrow> store_error + file_store" where
  "NewFileStore path f =
     (if path = [] then Inl FilePathRequired
      else case load_file f of
             Inl e \<Rightarrow> Inl e
           | Inr d \<Rightarrow> Inr \<lparr>fs_data = d, fs_disk = f\<rparr>)"

definition vendor_records :: "record_map \<Rightarrow> string \<Rightarrow> key_record list" where
  "vendor_records data vendorID = (case map_of data vendorID of None \<Rightarrow> [] | Some rs \<Rightarrow> rs)"

definition saveDataLocked :: "bool \<Rightarrow> record_map \<Rightarrow> file_store \<Rightarrow> store_error option \<times> file_store" where
  "saveDataLocked io records s =
     (if io
      then (None, s\<lparr>fs_disk := SnapshotFile \<lparr>snap_SchemaVersion = CurrentSchemaVersion,
                                            snap_Vendors = cloneRecordMap records\<rparr>\<rparr>)
      else (Some SaveFileError, s))"

definition saveVendorLocked ::
  "bool \<Rightarrow> string \<Rightarrow> key_record list \<Rightarrow> file_store \<Rightarrow> store_error option \<times> file_store" where
  "saveVendorLocked io vendorID records s =
     (let next = (if records = [] then AList.delete vendorID (fs_data s)
                  else AList.update vendorID records (fs_data s))
      in case saveDataLocked io next s of
           (Some e, s') \<Rightarrow> (Some e, s')
         | (None, s') \<Rightarrow> (None, s'\<lparr>fs_data := next\<rparr>))"

definition fs_ListAll :: "file_store \<Rightarrow> record_map" where
  "fs_ListAll s = cloneRecordMap (fs_data s)"

definition fs_List :: "file_store \<Rightarrow> string \<Rightarrow> key_record list" where
  "fs_List s vendorID = map NormalizeRecord (vendor_records (fs_data s) (normalizeVendor vendorID))"

definition fs_KeyMap :: "file_store \<Rightarrow> (string \<times> string list) list" where
  "fs_KeyMap s = toKeyMap (fs_ListAll s)"

text \<open>The map from keys to records that \<open>Replace\<close> builds; a later record wins.\<close>

definition existingIndex :: "key_record list \<Rightarrow> string \<Rightarrow> key_record option" where
  "existingIndex rs key = find (\<lambda>r. rec_Key r = key) (rev rs)"

definition new_record :: "string \<Rightarrow> time \<Rightarrow> key_record" where
  "new_record key now = \<lparr>rec_Key = key, rec_Remark = [], rec_Status = KeyStatusActive,
     rec_DisableReason = [], rec_DisabledAt = None, rec_DisabledBy = [], rec_Stats = zero_stats,
     rec_Version = 1, rec_CreatedAt = now, rec_UpdatedAt = now\<rparr>"

definition replaced_records :: "time \<Rightarrow> string list \<Rightarrow> key_record list \<Rightarrow> key_record list" where
  "replaced_records now keys current =
     (if keys = []
      then sortRecords (filter (\<lambda>r. \<not> IsActiveStatus (rec_Status r)) (map NormalizeRecord current))
      else sortRecords
        (map (\<lambda>key. case existingIndex current key of
                Some r \<Rightarrow> NormalizeRecord (r\<lparr>rec_Version := nextRecordVersion (rec_Version r),
                                            rec_UpdatedAt := now\<rparr>)
              | None \<Rightarrow> new_record key now) keys
         @ map NormalizeRecord
             (filter (\<lambda>r. rec_Key r \<notin> set keys \<and> \<not> IsActiveStatus (rec_Status r)) current)))"

definition fs_Replace ::
  "time \<Rightarrow> bool \<Rightarrow> string \<Rightarrow> string list \<Rightarrow> file_store \<Rightarrow> store_error option \<times> file_store" where
  "fs_Replace now io vendorID keys s =
     (let v = normalizeVendor vendorID in
      if v = [] then (Some VendorIDRequired, s)
      else saveVendorLocked io v
             (replaced_records now (NormalizeKeys keys) (vendor_records (fs_data s) v)) s)"

definition fs_Append ::
  "time \<Rightarrow> bool \<Rightarrow> string \<Rightarrow> string list \<Rightarrow> file_store \<Rightarrow> (store_error + int) \<times> file_store" where
  "fs_Append now io vendorID keys s =
     (let v = normalizeVendor vendorID in
      if v = [] then (Inl VendorIDRequired, s)
      else let ks = NormalizeKeys keys in
        if ks = [] then (Inr 0, s)
        else
          let current = vendor_records (fs_data s) v;
              fresh = filter (\<lambda>k. k \<notin> rec_Key ` set current) ks;
              added = int (length fresh)
          in if added = 0 then (Inr 0, s)
             else case saveVendorLocked io v
                         (sortRecords (current @ map (\<lambda>k. new_record k now) fresh)) s of
                    (Some e, s') \<Rightarrow> (Inl e, s')
                  | (None, s') \<Rightarrow> (Inr added, s'))"

definition fs_Delete ::
  "bool \<Rightarrow> string \<Rightarrow> string list \<Rightarrow> file_store \<Rightarrow> (store_error + int) \<times> file_store" where
  "fs_Delete io vendorID keys s =
     (let v = normalizeVendor vendorID in
      if v = [] then (Inl VendorIDRequired, s)
      else let ks = NormalizeKeys keys in
        if ks = [] then (Inr 0, s)
        else
          let current = vendor_records (fs_data s) v in
          if current = [] then (Inr 0, s)
          else
            let next = filter (\<lambda>r. rec_Key r \<notin> set ks) current;
                removed = int (length current) - int (length next)
            in if removed = 0 then (Inr 0, s)
               else case saveVendorLocked io v next s of
                      (Some e, s') \<Rightarrow> (Inl e, s')
                    | (None, s') \<Rightarrow> (Inr removed, s'))"

text \<open>The loops over \<open>current\<close> that stop at the first record with the key.\<close>

fun update_first :: "string \<Rightarrow> (key_record \<Rightarrow> key_record) \<Rightarrow> key_record list \<Rightarrow> key_record list" where
  "update_first key f [] = []"
| "update_first key f (r # rs) = (if rec_Key r = key then f r # rs else r # update_first key f rs)"

definition status_record :: "time \<Rightarrow> string \<Rightarrow> string \<Rightarrow> string \<Rightarrow> key_record \<Rightarrow> key_record" where
  "status_record now status reason actor r =
     (let r = r\<lparr>rec_Status := status, rec_Version := nextRecordVersion (rec_Version r),
                rec_UpdatedAt := now\<rparr>
      in NormalizeRecord
           (if status = KeyStatusActive
            then r\<lparr>rec_DisableReason := [], rec_DisabledAt := None, rec_DisabledBy := []\<rparr>
            else r\<lparr>rec_DisableReason := trim_space reason, rec_DisabledAt := Some now,
                   rec_DisabledBy := trim_space actor\<rparr>))"

definition fs_setStatus ::
  "time \<Rightarrow> bool \<Rightarrow> string \<Rightarrow> string \<Rightarrow> int \<Rightarrow> bool \<Rightarrow> string \<Rightarrow> string \<Rightarrow> string \<Rightarrow> file_store \<Rightarrow>
     store_error option \<times> file_store" where
  "fs_setStatus now io vendorID key expectedVersion checkVersion status reason actor s =
     (let v = normalizeVendor vendorID; key = trim_space key in
      if v = [] then (Some VendorIDRequired, s)
      else if key = [] then (Some KeyRequired, s)
      else
        let status = NormalizeStatus status; current = vendor_records (fs_data s) v in
        case find (\<lambda>r. rec_Key r = key) current of
          None \<Rightarrow> (Some ErrKeyNotFound, s)
        | Some r \<Rightarrow>
            if checkVersion \<and> rec_Version r \<noteq> expectedVersion then (Some ErrVersionMismatch, s)
            else saveVendorLocked io v
                   (update_first key (status_record now status reason actor) current) s)"

definition fs_SetStatus ::
  "time \<Rightarrow> bool \<Rightarrow> string \<Rightarrow> string \<Rightarrow> string \<Rightarrow> string \<Rightarrow> string \<Rightarrow> file_store \<Rightarrow>
     store_error option \<times> file_store" where
  "fs_SetStatus now io vendorID key status reason actor s =
     fs_setStatus now io vendorID key (-1) False status reason actor s"

definition fs_SetStatusIfVersion ::
  "time \<Rightarrow> bool \<Rightarrow> string \<Rightarrow> string \<Rightarrow> int \<Rightarrow> string \<Rightarrow> string \<Rightarrow> string \<Rightarrow> file_store \<Rightarrow>
     store_error option \<times> file_store" where
  "fs_SetStatusIfVersion now io vendorID key expectedVersion status reason actor s =
     fs_setStatus now io vendorID key expectedVersion True status reason actor s"

definition fs_SetRemark ::
  "time \<Rightarrow> bool \<Rightarrow> string \<Rightarrow> string \<Rightarrow> string \<Rightarrow> file_store \<Rightarrow> store_error option \<times> file_store" where
  "fs_SetRemark now io vendorID key remark s =
     (let v = normalizeVendor vendorID; key = trim_space key in
      if v = [] then (Some VendorIDRequired, s)
      else if key = [] then (Some KeyRequired, s)
      else
        let current = vendor_records (fs_data s) v in
        case find (\<lambda>r. rec_Key r = key) current of
          None \<Rightarrow> (Some ErrKeyNotFound, s)
        | Some _ \<Rightarrow> saveVendorLocked io v
            (update_first key
               (\<lambda>r. NormalizeRecord (r\<lparr>rec_Remark := trim_space remark, rec_UpdatedAt := now\<rparr>))
               current) s)"

text \<open>The index from keys to positions that \<open>ApplyRuntimeStatsDeltas\<close> builds; a later position
  wins.\<close>

fun last_index :: "string \<Rightarrow> key_record list \<Rightarrow> nat option" where
  "last_index key [] = None"
| "last_index key (r # rs) =
     (case last_index key rs of
        Some i \<Rightarrow> Some (Suc i)
      | None \<Rightarrow> if rec_Key r = key then Some 0 else None)"

fun apply_key_deltas ::
  "time \<Rightarrow> (string \<Rightarrow> nat option) \<Rightarrow> (string \<times> runtime_stats) list \<Rightarrow> key_record list \<times> bool \<Rightarrow>
     key_record list \<times> bool" where
  "apply_key_deltas now idx [] st = st"
| "apply_key_deltas now idx ((key, delta) # ds) (current, changed) =
     (let key = trim_space key in
      if key = [] \<or> stats_IsZero delta then apply_key_deltas now idx ds (current, changed)
      else case idx key of
        None \<Rightarrow> apply_key_deltas now idx ds (current, changed)
      | Some i \<Rightarrow>
          let r = current ! i;
              r' = NormalizeRecord (r\<lparr>rec_Stats := ApplyDelta (rec_Stats r) delta, rec_UpdatedAt := now\<rparr>)
          in apply_key_deltas now idx ds (current[i := r'], True))"

fun apply_vendor_deltas ::
  "time \<Rightarrow> (string \<times> (string \<times> runtime_stats) list) list \<Rightarrow> record_map \<times> bool \<Rightarrow> record_map \<times> bool" where
  "apply_vendor_deltas now [] st = st"
| "apply_vendor_deltas now ((vendorID, ds) # rest) (next, changed) =
     (let v = normalizeVendor vendorID; current = vendor_records next v in
      if current = [] then apply_vendor_deltas now rest (next, changed)
      else let (current', changed') =
                 apply_key_deltas now (\<lambda>k. last_index k current) ds (current, changed)
           in apply_vendor_deltas now rest (AList.update v current' next, changed'))"

definition fs_ApplyRuntimeStatsDeltas ::
  "time \<Rightarrow> bool \<Rightarrow> (string \<times> (string \<times> runtime_stats) list) list \<Rightarrow> file_store \<Rightarrow>
     store_error option \<times> file_store" where
  "fs_ApplyRuntimeStatsDeltas now io deltas s =
     (if deltas = [] then (None, s)
      else
        let (next, changed) = apply_vendor_deltas now deltas (cloneRecordMap (fs_data s), False) in
        if \<not> changed then (None, s)
        else case saveDataLocked io next s of
               (Some e, s') \<Rightarrow> (Some e, s')
             | (None, s') \<Rightarrow> (None, s'\<lparr>fs_data := next\<rparr>))"

definition fs_ResetRuntimeStats ::
  "time \<Rightarrow> bool \<Rightarrow> string \<Rightarrow> file_store \<Rightarrow> (store_error + int) \<times> file_store" where
  "fs_ResetRuntimeStats now io vendorID s =
     (let v = normalizeVendor vendorID;
          hit = (\<lambda>id. v = [] \<or> id = v);
          old = cloneRecordMap (fs_data s);
          next = map (\<lambda>(id, rs).
                   (id, if hit id
                        then map (\<lambda>r. r\<lparr>rec_Stats := zero_stats, rec_UpdatedAt := now\<rparr>) rs
                        else rs)) old;
          count = (\<Sum>(id, rs) \<leftarrow> old. if hit id then int (length rs) else 0)
      in if count = 0 then (Inr 0, s)
         else case saveDataLocked io next s of
                (Some e, s') \<Rightarrow> (Inl e, s')
              | (None, s') \<Rightarrow> (Inr count, s'\<lparr>fs_data := next\<rparr>))"

definition fs_DeleteVendor :: "bool \<Rightarrow> string \<Rightarrow> file_store \<Rightarrow> store_error option \<times> file_store" where
  "fs_DeleteVendor io vendorID s =
     (let v = normalizeVendor vendorID in
      if v = [] then (Some VendorIDRequired, s) else saveVendorLocked io v [] s)"

section \<open>The store invariant\<close>

definition records_inv :: "key_record list \<Rightarrow> bool" where
  "records_inv rs \<longleftrightarrow> sorted (map rec_Key rs) \<and> distinct (map rec_Key rs) \<and> list_all normal_record rs"

definition store_inv :: "record_map \<Rightarrow> bool" where
  "store_inv d \<longleftrightarrow> distinct (map fst d) \<and> list_all (\<lambda>(v, rs). records_inv rs) d"

text \<open>The file on disk reloads to the in-memory map.\<close>

definition fs_inv :: "file_store \<Rightarrow> bool" where
  "fs_inv s \<longleftrightarrow> store_inv (fs_data s) \<and> load_file (fs_disk s) = Inr (fs_data s)"

definition fs_lookup :: "file_store \<Rightarrow> string \<Rightarrow> string \<Rightarrow> key_record option" where
  "fs_lookup s v key = find (\<lambda>r. rec_Key r = key) (vendor_records (fs_data s) v)"

lemma map_NormalizeRecord_id: "list_all normal_record rs \<Longrightarrow> map NormalizeRecord rs = rs"
  by (induction rs) (auto simp: normal_record_iff)

lemma records_inv_normal: "records_inv rs \<Longrightarrow> sortRecords (map NormalizeRecord rs) = rs"
  by (simp add: records_inv_def map_NormalizeRecord_id sortRecords_id)

lemma cloneRecordMap_id: "store_inv d \<Longrightarrow> cloneRecordMap d = d"
  unfolding store_inv_def cloneRecordMap_def
  by (intro map_idI) (auto simp: list_all_iff records_inv_normal)

lemma records_inv_Nil [simp]: "records_inv []"
  by (simp add: records_inv_def)

lemma store_inv_map_of: "store_inv d \<Longrightarrow> map_of d v = Some rs \<Longrightarrow> records_inv rs"
  by (auto simp: store_inv_def list_all_iff dest: map_of_SomeD)

lemma store_inv_vendor: "store_inv d \<Longrightarrow> records_inv (vendor_records d v)"
  by (auto simp: vendor_records_def dest: store_inv_map_of split: option.splits)

lemma store_invI:
  "distinct (map fst d) \<Longrightarrow> (\<And>v rs. map_of d v = Some rs \<Longrightarrow> records_inv rs) \<Longrightarrow> store_inv d"
  by (auto simp: store_inv_def list_all_iff)

lemma store_inv_update: "store_inv d \<Longrightarrow> records_inv rs \<Longrightarrow> store_inv (AList.update v rs d)"
  by (rule store_invI)
     (auto simp: store_inv_def list_all_iff distinct_update update_conv' split: if_splits)

lemma store_inv_delete: "store_inv d \<Longrightarrow> store_inv (AList.delete v d)"
  by (rule store_invI)
     (auto simp: store_inv_def list_all_iff distinct_delete delete_conv' split: if_splits)

lemma vendor_records_update [simp]:
  "vendor_records (AList.update v rs d) w = (if w = v then rs else vendor_records d w)"
  by (simp add: vendor_records_def update_conv')

lemma vendor_records_delete [simp]:
  "vendor_records (AList.delete v d) w = (if w = v then [] else vendor_records d w)"
  by (simp add: vendor_records_def delete_conv')

lemma load_saved:
  assumes "store_inv d"
  shows "load_file (SnapshotFile \<lparr>snap_SchemaVersion = CurrentSchemaVersion,
           snap_Vendors = cloneRecordMap d\<rparr>) = Inr d"
  using cloneRecordMap_id [OF assms] by (simp add: load_file_def Let_def cloneRecordMap_def)

text \<open>The single commit point of the partition operations.\<close>

lemma saveVendorLocked_ok:
  assumes "fs_inv s" and "records_inv rs" and "saveVendorLocked io v rs s = (None, s')"
  shows "fs_inv s' \<and> vendor_records (fs_data s') = (vendor_records (fs_data s))(v := rs)"
proof -
  let ?next = "if rs = [] then AList.delete v (fs_data s) else AList.update v rs (fs_data s)"
  have inv: "store_inv ?next"
    using assms by (simp add: fs_inv_def store_inv_update store_inv_delete)
  from assms(3) have s': "fs_data s' = ?next"
    "fs_disk s' = SnapshotFile \<lparr>snap_SchemaVersion = CurrentSchemaVersion,
       snap_Vendors = cloneRecordMap ?next\<rparr>"
    by (auto simp: saveVendorLocked_def saveDataLocked_def Let_def split: if_splits)
  have "vendor_records ?next = (vendor_records (fs_data s))(v := rs)"
    by (auto simp: fun_eq_iff)
  with inv s' load_saved [OF inv] show ?thesis by (simp add: fs_inv_def)
qed

lemma saveVendorLocked_error:
  "saveVendorLocked io v rs s = (Some e, s') \<Longrightarrow> s' = s \<and> e = SaveFileError \<and> \<not> io"
  by (auto simp: saveVendorLocked_def saveDataLocked_def Let_def split: if_splits)

lemma saveVendorLocked_io [simp]: "fst (saveVendorLocked True v rs s) = None"
  by (simp add: saveVendorLocked_def saveDataLocked_def Let_def)

lemma saveVendorLocked_inv:
  assumes "fs_inv s" and "records_inv rs" shows "fs_inv (snd (saveVendorLocked io v rs s))"
proof (cases "saveVendorLocked io v rs s")
  case (Pair e s')
  then show ?thesis
    using assms saveVendorLocked_ok saveVendorLocked_error by (cases e) fastforce+
qed

section \<open>Every operation keeps the invariant\<close>

lemma NormalizeKeysD: "k \<in> set (NormalizeKeys ks) \<Longrightarrow> trim_space k = k \<and> k \<noteq> []"
  by auto

lemma rec_Key_new_record [simp]: "rec_Key (new_record k now) = k"
  by (simp add: new_record_def)

lemma fs_inv_vendor: "fs_inv s \<Longrightarrow> records_inv (vendor_records (fs_data s) v)"
  by (simp add: fs_inv_def store_inv_vendor)

lemma normal_new_record: "trim_space k = k \<Longrightarrow> normal_record (new_record k now)"
  by (simp add: normal_record_def new_record_def)

lemma existingIndex_SomeD: "existingIndex rs k = Some r \<Longrightarrow> r \<in> set rs \<and> rec_Key r = k"
  unfolding existingIndex_def by (metis (mono_tags, lifting) find_Some_iff nth_mem set_rev)

lemma replaced_records_inv:
  assumes "records_inv rs" shows "records_inv (replaced_records now (NormalizeKeys ks) rs)"
proof -
  let ?ks = "NormalizeKeys ks"
  let ?new = "\<lambda>key. case existingIndex rs key of
                Some r \<Rightarrow> NormalizeRecord (r\<lparr>rec_Version := nextRecordVersion (rec_Version r),
                                            rec_UpdatedAt := now\<rparr>)
              | None \<Rightarrow> new_record key now"
  have ids: "map NormalizeRecord rs = rs" and dist: "distinct (map rec_Key rs)"
    and norm: "list_all normal_record rs"
    using assms by (auto simp: records_inv_def map_NormalizeRecord_id)
  have key: "rec_Key (?new k) = k \<and> normal_record (?new k)" if "k \<in> set ?ks" for k
    using NormalizeKeysD [OF that] existingIndex_SomeD [of rs k]
    by (auto simp: normal_new_record split: option.splits)
  then have keys: "map (rec_Key \<circ> ?new) ?ks = ?ks"
    by (intro map_idI) simp
  have filt: "map NormalizeRecord (filter P rs) = filter P rs" for P
    by (rule map_idI) (use norm in \<open>auto simp: list_all_iff normal_record_iff\<close>)
  have "distinct (map rec_Key (map ?new ?ks @ map NormalizeRecord
          (filter (\<lambda>r. rec_Key r \<notin> set ?ks \<and> \<not> IsActiveStatus (rec_Status r)) rs)))"
    using dist by (auto simp: filt keys distinct_map_filter_keep simp del: set_NormalizeKeys)
  moreover have "list_all normal_record (map ?new ?ks @ map NormalizeRecord
          (filter (\<lambda>r. rec_Key r \<notin> set ?ks \<and> \<not> IsActiveStatus (rec_Status r)) rs))"
    using key by (auto simp: list_all_iff simp del: set_NormalizeKeys)
  ultimately show ?thesis
    using norm dist
    by (auto simp: replaced_records_def records_inv_def ids list_all_iff distinct_map_filter_keep
        simp del: map_append)
qed

lemma append_records_inv:
  assumes "records_inv rs" and "set fresh \<inter> rec_Key ` set rs = {}" and "distinct fresh"
    and "\<forall>k \<in> set fresh. trim_space k = k"
  shows "records_inv (sortRecords (rs @ map (\<lambda>k. new_record k now) fresh))"
proof -
  have "map (rec_Key \<circ> (\<lambda>k. new_record k now)) fresh = fresh"
    by (rule map_idI) simp
  with assms show ?thesis
    by (auto simp: records_inv_def list_all_iff normal_new_record)
qed

lemma filter_records_inv: "records_inv rs \<Longrightarrow> records_inv (filter P rs)"
  by (auto simp: records_inv_def list_all_iff sorted_filter distinct_map_filter_keep)

lemma map_key_update_first:
  "(\<And>r. rec_Key r = key \<Longrightarrow> rec_Key (f r) = key) \<Longrightarrow>
     map rec_Key (update_first key f rs) = map rec_Key rs"
  by (induction rs) auto

lemma update_first_normal:
  "list_all normal_record rs \<Longrightarrow> (\<And>r. normal_record (f r)) \<Longrightarrow>
     list_all normal_record (update_first key f rs)"
  by (induction rs) auto

lemma update_first_inv:
  "records_inv rs \<Longrightarrow> (\<And>r. rec_Key r = key \<Longrightarrow> rec_Key (f r) = key) \<Longrightarrow>
     (\<And>r. normal_record (f r)) \<Longrightarrow> records_inv (update_first key f rs)"
  unfolding records_inv_def by (simp add: map_key_update_first update_first_normal)

lemma find_update_first:
  "(\<And>r. rec_Key r = key \<Longrightarrow> rec_Key (f r) = key) \<Longrightarrow>
     find (\<lambda>r. rec_Key r = k) (update_first key f rs) =
       (if k = key then map_option f (find (\<lambda>r. rec_Key r = k) rs)
        else find (\<lambda>r. rec_Key r = k) rs)"
  by (induction rs) auto

lemma status_record_key:
  "trim_space key = key \<Longrightarrow> rec_Key r = key \<Longrightarrow> rec_Key (status_record now st reason actor r) = key"
  by (simp add: status_record_def Let_def)

lemma status_record_normal: "normal_record (status_record now st reason actor r)"
  by (simp add: status_record_def Let_def)

lemma fs_Replace_inv: "fs_inv s \<Longrightarrow> fs_inv (snd (fs_Replace now io v ks s))"
  unfolding fs_Replace_def Let_def
  by (simp add: saveVendorLocked_inv replaced_records_inv fs_inv_vendor)

lemma fs_Append_inv:
  assumes "fs_inv s" shows "fs_inv (snd (fs_Append now io v ks s))"
proof -
  let ?rs = "vendor_records (fs_data s) (normalizeVendor v)"
  let ?fresh = "filter (\<lambda>k. k \<notin> rec_Key ` set ?rs) (NormalizeKeys ks)"
  have "records_inv (sortRecords (?rs @ map (\<lambda>k. new_record k now) ?fresh))"
    using assms by (intro append_records_inv) (auto simp: fs_inv_vendor)
  from saveVendorLocked_inv [OF assms this, of io "normalizeVendor v"] show ?thesis
    using assms by (auto simp: fs_Append_def Let_def split: prod.splits option.splits)
qed

lemma fs_Delete_inv:
  assumes "fs_inv s" shows "fs_inv (snd (fs_Delete io v ks s))"
proof -
  let ?rs = "filter (\<lambda>r. rec_Key r \<notin> set (NormalizeKeys ks)) (vendor_records (fs_data s) (normalizeVendor v))"
  have "records_inv ?rs" using assms by (simp add: fs_inv_def filter_records_inv store_inv_vendor)
  from saveVendorLocked_inv [OF assms this, of io "normalizeVendor v"] show ?thesis
    using assms by (auto simp: fs_Delete_def Let_def split: prod.splits option.splits)
qed

lemma fs_setStatus_inv:
  assumes "fs_inv s" shows "fs_inv (snd (fs_setStatus now io v k ev chk st reason actor s))"
proof -
  have "records_inv (update_first (trim_space k) (status_record now (NormalizeStatus st) reason actor)
          (vendor_records (fs_data s) (normalizeVendor v)))"
    using assms
    by (intro update_first_inv)
       (auto simp: fs_inv_def store_inv_vendor status_record_key status_record_normal)
  with assms show ?thesis
    by (auto simp: fs_setStatus_def Let_def intro: saveVendorLocked_inv split: option.splits)
qed

lemma fs_SetRemark_inv:
  assumes "fs_inv s" shows "fs_inv (snd (fs_SetRemark now io v k remark s))"
proof -
  have "records_inv (update_first (trim_space k)
          (\<lambda>r. NormalizeRecord (r\<lparr>rec_Remark := trim_space remark, rec_UpdatedAt := now\<rparr>))
          (vendor_records (fs_data s) (normalizeVendor v)))"
    using assms by (intro update_first_inv) (auto simp: fs_inv_def store_inv_vendor)
  with assms show ?thesis
    by (auto simp: fs_SetRemark_def Let_def intro: saveVendorLocked_inv split: option.splits)
qed

lemma fs_DeleteVendor_inv: "fs_inv s \<Longrightarrow> fs_inv (snd (fs_DeleteVendor io v s))"
  by (simp add: fs_DeleteVendor_def Let_def saveVendorLocked_inv)

lemma last_index_SomeD: "last_index key rs = Some i \<Longrightarrow> i < length rs \<and> rec_Key (rs ! i) = key"
  by (induction rs arbitrary: i) (auto split: option.splits if_splits)

lemma last_index_map_key:
  "map rec_Key rs = map rec_Key rs' \<Longrightarrow> last_index key rs = last_index key rs'"
proof (induction rs arbitrary: rs')
  case (Cons r rs)
  then obtain q qs where "rs' = q # qs" "rec_Key r = rec_Key q" "map rec_Key rs = map rec_Key qs"
    by (cases rs') auto
  with Cons.IH [of qs] show ?case by simp
qed simp

text \<open>The index stays valid while the loop rewrites records, because no rewrite changes a key.\<close>

lemma apply_key_deltas_inv:
  assumes "records_inv current" and "idx = (\<lambda>k. last_index k current)"
  shows "records_inv (fst (apply_key_deltas now idx ds (current, changed))) \<and>
         map rec_Key (fst (apply_key_deltas now idx ds (current, changed))) = map rec_Key current"
  using assms
proof (induction now idx ds "(current, changed)" arbitrary: current changed rule: apply_key_deltas.induct)
  case (2 now idx key delta ds current changed)
  show ?case
  proof (cases "trim_space key = [] \<or> stats_IsZero delta \<or> idx (trim_space key) = None")
    case True
    with 2 show ?thesis by (auto simp: Let_def)
  next
    case False
    then obtain i where i: "idx (trim_space key) = Some i" by auto
    define r' where "r' = NormalizeRecord ((current ! i)\<lparr>rec_Stats := ApplyDelta (rec_Stats (current ! i)) delta,
      rec_UpdatedAt := now\<rparr>)"
    from i 2 have ilt: "i < length current" and ikey: "rec_Key (current ! i) = trim_space key"
      by (auto dest: last_index_SomeD)
    then have "rec_Key r' = rec_Key (current ! i)" by (simp add: r'_def)
    with ilt have keys: "map rec_Key (current[i := r']) = map rec_Key current"
      by (metis list_update_id map_update)
    have "list_all normal_record (current[i := r'])"
      using "2.prems"(1) unfolding records_inv_def list_all_iff
      by (auto simp: r'_def dest!: set_update_subset_insert [THEN subsetD])
    with keys "2.prems"(1) have inv: "records_inv (current[i := r'])"
      by (simp add: records_inv_def)
    have "idx = (\<lambda>k. last_index k (current[i := r']))"
      using "2.prems"(2) last_index_map_key [OF keys] by simp
    with "2.hyps"(3) [of "trim_space key" i "current ! i" r'] False i inv keys show ?thesis
      by (simp add: Let_def r'_def)
  qed
qed simp

lemma apply_vendor_deltas_inv:
  "store_inv next \<Longrightarrow> store_inv (fst (apply_vendor_deltas now ds (next, changed)))"
proof (induction now ds "(next, changed)" arbitrary: "next" changed rule: apply_vendor_deltas.induct)
  case (2 now vendorID ds rest "next" changed)
  let ?v = "normalizeVendor vendorID"
  let ?st = "apply_key_deltas now (\<lambda>k. last_index k (vendor_records next ?v)) ds (vendor_records next ?v, changed)"
  obtain c' ch' where st: "?st = (c', ch')" by (cases ?st)
  have "records_inv c'"
    using apply_key_deltas_inv [OF store_inv_vendor [OF "2.prems", of ?v] refl, of now ds changed] st
    by simp
  with 2 st show ?case
    by (auto simp: Let_def store_inv_update)
qed simp

lemma fs_inv_commit:
  assumes "store_inv next" and "saveDataLocked io next s = (None, s')"
  shows "fs_inv (s'\<lparr>fs_data := next\<rparr>)"
  using assms load_saved [OF assms(1)]
  by (auto simp: saveDataLocked_def fs_inv_def split: if_splits)

lemma saveDataLocked_error: "saveDataLocked io next s = (Some e, s') \<Longrightarrow> s' = s"
  by (auto simp: saveDataLocked_def split: if_splits)

lemma fs_ApplyRuntimeStatsDeltas_inv:
  assumes "fs_inv s" shows "fs_inv (snd (fs_ApplyRuntimeStatsDeltas now io ds s))"
proof -
  obtain "next" ch where n: "apply_vendor_deltas now ds (cloneRecordMap (fs_data s), False) = (next, ch)"
    by (cases "apply_vendor_deltas now ds (cloneRecordMap (fs_data s), False)")
  have "store_inv next"
    using apply_vendor_deltas_inv [of "cloneRecordMap (fs_data s)" now ds False] assms n
    by (simp add: fs_inv_def cloneRecordMap_id)
  with assms n show ?thesis
    by (auto simp: fs_ApplyRuntimeStatsDeltas_def intro: fs_inv_commit
        split: prod.splits option.splits dest: saveDataLocked_error)
qed

lemma reset_records_inv:
  "records_inv rs \<Longrightarrow> records_inv (map (\<lambda>r. r\<lparr>rec_Stats := zero_stats, rec_UpdatedAt := now\<rparr>) rs)"
  by (simp add: records_inv_def comp_def list_all_iff normal_record_def)

lemma fs_ResetRuntimeStats_inv:
  assumes "fs_inv s" shows "fs_inv (snd (fs_ResetRuntimeStats now io v s))"
proof -
  let ?next = "map (\<lambda>(id, rs). (id, if normalizeVendor v = [] \<or> id = normalizeVendor v
      then map (\<lambda>r. r\<lparr>rec_Stats := zero_stats, rec_UpdatedAt := now\<rparr>) rs else rs))
      (cloneRecordMap (fs_data s))"
  have "store_inv (fs_data s)" using assms by (simp add: fs_inv_def)
  moreover have fsts: "map fst ?next = map fst (fs_data s)"
    using \<open>store_inv (fs_data s)\<close> by (simp add: cloneRecordMap_id case_prod_beta comp_def)
  moreover have "list_all (\<lambda>(v, rs). records_inv rs) ?next"
    using \<open>store_inv (fs_data s)\<close>
    by (auto simp: store_inv_def cloneRecordMap_id list_all_iff reset_records_inv)
  ultimately have "store_inv ?next"
    unfolding store_inv_def fsts by simp
  with assms show ?thesis
    by (auto simp: fs_ResetRuntimeStats_def Let_def intro: fs_inv_commit
        split: prod.splits option.splits dest: saveDataLocked_error)
qed

section \<open>The store as a state machine\<close>

text \<open>The mutating operations with their arguments, the clock reading and the I/O outcome.\<close>

datatype store_op =
    OpReplace time bool string "string list"
  | OpAppend time bool string "string list"
  | OpDelete bool string "string list"
  | OpSetStatus time bool string string string string string
  | OpSetStatusIfVersion time bool string string int string string string
  | OpSetRemark time bool string string string
  | OpApplyDeltas time bool "(string \<times> (string \<times> runtime_stats) list) list"
  | OpResetStats time bool string
  | OpDeleteVendor bool string

definition drop_count :: "(store_error + int) \<times> file_store \<Rightarrow> store_error option \<times> file_store" where
  "drop_count r = (case r of (Inl e, s) \<Rightarrow> (Some e, s) | (Inr n, s) \<Rightarrow> (None, s))"

fun fs_step :: "store_op \<Rightarrow> file_store \<Rightarrow> store_error option \<times> file_store" where
  "fs_step (OpReplace now io v ks) s = fs_Replace now io v ks s"
| "fs_step (OpAppend now io v ks) s = drop_count (fs_Append now io v ks s)"
| "fs_step (OpDelete io v ks) s = drop_count (fs_Delete io v ks s)"
| "fs_step (OpSetStatus now io v k st reason actor) s = fs_SetStatus now io v k st reason actor s"
| "fs_step (OpSetStatusIfVersion now io v k ev st reason actor) s =
     fs_SetStatusIfVersion now io v k ev st reason actor s"
| "fs_step (OpSetRemark now io v k remark) s = fs_SetRemark now io v k remark s"
| "fs_step (OpApplyDeltas now io ds) s = fs_ApplyRuntimeStatsDeltas now io ds s"
| "fs_step (OpResetStats now io v) s = drop_count (fs_ResetRuntimeStats now io v s)"
| "fs_step (OpDeleteVendor io v) s = fs_DeleteVendor io v s"

text \<open>States reached from a freshly opened store whose file holds no duplicate keys.\<close>

inductive fs_reach :: "file_store \<Rightarrow> bool" where
  fs_open: "NewFileStore path f = Inr s \<Longrightarrow> store_inv (fs_data s) \<Longrightarrow> fs_reach s"
| fs_op: "fs_reach s \<Longrightarrow> fs_reach (snd (fs_step op s))"

lemma snd_drop_count [simp]: "snd (drop_count r) = snd r"
  by (auto simp: drop_count_def split: prod.splits sum.splits)

lemma fs_step_inv: "fs_inv s \<Longrightarrow> fs_inv (snd (fs_step op s))"
  by (cases op)
     (simp_all add: fs_SetStatus_def fs_SetStatusIfVersion_def fs_Replace_inv fs_Append_inv
       fs_Delete_inv fs_setStatus_inv fs_SetRemark_inv fs_ApplyRuntimeStatsDeltas_inv
       fs_ResetRuntimeStats_inv fs_DeleteVendor_inv)

lemma fs_reach_inv: "fs_reach s \<Longrightarrow> fs_inv s"
proof (induction rule: fs_reach.induct)
  case (fs_open path f s)
  then show ?case by (auto simp: NewFileStore_def fs_inv_def split: if_splits sum.splits)
qed (rule fs_step_inv)

lemma drop_count_error: "drop_count r = (Some e, s') \<Longrightarrow> r = (Inl e, s')"
  by (auto simp: drop_count_def split: prod.splits sum.splits)

lemma fs_setStatus_error:
  "fs_setStatus now io v k ev chk st reason actor s = (Some e, s') \<Longrightarrow> s' = s"
  by (auto simp: fs_setStatus_def Let_def dest: saveVendorLocked_error split: if_splits option.splits)

section \<open>What the operations do to a key\<close>

lemma find_key_iff:
  "distinct (map rec_Key rs) \<Longrightarrow>
     find (\<lambda>r. rec_Key r = k) rs = Some r \<longleftrightarrow> r \<in> set rs \<and> rec_Key r = k"
  by (induction rs) (auto simp: image_iff)

lemma find_key_None_iff: "find (\<lambda>r. rec_Key r = k) rs = None \<longleftrightarrow> k \<notin> rec_Key ` set rs"
  by (induction rs) auto

lemma find_key_eqI:
  "distinct (map rec_Key rs) \<Longrightarrow> (\<And>r. r \<in> set rs \<and> rec_Key r = k \<longleftrightarrow> x = Some r) \<Longrightarrow>
     find (\<lambda>r. rec_Key r = k) rs = x"
  by (cases x) (auto simp: find_key_iff find_key_None_iff)

lemma existingIndex_eq:
  "distinct (map rec_Key rs) \<Longrightarrow> existingIndex rs k = find (\<lambda>r. rec_Key r = k) rs"
  unfolding existingIndex_def
  by (rule find_key_eqI) (auto simp: find_key_iff rev_map [symmetric])

lemma fs_lookup_normal: "fs_inv s \<Longrightarrow> fs_lookup s v k = Some r \<Longrightarrow> normal_record r \<and> rec_Key r = k"
  using fs_inv_vendor [of s v]
  by (auto simp: fs_lookup_def records_inv_def find_key_iff list_all_iff)

lemma normal_version_bump:
  "normal_record r \<Longrightarrow> NormalizeRecord (r\<lparr>rec_Version := nextRecordVersion (rec_Version r), rec_UpdatedAt := now\<rparr>)
     = r\<lparr>rec_Version := rec_Version r + 1, rec_UpdatedAt := now\<rparr>"
  by (auto simp: normal_record_iff [symmetric] normal_record_def nextRecordVersion_def)

lemma normal_record_bump:
  "normal_record r \<Longrightarrow> normal_record (r\<lparr>rec_Version := rec_Version r + 1, rec_UpdatedAt := now\<rparr>)"
  by (simp add: normal_record_def)

lemma fs_setStatus_commit:
  assumes inv: "fs_inv s" and ok: "fs_setStatus now io v k ev chk st reason actor s = (None, s')"
  shows "fs_lookup s' = (\<lambda>w q. if w = normalizeVendor v \<and> q = trim_space k
           then map_option (status_record now (NormalizeStatus st) reason actor) (fs_lookup s w q)
           else fs_lookup s w q)"
proof -
  let ?v = "normalizeVendor v" and ?k = "trim_space k"
  let ?rs = "update_first ?k (status_record now (NormalizeStatus st) reason actor)
               (vendor_records (fs_data s) ?v)"
  have "saveVendorLocked io ?v ?rs s = (None, s')"
    using ok by (auto simp: fs_setStatus_def Let_def split: if_splits option.splits)
  moreover have "records_inv ?rs"
    by (intro update_first_inv fs_inv_vendor inv)
       (auto simp: status_record_key status_record_normal)
  ultimately have "vendor_records (fs_data s') = (vendor_records (fs_data s))(?v := ?rs)"
    using saveVendorLocked_ok [OF inv] by blast
  then show ?thesis
    by (auto simp: fs_lookup_def fun_eq_iff find_update_first status_record_key)
qed

lemma fs_setStatus_result:
  assumes "normalizeVendor v \<noteq> []" and "trim_space k \<noteq> []"
  shows "fst (fs_setStatus now True v k ev chk st reason actor s) =
    (case fs_lookup s (normalizeVendor v) (trim_space k) of
       None \<Rightarrow> Some ErrKeyNotFound
     | Some r \<Rightarrow> if chk \<and> rec_Version r \<noteq> ev then Some ErrVersionMismatch else None)"
  using assms by (auto simp: fs_setStatus_def Let_def fs_lookup_def split: option.splits)

lemma status_record_version:
  "0 \<le> rec_Version r \<Longrightarrow> rec_Version (status_record now st reason actor r) = rec_Version r + 1"
  by (simp add: status_record_def Let_def nextRecordVersion_def)

lemma status_record_status:
  "rec_Status (status_record now (NormalizeStatus st) reason actor r) = NormalizeStatus st"
  by (simp add: status_record_def Let_def)

lemma replaced_records_set:
  assumes inv: "records_inv rs" and r: "normal_record r" and ks: "set ks = K" "ks \<noteq> []"
  shows "r \<in> set (replaced_records now ks rs) \<longleftrightarrow>
    (if rec_Key r \<in> K then r = (case find (\<lambda>q. rec_Key q = rec_Key r) rs of
                               Some q \<Rightarrow> q\<lparr>rec_Version := rec_Version q + 1, rec_UpdatedAt := now\<rparr>
                             | None \<Rightarrow> new_record (rec_Key r) now)
     else r \<in> set rs \<and> \<not> IsActiveStatus (rec_Status r))"
proof -
  have dist: "distinct (map rec_Key rs)" and norm: "list_all normal_record rs"
    using inv by (auto simp: records_inv_def)
  let ?new = "\<lambda>key. case existingIndex rs key of
                Some q \<Rightarrow> NormalizeRecord (q\<lparr>rec_Version := nextRecordVersion (rec_Version q),
                                            rec_UpdatedAt := now\<rparr>)
              | None \<Rightarrow> new_record key now"
  have new: "?new k = (case find (\<lambda>q. rec_Key q = k) rs of
                Some q \<Rightarrow> q\<lparr>rec_Version := rec_Version q + 1, rec_UpdatedAt := now\<rparr>
              | None \<Rightarrow> new_record k now) \<and> rec_Key (?new k) = k" for k
  proof (cases "find (\<lambda>q. rec_Key q = k) rs")
    case (Some q)
    then have "normal_record q" "rec_Key q = k"
      using norm by (auto simp: find_key_iff [OF dist] list_all_iff)
    with Some show ?thesis by (simp add: existingIndex_eq [OF dist] normal_version_bump)
  qed (simp add: existingIndex_eq [OF dist])
  have "map NormalizeRecord (filter P rs) = filter P rs" for P
    by (rule map_idI) (use norm in \<open>auto simp: list_all_iff normal_record_iff\<close>)
  then have "r \<in> set (replaced_records now ks rs) \<longleftrightarrow>
     r \<in> ?new ` K \<or> r \<in> set rs \<and> rec_Key r \<notin> K \<and> \<not> IsActiveStatus (rec_Status r)"
    using ks by (auto simp: replaced_records_def)
  also have "r \<in> ?new ` K \<longleftrightarrow> rec_Key r \<in> K \<and> r = ?new (rec_Key r)"
    using new by (metis (no_types, lifting) image_iff)
  finally show ?thesis using new [of "rec_Key r"] by auto
qed

lemma replaced_records_disabled:
  assumes "records_inv rs"
  shows "set (replaced_records now [] rs) = {r \<in> set rs. \<not> IsActiveStatus (rec_Status r)}"
  using assms by (auto simp: replaced_records_def records_inv_def map_NormalizeRecord_id)

lemma replaced_records_find:
  assumes inv: "records_inv rs"
  shows "find (\<lambda>r. rec_Key r = k) (replaced_records now (NormalizeKeys keys) rs) =
    (if k \<in> set (NormalizeKeys keys)
     then Some (case find (\<lambda>r. rec_Key r = k) rs of
                  Some q \<Rightarrow> q\<lparr>rec_Version := rec_Version q + 1, rec_UpdatedAt := now\<rparr>
                | None \<Rightarrow> new_record k now)
     else case find (\<lambda>r. rec_Key r = k) rs of
            Some q \<Rightarrow> if IsActiveStatus (rec_Status q) then None else Some q
          | None \<Rightarrow> None)" (is "_ = ?x")
proof (rule find_key_eqI)
  let ?ks = "NormalizeKeys keys"
  have dist: "distinct (map rec_Key rs)" and norm: "list_all normal_record rs"
    using inv by (auto simp: records_inv_def)
  show "distinct (map rec_Key (replaced_records now ?ks rs))"
    using replaced_records_inv [OF inv] by (simp add: records_inv_def)
  have out: "list_all normal_record (replaced_records now ?ks rs)"
    using replaced_records_inv [OF inv] by (simp add: records_inv_def)
  have keyx: "rec_Key r = k" if "?x = Some r" for r
    using that by (auto simp: find_key_iff [OF dist] simp del: set_NormalizeKeys
        split: if_splits option.splits)
  have normx: "normal_record r" if "?x = Some r" for r
    using that norm NormalizeKeysD [of k keys]
    by (auto simp: find_key_iff [OF dist] list_all_iff normal_new_record normal_record_bump
        simp del: set_NormalizeKeys split: if_splits option.splits)
  have mem: "r \<in> set rs \<and> rec_Key r = k \<longleftrightarrow> find (\<lambda>q. rec_Key q = k) rs = Some r" for r
    by (simp add: find_key_iff [OF dist])
  show "r \<in> set (replaced_records now ?ks rs) \<and> rec_Key r = k \<longleftrightarrow> ?x = Some r" for r
  proof (cases "?ks = []")
    case True
    from True mem [of r] show ?thesis
      by (cases "find (\<lambda>q. rec_Key q = k) rs") (auto simp: replaced_records_disabled [OF inv])
  next
    case False
    have "r \<in> set (replaced_records now ?ks rs) \<longleftrightarrow> ?x = Some r" if "normal_record r" and "rec_Key r = k"
    proof (cases "k \<in> set ?ks")
      case True
      with replaced_records_set [OF inv that(1) refl False, of now] that(2) show ?thesis
        by (auto simp del: set_NormalizeKeys)
    next
      case nin: False
      with replaced_records_set [OF inv that(1) refl False, of now] that(2) mem [of r] show ?thesis
        by (cases "find (\<lambda>q. rec_Key q = k) rs") (auto simp del: set_NormalizeKeys)
    qed
    with keyx [of r] normx [of r] out show ?thesis by (auto simp only: list_all_iff)
  qed
qed

section \<open>Properties\<close>


abbreviation sample_store :: file_store where
  "sample_store \<equiv> snd (fs_step (OpAppend 5 True ''v1'' ['' k2'', ''k1'', ''k2''])
     \<lparr>fs_data = [], fs_disk = NoFile\<rparr>)"

lemma sample_store_reach: "fs_reach sample_store"
  by (rule fs_op, rule fs_open [where path = "''f''" and f = NoFile])
     (simp_all add: NewFileStore_def load_file_def store_inv_def)


text \<open>an operation that reports an error, a failed write included, leaves memory and disk as
  they were.\<close>

theorem file_store_error_unchanged:
  assumes "fs_step op s = (Some e, s')" shows "s' = s"
proof (cases op)
  case (OpReplace now io v ks)
  with assms show ?thesis
    by (auto simp: fs_Replace_def Let_def dest: saveVendorLocked_error split: if_splits)
next
  case (OpAppend now io v ks)
  with assms show ?thesis
    by (auto simp: fs_Append_def Let_def dest!: drop_count_error dest: saveVendorLocked_error
        split: if_splits prod.splits option.splits)
next
  case (OpDelete io v ks)
  with assms show ?thesis
    by (auto simp: fs_Delete_def Let_def dest!: drop_count_error dest: saveVendorLocked_error
        split: if_splits prod.splits option.splits)
next
  case (OpSetRemark now io v k remark)
  with assms show ?thesis
    by (auto simp: fs_SetRemark_def Let_def dest: saveVendorLocked_error
        split: if_splits option.splits)
next
  case (OpApplyDeltas now io ds)
  with assms show ?thesis
    by (auto simp: fs_ApplyRuntimeStatsDeltas_def dest: saveDataLocked_error
        split: if_splits prod.splits option.splits)
next
  case (OpResetStats now io v)
  with assms show ?thesis
    by (auto simp: fs_ResetRuntimeStats_def Let_def dest!: drop_count_error dest: saveDataLocked_error
        split: if_splits prod.splits option.splits)
next
  case (OpDeleteVendor io v)
  with assms show ?thesis
    by (auto simp: fs_DeleteVendor_def Let_def dest: saveVendorLocked_error split: if_splits)
qed (use assms in \<open>auto simp: fs_SetStatus_def fs_SetStatusIfVersion_def dest: fs_setStatus_error\<close>)

theorem file_store_error_unchanged_witness:
  "snd (fs_step (OpReplace 9 False ''v1'' [''k3'']) sample_store) = sample_store"
  by (rule file_store_error_unchanged [where op = "OpReplace 9 False ''v1'' [''k3'']" and e = SaveFileError])
     (code_simp)

text \<open>C24: a conditional status change is a compare-and-swap on the record version.  It succeeds
  exactly when the stored version is the expected one, rewrites that record alone, moves its
  version to the next one, and a second change expecting the same version is refused.\<close>

theorem file_store_conditional_status:
  assumes inv: "fs_inv s" and v: "normalizeVendor v = v" "v \<noteq> []" and k: "trim_space k = k" "k \<noteq> []"
    and r: "fs_lookup s v k = Some r"
    and res: "fs_SetStatusIfVersion now True v k ev st reason actor s = (e, s')"
  shows "(if rec_Version r = ev
     then e = None \<and> fs_inv s' \<and>
       fs_lookup s' = (\<lambda>w q. if w = v \<and> q = k
          then Some (status_record now (NormalizeStatus st) reason actor r) else fs_lookup s w q) \<and>
       rec_Version (status_record now (NormalizeStatus st) reason actor r) = ev + 1 \<and>
       rec_Status (status_record now (NormalizeStatus st) reason actor r) = NormalizeStatus st \<and>
       fs_SetStatusIfVersion now2 io v k ev st2 reason2 actor2 s' = (Some ErrVersionMismatch, s')
     else e = Some ErrVersionMismatch \<and> s' = s)"
proof (cases "rec_Version r = ev")
  case True
  let ?r' = "status_record now (NormalizeStatus st) reason actor r"
  have "e = None"
    using res fs_setStatus_result [of v k now ev True st reason actor s] v k r True
    by (simp add: fs_SetStatusIfVersion_def)
  then have ok: "fs_setStatus now True v k ev True st reason actor s = (None, s')"
    using res by (simp add: fs_SetStatusIfVersion_def)
  have look: "fs_lookup s' = (\<lambda>w q. if w = v \<and> q = k then Some ?r' else fs_lookup s w q)"
    using fs_setStatus_commit [OF inv ok] v k r by (auto simp: fun_eq_iff)
  have "0 \<le> rec_Version r" using fs_lookup_normal [OF inv r] by (simp add: normal_record_def)
  then have ver: "rec_Version ?r' = ev + 1" using True by (simp add: status_record_version)
  have "find (\<lambda>q. rec_Key q = k) (vendor_records (fs_data s') v) = Some ?r'"
    using look by (simp add: fs_lookup_def fun_eq_iff)
  then have "fs_SetStatusIfVersion now2 io v k ev st2 reason2 actor2 s' = (Some ErrVersionMismatch, s')"
    using v k ver by (simp add: fs_SetStatusIfVersion_def fs_setStatus_def Let_def)
  moreover have "fs_inv s'" using fs_setStatus_inv [OF inv] ok by (metis snd_conv)
  ultimately show ?thesis
    using True \<open>e = None\<close> look ver by (simp add: status_record_status)
next
  case False
  then show ?thesis
    using res v k r by (auto simp: fs_SetStatusIfVersion_def fs_setStatus_def Let_def fs_lookup_def)
qed

lemma sample_store_lookup:
  "fs_lookup sample_store ''v1'' ''k1'' = Some (new_record ''k1'' 5)"
  "fs_lookup sample_store ''v1'' ''k2'' = Some (new_record ''k2'' 5)"
  by code_simp+

lemma sample_names:
  "normalizeVendor ''v1'' = ''v1''" "trim_space ''k1'' = ''k1''"
  by code_simp+

theorem file_store_conditional_status_witness:
  "\<exists>s'. fs_SetStatusIfVersion 7 True ''v1'' ''k1'' 1 ''disabled_auto'' ''bad key'' ''system'' sample_store
     = (None, s') \<and> fs_lookup s' ''v1'' ''k2'' = Some (new_record ''k2'' 5) \<and>
   fs_SetStatusIfVersion 8 True ''v1'' ''k1'' 1 ''active'' [] [] s' = (Some ErrVersionMismatch, s')"
proof -
  obtain e s' where res: "fs_SetStatusIfVersion 7 True ''v1'' ''k1'' 1 ''disabled_auto'' ''bad key'' ''system''
      sample_store = (e, s')"
    by (cases "fs_SetStatusIfVersion 7 True ''v1'' ''k1'' 1 ''disabled_auto'' ''bad key'' ''system'' sample_store")
  have "rec_Version (new_record ''k1'' 5) = 1" by (simp add: new_record_def)
  with file_store_conditional_status
    [OF fs_reach_inv [OF sample_store_reach] sample_names(1) _ sample_names(2) _ sample_store_lookup(1) res,
     of 8 True "''active''" "[]" "[]"] res sample_store_lookup(2)
  show ?thesis by auto
qed

text \<open>replacing the keys of a vendor keeps every selected key's record and status and bumps
  its version, creates an active version-1 record for a new key, drops unselected active keys,
  and keeps unselected disabled keys unchanged.\<close>

theorem file_store_replace:
  assumes inv: "fs_inv s" and v: "normalizeVendor v \<noteq> []"
    and res: "fs_Replace now True v keys s = (e, s')"
  shows "e = None \<and> fs_inv s' \<and> fs_lookup s' (normalizeVendor v) k =
    (if k \<in> set (NormalizeKeys keys)
     then Some (case fs_lookup s (normalizeVendor v) k of
                  Some r \<Rightarrow> r\<lparr>rec_Version := rec_Version r + 1, rec_UpdatedAt := now\<rparr>
                | None \<Rightarrow> new_record k now)
     else case fs_lookup s (normalizeVendor v) k of
            Some r \<Rightarrow> if IsActiveStatus (rec_Status r) then None else Some r
          | None \<Rightarrow> None)"
proof -
  let ?rs = "replaced_records now (NormalizeKeys keys) (vendor_records (fs_data s) (normalizeVendor v))"
  have save: "saveVendorLocked True (normalizeVendor v) ?rs s = (e, s')"
    using res v by (simp add: fs_Replace_def Let_def)
  then have e: "e = None" using saveVendorLocked_io by (metis fst_conv)
  have "records_inv ?rs" by (intro replaced_records_inv fs_inv_vendor inv)
  from saveVendorLocked_ok [OF inv this save [unfolded e]] e show ?thesis
    using replaced_records_find [OF fs_inv_vendor [OF inv], of k now keys "normalizeVendor v"]
    by (simp add: fs_lookup_def)
qed

theorem file_store_replace_witness:
  "\<exists>s'. fs_Replace 9 True ''v1'' [''k1''] sample_store = (None, s') \<and>
     fs_lookup s' ''v1'' ''k1'' = Some ((new_record ''k1'' 5)\<lparr>rec_Version := 2, rec_UpdatedAt := 9\<rparr>) \<and>
     fs_lookup s' ''v1'' ''k2'' = None"
proof -
  obtain e s' where res: "fs_Replace 9 True ''v1'' [''k1''] sample_store = (e, s')"
    by (cases "fs_Replace 9 True ''v1'' [''k1''] sample_store")
  have v: "normalizeVendor ''v1'' \<noteq> []" by (simp add: sample_names)
  have keys: "set (NormalizeKeys [''k1'']) = {''k1''}" by (simp add: sample_names)
  note rep = file_store_replace [OF fs_reach_inv [OF sample_store_reach] v res]
  have "fs_lookup s' ''v1'' ''k1'' = Some ((new_record ''k1'' 5)\<lparr>rec_Version := 2, rec_UpdatedAt := 9\<rparr>)"
    using rep [of "''k1''"] unfolding keys sample_names sample_store_lookup
    by (simp add: new_record_def)
  moreover have "fs_lookup s' ''v1'' ''k2'' = None"
    using rep [of "''k2''"] unfolding keys sample_names sample_store_lookup
    by (simp add: new_record_def)
  ultimately show ?thesis using rep [of "''k1''"] res by auto
qed

end
