(* ===== verification/AsyncStore.thy ===== *)
theory AsyncStore
  imports FileStore
begin

text \<open>
  The asynchronous status store of \<open>internal/keystore/async_store.go\<close>: conditional status
  changes of the request path are queued in memory, shown to readers at once as an overlay, and
  written to the base store by one worker that retries.  The base store is a record of operations
  over its own state; an environment value of each call stands for its clock reading and the
  outcome of its input and output.  A call's result is an error or nothing, with the next state.

  Go iterates the pending map in an arbitrary order, so the list of updates that
  \<open>pendingSnapshot\<close> returns is an argument; \<open>is_snapshot\<close> says that it lists the map.  What the
  base store promises is the locale \<open>versioned_base\<close>, interpreted on the file store.
\<close>

section \<open>The base store\<close>

record ('e, 's) base_store =
  bs_List :: "string \<Rightarrow> 's \<Rightarrow> store_error + key_record list"
  bs_ListAll :: "'s \<Rightarrow> store_error + record_map"
  bs_Replace :: "'e \<Rightarrow> string \<Rightarrow> string list \<Rightarrow> 's \<Rightarrow> store_error option \<times> 's"
  bs_Append :: "'e \<Rightarrow> string \<Rightarrow> string list \<Rightarrow> 's \<Rightarrow> (store_error + int) \<times> 's"
  bs_Delete :: "'e \<Rightarrow> string \<Rightarrow> string list \<Rightarrow> 's \<Rightarrow> (store_error + int) \<times> 's"
  bs_SetStatus :: "'e \<Rightarrow> string \<Rightarrow> string \<Rightarrow> string \<Rightarrow> string \<Rightarrow> string \<Rightarrow> 's \<Rightarrow> store_error option \<times> 's"
  bs_SetStatusIfVersion :: "'e \<Rightarrow> string \<Rightarrow> string \<Rightarrow> int \<Rightarrow> string \<Rightarrow> string \<Rightarrow> string \<Rightarrow> 's \<Rightarrow> store_error option \<times> 's"
  bs_DeleteVendor :: "'e \<Rightarrow> string \<Rightarrow> 's \<Rightarrow> store_error option \<times> 's"

datatype async_error = BaseError store_error | AsyncClosed | AsyncVendorRequired | AsyncKeyRequired

section \<open>Pending updates\<close>

record pendingStatusUpdate =
  pu_id :: int
  pu_vendorID :: string
  pu_key :: string
  pu_expectedVersion :: int
  pu_status :: string
  pu_reason :: string
  pu_actor :: string
  pu_at :: time

record async_store =
  as_pending :: "(string \<times> pendingStatusUpdate) list"
  as_nextID :: int
  as_closed :: bool
  as_wake :: bool

definition NewAsyncStatusStore :: async_store where
  "NewAsyncStatusStore = \<lparr>as_pending = [], as_nextID = 0, as_closed = False, as_wake = False\<rparr>"

definition pendingStatusKey :: "string \<Rightarrow> string \<Rightarrow> string" where
  "pendingStatusKey vendorID key = vendorID @ CHR 0x00 # key"

definition newPendingStatusUpdate ::
  "time \<Rightarrow> string \<Rightarrow> string \<Rightarrow> int \<Rightarrow> string \<Rightarrow> string \<Rightarrow> string \<Rightarrow> async_error + pendingStatusUpdate" where
  "newPendingStatusUpdate now vendorID key expectedVersion status reason actor =
     (let v = normalizeVendor vendorID; k = trim_space key in
      if v = [] then Inl AsyncVendorRequired
      else if k = [] then Inl AsyncKeyRequired
      else Inr \<lparr>pu_id = 0, pu_vendorID = v, pu_key = k, pu_expectedVersion = expectedVersion,
                pu_status = NormalizeStatus status, pu_reason = trim_space reason,
                pu_actor = trim_space actor, pu_at = now\<rparr>)"

definition signalFlush :: "async_store \<Rightarrow> async_store" where
  "signalFlush s = s\<lparr>as_wake := True\<rparr>"

text \<open>Queueing one update under a new id.\<close>

definition enqueue :: "pendingStatusUpdate \<Rightarrow> async_store \<Rightarrow> async_store" where
  "enqueue u s =
     s\<lparr>as_nextID := as_nextID s + 1,
       as_pending := AList.update (pendingStatusKey (pu_vendorID u) (pu_key u))
         (u\<lparr>pu_id := as_nextID s + 1\<rparr>) (as_pending s)\<rparr>"

definition as_SetStatusIfVersion ::
  "time \<Rightarrow> string \<Rightarrow> string \<Rightarrow> int \<Rightarrow> string \<Rightarrow> string \<Rightarrow> string \<Rightarrow> async_store \<Rightarrow> async_error option \<times> async_store" where
  "as_SetStatusIfVersion now vendorID key expectedVersion status reason actor s =
     (case newPendingStatusUpdate now vendorID key expectedVersion status reason actor of
        Inl e \<Rightarrow> (Some e, s)
      | Inr u \<Rightarrow> if as_closed s then (Some AsyncClosed, s) else (None, signalFlush (enqueue u s)))"


definition clearKeyPending :: "string \<Rightarrow> string \<Rightarrow> async_store \<Rightarrow> async_store" where
  "clearKeyPending vendorID key s =
     s\<lparr>as_pending := AList.delete (pendingStatusKey (normalizeVendor vendorID) (trim_space key)) (as_pending s)\<rparr>"

definition deletePendingIfMatch :: "pendingStatusUpdate \<Rightarrow> async_store \<Rightarrow> async_store" where
  "deletePendingIfMatch u s =
     (let key = pendingStatusKey (pu_vendorID u) (pu_key u) in
      case map_of (as_pending s) key of
        None \<Rightarrow> s
      | Some current \<Rightarrow> if pu_id current \<noteq> pu_id u then s
                        else s\<lparr>as_pending := AList.delete key (as_pending s)\<rparr>)"

section \<open>The overlay\<close>

definition pending_record :: "pendingStatusUpdate \<Rightarrow> key_record \<Rightarrow> key_record" where
  "pending_record u r =
     (if rec_Version r > pu_expectedVersion u then r
      else
        let r = r\<lparr>rec_Status := pu_status u,
                  rec_Version := max (rec_Version r) (pu_expectedVersion u + 1),
                  rec_UpdatedAt := pu_at u\<rparr>
        in NormalizeRecord
             (if pu_status u = KeyStatusActive
              then r\<lparr>rec_DisableReason := [], rec_DisabledAt := None, rec_DisabledBy := []\<rparr>
              else r\<lparr>rec_DisableReason := pu_reason u, rec_DisabledAt := Some (pu_at u),
                     rec_DisabledBy := pu_actor u\<rparr>))"

definition applyPendingVendorRecord :: "pendingStatusUpdate \<Rightarrow> key_record list \<Rightarrow> key_record list" where
  "applyPendingVendorRecord u records = sortRecords (update_first (pu_key u) (pending_record u) records)"

definition applyPendingRecord :: "pendingStatusUpdate \<Rightarrow> record_map \<Rightarrow> record_map" where
  "applyPendingRecord u all =
     (let records = applyPendingVendorRecord u (vendor_records all (pu_vendorID u)) in
      if records = [] then AList.delete (pu_vendorID u) all
      else AList.update (pu_vendorID u) records all)"

definition as_ListAll :: "('e, 's) base_store \<Rightarrow> pendingStatusUpdate list \<Rightarrow> 's \<Rightarrow> store_error + record_map" where
  "as_ListAll base updates b =
     (case bs_ListAll base b of Inl e \<Rightarrow> Inl e | Inr all \<Rightarrow> Inr (fold applyPendingRecord updates all))"

definition as_List ::
  "('e, 's) base_store \<Rightarrow> pendingStatusUpdate list \<Rightarrow> string \<Rightarrow> 's \<Rightarrow> store_error + key_record list" where
  "as_List base updates vendorID b =
     (case bs_List base vendorID b of
        Inl e \<Rightarrow> Inl e
      | Inr records \<Rightarrow> Inr (sortRecords
          (fold (\<lambda>u out. if pu_vendorID u \<noteq> normalizeVendor vendorID then out else applyPendingVendorRecord u out)
             updates records)))"

definition is_snapshot :: "async_store \<Rightarrow> pendingStatusUpdate list \<Rightarrow> bool" where
  "is_snapshot s updates \<longleftrightarrow> mset updates = mset (map snd (as_pending s))"

section \<open>Write-through operations\<close>





text \<open>The version and record maps built from a listing; a later record wins.\<close>

definition record_index :: "key_record list \<Rightarrow> string \<rightharpoonup> key_record" where
  "record_index records key = find (\<lambda>r. rec_Key r = key) (rev (map NormalizeRecord records))"

definition effectivePendingForVendor ::
  "('e, 's) base_store \<Rightarrow> string \<Rightarrow> pendingStatusUpdate list \<Rightarrow> 's \<Rightarrow> store_error + pendingStatusUpdate list" where
  "effectivePendingForVendor base vendorID updates b =
     (case bs_List base vendorID b of
        Inl err \<Rightarrow> Inl err
      | Inr records \<Rightarrow> Inr (filter (\<lambda>u. pu_vendorID u = vendorID \<and>
          (case record_index records (pu_key u) of
             None \<Rightarrow> False | Some r \<Rightarrow> \<not> rec_Version r > pu_expectedVersion u)) updates))"

definition pendingUpdateReflected :: "key_record \<Rightarrow> pendingStatusUpdate \<Rightarrow> bool" where
  "pendingUpdateReflected record u =
     (let record = NormalizeRecord record; updateStatus = NormalizeStatus (pu_status u) in
      if rec_Status record = updateStatus then True
      else \<not> IsActiveStatus (rec_Status record) \<and> \<not> IsActiveStatus updateStatus)"

text \<open>The loop that queues the carried updates again; the flag is \<open>requeued > 0\<close>.\<close>

fun requeue :: "(string \<rightharpoonup> key_record) \<Rightarrow> pendingStatusUpdate list \<Rightarrow> bool \<times> async_store \<Rightarrow> bool \<times> async_store" where
  "requeue current [] st = st"
| "requeue current (u # us) (any, s) =
     (case current (pu_key u) of
        None \<Rightarrow> requeue current us (any, s)
      | Some record \<Rightarrow>
          if pendingUpdateReflected record u then requeue current us (any, s)
          else requeue current us (True, enqueue (u\<lparr>pu_expectedVersion := rec_Version record\<rparr>) s))"

definition reconcilePendingAfterReplace ::
  "('e, 's) base_store \<Rightarrow> 'e \<Rightarrow> string \<Rightarrow> pendingStatusUpdate list \<Rightarrow> 's \<times> async_store \<Rightarrow>
     async_error option \<times> 's \<times> async_store" where
  "reconcilePendingAfterReplace base e vendorID carried = (\<lambda>(b, s).
     case bs_List base vendorID b of
       Inl err \<Rightarrow> (Some (BaseError err), b, s)
     | Inr records \<Rightarrow>
         let missingDisabled = map pu_key (filter (\<lambda>u. \<not> IsActiveStatus (pu_status u) \<and>
               record_index records (pu_key u) = None) carried);
             (res, b) = (if missingDisabled \<noteq> [] then
                   (case bs_Append base e vendorID missingDisabled b of
                      (Inl err, b) \<Rightarrow> (Inl err, b)
                    | (Inr _, b) \<Rightarrow> (bs_List base vendorID b, b))
                 else (Inr records, b))
         in case res of
              Inl err \<Rightarrow> (Some (BaseError err), b, s)
            | Inr records \<Rightarrow>
                let s = s\<lparr>as_pending := filter (\<lambda>(_, u). pu_vendorID u \<noteq> vendorID) (as_pending s)\<rparr>;
                    (any, s) = requeue (record_index records) carried (False, s)
                in (None, b, if any then signalFlush s else s))"

text \<open>The environment of the \<open>Replace\<close> call and the one of the \<open>Append\<close> that may follow.\<close>

definition as_Replace ::
  "('e, 's) base_store \<Rightarrow> 'e \<Rightarrow> 'e \<Rightarrow> pendingStatusUpdate list \<Rightarrow> string \<Rightarrow> string list \<Rightarrow> 's \<times> async_store \<Rightarrow>
     async_error option \<times> 's \<times> async_store" where
  "as_Replace base e1 e2 updates vendorID keys = (\<lambda>(b, s).
     let v = normalizeVendor vendorID in
     case effectivePendingForVendor base v updates b of
       Inl err \<Rightarrow> (Some (BaseError err), b, s)
     | Inr carried \<Rightarrow>
         (case bs_Replace base e1 v keys b of
            (Some err, b) \<Rightarrow> (Some (BaseError err), b, s)
          | (None, b) \<Rightarrow> reconcilePendingAfterReplace base e2 v carried (b, s)))"

section \<open>The worker\<close>

definition applyPending ::
  "('e, 's) base_store \<Rightarrow> 'e \<Rightarrow> pendingStatusUpdate \<Rightarrow> 's \<Rightarrow> store_error option \<times> 's" where
  "applyPending base e u b =
     bs_SetStatusIfVersion base e (pu_vendorID u) (pu_key u) (pu_expectedVersion u) (pu_status u)
       (pu_reason u) (pu_actor u) b"

text \<open>One turn of the loop of \<open>flushPending\<close>; the flag is \<open>allSynced\<close>.\<close>

definition flush_one ::
  "('e, 's) base_store \<Rightarrow> 'e \<Rightarrow> pendingStatusUpdate \<Rightarrow> bool \<times> 's \<times> async_store \<Rightarrow> bool \<times> 's \<times> async_store" where
  "flush_one base e u = (\<lambda>(allSynced, b, s).
     case applyPending base e u b of
       (None, b) \<Rightarrow> (allSynced, b, deletePendingIfMatch u s)
     | (Some err, b) \<Rightarrow>
         if err = ErrVersionMismatch \<or> err = ErrKeyNotFound then (allSynced, b, deletePendingIfMatch u s)
         else (False, b, s))"

definition flushPending ::
  "('e, 's) base_store \<Rightarrow> (pendingStatusUpdate \<Rightarrow> 'e) \<Rightarrow> pendingStatusUpdate list \<Rightarrow> 's \<times> async_store \<Rightarrow>
     bool \<times> 's \<times> async_store" where
  "flushPending base env updates = (\<lambda>(b, s).
     if updates = [] then (True, b, s)
     else fold (\<lambda>u. flush_one base (env u) u) updates (True, b, s))"

definition flush_one_final ::
  "('e, 's) base_store \<Rightarrow> 'e \<Rightarrow> pendingStatusUpdate \<Rightarrow>
     store_error list \<times> 's \<times> async_store \<Rightarrow> store_error list \<times> 's \<times> async_store" where
  "flush_one_final base e u = (\<lambda>(errs, b, s).
     case applyPending base e u b of
       (None, b) \<Rightarrow> (errs, b, deletePendingIfMatch u s)
     | (Some err, b) \<Rightarrow>
         if err = ErrVersionMismatch \<or> err = ErrKeyNotFound then (errs, b, deletePendingIfMatch u s)
         else (errs @ [err], b, s))"

definition flushPendingFinal ::
  "('e, 's) base_store \<Rightarrow> (pendingStatusUpdate \<Rightarrow> 'e) \<Rightarrow> pendingStatusUpdate list \<Rightarrow> 's \<times> async_store \<Rightarrow>
     store_error list \<times> 's \<times> async_store" where
  "flushPendingFinal base env updates = (\<lambda>(b, s).
     if updates = [] then ([], b, s)
     else fold (\<lambda>u. flush_one_final base (env u) u) updates ([], b, s))"





section \<open>No pending update is stranded\<close>

definition pend_ok :: "async_store \<Rightarrow> bool" where
  "pend_ok s \<longleftrightarrow> distinct (map fst (as_pending s)) \<and>
     (\<forall>(k, u) \<in> set (as_pending s). k = pendingStatusKey (pu_vendorID u) (pu_key u) \<and> pu_id u \<le> as_nextID s)"

definition pending_updates :: "async_store \<Rightarrow> pendingStatusUpdate set" where
  "pending_updates s = snd ` set (as_pending s)"




lemma pend_ok_subset:
  "pend_ok s \<Longrightarrow> set ps \<subseteq> set (as_pending s) \<Longrightarrow> distinct (map fst ps) \<Longrightarrow> pend_ok (s\<lparr>as_pending := ps\<rparr>)"
  by (auto simp: pend_ok_def)

lemma pend_ok_wake [simp]: "pend_ok (s\<lparr>as_wake := w\<rparr>) = pend_ok s"
  by (simp add: pend_ok_def)

lemma pending_wake [simp]: "pending_updates (s\<lparr>as_wake := w\<rparr>) = pending_updates s"
  by (simp add: pending_updates_def)

lemma set_AList_delete: "set (AList.delete k xs) \<subseteq> set xs"
  by (auto simp: AList.delete_eq)

lemma pend_ok_delete: "pend_ok s \<Longrightarrow> pend_ok (s\<lparr>as_pending := AList.delete k (as_pending s)\<rparr>)"
  by (rule pend_ok_subset) (auto simp: AList.delete_eq pend_ok_def distinct_map_filter_keep)




lemma clearKeyPending_fields [simp]:
  "as_wake (clearKeyPending v k s) = as_wake s" "pend_ok s \<Longrightarrow> pend_ok (clearKeyPending v k s)"
  by (simp_all add: clearKeyPending_def pend_ok_delete)






lemma deletePendingIfMatch_spec:
  assumes "pend_ok s"
  shows "pend_ok (deletePendingIfMatch u s) \<and> as_wake (deletePendingIfMatch u s) = as_wake s \<and>
    pending_updates (deletePendingIfMatch u s) \<subseteq> pending_updates s - {u}"
proof -
  let ?k = "pendingStatusKey (pu_vendorID u) (pu_key u)"
  have keyed: "map_of (as_pending s) ?k = Some u" if "u \<in> pending_updates s"
    using that assms by (auto simp: pend_ok_def pending_updates_def intro!: map_of_is_SomeI)
  show ?thesis
  proof (cases "map_of (as_pending s) ?k")
    case None
    with keyed assms show ?thesis by (auto simp: deletePendingIfMatch_def)
  next
    case (Some w)
    show ?thesis
    proof (cases "pu_id w = pu_id u")
      case True
      have "(k, u) \<in> set (as_pending s) \<Longrightarrow> k = ?k" for k using assms by (auto simp: pend_ok_def)
      then have "u \<notin> pending_updates (s\<lparr>as_pending := AList.delete ?k (as_pending s)\<rparr>)"
        by (auto simp: pending_updates_def AList.delete_eq)
      moreover have "pending_updates (s\<lparr>as_pending := AList.delete ?k (as_pending s)\<rparr>) \<subseteq> pending_updates s"
        by (auto simp: pending_updates_def AList.delete_eq)
      ultimately show ?thesis
        using True Some pend_ok_delete [OF assms] by (auto simp: deletePendingIfMatch_def)
    next
      case False
      with Some keyed assms show ?thesis by (auto simp: deletePendingIfMatch_def)
    qed
  qed
qed






section \<open>The overlay as a view\<close>

text \<open>A well-formed pending update, as \<open>newPendingStatusUpdate\<close> makes them.\<close>

definition upd_ok :: "pendingStatusUpdate \<Rightarrow> bool" where
  "upd_ok u \<longleftrightarrow> normalizeVendor (pu_vendorID u) = pu_vendorID u \<and> pu_vendorID u \<noteq> [] \<and>
     trim_space (pu_key u) = pu_key u \<and> pu_key u \<noteq> [] \<and> NormalizeStatus (pu_status u) = pu_status u \<and>
     trim_space (pu_reason u) = pu_reason u \<and> trim_space (pu_actor u) = pu_actor u"

text \<open>The result of writing one update: what the overlay already showed, up to time stamps, when the
  update was not ahead of the stored version.\<close>

definition same_state :: "key_record option \<Rightarrow> key_record option \<Rightarrow> bool" where
  "same_state x y \<longleftrightarrow> (case (x, y) of
      (Some r, Some q) \<Rightarrow> rec_Key r = rec_Key q \<and> rec_Status r = rec_Status q \<and> rec_Version r = rec_Version q \<and>
        (rec_Status r \<noteq> KeyStatusActive \<longrightarrow> rec_DisableReason r = rec_DisableReason q \<and> rec_DisabledBy r = rec_DisabledBy q)
    | (None, None) \<Rightarrow> True | _ \<Rightarrow> False)"

definition update_for :: "pendingStatusUpdate list \<Rightarrow> string \<Rightarrow> string \<Rightarrow> pendingStatusUpdate option" where
  "update_for us v k = find (\<lambda>u. pu_vendorID u = v \<and> pu_key u = k) us"

definition overlay :: "pendingStatusUpdate list \<Rightarrow> (string \<Rightarrow> string \<Rightarrow> key_record option) \<Rightarrow> string \<Rightarrow> string \<Rightarrow> key_record option" where
  "overlay us look v k = (case update_for us v k of None \<Rightarrow> look v k | Some u \<Rightarrow> map_option (pending_record u) (look v k))"

abbreviation targets :: "pendingStatusUpdate list \<Rightarrow> (string \<times> string) list" where
  "targets us \<equiv> map (\<lambda>u. (pu_vendorID u, pu_key u)) us"

lemma same_state_refl [simp]: "same_state x x"
  by (simp add: same_state_def split: option.split)

lemma same_state_trans: "same_state x y \<Longrightarrow> same_state y z \<Longrightarrow> same_state x z"
  by (auto simp: same_state_def split: option.splits)

lemma update_for_Cons:
  "update_for (u # us) v k = (if pu_vendorID u = v \<and> pu_key u = k then Some u else update_for us v k)"
  by (simp add: update_for_def)

lemma update_for_None: "(v, k) \<notin> set (targets us) \<Longrightarrow> update_for us v k = None"
  by (induction us) (auto simp: update_for_Cons update_for_def)

lemma update_for_mem: "distinct (targets us) \<Longrightarrow> u \<in> set us \<Longrightarrow> update_for us (pu_vendorID u) (pu_key u) = Some u"
  by (induction us) (auto simp: update_for_Cons image_iff)

lemma snapshot_targets:
  assumes "pend_ok s" and "is_snapshot s us" shows "distinct (targets us)" and "set us = pending_updates s"
proof -
  have "map fst (as_pending s) = map (\<lambda>u. pendingStatusKey (pu_vendorID u) (pu_key u)) (map snd (as_pending s))"
    using assms(1) by (auto simp: pend_ok_def)
  then have "distinct (map (\<lambda>u. pendingStatusKey (pu_vendorID u) (pu_key u)) (map snd (as_pending s)))"
    using assms(1) unfolding pend_ok_def by argo
  moreover have "mset (map f us) = mset (map f (map snd (as_pending s)))" for f :: "pendingStatusUpdate \<Rightarrow> string"
    using assms(2) by (metis is_snapshot_def mset_map)
  ultimately have "distinct (map (\<lambda>u. pendingStatusKey (pu_vendorID u) (pu_key u)) us)"
    by (metis mset_eq_imp_distinct_iff)
  then have "distinct (map (\<lambda>(v, k). pendingStatusKey v k) (targets us))" by (simp add: comp_def)
  then show "distinct (targets us)" by (simp only: distinct_map)
  show "set us = pending_updates s" using assms(2) by (metis is_snapshot_def list.set_map pending_updates_def set_mset_mset)
qed

lemma drain_pending:
  assumes "pend_ok s" and "pending_updates s \<subseteq> set us" shows "as_pending (fold deletePendingIfMatch us s) = []"
proof -
  have "pend_ok s \<Longrightarrow> pend_ok (fold deletePendingIfMatch us s) \<and>
      pending_updates (fold deletePendingIfMatch us s) \<subseteq> pending_updates s - set us" for us s
  proof (induction us arbitrary: s)
    case (Cons u us)
    from deletePendingIfMatch_spec [OF Cons.prems, of u] have ok: "pend_ok (deletePendingIfMatch u s)"
      and sub: "pending_updates (deletePendingIfMatch u s) \<subseteq> pending_updates s - {u}" by simp_all
    with Cons.IH [OF ok] show ?case by auto
  qed simp
  with assms have "pending_updates (fold deletePendingIfMatch us s) = {}" by blast
  then show ?thesis by (simp add: pending_updates_def)
qed

text \<open>Requeueing leaves an entry for every carried update that is not reflected.\<close>

lemma requeue_entry:
  assumes "distinct (map pu_key us)" and "\<forall>u \<in> set us. pu_vendorID u = v"
    and "requeue current us (any, s) = (any', s')"
  shows "(\<forall>k. k \<notin> pu_key ` set us \<longrightarrow> map_of (as_pending s') (pendingStatusKey v k) = map_of (as_pending s) (pendingStatusKey v k)) \<and>
    (\<forall>u \<in> set us. \<forall>r. current (pu_key u) = Some r \<longrightarrow> \<not> pendingUpdateReflected r u \<longrightarrow>
       (\<exists>n. map_of (as_pending s') (pendingStatusKey v (pu_key u)) =
          Some (u\<lparr>pu_expectedVersion := rec_Version r, pu_id := n\<rparr>)))"
  using assms
proof (induction us arbitrary: any s)
  case (Cons u us)
  define st where "st = (case current (pu_key u) of None \<Rightarrow> (any, s)
    | Some r \<Rightarrow> if pendingUpdateReflected r u then (any, s) else (True, enqueue (u\<lparr>pu_expectedVersion := rec_Version r\<rparr>) s))"
  obtain any1 s1 where st1: "st = (any1, s1)" by (cases st)
  have "requeue current us (any1, s1) = (any', s')"
    using Cons.prems(3) st1 by (auto simp: st_def split: option.splits if_splits)
  note ih = Cons.IH [OF _ _ this]
  have other: "map_of (as_pending s1) (pendingStatusKey v k) = map_of (as_pending s) (pendingStatusKey v k)" if "k \<noteq> pu_key u" for k
    using st1 that Cons.prems(2)
    by (auto simp: st_def enqueue_def update_conv' pendingStatusKey_def split: option.splits if_splits)
  have this_one: "\<exists>n. map_of (as_pending s1) (pendingStatusKey v (pu_key u)) =
      Some (u\<lparr>pu_expectedVersion := rec_Version r, pu_id := n\<rparr>)"
    if "current (pu_key u) = Some r" "\<not> pendingUpdateReflected r u" for r
    using st1 that Cons.prems(2) by (auto simp: st_def enqueue_def update_conv')
  show ?case using ih other this_one Cons.prems(1,2) by (auto simp: image_iff)
qed simp

section \<open>What the base store promises\<close>

text \<open>The contract of a versioned store: \<open>vlookup\<close> reads a record, \<open>vinv\<close> is the provider's
  invariant and \<open>healthy\<close> marks the calls whose input and output succeed.  The conditional change is
  a compare-and-swap on the record version; a listing agrees with \<open>vlookup\<close>; appending makes keys
  present and keeps the records there are.\<close>

locale versioned_base =
  fixes base :: "('e, 's) base_store"
    and vlookup :: "'s \<Rightarrow> string \<Rightarrow> string \<Rightarrow> key_record option"
    and vinv :: "'s \<Rightarrow> bool" and healthy :: "'e \<Rightarrow> bool"
  assumes cas: "vinv b \<Longrightarrow> healthy e \<Longrightarrow> normalizeVendor v = v \<Longrightarrow> v \<noteq> [] \<Longrightarrow> trim_space k = k \<Longrightarrow> k \<noteq> [] \<Longrightarrow>
      bs_SetStatusIfVersion base e v k ev st re ac b = (err, b') \<Longrightarrow>
      vinv b' \<and>
      (case vlookup b v k of
         None \<Rightarrow> err = Some ErrKeyNotFound \<and> b' = b
       | Some r \<Rightarrow> if rec_Version r \<noteq> ev then err = Some ErrVersionMismatch \<and> b' = b
           else err = None \<and> (\<exists>r'. vlookup b' = (\<lambda>w q. if w = v \<and> q = k then Some r' else vlookup b w q) \<and>
             rec_Key r' = k \<and> rec_Status r' = NormalizeStatus st \<and> rec_Version r' = ev + 1 \<and>
             (NormalizeStatus st \<noteq> KeyStatusActive \<longrightarrow>
                rec_DisableReason r' = trim_space re \<and> rec_DisabledBy r' = trim_space ac)))"
    and vlookup_normal: "vinv b \<Longrightarrow> vlookup b v k = Some r \<Longrightarrow> normal_record r \<and> rec_Key r = k"
    and list_ok: "vinv b \<Longrightarrow> normalizeVendor v = v \<Longrightarrow>
      \<exists>rs. bs_List base v b = Inr rs \<and> distinct (map rec_Key rs) \<and> (\<forall>k r. vlookup b v k = Some r \<longleftrightarrow> r \<in> set rs \<and> rec_Key r = k)"
    and append_ok: "vinv b \<Longrightarrow> normalizeVendor v = v \<Longrightarrow> v \<noteq> [] \<Longrightarrow> bs_Append base e v ks b = (Inr n, b') \<Longrightarrow>
      vinv b' \<and> (\<forall>k \<in> set (NormalizeKeys ks). vlookup b' v k \<noteq> None) \<and>
      (\<forall>k r. vlookup b v k = Some r \<longrightarrow> vlookup b' v k = Some r)"
    and replace_ok: "vinv b \<Longrightarrow> bs_Replace base e v ks b = (None, b') \<Longrightarrow> vinv b'"
begin

lemma record_index_lookup:
  assumes "vinv b" and "normalizeVendor v = v" and "bs_List base v b = Inr rs"
  shows "record_index rs k = vlookup b v k"
proof -
  obtain rs' where "bs_List base v b = Inr rs'" and d: "distinct (map rec_Key rs')"
    and l: "\<And>k r. vlookup b v k = Some r \<longleftrightarrow> r \<in> set rs' \<and> rec_Key r = k"
    using list_ok [OF assms(1,2)] by blast
  then have rs: "rs' = rs" using assms(3) by simp
  have "normal_record r" if "r \<in> set rs" for r using l [of "rec_Key r" r] that vlookup_normal [OF assms(1)] rs by blast
  then have "map NormalizeRecord rs = rs" by (simp add: map_NormalizeRecord_id list_all_iff)
  then have "record_index rs k = find (\<lambda>r. rec_Key r = k) (rev rs)" by (simp add: record_index_def)
  also have "\<dots> = vlookup b v k"
    using d l rs by (intro find_key_eqI) (auto simp: rev_map [symmetric])
  finally show ?thesis .
qed

lemma flush_one_effect:
  assumes "vinv b" and "healthy e" and "upd_ok u"
    and "\<forall>r. vlookup b (pu_vendorID u) (pu_key u) = Some r \<longrightarrow> pu_expectedVersion u \<le> rec_Version r"
    and "flush_one base e u (ok, b, s) = (ok', b', s')"
  shows "ok' = ok \<and> vinv b' \<and> s' = deletePendingIfMatch u s \<and>
    (\<forall>v k. (v, k) \<noteq> (pu_vendorID u, pu_key u) \<longrightarrow> vlookup b' v k = vlookup b v k) \<and>
    same_state (vlookup b' (pu_vendorID u) (pu_key u)) (map_option (pending_record u) (vlookup b (pu_vendorID u) (pu_key u)))"
proof -
  let ?v = "pu_vendorID u" and ?k = "pu_key u"
  obtain err b1 where app: "applyPending base e u b = (err, b1)" by (cases "applyPending base e u b")
  have u: "normalizeVendor ?v = ?v" "?v \<noteq> []" "trim_space ?k = ?k" "?k \<noteq> []" "NormalizeStatus (pu_status u) = pu_status u"
    "trim_space (pu_reason u) = pu_reason u" "trim_space (pu_actor u) = pu_actor u" using assms(3) by (simp_all add: upd_ok_def)
  note c = cas [OF assms(1,2) u(1-4) app [unfolded applyPending_def]]
  show ?thesis
  proof (cases "vlookup b ?v ?k")
    case None
    with c have "err = Some ErrKeyNotFound" "b1 = b" by simp_all
    with assms(1,5) app None show ?thesis by (auto simp: flush_one_def)
  next
    case (Some r)
    show ?thesis
    proof (cases "rec_Version r = pu_expectedVersion u")
      case True
      with c Some obtain r' where r': "err = None" "vinv b1" "vlookup b1 = (\<lambda>w q. if w = ?v \<and> q = ?k then Some r' else vlookup b w q)"
        "rec_Key r' = ?k" "rec_Status r' = pu_status u" "rec_Version r' = pu_expectedVersion u + 1"
        "pu_status u \<noteq> KeyStatusActive \<longrightarrow> rec_DisableReason r' = pu_reason u \<and> rec_DisabledBy r' = pu_actor u"
        using u(5-7) by auto
      have "normal_record r" "rec_Key r = ?k" using vlookup_normal [OF assms(1) Some] by simp_all
      then have n: "0 \<le> rec_Version r" "trim_space (rec_Key r) = ?k" using u(3) by (simp_all add: normal_record_def)
      have p: "rec_Key (pending_record u r) = ?k" "rec_Status (pending_record u r) = pu_status u"
        "rec_Version (pending_record u r) = pu_expectedVersion u + 1"
        "pu_status u \<noteq> KeyStatusActive \<longrightarrow> rec_DisableReason (pending_record u r) = pu_reason u \<and> rec_DisabledBy (pending_record u r) = pu_actor u"
        using n True u(5) by (simp_all add: pending_record_def Let_def NormalizeRecord_def)
      have "same_state (Some r') (Some (pending_record u r))" using r' p by (simp add: same_state_def)
      with r' assms(5) app Some show ?thesis by (auto simp: flush_one_def)
    next
      case False
      with c Some have "err = Some ErrVersionMismatch" "b1 = b" by simp_all
      moreover have "pending_record u r = r" using assms(4) Some False by (simp add: pending_record_def)
      ultimately show ?thesis using assms(1,5) app Some by (auto simp: flush_one_def)
    qed
  qed
qed

lemma flush_fold:
  assumes "distinct (targets us)" and "vinv b"
    and "\<forall>u \<in> set us. upd_ok u \<and> healthy (env u) \<and>
      (\<forall>r. vlookup b (pu_vendorID u) (pu_key u) = Some r \<longrightarrow> pu_expectedVersion u \<le> rec_Version r)"
    and "fold (\<lambda>u. flush_one base (env u) u) us (ok, b, s) = (ok', b', s')"
  shows "ok' = ok \<and> vinv b' \<and> s' = fold deletePendingIfMatch us s \<and>
    same_state (vlookup b' v k) (overlay us (vlookup b) v k)"
  using assms
proof (induction us arbitrary: ok b s)
  case Nil
  then show ?case by (simp add: overlay_def update_for_def)
next
  case (Cons u us)
  obtain ok1 b1 s1 where one: "flush_one base (env u) u (ok, b, s) = (ok1, b1, s1)" by (cases "flush_one base (env u) u (ok, b, s)")
  have pre: "healthy (env u)" "upd_ok u" "\<forall>r. vlookup b (pu_vendorID u) (pu_key u) = Some r \<longrightarrow> pu_expectedVersion u \<le> rec_Version r"
    using Cons.prems(3) by simp_all
  note f = flush_one_effect [OF Cons.prems(2) pre one]
  have "(pu_vendorID w, pu_key w) \<noteq> (pu_vendorID u, pu_key u)" if "w \<in> set us" for w
    using that Cons.prems(1) by (auto simp: image_iff)
  then have eq: "vlookup b1 (pu_vendorID w) (pu_key w) = vlookup b (pu_vendorID w) (pu_key w)" if "w \<in> set us" for w
    using that f by metis
  have "fold (\<lambda>u. flush_one base (env u) u) us (ok1, b1, s1) = (ok', b', s')" using Cons.prems(4) one by simp
  with Cons.IH [of b1 ok1 s1] Cons.prems(1,3) f eq
  have ih: "ok' = ok1" "vinv b'" "s' = fold deletePendingIfMatch us s1" "same_state (vlookup b' v k) (overlay us (vlookup b1) v k)"
    by simp_all
  have "same_state (overlay us (vlookup b1) v k) (overlay (u # us) (vlookup b) v k)"
  proof (cases "(v, k) = (pu_vendorID u, pu_key u)")
    case True
    then have "update_for us v k = None" using Cons.prems(1) by (intro update_for_None) simp
    with True f show ?thesis by (simp add: overlay_def update_for_Cons)
  next
    case False
    then have "vlookup b1 v k = vlookup b v k" using f by blast
    with False show ?thesis by (cases "update_for us v k") (auto simp: overlay_def update_for_Cons)
  qed
  with ih f same_state_trans show ?case by auto
qed

lemma flush_drains:
  assumes "vinv b" and "pend_ok s" and "is_snapshot s us"
    and "\<forall>u \<in> set us. upd_ok u \<and> healthy (env u) \<and>
      (\<forall>r. vlookup b (pu_vendorID u) (pu_key u) = Some r \<longrightarrow> pu_expectedVersion u \<le> rec_Version r)"
    and "flushPending base env us (b, s) = (ok, b', s')"
  shows "ok \<and> as_pending s' = [] \<and> vinv b' \<and> same_state (vlookup b' v k) (overlay us (vlookup b) v k)"
proof -
  have fold: "fold (\<lambda>u. flush_one base (env u) u) us (True, b, s) = (ok, b', s')"
    using assms(5) by (cases "us = []") (simp_all add: flushPending_def)
  from flush_fold [OF snapshot_targets(1) [OF assms(2,3)] assms(1,4) fold]
  have "ok" "vinv b'" "s' = fold deletePendingIfMatch us s" "same_state (vlookup b' v k) (overlay us (vlookup b) v k)" by simp_all
  with drain_pending [OF assms(2)] snapshot_targets(2) [OF assms(2,3)] show ?thesis by simp
qed

text \<open>After the reconciliation the base store has a record for every carried disable, and the pending
  map is the requeued one.\<close>

lemma reconcile_result:
  assumes inv1: "vinv b1" and v: "normalizeVendor v = v" "v \<noteq> []"
    and recon: "reconcilePendingAfterReplace base e v carried (b1, s) = (None, b', s')"
  shows "\<exists>rs any s1. vinv b' \<and> bs_List base v b' = Inr rs \<and>
    (\<forall>u \<in> set carried. \<not> IsActiveStatus (pu_status u) \<longrightarrow> trim_space (pu_key u) = pu_key u \<longrightarrow> pu_key u \<noteq> [] \<longrightarrow>
       vlookup b' v (pu_key u) \<noteq> None) \<and>
    requeue (record_index rs) carried
      (False, s\<lparr>as_pending := filter (\<lambda>(_, u). pu_vendorID u \<noteq> v) (as_pending s)\<rparr>) = (any, s1) \<and>
    s' = (if any then signalFlush s1 else s1)"
proof -
  obtain rs1 where rs1: "bs_List base v b1 = Inr rs1" using list_ok [OF inv1 v(1)] by blast
  note ix1 = record_index_lookup [OF inv1 v(1) rs1]
  let ?s = "s\<lparr>as_pending := filter (\<lambda>(_, u). pu_vendorID u \<noteq> v) (as_pending s)\<rparr>"
  define miss where "miss = map pu_key (filter (\<lambda>u. \<not> IsActiveStatus (pu_status u) \<and> record_index rs1 (pu_key u) = None) carried)"
  note recon' = recon [unfolded reconcilePendingAfterReplace_def prod.case rs1 sum.case Let_def, folded miss_def]
  show ?thesis
  proof (cases "miss = []")
    case True
    obtain any s1 where rq: "requeue (record_index rs1) carried (False, ?s) = (any, s1)" by fastforce
    have "b' = b1 \<and> s' = (if any then signalFlush s1 else s1)" using recon' True rq by simp
    moreover have "\<forall>u \<in> set carried. \<not> IsActiveStatus (pu_status u) \<longrightarrow> vlookup b1 v (pu_key u) \<noteq> None"
      using True by (auto simp: miss_def filter_empty_conv ix1)
    ultimately show ?thesis using inv1 rs1 rq by (intro exI [of _ rs1] exI [of _ any] exI [of _ s1]) simp
  next
    case False
    obtain n b2 where ap: "bs_Append base e v miss b1 = (Inr n, b2)"
    proof (cases "bs_Append base e v miss b1")
      case (Pair res b2)
      with recon' False that show thesis by (cases res) auto
    qed
    note a = append_ok [OF inv1 v ap]
    then have inv2: "vinv b2" by simp
    obtain rs2 where rs2: "bs_List base v b2 = Inr rs2" using list_ok [OF inv2 v(1)] by blast
    obtain any s1 where rq: "requeue (record_index rs2) carried (False, ?s) = (any, s1)" by fastforce
    have out: "b' = b2 \<and> s' = (if any then signalFlush s1 else s1)" using recon' False ap rs2 rq by simp
    have pres: "vlookup b2 v (pu_key u) \<noteq> None"
      if "u \<in> set carried" "\<not> IsActiveStatus (pu_status u)" "trim_space (pu_key u) = pu_key u" "pu_key u \<noteq> []" for u
    proof (cases "vlookup b1 v (pu_key u)")
      case None
      then have "pu_key u \<in> set miss" using that(1,2) by (auto simp: miss_def ix1)
      then have "pu_key u \<in> set (NormalizeKeys miss)" unfolding set_NormalizeKeys using that(3,4) by (metis DiffI image_eqI singletonD)
      then show ?thesis using a by blast
    next
      case (Some r)
      with a show ?thesis by (metis option.distinct(1))
    qed
    show ?thesis using inv2 rs2 rq out pres by (intro exI [of _ rs2] exI [of _ any] exI [of _ s1]) simp
  qed
qed

text \<open>Replacing the keys of a vendor keeps every effective pending disable.\<close>

lemma replace_keeps_disable:
  assumes inv: "vinv b" and ok: "pend_ok s" and snap: "is_snapshot s us"
    and u: "u \<in> set us" "upd_ok u" "\<not> IsActiveStatus (pu_status u)" "pu_vendorID u = normalizeVendor vendorID"
    and eff: "vlookup b (pu_vendorID u) (pu_key u) = Some r" "rec_Version r \<le> pu_expectedVersion u"
    and rep: "as_Replace base e1 e2 us vendorID ks (b, s) = (None, b', s')"
  shows "\<exists>r'. vlookup b' (pu_vendorID u) (pu_key u) = Some r' \<and>
    (\<not> IsActiveStatus (rec_Status r') \<or>
     (\<exists>w \<in> pending_updates s'. pu_vendorID w = pu_vendorID u \<and> pu_key w = pu_key u \<and> pu_status w = pu_status u \<and>
        pu_expectedVersion w = rec_Version r'))"
proof -
  let ?v = "pu_vendorID u" and ?k = "pu_key u"
  have v: "normalizeVendor ?v = ?v" "?v \<noteq> []" and k: "trim_space ?k = ?k" "?k \<noteq> []" using u(2) by (simp_all add: upd_ok_def)
  obtain carried b1 where car: "effectivePendingForVendor base ?v us b = Inr carried"
    and b1: "bs_Replace base e1 ?v ks b = (None, b1)"
    and recon: "reconcilePendingAfterReplace base e2 ?v carried (b1, s) = (None, b', s')"
    using rep u(4) by (auto simp: as_Replace_def Let_def split: sum.splits prod.splits option.splits)
  obtain rs where "bs_List base ?v b = Inr rs" using list_ok [OF inv v(1)] by blast
  then have carried: "carried = filter (\<lambda>w. pu_vendorID w = ?v \<and> (case vlookup b ?v (pu_key w) of
      None \<Rightarrow> False | Some r \<Rightarrow> \<not> rec_Version r > pu_expectedVersion w)) us"
    using car record_index_lookup [OF inv v(1)] by (simp add: effectivePendingForVendor_def)
  have uc: "u \<in> set carried" using u(1) eff by (simp add: carried)
  have cv: "\<forall>w \<in> set carried. pu_vendorID w = ?v" by (simp add: carried)
  have "distinct (targets carried)" using snapshot_targets(1) [OF ok snap] by (simp add: carried distinct_map_filter_keep)
  then have dk: "distinct (map pu_key carried)" using cv by (auto simp: distinct_map inj_on_def)
  from reconcile_result [OF replace_ok [OF inv b1] v recon] obtain rs2 any s1 where inv2: "vinv b'"
    and rs2: "bs_List base ?v b' = Inr rs2" and s': "s' = (if any then signalFlush s1 else s1)"
    and req: "requeue (record_index rs2) carried
        (False, s\<lparr>as_pending := filter (\<lambda>(_, u). pu_vendorID u \<noteq> ?v) (as_pending s)\<rparr>) = (any, s1)"
    and pres: "vlookup b' ?v ?k \<noteq> None" using uc u(3) k by blast
  obtain r' where r': "vlookup b' ?v ?k = Some r'" using pres by blast
  have ix2: "record_index rs2 ?k = Some r'" using record_index_lookup [OF inv2 v(1) rs2] r' by simp
  have nr: "NormalizeRecord r' = r'" using vlookup_normal [OF inv2 r'] by (simp add: normal_record_iff)
  show ?thesis
  proof (cases "pendingUpdateReflected r' u")
    case True
    then have "\<not> IsActiveStatus (rec_Status r')"
      using u(3) by (auto simp: pendingUpdateReflected_def nr Let_def IsActiveStatus_def split: if_splits)
    with r' show ?thesis by blast
  next
    case False
    from requeue_entry [OF dk cv req] uc ix2 False obtain n where
      "map_of (as_pending s1) (pendingStatusKey ?v ?k) = Some (u\<lparr>pu_expectedVersion := rec_Version r', pu_id := n\<rparr>)" by blast
    then have "u\<lparr>pu_expectedVersion := rec_Version r', pu_id := n\<rparr> \<in> pending_updates s1"
      by (force simp: pending_updates_def dest: map_of_SomeD)
    then have "u\<lparr>pu_expectedVersion := rec_Version r', pu_id := n\<rparr> \<in> pending_updates s'"
      using s' by (simp add: signalFlush_def)
    with r' show ?thesis by (intro exI [of _ r']) force
  qed
qed

end

section \<open>The file store as base\<close>

definition file_base :: "(time \<times> bool, file_store) base_store" where
  "file_base = \<lparr>bs_List = (\<lambda>v s. Inr (fs_List s v)), bs_ListAll = (\<lambda>s. Inr (fs_ListAll s)),
     bs_Replace = (\<lambda>(now, io). fs_Replace now io), bs_Append = (\<lambda>(now, io). fs_Append now io),
     bs_Delete = (\<lambda>(now, io). fs_Delete io),
     bs_SetStatus = (\<lambda>(now, io). fs_SetStatus now io),
     bs_SetStatusIfVersion = (\<lambda>(now, io). fs_SetStatusIfVersion now io),
     bs_DeleteVendor = (\<lambda>(now, io). fs_DeleteVendor io)\<rparr>"

lemma file_cas:
  assumes inv: "fs_inv b" and v: "normalizeVendor v = v" "v \<noteq> []" and k: "trim_space k = k" "k \<noteq> []"
    and set: "fs_SetStatusIfVersion now True v k ev st re ac b = (err, b')"
  shows "fs_inv b' \<and> (case fs_lookup b v k of
         None \<Rightarrow> err = Some ErrKeyNotFound \<and> b' = b
       | Some r \<Rightarrow> if rec_Version r \<noteq> ev then err = Some ErrVersionMismatch \<and> b' = b
           else err = None \<and> (\<exists>r'. fs_lookup b' = (\<lambda>w q. if w = v \<and> q = k then Some r' else fs_lookup b w q) \<and>
             rec_Key r' = k \<and> rec_Status r' = NormalizeStatus st \<and> rec_Version r' = ev + 1 \<and>
             (NormalizeStatus st \<noteq> KeyStatusActive \<longrightarrow>
                rec_DisableReason r' = trim_space re \<and> rec_DisabledBy r' = trim_space ac)))"
proof -
  note set' = set [unfolded fs_SetStatusIfVersion_def]
  have inv': "fs_inv b'" using fs_setStatus_inv [OF inv] set' by (metis snd_conv)
  have err: "err = (case fs_lookup b v k of None \<Rightarrow> Some ErrKeyNotFound
      | Some r \<Rightarrow> if rec_Version r \<noteq> ev then Some ErrVersionMismatch else None)"
    using fs_setStatus_result [of v k now ev True st re ac b] v k set' by (simp split: option.split)
  have same: "b' = b" if "err \<noteq> None" using that fs_setStatus_error set' by blast
  show ?thesis
  proof (cases "fs_lookup b v k")
    case None
    with err same inv show ?thesis by simp
  next
    case (Some r)
    show ?thesis
    proof (cases "rec_Version r = ev")
      case True
      let ?r = "status_record now (NormalizeStatus st) re ac r"
      have e: "err = None" using err Some True by simp
      have n: "normal_record r" "rec_Key r = k" using fs_lookup_normal [OF inv Some] by simp_all
      have "fs_lookup b' = (\<lambda>w q. if w = v \<and> q = k then Some ?r else fs_lookup b w q)"
        using fs_setStatus_commit [OF inv set' [unfolded e]] v k Some by (auto simp: fun_eq_iff)
      moreover have "rec_Key ?r = k" "rec_Version ?r = ev + 1" "rec_Status ?r = NormalizeStatus st"
        using n True k status_record_version [of r] by (simp_all add: status_record_key status_record_status normal_record_def)
      moreover have "NormalizeStatus st \<noteq> KeyStatusActive \<longrightarrow> rec_DisableReason ?r = trim_space re \<and> rec_DisabledBy ?r = trim_space ac"
        by (simp add: status_record_def NormalizeRecord_def Let_def)
      ultimately show ?thesis using Some True e inv' by auto
    next
      case False
      with err same Some inv show ?thesis by simp
    qed
  qed
qed

lemma file_append:
  assumes inv: "fs_inv b" and v: "normalizeVendor v = v" "v \<noteq> []" and app: "fs_Append now io v ks b = (Inr n, b')"
  shows "fs_inv b' \<and> (\<forall>k \<in> set (NormalizeKeys ks). fs_lookup b' v k \<noteq> None) \<and>
    (\<forall>k r. fs_lookup b v k = Some r \<longrightarrow> fs_lookup b' v k = Some r)"
proof -
  let ?cur = "vendor_records (fs_data b) v" and ?ks = "NormalizeKeys ks"
  let ?fresh = "filter (\<lambda>k. k \<notin> rec_Key ` set ?cur) ?ks"
  let ?next = "sortRecords (?cur @ map (\<lambda>k. new_record k now) ?fresh)"
  have inv': "fs_inv b'" using fs_Append_inv [OF inv] app by (metis snd_conv)
  have cur: "records_inv ?cur" using inv by (rule fs_inv_vendor)
  have nxt: "records_inv ?next" using cur by (intro append_records_inv) auto
  show ?thesis
  proof (cases "?fresh = []")
    case True
    then have "b' = b" using app v by (auto simp: fs_Append_def Let_def split: if_splits)
    moreover have "k \<in> rec_Key ` set ?cur" if "k \<in> set ?ks" for k using True that by (auto simp: filter_empty_conv)
    ultimately show ?thesis using inv by (auto simp: fs_lookup_def find_key_None_iff simp del: set_NormalizeKeys)
  next
    case False
    then have "saveVendorLocked io v ?next b = (None, b')"
      using app v by (auto simp: fs_Append_def Let_def split: if_splits prod.splits option.splits)
    from saveVendorLocked_ok [OF inv nxt this] have vr: "vendor_records (fs_data b') v = ?next"
      by (simp only: fun_upd_same)
    have d: "distinct (map rec_Key ?next)" "distinct (map rec_Key ?cur)" using nxt cur by (simp_all add: records_inv_def)
    have s: "set ?next = set ?cur \<union> (\<lambda>k. new_record k now) ` set ?fresh" by (auto simp: sortRecords_def)
    have "fs_lookup b' v k \<noteq> None" if "k \<in> set ?ks" for k
    proof -
      have "rec_Key ` set ?next = rec_Key ` set ?cur \<union> set ?fresh" unfolding s by (simp add: image_Un image_image)
      then have "k \<in> rec_Key ` set ?next" using that by (simp del: set_NormalizeKeys)
      then show ?thesis by (simp add: fs_lookup_def vr find_key_None_iff)
    qed
    moreover have "fs_lookup b' v k = Some r" if "fs_lookup b v k = Some r" for k r
      using that d s by (simp add: fs_lookup_def vr find_key_iff)
    ultimately show ?thesis using inv' by blast
  qed
qed

interpretation file_async: versioned_base file_base fs_lookup fs_inv snd
proof (unfold_locales, goal_cases)
  case (1 b e v k ev st re ac err b')
  then show ?case using file_cas [of b v k "fst e"] by (cases e) (simp add: file_base_def)
next
  case (2 b v k r)
  then show ?case by (rule fs_lookup_normal)
next
  case (3 b v)
  then have inv: "records_inv (vendor_records (fs_data b) v)" by (intro fs_inv_vendor)
  then have "fs_List b v = vendor_records (fs_data b) v" "distinct (map rec_Key (vendor_records (fs_data b) v))"
    using 3 by (simp_all add: fs_List_def records_inv_def map_NormalizeRecord_id)
  then show ?case by (simp add: file_base_def fs_lookup_def find_key_iff)
next
  case (4 b v e ks n b')
  then show ?case using file_append [of b v "fst e" "snd e"] by (cases e) (simp add: file_base_def)
next
  case (5 b e v ks b')
  then show ?case using fs_Replace_inv [of b "fst e" "snd e" v ks] by (cases e) (simp add: file_base_def)
qed

text \<open>The reconciliation forgets every pending update of the vendor that was not carried: one that is
  queued after \<open>Replace\<close> took its snapshot is dropped, not queued again for the new version.\<close>

lemma reconcile_drops_uncarried:
  "bs_List base v b = Inr rs \<Longrightarrow>
     reconcilePendingAfterReplace base e v [] (b, s) =
       (None, b, s\<lparr>as_pending := filter (\<lambda>(_, u). pu_vendorID u \<noteq> v) (as_pending s)\<rparr>)"
  by (simp add: reconcilePendingAfterReplace_def Let_def)

section \<open>Properties\<close>

text \<open>A concrete system for the witnesses: the sample file store with one queued disable of k1.\<close>

definition queued_store :: async_store where
  "queued_store = snd (as_SetStatusIfVersion 7 ''v1'' ''k1'' 1 KeyStatusDisabledAuto ''quota'' ''system:auto'' NewAsyncStatusStore)"

definition queued_update :: pendingStatusUpdate where
  "queued_update = \<lparr>pu_id = 1, pu_vendorID = ''v1'', pu_key = ''k1'', pu_expectedVersion = 1, pu_status = KeyStatusDisabledAuto,
     pu_reason = ''quota'', pu_actor = ''system:auto'', pu_at = 7\<rparr>"

lemma trim_samples: "trim_space ''v1'' = ''v1''" "trim_space ''k1'' = ''k1''" "trim_space ''quota'' = ''quota''"
  "trim_space ''system:auto'' = ''system:auto''"
  by code_simp+

lemma queued_store_eq: "queued_store = \<lparr>as_pending = [(pendingStatusKey ''v1'' ''k1'', queued_update)], as_nextID = 1,
    as_closed = False, as_wake = True\<rparr>"
  by (simp add: queued_store_def as_SetStatusIfVersion_def newPendingStatusUpdate_def normalizeVendor_def trim_samples
      NewAsyncStatusStore_def signalFlush_def enqueue_def queued_update_def Let_def)

lemma queued_ok: "pend_ok queued_store" "is_snapshot queued_store [queued_update]" "upd_ok queued_update"
  by (simp_all add: queued_store_eq pend_ok_def is_snapshot_def upd_ok_def queued_update_def trim_samples normalizeVendor_def)

lemma queued_lookup: "\<exists>r. fs_lookup sample_store ''v1'' ''k1'' = Some r \<and> rec_Version r = 1"
proof -
  have "map_option rec_Version (fs_lookup sample_store ''v1'' ''k1'') = Some 1" by code_simp
  then show ?thesis by auto
qed

section \<open>What readers see\<close>

text \<open>The record of a key in a listing.\<close>

definition listed :: "store_error + key_record list \<Rightarrow> string \<Rightarrow> key_record option" where
  "listed res k = (case res of Inl _ \<Rightarrow> None | Inr rs \<Rightarrow> find (\<lambda>r. rec_Key r = k) rs)"

lemma pending_record_key: "trim_space (rec_Key r) = rec_Key r \<Longrightarrow> rec_Key (pending_record u r) = rec_Key r"
  by (simp add: pending_record_def NormalizeRecord_def Let_def)

lemma find_sortRecords:
  assumes "distinct (map rec_Key rs)"
  shows "find (\<lambda>r. rec_Key r = k) (sortRecords rs) = find (\<lambda>r. rec_Key r = k) rs" and "distinct (map rec_Key (sortRecords rs))"
proof -
  have s: "set (sortRecords rs) = set rs" by (simp add: sortRecords_def)
  have "mset (map rec_Key (sortRecords rs)) = mset (map rec_Key rs)" unfolding mset_map by (simp add: sortRecords_def)
  then show d: "distinct (map rec_Key (sortRecords rs))" using assms by (metis mset_eq_imp_distinct_iff)
  show "find (\<lambda>r. rec_Key r = k) (sortRecords rs) = find (\<lambda>r. rec_Key r = k) rs"
    using find_key_iff [OF d, of k] find_key_iff [OF assms, of k] s by (metis not_None_eq)
qed

lemma applyPendingVendorRecord_find:
  assumes "distinct (map rec_Key rs)" and "upd_ok u"
  shows "distinct (map rec_Key (applyPendingVendorRecord u rs))"
    and "find (\<lambda>r. rec_Key r = k) (applyPendingVendorRecord u rs) =
      (if k = pu_key u then map_option (pending_record u) (find (\<lambda>r. rec_Key r = k) rs) else find (\<lambda>r. rec_Key r = k) rs)"
proof -
  have key: "rec_Key r = pu_key u \<Longrightarrow> rec_Key (pending_record u r) = pu_key u" for r
    using assms(2) pending_record_key [of r u] by (simp add: upd_ok_def)
  then have "map rec_Key (update_first (pu_key u) (pending_record u) rs) = map rec_Key rs"
    by (rule map_key_update_first)
  with assms(1) have d: "distinct (map rec_Key (update_first (pu_key u) (pending_record u) rs))" by simp
  from find_sortRecords [OF d] show "distinct (map rec_Key (applyPendingVendorRecord u rs))"
    by (simp add: applyPendingVendorRecord_def)
  from key have "find (\<lambda>r. rec_Key r = k) (update_first (pu_key u) (pending_record u) rs) =
      (if k = pu_key u then map_option (pending_record u) (find (\<lambda>r. rec_Key r = k) rs) else find (\<lambda>r. rec_Key r = k) rs)"
    by (rule find_update_first)
  with find_sortRecords(1) [OF d, of k] show "find (\<lambda>r. rec_Key r = k) (applyPendingVendorRecord u rs) =
      (if k = pu_key u then map_option (pending_record u) (find (\<lambda>r. rec_Key r = k) rs) else find (\<lambda>r. rec_Key r = k) rs)"
    by (simp add: applyPendingVendorRecord_def)
qed

lemma fold_overlay:
  assumes "distinct (map rec_Key rs)" and "\<forall>u \<in> set us. upd_ok u" and "distinct (targets us)"
    and "out = fold (\<lambda>u out. if pu_vendorID u \<noteq> v then out else applyPendingVendorRecord u out) us rs"
  shows "distinct (map rec_Key out) \<and> find (\<lambda>r. rec_Key r = k) out =
    (case update_for us v k of None \<Rightarrow> find (\<lambda>r. rec_Key r = k) rs
     | Some u \<Rightarrow> map_option (pending_record u) (find (\<lambda>r. rec_Key r = k) rs))"
  using assms
proof (induction us arbitrary: rs)
  case Nil
  then show ?case by (simp add: update_for_def)
next
  case (Cons u us)
  let ?rs = "if pu_vendorID u \<noteq> v then rs else applyPendingVendorRecord u rs"
  have d: "distinct (map rec_Key ?rs)"
    using Cons.prems(1,2) applyPendingVendorRecord_find(1) [of rs u] by simp
  from Cons.prems have ih: "distinct (map rec_Key out) \<and> find (\<lambda>r. rec_Key r = k) out =
    (case update_for us v k of None \<Rightarrow> find (\<lambda>r. rec_Key r = k) ?rs
     | Some u \<Rightarrow> map_option (pending_record u) (find (\<lambda>r. rec_Key r = k) ?rs))"
    by (intro Cons.IH [OF d]) simp_all
  have f: "find (\<lambda>r. rec_Key r = k) ?rs = (if pu_vendorID u = v \<and> pu_key u = k
      then map_option (pending_record u) (find (\<lambda>r. rec_Key r = k) rs) else find (\<lambda>r. rec_Key r = k) rs)"
    using Cons.prems(1,2) applyPendingVendorRecord_find(2) [of rs u k] by auto
  have "update_for us v k = None" if "pu_vendorID u = v" "pu_key u = k"
    using that Cons.prems(3) by (intro update_for_None) auto
  with ih f show ?case by (auto simp: update_for_Cons split: option.splits)
qed

lemma as_List_overlay:
  assumes inv: "fs_inv b" and us: "\<forall>u \<in> set us. upd_ok u" "distinct (targets us)"
  shows "listed (as_List file_base us v b) k = overlay us (fs_lookup b) (normalizeVendor v) k"
proof -
  let ?rs = "vendor_records (fs_data b) (normalizeVendor v)"
  have r: "records_inv ?rs" using inv by (rule fs_inv_vendor)
  then have l: "fs_List b v = ?rs" by (simp add: fs_List_def records_inv_def map_NormalizeRecord_id)
  have d: "distinct (map rec_Key ?rs)" using r by (simp add: records_inv_def)
  from fold_overlay [OF d us refl, of "normalizeVendor v" k] show ?thesis
    by (simp add: listed_def as_List_def file_base_def l find_sortRecords(1) overlay_def fs_lookup_def split: option.splits)
qed

lemma queued_replace:
  "fst (as_Replace file_base (9, True) (10, True) [queued_update] ''v1'' [''k2''] (sample_store, queued_store)) = None"
  by code_simp



text \<open>C28: Readers are told the truth: when the writes succeed, one flush empties the queue, and after it
  a listing of any vendor without pending updates shows for every key the status, version, reason and
  actor that the listing showed before the flush with the pending updates laid over it, for every order
  in which the queue is written.  An update that the stored version has overtaken is dropped, as readers
  already saw.  The hypothesis on versions says that no queued update is ahead of the store.\<close>

theorem async_flush_matches_view:
  assumes "fs_inv b" and "pend_ok s" and "is_snapshot s us" and "\<forall>u \<in> set us. upd_ok u \<and> snd (env u)"
    and "\<forall>u \<in> set us. \<forall>r. fs_lookup b (pu_vendorID u) (pu_key u) = Some r \<longrightarrow> pu_expectedVersion u \<le> rec_Version r"
    and "flushPending file_base env us (b, s) = (ok, b', s')"
  shows "ok \<and> as_pending s' = [] \<and> fs_inv b' \<and>
    same_state (listed (as_List file_base [] v b') k) (listed (as_List file_base us v b) k)"
proof -
  have d: "distinct (targets us)" "\<forall>u \<in> set us. upd_ok u" using snapshot_targets [OF assms(2,3)] assms(4) by auto
  have f: "ok \<and> as_pending s' = [] \<and> fs_inv b' \<and> same_state (fs_lookup b' w k) (overlay us (fs_lookup b) w k)" for w
    using file_async.flush_drains [OF assms(1-3) _ assms(6), of w k] assms(4,5) by blast
  then have "listed (as_List file_base [] v b') k = fs_lookup b' (normalizeVendor v) k"
    using as_List_overlay [of b' "[]" v k] by (simp add: overlay_def update_for_def)
  with f as_List_overlay [OF assms(1) d(2,1)] show ?thesis by simp
qed

theorem async_flush_matches_view_witness:
  "\<exists>ok b' s'. flushPending file_base (\<lambda>_. (9, True)) [queued_update] (sample_store, queued_store) = (ok, b', s') \<and>
     ok \<and> as_pending s' = []"
proof -
  obtain ok b' s' where f: "flushPending file_base (\<lambda>_. (9, True)) [queued_update] (sample_store, queued_store) = (ok, b', s')"
    by (cases "flushPending file_base (\<lambda>_. (9, True)) [queued_update] (sample_store, queued_store)")
  have "\<forall>r. fs_lookup sample_store ''v1'' ''k1'' = Some r \<longrightarrow> 1 \<le> rec_Version r" using queued_lookup by auto
  then have "ok \<and> as_pending s' = []"
    using async_flush_matches_view [OF fs_reach_inv [OF sample_store_reach] queued_ok(1,2) _ _ f] queued_ok(3)
    unfolding queued_update_def by fastforce
  with f show ?thesis by blast
qed

text \<open>C23: Replacing the keys of a vendor never loses an automatic disable that is still waiting to be
  written: afterwards the key is in the file store, and either its record is already disabled or the
  disable is queued again for exactly the version the record has now.\<close>

theorem async_replace_keeps_disable:
  assumes "fs_inv b" and "pend_ok s" and "is_snapshot s us"
    and "u \<in> set us" and "upd_ok u" and "\<not> IsActiveStatus (pu_status u)" and "pu_vendorID u = normalizeVendor vendorID"
    and "fs_lookup b (pu_vendorID u) (pu_key u) = Some r" and "rec_Version r \<le> pu_expectedVersion u"
    and "as_Replace file_base e1 e2 us vendorID ks (b, s) = (None, b', s')"
  shows "\<exists>r'. fs_lookup b' (pu_vendorID u) (pu_key u) = Some r' \<and>
    (\<not> IsActiveStatus (rec_Status r') \<or>
     (\<exists>w \<in> snd ` set (as_pending s'). pu_vendorID w = pu_vendorID u \<and> pu_key w = pu_key u \<and>
        pu_status w = pu_status u \<and> pu_expectedVersion w = rec_Version r'))"
  using file_async.replace_keeps_disable [OF assms] by (simp add: pending_updates_def)

theorem async_replace_keeps_disable_witness:
  "\<exists>b' s' r'. as_Replace file_base (9, True) (10, True) [queued_update] ''v1'' [''k2''] (sample_store, queued_store) = (None, b', s') \<and>
     fs_lookup b' ''v1'' ''k1'' = Some r' \<and> (\<not> IsActiveStatus (rec_Status r') \<or> as_pending s' \<noteq> [])"
proof -
  obtain e b' s' where f: "as_Replace file_base (9, True) (10, True) [queued_update] ''v1'' [''k2''] (sample_store, queued_store) = (e, b', s')"
    by (cases "as_Replace file_base (9, True) (10, True) [queued_update] ''v1'' [''k2''] (sample_store, queued_store)")
  have e: "e = None" using queued_replace unfolding f by (simp only: fst_conv)
  obtain r where r: "fs_lookup sample_store ''v1'' ''k1'' = Some r" "rec_Version r = 1" using queued_lookup by blast
  have u: "pu_vendorID queued_update = ''v1''" "pu_key queued_update = ''k1''" "pu_expectedVersion queued_update = 1"
    "\<not> IsActiveStatus (pu_status queued_update)" "normalizeVendor ''v1'' = ''v1''"
    by (simp_all add: queued_update_def normalizeVendor_def trim_samples)
  have "\<exists>r'. fs_lookup b' (pu_vendorID queued_update) (pu_key queued_update) = Some r' \<and>
    (\<not> IsActiveStatus (rec_Status r') \<or>
     (\<exists>w \<in> snd ` set (as_pending s'). pu_vendorID w = pu_vendorID queued_update \<and> pu_key w = pu_key queued_update \<and>
        pu_status w = pu_status queued_update \<and> pu_expectedVersion w = rec_Version r'))"
    by (rule async_replace_keeps_disable [OF fs_reach_inv [OF sample_store_reach] queued_ok(1,2) _ queued_ok(3) u(4) _ _ _ f [unfolded e], where r = r])
       (use r u in simp_all)
  then show ?thesis using f e unfolding u by auto
qed

end
