(* ===== verification/StatsHandle.thy ===== *)
theory StatsHandle
  imports KeyRecord
begin

text \<open>
  The statistics handle of one upstream key: \<open>internal/balancer/runtime_stats.go\<close>, the handle
  part of \<open>performance.go\<close> and \<open>stats_reset.go\<close>.  A handle holds the lifetime counters, a ring
  of the five latest finished attempts with its summary, and three scheduling costs computed
  from them.  The handle's mutex makes each operation atomic; an atomic field is a plain field.
  A nil handle never occurs in a pool and is not modelled.

  Shown here: the ring refines a list of the latest samples, the summary counts them, the
  lifetime counters classify every recorded attempt, and the costs stay in fixed bounds that
  rank a key whose window has no success behind every other key.
\<close>

section \<open>State\<close>

abbreviation recentWindowSize :: nat where
  "recentWindowSize \<equiv> 5"

abbreviation failedSamplePenalty :: duration where
  "failedSamplePenalty \<equiv> 999 * second"

abbreviation sampleFreshness :: duration where
  "sampleFreshness \<equiv> 5 * minute"

record requestSample =
  smp_header :: duration
  smp_full :: duration
  smp_success :: bool

record stats_handle =
  h_stats :: runtime_stats
  h_totalRequests :: int
  h_window :: "requestSample list"
  h_nextSample :: nat
  h_sampleCount :: nat
  h_lastSample :: time
  h_latencyCost :: rat
  h_successCost :: rat
  h_adaptiveCost :: rat
  h_generation :: int

definition zero_sample :: requestSample where
  "zero_sample = \<lparr>smp_header = 0, smp_full = 0, smp_success = False\<rparr>"

definition zero_handle :: stats_handle where
  "zero_handle = \<lparr>h_stats = zero_stats, h_totalRequests = 0,
     h_window = replicate recentWindowSize zero_sample, h_nextSample = 0, h_sampleCount = 0,
     h_lastSample = 0, h_latencyCost = 0, h_successCost = 0, h_adaptiveCost = 0, h_generation = 0\<rparr>"

section \<open>Samples and costs\<close>

definition to_ms :: "duration \<Rightarrow> rat" where
  "to_ms d = fdiv (float64 d) (float64 millisecond)"

text \<open>The summary loop of \<open>recordSampleLocked\<close>.\<close>

definition summary_step :: "recent_stats \<Rightarrow> requestSample \<Rightarrow> recent_stats" where
  "summary_step s x =
     (let s = (if smp_success x then s\<lparr>RecentSuccessCount := RecentSuccessCount s + 1\<rparr> else s);
          s = (if smp_header x \<ge> 0
               then s\<lparr>HeaderSamples := HeaderSamples s + 1,
                      AvgHeaderMS := fadd (AvgHeaderMS s) (to_ms (smp_header x))\<rparr>
               else s)
      in if smp_full x \<ge> 0
         then s\<lparr>ResponseSamples := ResponseSamples s + 1,
                AvgResponseMS := fadd (AvgResponseMS s) (to_ms (smp_full x))\<rparr>
         else s)"

fun summarize :: "recent_stats \<Rightarrow> requestSample list \<Rightarrow> recent_stats" where
  "summarize s [] = s"
| "summarize s (x # xs) = summarize (summary_step s x) xs"

definition window_summary :: "requestSample list \<Rightarrow> recent_stats" where
  "window_summary xs =
     (let s = summarize (zero_recent\<lparr>RecentRequests := int (length xs)\<rparr>) xs;
          s = (if HeaderSamples s > 0
               then s\<lparr>AvgHeaderMS := fdiv (AvgHeaderMS s) (float64 (HeaderSamples s))\<rparr> else s)
      in if ResponseSamples s > 0
         then s\<lparr>AvgResponseMS := fdiv (AvgResponseMS s) (float64 (ResponseSamples s))\<rparr> else s)"

text \<open>The successful timings of the live window: number and sum, for headers and full
  responses.\<close>

fun success_timings :: "int \<times> int \<times> rat \<times> rat \<Rightarrow> requestSample list \<Rightarrow> int \<times> int \<times> rat \<times> rat" where
  "success_timings acc [] = acc"
| "success_timings (hs, fs, ht, ft) (x # xs) =
     (if \<not> smp_success x then success_timings (hs, fs, ht, ft) xs
      else
        let (hs, ht) = (if smp_header x \<ge> 0 then (hs + 1, fadd ht (to_ms (smp_header x))) else (hs, ht));
            (fs, ft) = (if smp_full x \<ge> 0 then (fs + 1, fadd ft (to_ms (smp_full x))) else (fs, ft))
        in success_timings (hs, fs, ht, ft) xs)"

definition cost_timings :: "stats_handle \<Rightarrow> rat \<times> rat" where
  "cost_timings h =
     (let s = RecentStats (h_stats h) in
      if h_sampleCount h > 0 then
        (let (hs, fs, ht, ft) =
               success_timings (0, 0, 0, 0) (take (h_sampleCount h) (h_window h));
             header = (if hs > 0 then fdiv ht (float64 hs) else 1000);
             full = (if fs > 0 then fdiv ft (float64 fs) else header)
         in (header, full))
      else if RecentRequests s = RecentSuccessCount s then
        (let header = (if HeaderSamples s > 0 then AvgHeaderMS s else 1000);
             full = (if ResponseSamples s > 0 then AvgResponseMS s else header)
         in (header, full))
      else (1000, 1000))"

definition updateCostsLocked :: "stats_handle \<Rightarrow> stats_handle" where
  "updateCostsLocked h =
     (let s = RecentStats (h_stats h) in
      if RecentRequests s > 0 \<and> RecentSuccessCount s = 0
      then h\<lparr>h_latencyCost := 1000000000000, h_successCost := 1000000000000,
             h_adaptiveCost := 1000000000000\<rparr>
      else
        let p = fdiv (float64 (RecentSuccessCount s + 1)) (float64 (RecentRequests s + 2));
            (header, full) = cost_timings h;
            header = max 1 (min header 3600000);
            full = max header (min full 3600000)
        in h\<lparr>h_latencyCost := fdiv header p,
             h_successCost := fdiv 1 (fmul p p),
             h_adaptiveCost := fdiv (fadd (fmul (fl (7 / 10)) header) (fmul (fl (3 / 10)) full))
                                    (fmul p p)\<rparr>)"

definition performanceCost :: "string \<Rightarrow> stats_handle \<Rightarrow> rat" where
  "performanceCost strategy h =
     (if strategy = ''lowest_latency'' then h_latencyCost h
      else if strategy = ''highest_success'' then h_successCost h
      else h_adaptiveCost h)"

definition recordSampleLocked ::
  "duration \<Rightarrow> duration \<Rightarrow> bool \<Rightarrow> time \<Rightarrow> stats_handle \<Rightarrow> stats_handle \<times> int" where
  "recordSampleLocked header full success now h =
     (let (header, full) = (if \<not> success then (failedSamplePenalty, failedSamplePenalty)
                            else (header, full));
          h = (if h_lastSample h \<noteq> 0 \<and> now - h_lastSample h \<ge> sampleFreshness
               then h\<lparr>h_sampleCount := 0, h_nextSample := 0\<rparr> else h);
          h = h\<lparr>h_lastSample := now,
                h_window := (h_window h)[h_nextSample h :=
                  \<lparr>smp_header = header, smp_full = full, smp_success = success\<rparr>],
                h_nextSample := (h_nextSample h + 1) mod recentWindowSize,
                h_sampleCount := (if h_sampleCount h < recentWindowSize then h_sampleCount h + 1
                                  else h_sampleCount h)\<rparr>;
          h = h\<lparr>h_stats := (h_stats h)\<lparr>RecentStats :=
                  window_summary (take (h_sampleCount h) (h_window h))\<rparr>\<rparr>;
          h = updateCostsLocked h
      in (h, h_generation h))"

section \<open>Lifetime counters\<close>

definition MergeBaseline :: "runtime_stats \<Rightarrow> stats_handle \<Rightarrow> stats_handle" where
  "MergeBaseline baseline h =
     (let h = (if h_sampleCount h = 0
               then updateCostsLocked
                      (h\<lparr>h_stats := (h_stats h)\<lparr>RecentStats := RecentStats baseline\<rparr>\<rparr>)
               else h);
          s = h_stats h;
          s = (if TotalRequests baseline > TotalRequests s
               then s\<lparr>LastStatus := LastStatus baseline,
                      LastError := normalizeLastError (LastError baseline)\<rparr> else s);
          total = (if TotalRequests baseline > TotalRequests s then TotalRequests baseline
                   else h_totalRequests h);
          s = s\<lparr>TotalRequests := max (TotalRequests baseline) (TotalRequests s),
                SuccessCount := max (SuccessCount baseline) (SuccessCount s),
                UnauthorizedCount := max (UnauthorizedCount baseline) (UnauthorizedCount s),
                ForbiddenCount := max (ForbiddenCount baseline) (ForbiddenCount s),
                RateLimitCount := max (RateLimitCount baseline) (RateLimitCount s),
                OtherErrorCount := max (OtherErrorCount baseline) (OtherErrorCount s)\<rparr>
      in h\<lparr>h_stats := s, h_totalRequests := total\<rparr>)"

definition NewRuntimeStatsHandle :: "runtime_stats \<Rightarrow> stats_handle" where
  "NewRuntimeStatsHandle initial = MergeBaseline initial zero_handle"

definition set_stats :: "runtime_stats \<Rightarrow> stats_handle \<Rightarrow> stats_handle" where
  "set_stats s h = h\<lparr>h_stats := s, h_totalRequests := TotalRequests s\<rparr>"

definition recordSuccessLocked :: "bool \<Rightarrow> stats_handle \<Rightarrow> stats_handle" where
  "recordSuccessLocked preserveLast h =
     (let s = (h_stats h)\<lparr>TotalRequests := TotalRequests (h_stats h) + 1,
                          SuccessCount := SuccessCount (h_stats h) + 1\<rparr>;
          s = (if \<not> preserveLast then s\<lparr>LastStatus := 200, LastError := []\<rparr> else s)
      in set_stats s h)"

definition recordErrorLocked :: "int \<Rightarrow> string \<Rightarrow> bool \<Rightarrow> stats_handle \<Rightarrow> stats_handle" where
  "recordErrorLocked statusCode reason preserveLast h =
     (let s = (h_stats h)\<lparr>TotalRequests := TotalRequests (h_stats h) + 1\<rparr>;
          s = (if \<not> preserveLast
               then s\<lparr>LastStatus := statusCode, LastError := normalizeLastError reason\<rparr> else s);
          s = (if statusCode = 401 then s\<lparr>UnauthorizedCount := UnauthorizedCount s + 1\<rparr>
               else if statusCode = 403 then s\<lparr>ForbiddenCount := ForbiddenCount s + 1\<rparr>
               else if statusCode = 429 then s\<lparr>RateLimitCount := RateLimitCount s + 1\<rparr>
               else if statusCode \<ge> 400 \<or> statusCode = 0
                    then s\<lparr>OtherErrorCount := OtherErrorCount s + 1\<rparr>
               else s)
      in set_stats s h)"

definition RecordInterrupted :: "stats_handle \<Rightarrow> stats_handle" where
  "RecordInterrupted h =
     set_stats ((h_stats h)\<lparr>TotalRequests := TotalRequests (h_stats h) + 1\<rparr>) h"

definition ClearLastError :: "stats_handle \<Rightarrow> stats_handle" where
  "ClearLastError h = h\<lparr>h_stats := (h_stats h)\<lparr>LastError := []\<rparr>\<rparr>"

section \<open>Bulk reset\<close>

text \<open>The reset of one handle, and \<open>ResetRuntimeStats\<close> over a list of pointers into a store of
  handles; \<open>None\<close> is the nil pointer, \<open>persist_err\<close> the result of the persistence callback.\<close>

definition reset_handle :: "stats_handle \<Rightarrow> stats_handle" where
  "reset_handle h =
     (let h = updateCostsLocked
                (h\<lparr>h_stats := zero_stats, h_totalRequests := 0,
                   h_window := replicate recentWindowSize zero_sample,
                   h_nextSample := 0, h_sampleCount := 0, h_lastSample := 0\<rparr>)
      in h\<lparr>h_generation := h_generation h + 1\<rparr>)"

fun lock_handles :: "nat list \<Rightarrow> nat list \<Rightarrow> nat option list \<Rightarrow> nat list" where
  "lock_handles seen locked [] = locked"
| "lock_handles seen locked (p # ps) =
     (case p of
        None \<Rightarrow> lock_handles seen locked ps
      | Some a \<Rightarrow> if a \<in> set seen then lock_handles seen locked ps
                  else lock_handles (a # seen) (locked @ [a]) ps)"

definition ResetRuntimeStats ::
  "nat option list \<Rightarrow> 'e option \<Rightarrow> (nat \<Rightarrow> stats_handle) \<Rightarrow> 'e option \<times> (nat \<Rightarrow> stats_handle)" where
  "ResetRuntimeStats handles persist_err hs =
     (let locked = lock_handles [] [] handles in
      case persist_err of
        Some e \<Rightarrow> (Some e, hs)
      | None \<Rightarrow> (None, fold (\<lambda>a hs. hs(a := reset_handle (hs a))) locked hs))"

section \<open>The handle invariant\<close>

text \<open>A summary of at most five attempts.\<close>

definition recent_wf :: "recent_stats \<Rightarrow> bool" where
  "recent_wf s \<longleftrightarrow> 0 \<le> RecentSuccessCount s \<and> RecentSuccessCount s \<le> RecentRequests s \<and>
     RecentRequests s \<le> int recentWindowSize"

definition ring_inv :: "stats_handle \<Rightarrow> bool" where
  "ring_inv h \<longleftrightarrow> length (h_window h) = recentWindowSize \<and> h_nextSample h < recentWindowSize \<and>
     h_sampleCount h \<le> recentWindowSize \<and>
     (h_sampleCount h < recentWindowSize \<longrightarrow> h_nextSample h = h_sampleCount h)"

definition same_costs :: "stats_handle \<Rightarrow> stats_handle \<Rightarrow> bool" where
  "same_costs g h \<longleftrightarrow> h_latencyCost g = h_latencyCost h \<and> h_successCost g = h_successCost h \<and>
     h_adaptiveCost g = h_adaptiveCost h"

text \<open>The ring is well formed, the fast counter agrees with the lifetime total, no counter is
  negative, and the stored costs are the ones \<open>updateCostsLocked\<close> computes from the summary.\<close>

definition handle_inv :: "stats_handle \<Rightarrow> bool" where
  "handle_inv h \<longleftrightarrow> ring_inv h \<and> recent_wf (RecentStats (h_stats h)) \<and>
     h_totalRequests h = TotalRequests (h_stats h) \<and> list_all (\<lambda>n. 0 \<le> n) (counters (h_stats h)) \<and>
     same_costs (updateCostsLocked h) h"

lemma updateCosts_frame [simp]:
  "h_stats (updateCostsLocked h) = h_stats h"
  "h_totalRequests (updateCostsLocked h) = h_totalRequests h"
  "h_window (updateCostsLocked h) = h_window h"
  "h_nextSample (updateCostsLocked h) = h_nextSample h"
  "h_sampleCount (updateCostsLocked h) = h_sampleCount h"
  "h_lastSample (updateCostsLocked h) = h_lastSample h"
  "h_generation (updateCostsLocked h) = h_generation h"
  by (simp_all add: updateCostsLocked_def Let_def case_prod_beta)

lemma ring_inv_updateCosts [simp]: "ring_inv (updateCostsLocked h) = ring_inv h"
  by (simp add: ring_inv_def)

text \<open>The costs read the summary, the sample count and the window only.\<close>

lemma same_costs_update:
  assumes "RecentStats (h_stats g) = RecentStats (h_stats h)" and "h_sampleCount g = h_sampleCount h"
    and "h_window g = h_window h"
  shows "same_costs (updateCostsLocked g) (updateCostsLocked h)"
proof -
  have "cost_timings g = cost_timings h" using assms unfolding cost_timings_def by (simp only:)
  with assms(1) show ?thesis
    unfolding same_costs_def updateCostsLocked_def Let_def case_prod_beta
    by (cases "RecentRequests (RecentStats (h_stats h)) > 0 \<and> RecentSuccessCount (RecentStats (h_stats h)) = 0")
       (simp_all only: if_True if_False simp_thms, simp_all)
qed

lemma same_costs_idem [simp]: "same_costs (updateCostsLocked (updateCostsLocked h)) (updateCostsLocked h)"
  by (rule same_costs_update) simp_all

lemma same_costs_trans: "same_costs f g \<Longrightarrow> same_costs g h \<Longrightarrow> same_costs f h"
  by (simp add: same_costs_def)

lemma recent_wf_zero [simp]: "recent_wf zero_recent"
  by (simp add: recent_wf_def zero_recent_def)

lemma zero_stats_fields [simp]:
  "RecentStats zero_stats = zero_recent" "TotalRequests zero_stats = 0" "LastError zero_stats = []"
  "counters zero_stats = [0, 0, 0, 0, 0, 0]"
  by (simp_all add: zero_stats_def counters_def)

lemma summary_step_fields [simp]:
  "RecentRequests (summary_step s x) = RecentRequests s"
  "RecentSuccessCount (summary_step s x) = RecentSuccessCount s + (if smp_success x then 1 else 0)"
  by (simp_all add: summary_step_def Let_def)

lemma summarize_frame [simp]: "RecentRequests (summarize s xs) = RecentRequests s"
  by (induction xs arbitrary: s) simp_all

lemma summarize_success:
  "RecentSuccessCount (summarize s xs) = RecentSuccessCount s + int (length (filter smp_success xs))"
  by (induction xs arbitrary: s) simp_all

lemma window_summary_counts [simp]:
  "RecentRequests (window_summary xs) = int (length xs)"
  "RecentSuccessCount (window_summary xs) = int (length (filter smp_success xs))"
  by (simp_all add: window_summary_def Let_def summarize_success zero_recent_def)

lemma recent_wf_window: "length xs \<le> recentWindowSize \<Longrightarrow> recent_wf (window_summary xs)"
  using length_filter_le [of smp_success xs] by (simp add: recent_wf_def)

section \<open>The ring refines the list of latest samples\<close>

definition samples :: "stats_handle \<Rightarrow> requestSample list" where
  "samples h = (if h_sampleCount h < recentWindowSize then take (h_sampleCount h) (h_window h)
                else drop (h_nextSample h) (h_window h) @ take (h_nextSample h) (h_window h))"

text \<open>The samples that still count at a clock reading: none when the latest one is stale.\<close>

definition fresh_samples :: "time \<Rightarrow> stats_handle \<Rightarrow> requestSample list" where
  "fresh_samples now h =
     (if h_lastSample h \<noteq> 0 \<and> now - h_lastSample h \<ge> sampleFreshness then [] else samples h)"

definition sample_of :: "duration \<Rightarrow> duration \<Rightarrow> bool \<Rightarrow> requestSample" where
  "sample_of header full success =
     (if success then \<lparr>smp_header = header, smp_full = full, smp_success = True\<rparr>
      else \<lparr>smp_header = failedSamplePenalty, smp_full = failedSamplePenalty, smp_success = False\<rparr>)"

text \<open>One store into the ring, without the freshness check, the summary and the costs.\<close>

definition ring_push :: "requestSample \<Rightarrow> stats_handle \<Rightarrow> stats_handle" where
  "ring_push x h = h\<lparr>h_window := (h_window h)[h_nextSample h := x],
     h_nextSample := (h_nextSample h + 1) mod recentWindowSize,
     h_sampleCount := (if h_sampleCount h < recentWindowSize then h_sampleCount h + 1
                       else h_sampleCount h)\<rparr>"

lemma length_5_cases:
  assumes "length w = recentWindowSize"
  obtains a b c d e where "w = [a, b, c, d, e]"
  using assms by (auto simp: numeral_eq_Suc length_Suc_conv)

lemma less_5_cases: "(n::nat) < recentWindowSize \<Longrightarrow> n = 0 \<or> n = 1 \<or> n = 2 \<or> n = 3 \<or> n = 4"
  by auto

lemma ring_push_inv: "ring_inv h \<Longrightarrow> ring_inv (ring_push x h)"
  by (auto simp: ring_inv_def ring_push_def)

lemma ring_push_samples:
  assumes "ring_inv h"
  shows "samples (ring_push x h) =
    (if length (samples h) < recentWindowSize then samples h else tl (samples h)) @ [x]"
proof -
  have "length (h_window h) = recentWindowSize" using assms by (simp add: ring_inv_def)
  then obtain a b c d e where w: "h_window h = [a, b, c, d, e]" by (rule length_5_cases)
  show ?thesis
  proof (cases "h_sampleCount h < recentWindowSize")
    case True
    with assms have "h_nextSample h = h_sampleCount h" by (simp add: ring_inv_def)
    with less_5_cases [OF True] w show ?thesis
      by (elim disjE) (simp_all add: samples_def ring_push_def)
  next
    case False
    with assms have "h_sampleCount h = recentWindowSize" "h_nextSample h < recentWindowSize"
      by (simp_all add: ring_inv_def)
    from less_5_cases [OF this(2)] this(1) w show ?thesis
      by (elim disjE) (simp_all add: samples_def ring_push_def)
  qed
qed

lemma samples_length: "ring_inv h \<Longrightarrow> length (samples h) = h_sampleCount h"
  by (auto simp: samples_def ring_inv_def)

lemma mset_samples: "ring_inv h \<Longrightarrow> mset (samples h) = mset (take (h_sampleCount h) (h_window h))"
proof (cases "h_sampleCount h < recentWindowSize")
  case False
  assume "ring_inv h"
  have "mset (samples h) = mset (take (h_nextSample h) (h_window h) @ drop (h_nextSample h) (h_window h))"
    using False by (simp add: samples_def del: append_take_drop_id)
  with False \<open>ring_inv h\<close> show ?thesis by (simp add: ring_inv_def)
qed (simp add: samples_def)

lemma recordSample_ring:
  "fst (recordSampleLocked header full success now h) =
     (let g = (if h_lastSample h \<noteq> 0 \<and> now - h_lastSample h \<ge> sampleFreshness
               then h\<lparr>h_sampleCount := 0, h_nextSample := 0\<rparr> else h);
          g = ring_push (sample_of header full success) (g\<lparr>h_lastSample := now\<rparr>)
      in updateCostsLocked (g\<lparr>h_stats := (h_stats g)\<lparr>RecentStats :=
           window_summary (take (h_sampleCount g) (h_window g))\<rparr>\<rparr>))"
  by (simp add: recordSampleLocked_def ring_push_def sample_of_def Let_def)

lemma recordSample_generation [simp]:
  "snd (recordSampleLocked header full success now h) = h_generation h"
  by (simp add: recordSampleLocked_def Let_def case_prod_beta)

lemma recordSample_generation_kept [simp]:
  "h_generation (fst (recordSampleLocked header full success now h)) = h_generation h"
  by (simp add: recordSampleLocked_def Let_def case_prod_beta)

lemma recordSample_counters [simp]:
  "counters (h_stats (fst (recordSampleLocked header full success now h))) = counters (h_stats h)"
  "h_totalRequests (fst (recordSampleLocked header full success now h)) = h_totalRequests h"
  "TotalRequests (h_stats (fst (recordSampleLocked header full success now h))) = TotalRequests (h_stats h)"
  "LastError (h_stats (fst (recordSampleLocked header full success now h))) = LastError (h_stats h)"
  "LastStatus (h_stats (fst (recordSampleLocked header full success now h))) = LastStatus (h_stats h)"
  by (simp_all add: recordSample_ring ring_push_def Let_def counters_def)

lemma ring_inv_frame:
  "h_window g = h_window h \<Longrightarrow> h_nextSample g = h_nextSample h \<Longrightarrow> h_sampleCount g = h_sampleCount h \<Longrightarrow>
     ring_inv g = ring_inv h \<and> samples g = samples h"
  by (simp add: ring_inv_def samples_def)

lemma recordSample_samples:
  assumes "ring_inv h"
  shows "ring_inv (fst (recordSampleLocked header full success now h)) \<and>
    samples (fst (recordSampleLocked header full success now h)) =
      (if length (fresh_samples now h) < recentWindowSize then fresh_samples now h
       else tl (fresh_samples now h)) @ [sample_of header full success]"
proof -
  define g where "g = (if h_lastSample h \<noteq> 0 \<and> now - h_lastSample h \<ge> sampleFreshness
               then h\<lparr>h_sampleCount := 0, h_nextSample := 0\<rparr> else h)"
  let ?p = "ring_push (sample_of header full success) g"
  have g: "ring_inv g" "samples g = fresh_samples now h"
    using assms by (auto simp: g_def ring_inv_def samples_def fresh_samples_def)
  let ?r = "fst (recordSampleLocked header full success now h)"
  have "h_window ?r = h_window ?p" "h_nextSample ?r = h_nextSample ?p" "h_sampleCount ?r = h_sampleCount ?p"
    by (simp_all add: recordSample_ring ring_push_def Let_def g_def)
  then have "ring_inv ?r = ring_inv ?p \<and> samples ?r = samples ?p" by (rule ring_inv_frame)
  with ring_push_inv [OF g(1)] ring_push_samples [OF g(1)] g(2) show ?thesis by simp
qed

lemma recordSample_summary:
  assumes "ring_inv h" and "h' = fst (recordSampleLocked header full success now h)"
  shows "RecentRequests (RecentStats (h_stats h')) = int (length (samples h')) \<and>
    RecentSuccessCount (RecentStats (h_stats h')) = int (length (filter smp_success (samples h')))"
proof -
  have inv: "ring_inv h'" using recordSample_samples [OF assms(1)] assms(2) by simp
  have "RecentStats (h_stats h') = window_summary (take (h_sampleCount h') (h_window h'))"
    by (simp add: assms(2) recordSample_ring Let_def)
  moreover have "length (filter smp_success (samples h')) =
      length (filter smp_success (take (h_sampleCount h') (h_window h')))"
    using mset_samples [OF inv] by (metis mset_filter size_mset)
  ultimately show ?thesis
    using inv samples_length [OF inv] by (simp add: ring_inv_def)
qed

section \<open>Every operation keeps the invariant\<close>

lemma handle_inv_updateCosts:
  "ring_inv h \<Longrightarrow> recent_wf (RecentStats (h_stats h)) \<Longrightarrow> h_totalRequests h = TotalRequests (h_stats h) \<Longrightarrow>
     list_all (\<lambda>n. 0 \<le> n) (counters (h_stats h)) \<Longrightarrow> handle_inv (updateCostsLocked h)"
  by (simp add: handle_inv_def)

lemma recordSample_inv:
  assumes "handle_inv h" shows "handle_inv (fst (recordSampleLocked header full success now h))"
proof -
  let ?r = "fst (recordSampleLocked header full success now h)"
  have ring: "ring_inv h" using assms by (simp add: handle_inv_def)
  have "ring_inv ?r" using recordSample_samples [OF ring] by simp
  moreover have "RecentStats (h_stats ?r) = window_summary (take (h_sampleCount ?r) (h_window ?r))"
    by (simp add: recordSample_ring Let_def)
  moreover have "same_costs (updateCostsLocked ?r) ?r"
    by (simp add: recordSample_ring Let_def)
  ultimately show ?thesis
    using assms by (auto simp: handle_inv_def ring_inv_def intro!: recent_wf_window)
qed

text \<open>An operation that rewrites only the lifetime counters.\<close>

lemma handle_inv_set_stats:
  assumes "handle_inv h" and "RecentStats s = RecentStats (h_stats h)"
    and "list_all (\<lambda>n. 0 \<le> n) (counters s)"
  shows "handle_inv (set_stats s h)"
proof -
  have "same_costs (updateCostsLocked (set_stats s h)) (updateCostsLocked h)"
    by (rule same_costs_update) (simp_all add: set_stats_def assms(2))
  moreover have "same_costs (updateCostsLocked h) h" using assms(1) by (simp add: handle_inv_def)
  ultimately have "same_costs (updateCostsLocked (set_stats s h)) (set_stats s h)"
    by (simp add: same_costs_def set_stats_def)
  with assms show ?thesis by (simp add: handle_inv_def set_stats_def ring_inv_def)
qed

lemma set_stats_fields [simp]:
  "h_stats (set_stats s h) = s" "h_window (set_stats s h) = h_window h"
  "h_sampleCount (set_stats s h) = h_sampleCount h" "h_nextSample (set_stats s h) = h_nextSample h"
  "h_generation (set_stats s h) = h_generation h" "h_totalRequests (set_stats s h) = TotalRequests s"
  "performanceCost strategy (set_stats s h) = performanceCost strategy h"
  by (simp_all add: set_stats_def performanceCost_def)

lemma recordSuccess_inv: "handle_inv h \<Longrightarrow> handle_inv (recordSuccessLocked preserve h)"
  unfolding recordSuccessLocked_def Let_def
  by (rule handle_inv_set_stats) (auto simp: handle_inv_def counters_def)

lemma recordError_inv: "handle_inv h \<Longrightarrow> handle_inv (recordErrorLocked code reason preserve h)"
  unfolding recordErrorLocked_def Let_def
  by (rule handle_inv_set_stats) (auto simp: handle_inv_def counters_def)

lemma RecordInterrupted_inv: "handle_inv h \<Longrightarrow> handle_inv (RecordInterrupted h)"
  unfolding RecordInterrupted_def
  by (rule handle_inv_set_stats) (auto simp: handle_inv_def counters_def)

lemma ClearLastError_eq: "handle_inv h \<Longrightarrow> ClearLastError h = set_stats ((h_stats h)\<lparr>LastError := []\<rparr>) h"
  by (simp add: ClearLastError_def set_stats_def handle_inv_def)

lemma ClearLastError_inv: "handle_inv h \<Longrightarrow> handle_inv (ClearLastError h)"
  by (subst ClearLastError_eq, assumption, rule handle_inv_set_stats)
     (auto simp: handle_inv_def counters_def)

text \<open>A baseline read from a store.\<close>

definition stats_wf :: "runtime_stats \<Rightarrow> bool" where
  "stats_wf s \<longleftrightarrow> recent_wf (RecentStats s) \<and> list_all (\<lambda>n. 0 \<le> n) (counters s)"

lemma MergeBaseline_inv:
  assumes "ring_inv h" and "h_totalRequests h = TotalRequests (h_stats h)"
    and "list_all (\<lambda>n. 0 \<le> n) (counters (h_stats h))" and "stats_wf baseline"
    and "h_sampleCount h = 0 \<or> handle_inv h"
  shows "handle_inv (MergeBaseline baseline h)"
proof -
  define g where "g = (if h_sampleCount h = 0
     then updateCostsLocked (h\<lparr>h_stats := (h_stats h)\<lparr>RecentStats := RecentStats baseline\<rparr>\<rparr>) else h)"
  have g: "handle_inv g"
  proof (cases "h_sampleCount h = 0")
    case True
    with assms(1-4) show ?thesis
      by (auto simp: g_def stats_wf_def counters_def ring_inv_def intro!: handle_inv_updateCosts)
  next
    case False
    with assms(5) show ?thesis by (simp add: g_def)
  qed
  obtain s where s: "MergeBaseline baseline h = set_stats s g" "RecentStats s = RecentStats (h_stats g)"
    "list_all (\<lambda>n. 0 \<le> n) (counters s)"
  proof
    let ?old = "h_stats g"
    let ?new = "if TotalRequests baseline > TotalRequests ?old
               then ?old\<lparr>LastStatus := LastStatus baseline,
                      LastError := normalizeLastError (LastError baseline)\<rparr> else ?old"
    let ?s = "?new\<lparr>TotalRequests := max (TotalRequests baseline) (TotalRequests ?new),
                SuccessCount := max (SuccessCount baseline) (SuccessCount ?new),
                UnauthorizedCount := max (UnauthorizedCount baseline) (UnauthorizedCount ?new),
                ForbiddenCount := max (ForbiddenCount baseline) (ForbiddenCount ?new),
                RateLimitCount := max (RateLimitCount baseline) (RateLimitCount ?new),
                OtherErrorCount := max (OtherErrorCount baseline) (OtherErrorCount ?new)\<rparr>"
    have "h_totalRequests g = TotalRequests ?old" using g by (simp add: handle_inv_def)
    then show "MergeBaseline baseline h = set_stats ?s g"
      by (cases "TotalRequests baseline > TotalRequests ?old")
         (simp_all add: MergeBaseline_def Let_def set_stats_def g_def [symmetric])
    show "RecentStats ?s = RecentStats ?old" by simp
    show "list_all (\<lambda>n. 0 \<le> n) (counters ?s)"
      using g assms(4) by (simp add: handle_inv_def stats_wf_def counters_def le_max_iff_disj)
  qed
  then show ?thesis using handle_inv_set_stats [OF g] by simp
qed

lemma NewRuntimeStatsHandle_inv: "stats_wf s \<Longrightarrow> handle_inv (NewRuntimeStatsHandle s)"
  unfolding NewRuntimeStatsHandle_def
  by (rule MergeBaseline_inv) (auto simp: zero_handle_def ring_inv_def)

lemma reset_handle_inv: "handle_inv (reset_handle h)"
proof -
  let ?h = "h\<lparr>h_stats := zero_stats, h_totalRequests := 0,
                   h_window := replicate recentWindowSize zero_sample,
                   h_nextSample := 0, h_sampleCount := 0, h_lastSample := 0\<rparr>"
  let ?g = "updateCostsLocked ?h"
  have g: "handle_inv ?g" by (rule handle_inv_updateCosts) (simp_all add: ring_inv_def)
  have "same_costs (updateCostsLocked (?g\<lparr>h_generation := n\<rparr>)) (updateCostsLocked ?g)" for n
    by (rule same_costs_update) simp_all
  with g have "handle_inv (?g\<lparr>h_generation := n\<rparr>)" for n
    by (auto simp: handle_inv_def ring_inv_def same_costs_def)
  then show ?thesis by (simp add: reset_handle_def Let_def)
qed

section \<open>Bounds of the scheduling costs\<close>

text \<open>The window that has finished attempts and no success among them.\<close>

definition all_failed :: "stats_handle \<Rightarrow> bool" where
  "all_failed h \<longleftrightarrow> RecentRequests (RecentStats (h_stats h)) > 0 \<and>
     RecentSuccessCount (RecentStats (h_stats h)) = 0"

text \<open>Rounded quotients and products between representable bounds.\<close>

lemma fdiv_between:
  assumes "0 \<le> a" and "a \<le> x" and "x \<le> b" and "0 < c" and "c \<le> y" and "y \<le> d"
    and "fl (a / d) = a / d" and "fl (b / c) = b / c"
  shows "a / d \<le> fdiv x y \<and> fdiv x y \<le> b / c"
proof -
  have "a / d \<le> x / y" "x / y \<le> b / c" using assms(1-6) by (auto intro!: frac_le)
  then have "fl (a / d) \<le> fl (x / y) \<and> fl (x / y) \<le> fl (b / c)" by (simp add: fl_mono)
  with assms(7,8) show ?thesis by (simp add: fdiv_def)
qed

lemma fmul_between:
  assumes "0 \<le> a" and "a \<le> x" and "x \<le> b" and "0 \<le> c" and "c \<le> y" and "y \<le> d"
    and "fl (a * c) = a * c" and "fl (b * d) = b * d"
  shows "a * c \<le> fmul x y \<and> fmul x y \<le> b * d"
proof -
  have "a * c \<le> x * y" "x * y \<le> b * d" using assms(1-6) by (auto intro!: mult_mono)
  then have "fl (a * c) \<le> fl (x * y) \<and> fl (x * y) \<le> fl (b * d)" by (simp add: fl_mono)
  with assms(7,8) show ?thesis by (simp add: fmul_def)
qed

lemma float64_small: "0 \<le> n \<Longrightarrow> n \<le> 100 \<Longrightarrow> float64 n = of_int n"
  by (simp add: float64_def fl_nonneg_int)

lemma success_rate_bounds:
  assumes "recent_wf s" and "\<not> (RecentRequests s > 0 \<and> RecentSuccessCount s = 0)"
  shows "1 / 4 \<le> fdiv (float64 (RecentSuccessCount s + 1)) (float64 (RecentRequests s + 2)) \<and>
         fdiv (float64 (RecentSuccessCount s + 1)) (float64 (RecentRequests s + 2)) \<le> 1"
proof -
  let ?k = "RecentSuccessCount s" and ?n = "RecentRequests s"
  have k: "0 \<le> ?k" "?k \<le> ?n" "?n \<le> 5" using assms(1) by (simp_all add: recent_wf_def)
  have "?n + 2 \<le> 4 * (?k + 1)" using k assms(2) by auto
  then have "(of_int (?n + 2) :: rat) \<le> 4 * of_int (?k + 1)"
    by (metis of_int_le_iff of_int_mult of_int_numeral)
  moreover have "(of_int (?k + 1) :: rat) \<le> of_int (?n + 2)" "(0 :: rat) < of_int (?n + 2)"
    using k by (simp_all only: of_int_le_iff of_int_0_less_iff)
  ultimately have "1 / 4 \<le> of_int (?k + 1) / (of_int (?n + 2) :: rat)"
      "of_int (?k + 1) / (of_int (?n + 2) :: rat) \<le> 1"
    by (simp_all add: pos_le_divide_eq pos_divide_le_eq del: of_int_add)
  then have "fl (1 / 4) \<le> fl (of_int (?k + 1) / of_int (?n + 2))" "fl (of_int (?k + 1) / of_int (?n + 2)) \<le> fl 1"
    by (simp_all only: fl_mono)
  with k show ?thesis by (simp add: fdiv_def float64_small)
qed

lemma clamp_bounds:
  "1 \<le> max (1::rat) (min x 3600000)" "max (1::rat) (min x 3600000) \<le> 3600000"
  by auto

lemma tenths: "1 / 4 \<le> fl (7 / 10)" "fl (7 / 10) \<le> 1" "0 \<le> fl (3 / 10)" "fl (3 / 10) \<le> 1"
  using fl_mono [of "1 / 4" "7 / 10"] fl_le_1 [of "7 / 10"] fl_ge_0 [of "3 / 10"] fl_le_1 [of "3 / 10"]
  by simp_all

lemma updateCosts_bounds:
  assumes wf: "recent_wf (RecentStats (h_stats h))" and ok: "\<not> all_failed h"
  shows "1 \<le> h_latencyCost (updateCostsLocked h) \<and> h_latencyCost (updateCostsLocked h) \<le> 14400000"
    and "1 \<le> h_successCost (updateCostsLocked h) \<and> h_successCost (updateCostsLocked h) \<le> 16"
    and "1 / 4 \<le> h_adaptiveCost (updateCostsLocked h) \<and> h_adaptiveCost (updateCostsLocked h) \<le> 115200000"
proof -
  define p where "p = fdiv (float64 (RecentSuccessCount (RecentStats (h_stats h)) + 1))
                           (float64 (RecentRequests (RecentStats (h_stats h)) + 2))"
  define hd where "hd = max 1 (min (fst (cost_timings h)) 3600000)"
  define fu where "fu = max hd (min (snd (cost_timings h)) 3600000)"
  have p: "1 / 4 \<le> p" "p \<le> 1"
    using success_rate_bounds [OF wf] ok by (simp_all add: p_def all_failed_def)
  have hd: "1 \<le> hd" "hd \<le> 3600000" by (simp_all add: hd_def)
  have fu: "1 \<le> fu" "fu \<le> 3600000" using hd by (auto simp: fu_def)
  have pp: "1 / 16 \<le> fmul p p" "fmul p p \<le> 1"
    using fmul_between [of "1 / 4" p 1 "1 / 4" p 1] p by simp_all
  let ?a = "fmul (fl (7 / 10)) hd" and ?b = "fmul (fl (3 / 10)) fu"
  have a: "1 / 4 \<le> ?a" "?a \<le> 3600000"
    using fmul_between [of "1 / 4" "fl (7 / 10)" 1 1 hd 3600000] hd tenths by simp_all
  have b: "0 \<le> ?b" "?b \<le> 3600000"
    using fmul_between [of 0 "fl (3 / 10)" 1 1 fu 3600000] fu tenths by simp_all
  have ab: "1 / 4 \<le> fadd ?a ?b" "fadd ?a ?b \<le> 7200000"
    using fl_mono [of "1 / 4" "?a + ?b"] fl_le_numeral [of "?a + ?b"] a b by (simp_all add: fadd_def)
  have eq: "h_latencyCost (updateCostsLocked h) = fdiv hd p"
    "h_successCost (updateCostsLocked h) = fdiv 1 (fmul p p)"
    "h_adaptiveCost (updateCostsLocked h) = fdiv (fadd ?a ?b) (fmul p p)"
    using ok unfolding updateCostsLocked_def all_failed_def Let_def case_prod_beta p_def hd_def fu_def
    by (simp_all only: if_False) simp_all
  show "1 \<le> h_latencyCost (updateCostsLocked h) \<and> h_latencyCost (updateCostsLocked h) \<le> 14400000"
    using fdiv_between [of 1 hd 3600000 "1 / 4" p 1] hd p unfolding eq by simp
  show "1 \<le> h_successCost (updateCostsLocked h) \<and> h_successCost (updateCostsLocked h) \<le> 16"
    using fdiv_between [of 1 1 1 "1 / 16" "fmul p p" 1] pp unfolding eq by simp
  show "1 / 4 \<le> h_adaptiveCost (updateCostsLocked h) \<and> h_adaptiveCost (updateCostsLocked h) \<le> 115200000"
    using fdiv_between [of "1 / 4" "fadd ?a ?b" 7200000 "1 / 16" "fmul p p" 1] ab pp unfolding eq by simp
qed

lemma updateCosts_failed:
  "all_failed h \<Longrightarrow> performanceCost strategy (updateCostsLocked h) = 1000000000000"
  by (simp add: updateCostsLocked_def all_failed_def performanceCost_def)

lemma performanceCost_same: "same_costs g h \<Longrightarrow> performanceCost strategy g = performanceCost strategy h"
  by (simp add: same_costs_def performanceCost_def)

lemma performanceCost_failed: "handle_inv h \<Longrightarrow> all_failed h \<Longrightarrow> performanceCost strategy h = 1000000000000"
  using updateCosts_failed [of h strategy] performanceCost_same [of "updateCostsLocked h" h strategy]
  by (simp add: handle_inv_def)

lemma performanceCost_alive:
  assumes "handle_inv h" and "\<not> all_failed h"
  shows "1 / 4 \<le> performanceCost strategy h" and "performanceCost strategy h \<le> 115200000"
proof -
  have wf: "recent_wf (RecentStats (h_stats h))" and same: "same_costs (updateCostsLocked h) h"
    using assms(1) by (simp_all add: handle_inv_def)
  note b = updateCosts_bounds [OF wf assms(2)]
  have "1 / 4 \<le> performanceCost strategy (updateCostsLocked h) \<and>
        performanceCost strategy (updateCostsLocked h) \<le> 115200000"
    using b by (auto simp: performanceCost_def)
  with performanceCost_same [OF same] show "1 / 4 \<le> performanceCost strategy h"
    and "performanceCost strategy h \<le> 115200000" by simp_all
qed


section \<open>Properties of a handle\<close>

text \<open>A concrete handle for the witnesses: two finished attempts after an empty baseline.\<close>

definition sample_handle :: stats_handle where
  "sample_handle = fst (recordSampleLocked (200 * millisecond) (300 * millisecond) True second
     (NewRuntimeStatsHandle zero_stats))"

definition failed_handle :: stats_handle where
  "failed_handle = fst (recordSampleLocked (200 * millisecond) (300 * millisecond) False second
     (NewRuntimeStatsHandle zero_stats))"

lemma stats_wf_zero [simp]: "stats_wf zero_stats"
  by (simp add: stats_wf_def)

lemma sample_handle_inv [simp]: "handle_inv sample_handle" "handle_inv failed_handle"
  by (simp_all add: sample_handle_def failed_handle_def recordSample_inv NewRuntimeStatsHandle_inv)

lemma sample_handle_samples:
  "samples sample_handle = [sample_of (200 * millisecond) (300 * millisecond) True]"
  "samples failed_handle = [sample_of 0 0 False]"
proof -
  let ?z = "NewRuntimeStatsHandle zero_stats"
  have z: "ring_inv ?z" using NewRuntimeStatsHandle_inv [of zero_stats] by (simp add: handle_inv_def)
  have "samples ?z = []"
    by (simp add: NewRuntimeStatsHandle_def MergeBaseline_def zero_handle_def samples_def Let_def)
  then have "fresh_samples second ?z = []" by (simp add: fresh_samples_def)
  then show "samples sample_handle = [sample_of (200 * millisecond) (300 * millisecond) True]"
    "samples failed_handle = [sample_of 0 0 False]"
    using recordSample_samples [OF z] by (simp_all add: sample_handle_def failed_handle_def sample_of_def)
qed

lemma sample_handle_counts:
  "\<not> all_failed sample_handle" "all_failed failed_handle"
proof -
  have z: "ring_inv (NewRuntimeStatsHandle zero_stats)"
    using NewRuntimeStatsHandle_inv [of zero_stats] by (simp add: handle_inv_def)
  show "\<not> all_failed sample_handle" "all_failed failed_handle"
    using recordSample_summary [OF z sample_handle_def] recordSample_summary [OF z failed_handle_def]
      sample_handle_samples by (simp_all add: all_failed_def sample_of_def)
qed

text \<open>C34: The ring of a handle behaves as the list of its latest attempts: recording an attempt
  first drops everything when the latest sample is five minutes old, then drops the oldest of
  five, then appends the attempt, a failure with the fixed 999 s penalty instead of its timings;
  and the published summary counts exactly the attempts and successes of that list.\<close>

theorem sample_window_refines_list:
  assumes "ring_inv h" and "h' = fst (recordSampleLocked header full success now h)"
    and "kept = (if h_lastSample h \<noteq> 0 \<and> now - h_lastSample h \<ge> sampleFreshness then [] else samples h)"
  shows "samples h' = (if length kept < recentWindowSize then kept else tl kept) @
      [if success then \<lparr>smp_header = header, smp_full = full, smp_success = True\<rparr>
       else \<lparr>smp_header = failedSamplePenalty, smp_full = failedSamplePenalty, smp_success = False\<rparr>] \<and>
    ring_inv h' \<and> length (samples h') \<le> recentWindowSize \<and>
    RecentRequests (RecentStats (h_stats h')) = int (length (samples h')) \<and>
    RecentSuccessCount (RecentStats (h_stats h')) = int (length (filter smp_success (samples h')))"
proof -
  have kept: "kept = fresh_samples now h" by (simp add: assms(3) fresh_samples_def)
  note r = recordSample_samples [OF assms(1), of header full success now, folded assms(2)]
  then have "ring_inv h'" by simp
  then have "length (samples h') \<le> recentWindowSize"
    using samples_length [of h'] by (simp add: ring_inv_def)
  with r recordSample_summary [OF assms(1,2)] show ?thesis by (simp add: kept sample_of_def)
qed

theorem sample_window_refines_list_witness:
  "let h' = fst (recordSampleLocked 7 9 True (second + 2) failed_handle) in
   samples h' = [sample_of 0 0 False, \<lparr>smp_header = 7, smp_full = 9, smp_success = True\<rparr>] \<and>
   RecentSuccessCount (RecentStats (h_stats h')) = 1"
proof -
  have inv: "ring_inv failed_handle" using sample_handle_inv(2) by (simp add: handle_inv_def)
  have "h_lastSample failed_handle = second"
    by (simp add: failed_handle_def recordSample_ring ring_push_def Let_def)
  then have kept: "[sample_of 0 0 False] = (if h_lastSample failed_handle \<noteq> 0 \<and>
      (second + 2) - h_lastSample failed_handle \<ge> sampleFreshness then [] else samples failed_handle)"
    using sample_handle_samples(2) by simp
  note w = sample_window_refines_list [OF inv refl kept, of 7 9 True]
  from w show ?thesis by (simp add: Let_def sample_of_def)
qed

text \<open>C35: The scheduling cost of a handle, under every performance strategy, is \<open>10\<^sup>1\<^sup>2\<close> exactly
  when its window has attempts and no success, and lies between 1/4 and 115200000 otherwise, so
  with float64 rounding included a key whose recent attempts all failed ranks behind every other
  key of equal load, and a cost is never zero or negative.\<close>

theorem performance_cost_bounds:
  assumes "handle_inv h"
  shows "(performanceCost strategy h = 1000000000000 \<longleftrightarrow> all_failed h) \<and>
    (\<not> all_failed h \<longrightarrow> 1 / 4 \<le> performanceCost strategy h \<and> performanceCost strategy h \<le> 115200000) \<and>
    (handle_inv g \<and> all_failed h \<and> \<not> all_failed g \<longrightarrow>
       performanceCost strategy g < performanceCost strategy h)"
proof (cases "all_failed h")
  case True
  then have "performanceCost strategy h = 1000000000000" by (rule performanceCost_failed [OF assms])
  with True performanceCost_alive(2) [of g strategy] show ?thesis by fastforce
next
  case False
  with performanceCost_alive [OF assms False, of strategy] show ?thesis by simp
qed

theorem performance_cost_bounds_witness:
  "performanceCost ''adaptive'' sample_handle < performanceCost ''adaptive'' failed_handle \<and>
   performanceCost ''lowest_latency'' failed_handle = 1000000000000"
  using performance_cost_bounds [OF sample_handle_inv(2)] sample_handle_inv(1) sample_handle_counts
  by blast

text \<open>Every settled attempt is counted once and in one class: a success, a 401, a 403, a 429,
  any other error (status 400 and above, or 0 for no response), or, for an interrupted attempt
  and for an error reported below 400, the unclassified rest that \<open>InterruptedCount\<close> reports.\<close>

theorem attempt_counters_classify:
  assumes "s = h_stats h" and "SuccessCount s + UnauthorizedCount s + ForbiddenCount s +
    RateLimitCount s + OtherErrorCount s \<le> TotalRequests s"
  shows "counters (h_stats (recordSuccessLocked preserve h)) =
      [TotalRequests s + 1, SuccessCount s + 1, UnauthorizedCount s, ForbiddenCount s,
       RateLimitCount s, OtherErrorCount s] \<and>
    counters (h_stats (recordErrorLocked code reason preserve h)) =
      [TotalRequests s + 1, SuccessCount s, UnauthorizedCount s + (if code = 401 then 1 else 0),
       ForbiddenCount s + (if code = 403 then 1 else 0), RateLimitCount s + (if code = 429 then 1 else 0),
       OtherErrorCount s + (if code \<notin> {401, 403, 429} \<and> (code \<ge> 400 \<or> code = 0) then 1 else 0)] \<and>
    InterruptedCount (h_stats (RecordInterrupted h)) = InterruptedCount s + 1 \<and>
    InterruptedCount (h_stats (recordSuccessLocked preserve h)) = InterruptedCount s \<and>
    InterruptedCount (h_stats (recordErrorLocked code reason preserve h)) =
      InterruptedCount s + (if code < 400 \<and> code \<noteq> 0 then 1 else 0)"
  using assms
  by (simp add: recordSuccessLocked_def recordErrorLocked_def RecordInterrupted_def Let_def
      counters_def InterruptedCount_def)

theorem attempt_counters_classify_witness:
  "InterruptedCount (h_stats (RecordInterrupted zero_handle)) = 1 \<and>
   counters (h_stats (recordErrorLocked 429 ''slow down'' False zero_handle)) = [1, 0, 0, 0, 1, 0]"
  using attempt_counters_classify [OF refl, of zero_handle False 429 "''slow down''"]
  by (simp add: zero_handle_def zero_stats_def InterruptedCount_def)

text \<open>The set of handles a bulk reset locks.\<close>

lemma lock_handles_spec:
  "set locked = set seen \<Longrightarrow> distinct locked \<Longrightarrow>
     set (lock_handles seen locked ps) = set locked \<union> {a. Some a \<in> set ps} \<and>
     distinct (lock_handles seen locked ps)"
proof (induction seen locked ps rule: lock_handles.induct)
  case (2 seen locked p ps)
  then show ?case by (cases p) auto
qed simp

lemma fold_upd_distinct:
  "distinct as \<Longrightarrow> fold (\<lambda>a hs. hs(a := f (hs a))) as hs = (\<lambda>a. if a \<in> set as then f (hs a) else hs a)"
  by (induction as arbitrary: hs) auto

text \<open>A bulk statistics reset is all or nothing: when persisting fails the error is returned
  and no handle changes; when it succeeds every handle named in the list, however often, is reset
  exactly once to zero counters and an empty window with its generation raised by one, keeping its
  invariant, and every other handle is untouched.\<close>

theorem reset_all_or_nothing:
  "ResetRuntimeStats handles (Some e) hs = (Some e, hs) \<and>
   ResetRuntimeStats handles (None :: 'e option) hs =
     (None, \<lambda>a. if Some a \<in> set handles then reset_handle (hs a) else hs a) \<and>
   h_stats (reset_handle h) = zero_stats \<and> h_totalRequests (reset_handle h) = 0 \<and>
   samples (reset_handle h) = [] \<and> h_generation (reset_handle h) = h_generation h + 1 \<and>
   handle_inv (reset_handle h)"
proof -
  have "ResetRuntimeStats handles (None :: 'e option) hs =
     (None, \<lambda>a. if Some a \<in> set handles then reset_handle (hs a) else hs a)"
    using lock_handles_spec [of "[]" "[]" handles] by (simp add: ResetRuntimeStats_def fold_upd_distinct)
  moreover have "h_stats (reset_handle h) = zero_stats \<and> h_totalRequests (reset_handle h) = 0 \<and>
     samples (reset_handle h) = [] \<and> h_generation (reset_handle h) = h_generation h + 1"
    by (simp add: reset_handle_def samples_def)
  ultimately show ?thesis using reset_handle_inv [of h] by (simp add: ResetRuntimeStats_def)
qed

end
