(* ===== verification/Pool.thy ===== *)
theory Pool
  imports StatsHandle
begin

text \<open>
  The key pool of \<open>internal/balancer/pool.go\<close>, \<open>attempt_result.go\<close> and the pool part of
  \<open>performance.go\<close>: selection of a key by strategy, settlement of attempts, cooldown and
  disabling, and the hand-over of live state between router generations.

  Key states, statistics handles, exploration credits and mutexes are shared by pointer between
  the pools of overlapping router generations, so they live in an explicit heap and a pool holds
  addresses.  An operation that the code runs under the pool mutex is one function on the heap.
  The clock readings and the random number are arguments; a nil \<open>allowed\<close> slice is \<open>None\<close>, a
  missing \<open>expectedVersion\<close> is \<open>None\<close>.  A key state always has a statistics handle, as
  \<open>NewPoolWithConfigs\<close> makes them, so the nil branches on \<open>stats\<close> do not occur.
\<close>

section \<open>State\<close>

record KeyConfig =
  kc_Key :: string
  kc_Status :: string
  kc_DisableReason :: string
  kc_DisabledAt :: "time option"
  kc_DisabledBy :: string
  kc_RuntimeStats :: runtime_stats
  kc_Version :: int
  kc_Stats :: "nat option"

record KeyState =
  ks_Key :: string
  ks_Status :: string
  ks_DisableReason :: string
  ks_DisabledAt :: "time option"
  ks_DisabledBy :: string
  ks_RuntimeStats :: runtime_stats
  ks_Version :: int
  ks_Inflight :: int
  ks_Failures :: int
  ks_CooldownUntil :: time
  ks_CooldownLevel :: int
  ks_stats :: nat
  ks_retired :: bool
  ks_lastAttempt :: duration
  ks_sampleExpires :: duration
  ks_nextExplore :: duration
  ks_liveSamples :: int
  ks_failedSamples :: int
  ks_statsGeneration :: int

record loadScore =
  sc_primary :: int
  sc_secondary :: int
  sc_cost :: rat

record Pool =
  pl_strategy :: string
  pl_keys :: "nat list"
  pl_rrIdx :: int
  pl_exploration :: nat
  pl_mu :: nat

text \<open>The shared objects; \<open>hp_next\<close> is the first address not yet allocated and \<open>hp_epoch\<close> the
  package variable \<open>schedulerEpoch\<close>.\<close>

record heap =
  hp_keys :: "nat \<Rightarrow> KeyState"
  hp_handles :: "nat \<Rightarrow> stats_handle"
  hp_credit :: "nat \<Rightarrow> int"
  hp_next :: nat
  hp_epoch :: time

abbreviation explorationInterval :: int where
  "explorationInterval \<equiv> 10"

definition score_less :: "loadScore \<Rightarrow> loadScore \<Rightarrow> bool" where
  "score_less s other =
     (if sc_cost s \<noteq> sc_cost other then sc_cost s < sc_cost other
      else if sc_primary s \<noteq> sc_primary other then sc_primary s < sc_primary other
      else sc_secondary s < sc_secondary other)"

abbreviation num_keys :: "Pool \<Rightarrow> int" where
  "num_keys p \<equiv> int (length (pl_keys p))"

definition in_range :: "Pool \<Rightarrow> int \<Rightarrow> bool" where
  "in_range p idx \<longleftrightarrow> \<not> (idx < 0 \<or> idx \<ge> num_keys p)"

abbreviation key_addr :: "Pool \<Rightarrow> int \<Rightarrow> nat" where
  "key_addr p idx \<equiv> pl_keys p ! nat idx"

abbreviation key_at :: "Pool \<Rightarrow> heap \<Rightarrow> int \<Rightarrow> KeyState" where
  "key_at p hp idx \<equiv> hp_keys hp (key_addr p idx)"

abbreviation handle_at :: "Pool \<Rightarrow> heap \<Rightarrow> int \<Rightarrow> stats_handle" where
  "handle_at p hp idx \<equiv> hp_handles hp (ks_stats (key_at p hp idx))"

definition upd_key :: "Pool \<Rightarrow> int \<Rightarrow> (KeyState \<Rightarrow> KeyState) \<Rightarrow> heap \<Rightarrow> heap" where
  "upd_key p idx f hp = hp\<lparr>hp_keys := (hp_keys hp)(key_addr p idx := f (key_at p hp idx))\<rparr>"

definition upd_handle :: "Pool \<Rightarrow> int \<Rightarrow> (stats_handle \<Rightarrow> stats_handle) \<Rightarrow> heap \<Rightarrow> heap" where
  "upd_handle p idx f hp =
     hp\<lparr>hp_handles := (hp_handles hp)(ks_stats (key_at p hp idx) := f (handle_at p hp idx))\<rparr>"

section \<open>Construction\<close>

definition new_key_state :: "KeyConfig \<Rightarrow> string \<Rightarrow> nat \<Rightarrow> duration \<Rightarrow> KeyState" where
  "new_key_state cfg key stats createdAt =
     \<lparr>ks_Key = key, ks_Status = NormalizeStatus (kc_Status cfg),
      ks_DisableReason = trim_space (kc_DisableReason cfg), ks_DisabledAt = kc_DisabledAt cfg,
      ks_DisabledBy = trim_space (kc_DisabledBy cfg), ks_RuntimeStats = zero_stats,
      ks_Version = kc_Version cfg, ks_Inflight = 0, ks_Failures = 0, ks_CooldownUntil = 0,
      ks_CooldownLevel = 0, ks_stats = stats, ks_retired = False, ks_lastAttempt = min_int64,
      ks_sampleExpires = createdAt + sampleFreshness, ks_nextExplore = min_int64,
      ks_liveSamples = 0, ks_failedSamples = 0, ks_statsGeneration = 0\<rparr>"

text \<open>The loop of \<open>NewPoolWithConfigs\<close>: \<open>states\<close> are the addresses allocated so far.\<close>

fun new_states :: "duration \<Rightarrow> KeyConfig list \<Rightarrow> nat list \<Rightarrow> heap \<Rightarrow> nat list \<times> heap" where
  "new_states createdAt [] states hp = (states, hp)"
| "new_states createdAt (cfg # cfgs) states hp =
     (let key = trim_space (kc_Key cfg) in
      if key = [] then new_states createdAt cfgs states hp
      else
        let (stats, hp) =
              (case kc_Stats cfg of
                 Some a \<Rightarrow> (a, hp)
               | None \<Rightarrow> (hp_next hp,
                   hp\<lparr>hp_handles := (hp_handles hp)(hp_next hp := NewRuntimeStatsHandle (kc_RuntimeStats cfg)),
                      hp_next := hp_next hp + 1\<rparr>));
            a = hp_next hp;
            hp = hp\<lparr>hp_keys := (hp_keys hp)(a := new_key_state cfg key stats createdAt), hp_next := a + 1\<rparr>
        in new_states createdAt cfgs (states @ [a]) hp)"

definition strategies :: "string list" where
  "strategies = [''round_robin'', ''random'', ''least_used'', ''least_requests'', ''lowest_latency'',
     ''highest_success'', ''adaptive'']"

definition NewPoolWithConfigs :: "time \<Rightarrow> string \<Rightarrow> KeyConfig list \<Rightarrow> heap \<Rightarrow> Pool option \<times> heap" where
  "NewPoolWithConfigs now strategy keys hp =
     (if strategy \<notin> set strategies then (None, hp)
      else
        let createdAt = now - hp_epoch hp;
            (states, hp) = new_states createdAt keys [] hp;
            a = hp_next hp;
            hp = hp\<lparr>hp_credit := (hp_credit hp)(a := 0), hp_next := a + 2\<rparr>
        in (Some \<lparr>pl_strategy = strategy, pl_keys = states, pl_rrIdx = 0, pl_exploration = a,
                  pl_mu = a + 1\<rparr>, hp))"

definition NewPool :: "time \<Rightarrow> string \<Rightarrow> string list \<Rightarrow> heap \<Rightarrow> Pool option \<times> heap" where
  "NewPool now strategy keys hp =
     NewPoolWithConfigs now strategy
       (map (\<lambda>key. \<lparr>kc_Key = key, kc_Status = KeyStatusActive, kc_DisableReason = [],
          kc_DisabledAt = None, kc_DisabledBy = [], kc_RuntimeStats = zero_stats, kc_Version = 0,
          kc_Stats = None\<rparr>) keys) hp"

section \<open>Selection\<close>

definition isAvailableLocked :: "Pool \<Rightarrow> heap \<Rightarrow> int \<Rightarrow> time \<Rightarrow> int set \<Rightarrow> bool" where
  "isAvailableLocked p hp idx now excluded =
     (if idx < 0 \<or> idx \<ge> num_keys p then False
      else if idx \<in> excluded then False
      else if ks_retired (key_at p hp idx) \<or> \<not> IsActiveStatus (ks_Status (key_at p hp idx)) then False
      else \<not> ks_CooldownUntil (key_at p hp idx) > now)"

definition totalRequestsLocked :: "Pool \<Rightarrow> heap \<Rightarrow> int \<Rightarrow> int" where
  "totalRequestsLocked p hp idx =
     (if idx < 0 \<or> idx \<ge> num_keys p then 0 else h_totalRequests (handle_at p hp idx))"

text \<open>The indexes a scan visits: all of them, in order, or the allowlist.\<close>

definition scan_order :: "Pool \<Rightarrow> int list option \<Rightarrow> int list" where
  "scan_order p allowed = (case allowed of None \<Rightarrow> [0..num_keys p - 1] | Some xs \<Rightarrow> xs)"

fun rr_best :: "(int \<Rightarrow> bool) \<Rightarrow> int \<Rightarrow> int \<Rightarrow> int \<times> int \<Rightarrow> int list \<Rightarrow> int" where
  "rr_best avail rr n (best, bestDistance) [] = best"
| "rr_best avail rr n (best, bestDistance) (candidate # rest) =
     (if \<not> avail candidate then rr_best avail rr n (best, bestDistance) rest
      else
        let distance = (candidate - rr + n) mod n in
        if distance < bestDistance then rr_best avail rr n (candidate, distance) rest
        else rr_best avail rr n (best, bestDistance) rest)"

definition pickRoundRobinLocked ::
  "time \<Rightarrow> int set \<Rightarrow> int list option \<Rightarrow> heap \<Rightarrow> Pool \<Rightarrow> int option \<times> Pool" where
  "pickRoundRobinLocked now excluded allowed hp p =
     (let n = num_keys p in
      if n = 0 \<or> allowed = Some [] then (None, p)
      else
        case allowed of
          None \<Rightarrow>
            (case find (\<lambda>candidate. isAvailableLocked p hp candidate now excluded)
                       (map (\<lambda>try. (pl_rrIdx p + try) mod n) [0..n - 1]) of
               None \<Rightarrow> (None, p)
             | Some candidate \<Rightarrow> (Some candidate, p\<lparr>pl_rrIdx := (candidate + 1) mod n\<rparr>))
        | Some xs \<Rightarrow>
            (let best = rr_best (\<lambda>candidate. isAvailableLocked p hp candidate now excluded)
                          (pl_rrIdx p) n (- 1, n + 1) xs
             in if best \<ge> 0 then (Some best, p\<lparr>pl_rrIdx := (best + 1) mod n\<rparr>) else (None, p)))"

text \<open>\<open>rng.Intn(k)\<close> is \<open>choice mod k\<close> for an arbitrary \<open>choice\<close>.\<close>

definition pickRandomLocked ::
  "nat \<Rightarrow> time \<Rightarrow> int set \<Rightarrow> int list option \<Rightarrow> heap \<Rightarrow> Pool \<Rightarrow> int option" where
  "pickRandomLocked choice now excluded allowed hp p =
     (if num_keys p = 0 then None
      else
        let scratch = filter (\<lambda>i. isAvailableLocked p hp i now excluded) (scan_order p allowed) in
        if length scratch = 0 then None else Some (scratch ! (choice mod length scratch)))"

fun score_best ::
  "(int \<Rightarrow> bool) \<Rightarrow> (int \<Rightarrow> loadScore) \<Rightarrow> int \<Rightarrow> int \<Rightarrow> int \<times> loadScore \<times> int \<Rightarrow> int list \<Rightarrow> int" where
  "score_best avail scoref rr n (best, bestScore, bestDistance) [] = best"
| "score_best avail scoref rr n (best, bestScore, bestDistance) (candidate # rest) =
     (if \<not> avail candidate then score_best avail scoref rr n (best, bestScore, bestDistance) rest
      else
        let score = scoref candidate;
            distance = (candidate - rr + n) mod n
        in if best < 0 \<or> score_less score bestScore \<or> score = bestScore \<and> distance < bestDistance
           then score_best avail scoref rr n (candidate, score, distance) rest
           else score_best avail scoref rr n (best, bestScore, bestDistance) rest)"

definition zero_score :: loadScore where
  "zero_score = \<lparr>sc_primary = 0, sc_secondary = 0, sc_cost = 0\<rparr>"

definition pickByScoreLocked ::
  "time \<Rightarrow> int set \<Rightarrow> int list option \<Rightarrow> (int \<Rightarrow> loadScore) \<Rightarrow> heap \<Rightarrow> Pool \<Rightarrow> int option \<times> Pool" where
  "pickByScoreLocked now excluded allowed scoref hp p =
     (let n = num_keys p in
      if n = 0 then (None, p)
      else
        let order = (case allowed of
                       None \<Rightarrow> (let start = pl_rrIdx p mod n in
                                map (\<lambda>offset. (start + offset) mod n) [0..n - 1])
                     | Some xs \<Rightarrow> xs);
            best = score_best (\<lambda>candidate. isAvailableLocked p hp candidate now excluded) scoref
                     (pl_rrIdx p) n (- 1, zero_score, n + 1) order
        in if best < 0 then (None, p) else (Some best, p\<lparr>pl_rrIdx := (best + 1) mod n\<rparr>))"

definition leastUsedScore :: "Pool \<Rightarrow> heap \<Rightarrow> int \<Rightarrow> loadScore" where
  "leastUsedScore p hp i =
     \<lparr>sc_primary = ks_Inflight (key_at p hp i), sc_secondary = totalRequestsLocked p hp i, sc_cost = 0\<rparr>"

definition leastRequestsScore :: "Pool \<Rightarrow> heap \<Rightarrow> int \<Rightarrow> loadScore" where
  "leastRequestsScore p hp i =
     \<lparr>sc_primary = totalRequestsLocked p hp i + ks_Inflight (key_at p hp i),
      sc_secondary = ks_Inflight (key_at p hp i), sc_cost = 0\<rparr>"

section \<open>Performance strategies\<close>

definition syncStatsGeneration :: "int \<Rightarrow> duration \<Rightarrow> KeyState \<Rightarrow> KeyState" where
  "syncStatsGeneration generation tick state =
     (if ks_statsGeneration state = generation then state
      else state\<lparr>ks_statsGeneration := generation, ks_lastAttempt := min_int64,
                 ks_nextExplore := min_int64, ks_sampleExpires := tick + sampleFreshness,
                 ks_liveSamples := 0, ks_failedSamples := 0\<rparr>)"

definition noteSample :: "int \<Rightarrow> duration \<Rightarrow> bool \<Rightarrow> KeyState \<Rightarrow> KeyState" where
  "noteSample generation tick success state =
     (let state = syncStatsGeneration generation tick state;
          state = (if tick \<ge> ks_sampleExpires state then state\<lparr>ks_liveSamples := 0\<rparr> else state);
          state = state\<lparr>ks_sampleExpires := tick + sampleFreshness\<rparr>;
          state = (if ks_liveSamples state < 2
                   then state\<lparr>ks_liveSamples := ks_liveSamples state + 1\<rparr> else state)
      in if success then state\<lparr>ks_failedSamples := 0, ks_nextExplore := min_int64\<rparr>
         else
           let state = (if ks_failedSamples state < 4
                        then state\<lparr>ks_failedSamples := ks_failedSamples state + 1\<rparr> else state);
               delay = minute * 2 ^ nat (ks_failedSamples state - 1);
               delay = (if delay > sampleFreshness then sampleFreshness else delay)
           in state\<lparr>ks_nextExplore := tick + delay\<rparr>)"

definition neutral_cost :: "string \<Rightarrow> rat" where
  "neutral_cost strategy =
     (if strategy = ''lowest_latency'' then 2000 else if strategy = ''highest_success'' then 4 else 4000)"

text \<open>The cost of one candidate: the handle's cost, moved towards the neutral one as the samples
  age, times the load.\<close>

definition candidate_cost :: "string \<Rightarrow> duration \<Rightarrow> stats_handle \<Rightarrow> KeyState \<Rightarrow> rat" where
  "candidate_cost strategy tick h state =
     (let cost = performanceCost strategy h;
          neutral = neutral_cost strategy;
          cost = (if tick \<ge> ks_sampleExpires state then
                    (let age = tick - ks_sampleExpires state in
                     if age \<ge> sampleFreshness then neutral
                     else fadd cost (fmul (fsub neutral cost) (fdiv (float64 age) (float64 sampleFreshness))))
                  else cost)
      in fmul cost (float64 (ks_Inflight state + 1)))"

definition exploration_due :: "int \<Rightarrow> duration \<Rightarrow> KeyState \<Rightarrow> bool" where
  "exploration_due credit tick state \<longleftrightarrow>
     \<not> (credit < explorationInterval \<or> ks_Inflight state \<noteq> 0 \<or> tick < ks_nextExplore state) \<and>
     (ks_liveSamples state < 2 \<or> ks_failedSamples state > 0 \<or> tick \<ge> ks_sampleExpires state)"

record perf_scan =
  pf_best :: int
  pf_probe :: int
  pf_bestCost :: rat
  pf_bestDistance :: int

definition perf_consider ::
  "Pool \<Rightarrow> time \<Rightarrow> int set \<Rightarrow> int \<Rightarrow> int \<Rightarrow> perf_scan \<times> heap \<Rightarrow> perf_scan \<times> heap" where
  "perf_consider p now excluded credit i = (\<lambda>(s, hp).
     if \<not> isAvailableLocked p hp i now excluded then (s, hp)
     else
       let tick = now - hp_epoch hp;
           hp = upd_key p i (syncStatsGeneration (h_generation (handle_at p hp i)) tick) hp;
           state = key_at p hp i;
           cost = candidate_cost (pl_strategy p) tick (handle_at p hp i) state;
           distance = (if i - pl_rrIdx p < 0 then i - pl_rrIdx p + num_keys p else i - pl_rrIdx p);
           s = (if pf_best s < 0 \<or> cost < pf_bestCost s \<or>
                   cost = pf_bestCost s \<and> distance < pf_bestDistance s
                then s\<lparr>pf_best := i, pf_bestCost := cost, pf_bestDistance := distance\<rparr> else s);
           s = (if exploration_due credit tick state \<and>
                   (pf_probe s < 0 \<or>
                    ks_lastAttempt state < ks_lastAttempt (key_at p hp (pf_probe s)))
                then s\<lparr>pf_probe := i\<rparr> else s)
       in (s, hp))"

definition perf_start :: "Pool \<Rightarrow> perf_scan" where
  "perf_start p = \<lparr>pf_best = - 1, pf_probe = - 1, pf_bestCost = 0, pf_bestDistance = num_keys p + 1\<rparr>"

definition pickPerformanceLocked ::
  "time \<Rightarrow> int set \<Rightarrow> int list option \<Rightarrow> heap \<Rightarrow> Pool \<Rightarrow> int option \<times> Pool \<times> heap" where
  "pickPerformanceLocked now excluded allowed hp p =
     (let credit = hp_credit hp (pl_exploration p);
          credit = (if credit < explorationInterval then credit + 1 else credit);
          (s, hp) = fold (perf_consider p now excluded credit) (scan_order p allowed) (perf_start p, hp)
      in if pf_best s < 0 then (None, p, hp)
         else
           let (best, credit) = (if pf_probe s \<ge> 0 then (pf_probe s, 0) else (pf_best s, credit));
               hp = hp\<lparr>hp_credit := (hp_credit hp)(pl_exploration p := credit)\<rparr>
           in (Some best, p\<lparr>pl_rrIdx := (best + 1) mod num_keys p\<rparr>, hp))"

section \<open>Acquisition\<close>

definition pick_key ::
  "nat \<Rightarrow> time \<Rightarrow> int set \<Rightarrow> int list option \<Rightarrow> heap \<Rightarrow> Pool \<Rightarrow> int option \<times> Pool \<times> heap" where
  "pick_key choice now excluded allowed hp p =
     (if pl_strategy p = ''random'' then (pickRandomLocked choice now excluded allowed hp p, p, hp)
      else if pl_strategy p = ''least_used'' then
        (let (pick, p') = pickByScoreLocked now excluded allowed (leastUsedScore p hp) hp p in (pick, p', hp))
      else if pl_strategy p = ''least_requests'' then
        (let (pick, p') = pickByScoreLocked now excluded allowed (leastRequestsScore p hp) hp p in (pick, p', hp))
      else if pl_strategy p \<in> {''lowest_latency'', ''highest_success'', ''adaptive''} then
        pickPerformanceLocked now excluded allowed hp p
      else (let (pick, p') = pickRoundRobinLocked now excluded allowed hp p in (pick, p', hp)))"

text \<open>The result is the index, the key and its version; \<open>None\<close> is \<open>ok = false\<close>.\<close>

definition AcquireVersioned ::
  "nat \<Rightarrow> time \<Rightarrow> int set \<Rightarrow> int list option \<Rightarrow> heap \<Rightarrow> Pool \<Rightarrow>
     (int \<times> string \<times> int) option \<times> Pool \<times> heap" where
  "AcquireVersioned choice now excluded allowed hp p =
     (case pick_key choice now excluded allowed hp p of
        (None, p, hp) \<Rightarrow> (None, p, hp)
      | (Some pick, p, hp) \<Rightarrow>
          let hp = upd_key p pick (\<lambda>k. k\<lparr>ks_Inflight := ks_Inflight k + 1,
                                          ks_lastAttempt := now - hp_epoch hp\<rparr>) hp
          in (Some (pick, ks_Key (key_at p hp pick), ks_Version (key_at p hp pick)), p, hp))"

definition HasAvailableAllowed :: "time \<Rightarrow> int set \<Rightarrow> int list option \<Rightarrow> heap \<Rightarrow> Pool \<Rightarrow> bool" where
  "HasAvailableAllowed now excluded allowed hp p =
     (case allowed of
        Some xs \<Rightarrow> list_ex (\<lambda>idx. isAvailableLocked p hp idx now excluded) xs
      | None \<Rightarrow> list_ex (\<lambda>i. isAvailableLocked p hp i now excluded) [0..num_keys p - 1])"

definition Version :: "int \<Rightarrow> heap \<Rightarrow> Pool \<Rightarrow> int" where
  "Version idx hp p = (if idx < 0 \<or> idx \<ge> num_keys p then 0 else ks_Version (key_at p hp idx))"

section \<open>Settlement\<close>

definition releaseInflightLocked :: "Pool \<Rightarrow> int \<Rightarrow> heap \<Rightarrow> bool \<times> heap" where
  "releaseInflightLocked p idx hp =
     (if idx < 0 \<or> idx \<ge> num_keys p then (False, hp)
      else (True, if ks_Inflight (key_at p hp idx) > 0
                  then upd_key p idx (\<lambda>k. k\<lparr>ks_Inflight := ks_Inflight k - 1\<rparr>) hp else hp))"

definition currentVersionLocked :: "Pool \<Rightarrow> int \<Rightarrow> int option \<Rightarrow> heap \<Rightarrow> bool" where
  "currentVersionLocked p idx expected hp \<longleftrightarrow>
     \<not> ks_retired (key_at p hp idx) \<and>
     (case expected of None \<Rightarrow> True | Some v \<Rightarrow> ks_Version (key_at p hp idx) = v)"

definition recordFailure :: "KeyState \<Rightarrow> KeyState" where
  "recordFailure k =
     (let k = k\<lparr>ks_Failures := ks_Failures k + 1\<rparr>
      in if ks_CooldownLevel k < 10 then k\<lparr>ks_CooldownLevel := ks_CooldownLevel k + 1\<rparr> else k)"

text \<open>The doubling loop of \<open>scaledCooldownDuration\<close>: \<open>i\<close> rounds are left; \<open>None\<close> is the early
  return on overflow.\<close>

fun scale_factor :: "nat \<Rightarrow> int \<Rightarrow> int option" where
  "scale_factor 0 factor = Some factor"
| "scale_factor (Suc i) factor =
     (if factor > max_int64 div 2 then None else scale_factor i (factor * 2))"

definition scaledCooldownDuration :: "int \<Rightarrow> duration \<Rightarrow> duration" where
  "scaledCooldownDuration level base =
     (if base \<le> 0 then base
      else if level \<le> 1 then base
      else case scale_factor (nat (level - 1)) 1 of
             None \<Rightarrow> max_int64
           | Some factor \<Rightarrow> if base > max_int64 div factor then max_int64 else base * factor)"

definition disable_state :: "time \<Rightarrow> string \<Rightarrow> string \<Rightarrow> string \<Rightarrow> KeyState \<Rightarrow> KeyState" where
  "disable_state now status reason by_who k =
     k\<lparr>ks_Status := NormalizeStatus status, ks_DisableReason := normalizeLastError reason,
       ks_DisabledBy := trim_space by_who, ks_DisabledAt := Some now, ks_CooldownUntil := 0,
       ks_CooldownLevel := 0, ks_Failures := 0\<rparr>"

definition disableLocked :: "time \<Rightarrow> Pool \<Rightarrow> int \<Rightarrow> string \<Rightarrow> string \<Rightarrow> string \<Rightarrow> heap \<Rightarrow> heap" where
  "disableLocked now p idx status reason by_who hp = upd_key p idx (disable_state now status reason by_who) hp"

definition enableLocked :: "Pool \<Rightarrow> int \<Rightarrow> heap \<Rightarrow> heap" where
  "enableLocked p idx hp =
     upd_handle p idx ClearLastError
       (upd_key p idx (\<lambda>k. k\<lparr>ks_Status := KeyStatusActive, ks_DisableReason := [],
          ks_DisabledAt := None, ks_DisabledBy := [], ks_CooldownUntil := 0, ks_CooldownLevel := 0,
          ks_Failures := 0\<rparr>) hp)"

definition ReleaseSuccess :: "int \<Rightarrow> int option \<Rightarrow> Pool \<Rightarrow> heap \<Rightarrow> heap" where
  "ReleaseSuccess idx expected p hp =
     (let (ok, hp) = releaseInflightLocked p idx hp in
      if \<not> ok then hp
      else
        let current = currentVersionLocked p idx expected hp;
            hp = upd_handle p idx (recordSuccessLocked (\<not> current)) hp
        in if \<not> current then hp
           else upd_key p idx (\<lambda>k. k\<lparr>ks_Failures := 0, ks_CooldownLevel := 0\<rparr>) hp)"

definition Release :: "int \<Rightarrow> Pool \<Rightarrow> heap \<Rightarrow> heap" where
  "Release idx p hp = snd (releaseInflightLocked p idx hp)"

definition ReleaseInterrupted :: "int \<Rightarrow> Pool \<Rightarrow> heap \<Rightarrow> heap" where
  "ReleaseInterrupted idx p hp =
     (let (ok, hp) = releaseInflightLocked p idx hp in
      if ok then upd_handle p idx RecordInterrupted hp else hp)"

definition ReleaseFailure :: "int \<Rightarrow> Pool \<Rightarrow> heap \<Rightarrow> heap" where
  "ReleaseFailure idx p hp =
     (let (ok, hp) = releaseInflightLocked p idx hp in
      if \<not> ok then hp
      else upd_key p idx recordFailure
             (upd_handle p idx (recordErrorLocked 0 ''upstream request failed'' False) hp))"

definition Observe :: "int \<Rightarrow> int \<Rightarrow> string \<Rightarrow> int option \<Rightarrow> Pool \<Rightarrow> heap \<Rightarrow> heap" where
  "Observe idx statusCode reason expected p hp =
     (let (ok, hp) = releaseInflightLocked p idx hp in
      if \<not> ok then hp
      else
        let current = currentVersionLocked p idx expected hp;
            hp = upd_handle p idx (recordErrorLocked statusCode reason (\<not> current)) hp
        in if \<not> current then hp else upd_key p idx (\<lambda>k. k\<lparr>ks_Failures := 0\<rparr>) hp)"

definition Cooldown ::
  "time \<Rightarrow> int \<Rightarrow> int \<Rightarrow> string \<Rightarrow> duration \<Rightarrow> int option \<Rightarrow> Pool \<Rightarrow> heap \<Rightarrow> heap" where
  "Cooldown now idx statusCode reason dur expected p hp =
     (let (ok, hp) = releaseInflightLocked p idx hp in
      if \<not> ok then hp
      else
        let current = currentVersionLocked p idx expected hp;
            hp = upd_handle p idx (recordErrorLocked statusCode reason (\<not> current)) hp
        in if \<not> current then hp
           else
             let hp = upd_key p idx recordFailure hp;
                 dur = scaledCooldownDuration (ks_CooldownLevel (key_at p hp idx)) dur
             in upd_key p idx (\<lambda>k. k\<lparr>ks_CooldownUntil := now + dur\<rparr>) hp)"

definition Disable ::
  "time \<Rightarrow> int \<Rightarrow> int \<Rightarrow> string \<Rightarrow> string \<Rightarrow> int option \<Rightarrow> Pool \<Rightarrow> heap \<Rightarrow> bool \<times> heap" where
  "Disable now idx statusCode reason by_who expected p hp =
     (let (ok, hp) = releaseInflightLocked p idx hp in
      if \<not> ok then (False, hp)
      else
        let current = currentVersionLocked p idx expected hp;
            hp = upd_handle p idx (recordErrorLocked statusCode reason (\<not> current)) hp
        in if \<not> current then (False, hp)
           else (True, disableLocked now p idx KeyStatusDisabledAuto reason by_who hp))"

definition findIndexLocked :: "string \<Rightarrow> heap \<Rightarrow> Pool \<Rightarrow> int" where
  "findIndexLocked key hp p =
     (let key = trim_space key in
      case find (\<lambda>i. ks_Key (key_at p hp i) = key) [0..num_keys p - 1] of None \<Rightarrow> - 1 | Some i \<Rightarrow> i)"

definition DisableKey :: "time \<Rightarrow> string \<Rightarrow> string \<Rightarrow> string \<Rightarrow> Pool \<Rightarrow> heap \<Rightarrow> bool \<times> heap" where
  "DisableKey now key reason by_who p hp =
     (let idx = findIndexLocked key hp p in
      if idx < 0 then (False, hp) else (True, disableLocked now p idx KeyStatusDisabledAuto reason by_who hp))"

definition EnableKey :: "string \<Rightarrow> Pool \<Rightarrow> heap \<Rightarrow> bool \<times> heap" where
  "EnableKey key p hp =
     (let idx = findIndexLocked key hp p in if idx < 0 then (False, hp) else (True, enableLocked p idx hp))"

definition RecoverKey :: "string \<Rightarrow> Pool \<Rightarrow> heap \<Rightarrow> bool \<times> heap" where
  "RecoverKey key p hp =
     (let idx = findIndexLocked key hp p in if idx < 0 then (False, hp) else (True, enableLocked p idx hp))"

definition pool_RecordSample ::
  "time \<Rightarrow> int \<Rightarrow> duration \<Rightarrow> duration \<Rightarrow> bool \<Rightarrow> int option \<Rightarrow> Pool \<Rightarrow> heap \<Rightarrow> heap" where
  "pool_RecordSample now idx header full success expected p hp =
     (if 0 \<le> idx \<and> idx < num_keys p \<and> currentVersionLocked p idx expected hp then
        (let generation = snd (recordSampleLocked header full success now (handle_at p hp idx));
             hp = upd_handle p idx (\<lambda>h. fst (recordSampleLocked header full success now h)) hp
         in upd_key p idx (noteSample generation (now - hp_epoch hp) success) hp)
      else hp)"

datatype AttemptAction = AttemptInterrupted | AttemptSuccess | AttemptObserve | AttemptCooldown
  | AttemptDisable | AttemptOther string

record AttemptResult =
  ar_Action :: AttemptAction
  ar_StatusCode :: int
  ar_Reason :: string
  ar_Cooldown :: duration
  ar_HeaderElapsed :: duration
  ar_FullElapsed :: duration

text \<open>\<open>CompleteAttempt\<close> reads the clock for the sample (\<open>now1\<close>) and again for a cooldown or a
  disabling (\<open>now2\<close>).\<close>

definition attempt_sample :: "time \<Rightarrow> int \<Rightarrow> AttemptResult \<Rightarrow> Pool \<Rightarrow> heap \<Rightarrow> heap" where
  "attempt_sample now idx r p hp =
     (let ok = (ar_Action r = AttemptSuccess);
          generation = snd (recordSampleLocked (ar_HeaderElapsed r) (ar_FullElapsed r) ok now (handle_at p hp idx));
          hp = upd_handle p idx
                 (\<lambda>h. fst (recordSampleLocked (ar_HeaderElapsed r) (ar_FullElapsed r) ok now h)) hp
      in upd_key p idx (noteSample generation (now - hp_epoch hp) ok) hp)"

definition attempt_health :: "time \<Rightarrow> AttemptResult \<Rightarrow> KeyState \<Rightarrow> KeyState" where
  "attempt_health now r k =
     (case ar_Action r of
        AttemptSuccess \<Rightarrow> k\<lparr>ks_Failures := 0, ks_CooldownLevel := 0\<rparr>
      | AttemptObserve \<Rightarrow> k\<lparr>ks_Failures := 0\<rparr>
      | AttemptCooldown \<Rightarrow>
          (let k = recordFailure k
           in k\<lparr>ks_CooldownUntil := now + scaledCooldownDuration (ks_CooldownLevel k) (ar_Cooldown r)\<rparr>)
      | AttemptDisable \<Rightarrow> disable_state now KeyStatusDisabledAuto (ar_Reason r) ''system:auto'' k
      | _ \<Rightarrow> k)"

definition CompleteAttempt ::
  "time \<Rightarrow> time \<Rightarrow> int \<Rightarrow> int \<Rightarrow> AttemptResult \<Rightarrow> Pool \<Rightarrow> heap \<Rightarrow> bool \<times> heap" where
  "CompleteAttempt now1 now2 idx version r p hp =
     (let (ok, hp) = releaseInflightLocked p idx hp in
      if \<not> ok then (False, hp)
      else
        let current = currentVersionLocked p idx (Some version) hp in
        if ar_Action r = AttemptInterrupted then (False, upd_handle p idx RecordInterrupted hp)
        else if ar_Action r \<noteq> AttemptSuccess \<and> ar_Action r \<noteq> AttemptObserve \<and>
                ar_Action r \<noteq> AttemptCooldown \<and> ar_Action r \<noteq> AttemptDisable then (False, hp)
        else
          let hp = (if current then attempt_sample now1 idx r p hp else hp);
              hp = upd_handle p idx
                     (if ar_Action r = AttemptSuccess then recordSuccessLocked (\<not> current)
                      else recordErrorLocked (ar_StatusCode r) (ar_Reason r) (\<not> current)) hp
          in if \<not> current then (False, hp)
             else (ar_Action r = AttemptDisable, upd_key p idx (attempt_health now2 r) hp))"

section \<open>Reports\<close>

definition LoadTotals :: "int list option \<Rightarrow> Pool \<Rightarrow> heap \<Rightarrow> int \<times> int" where
  "LoadTotals allowed p hp =
     fold (\<lambda>i (inflight, total).
             if 0 \<le> i \<and> i < num_keys p
             then (inflight + ks_Inflight (key_at p hp i), total + totalRequestsLocked p hp i)
             else (inflight, total))
          (scan_order p allowed) (0, 0)"

definition Snapshot :: "Pool \<Rightarrow> heap \<Rightarrow> KeyState list" where
  "Snapshot p hp =
     map (\<lambda>a. (hp_keys hp a)\<lparr>ks_RuntimeStats := h_stats (hp_handles hp (ks_stats (hp_keys hp a)))\<rparr>)
       (pl_keys p)"

definition maskKey :: "string \<Rightarrow> string" where
  "maskKey v = (if length v \<le> 8 then ''****'' else take 4 v @ ''...'' @ drop (length v - 4) v)"

section \<open>Hand-over between router generations\<close>

definition share_version :: "KeyState \<Rightarrow> nat \<Rightarrow> heap \<Rightarrow> heap" where
  "share_version incoming a hp =
     (let state = hp_keys hp a in
      if ks_Version incoming > ks_Version state then
        (let hp = hp\<lparr>hp_keys := (hp_keys hp)(a := state\<lparr>ks_Status := ks_Status incoming,
                   ks_DisableReason := ks_DisableReason incoming, ks_DisabledAt := ks_DisabledAt incoming,
                   ks_DisabledBy := ks_DisabledBy incoming, ks_Version := ks_Version incoming,
                   ks_CooldownUntil := 0, ks_CooldownLevel := 0, ks_Failures := 0\<rparr>)\<rparr>
         in if IsActiveStatus (ks_Status (hp_keys hp a))
            then hp\<lparr>hp_handles := (hp_handles hp)(ks_stats state := ClearLastError (hp_handles hp (ks_stats state)))\<rparr>
            else hp)
      else hp)"

text \<open>The loop over the incoming keys.  \<open>index\<close> maps the keys of the previous pool that are not
  claimed yet to their states.\<close>

fun share_keys ::
  "nat list \<Rightarrow> (string \<rightharpoonup> nat) \<Rightarrow> nat list \<Rightarrow> heap \<Rightarrow> nat list \<times> (string \<rightharpoonup> nat) \<times> heap" where
  "share_keys out index [] hp = (out, index, hp)"
| "share_keys out index (b # bs) hp =
     (let incoming = hp_keys hp b in
      case index (ks_Key incoming) of
        None \<Rightarrow> share_keys (out @ [b]) index bs hp
      | Some a \<Rightarrow> share_keys (out @ [a]) (index(ks_Key incoming := None)) bs (share_version incoming a hp))"

definition key_index :: "heap \<Rightarrow> nat list \<Rightarrow> string \<rightharpoonup> nat" where
  "key_index hp as = fold (\<lambda>a m. m(ks_Key (hp_keys hp a) \<mapsto> a)) as Map.empty"

definition retire_keys :: "(nat \<Rightarrow> bool) \<Rightarrow> heap \<Rightarrow> heap" where
  "retire_keys R hp =
     hp\<lparr>hp_keys := (\<lambda>a. if R a then (hp_keys hp a)\<lparr>ks_retired := True\<rparr> else hp_keys hp a)\<rparr>"

text \<open>The states left in \<open>index\<close> are retired: those of the previous pool that \<open>index\<close> still maps
  their key to.  A nil previous pool changes nothing; a call with the pool itself does not occur.\<close>

definition ShareRuntimeStateFrom :: "Pool option \<Rightarrow> Pool \<Rightarrow> heap \<Rightarrow> Pool \<times> heap" where
  "ShareRuntimeStateFrom prev p hp =
     (case prev of
        None \<Rightarrow> (p, hp)
      | Some prev \<Rightarrow>
          let index = key_index hp (pl_keys prev);
              (keys, index, hp) = share_keys [] index (pl_keys p) hp
          in (p\<lparr>pl_mu := pl_mu prev, pl_exploration := pl_exploration prev, pl_keys := keys\<rparr>,
              retire_keys (\<lambda>a. a \<in> set (pl_keys prev) \<and> index (ks_Key (hp_keys hp a)) = Some a) hp))"

definition Retire :: "Pool \<Rightarrow> heap \<Rightarrow> heap" where
  "Retire p hp = retire_keys (\<lambda>a. a \<in> set (pl_keys p)) hp"

end
