(* ===== verification/PoolPick.thy ===== *)
theory PoolPick
  imports Pool "HOL-Library.Product_Lexorder"
begin

text \<open>
  Selection of a key.  The contract every strategy meets is the locale \<open>key_picker\<close>: a pick is an
  available candidate, no pick means that no candidate is available, and a pick moves the rotation
  index and exploration bookkeeping only.  It is interpreted on the five pickers of the pool; the
  lemmas on acquisition are proved once from it.  Each picker also has its optimality lemma: the
  next available key in rotation, the least score, the least aged cost or, when exploration is due,
  the key that was attempted longest ago.
\<close>

section \<open>Well-formed pools and frames\<close>

definition pool_wf :: "Pool \<Rightarrow> bool" where
  "pool_wf p \<longleftrightarrow> 0 \<le> pl_rrIdx p \<and> (if pl_keys p = [] then pl_rrIdx p = 0 else pl_rrIdx p < num_keys p)"

text \<open>A key state without its exploration bookkeeping.\<close>

definition health :: "KeyState \<Rightarrow> KeyState" where
  "health k = k\<lparr>ks_lastAttempt := 0, ks_sampleExpires := 0, ks_nextExplore := 0, ks_liveSamples := 0,
     ks_failedSamples := 0, ks_statsGeneration := 0\<rparr>"

definition sched_frame :: "heap \<Rightarrow> heap \<Rightarrow> bool" where
  "sched_frame hp hp' \<longleftrightarrow> (\<forall>a. health (hp_keys hp' a) = health (hp_keys hp a)) \<and>
     hp_handles hp' = hp_handles hp \<and> hp_next hp' = hp_next hp \<and> hp_epoch hp' = hp_epoch hp"

lemma health_fields:
  assumes "health k = health k'"
  shows "ks_Key k = ks_Key k'" "ks_Status k = ks_Status k'" "ks_retired k = ks_retired k'"
    "ks_CooldownUntil k = ks_CooldownUntil k'" "ks_Inflight k = ks_Inflight k'" "ks_stats k = ks_stats k'"
    "ks_Version k = ks_Version k'" "ks_CooldownLevel k = ks_CooldownLevel k'" "ks_Failures k = ks_Failures k'"
  using assms by (cases k, cases k', simp add: health_def)+

lemma health_simps [simp]:
  "ks_Inflight (health k) = ks_Inflight k" "ks_Version (health k) = ks_Version k"
  "health (k\<lparr>ks_Inflight := x, ks_lastAttempt := t\<rparr>) = (health k)\<lparr>ks_Inflight := x\<rparr>"
  "health (k\<lparr>ks_Inflight := x\<rparr>) = (health k)\<lparr>ks_Inflight := x\<rparr>"
  by (simp_all add: health_def)

lemma sched_frame_refl [simp]: "sched_frame hp hp"
  by (simp add: sched_frame_def)

lemma sched_frame_trans: "sched_frame hp hp' \<Longrightarrow> sched_frame hp' hp'' \<Longrightarrow> sched_frame hp hp''"
  by (simp add: sched_frame_def)

lemma sched_frame_health: "sched_frame hp hp' \<Longrightarrow> health (hp_keys hp' a) = health (hp_keys hp a)"
  by (simp add: sched_frame_def)

lemma isAvailable_frame:
  "sched_frame hp hp' \<Longrightarrow> isAvailableLocked p hp' i now ex = isAvailableLocked p hp i now ex"
  using health_fields [OF sched_frame_health [of hp hp' "key_addr p i"]]
  by (simp add: isAvailableLocked_def)

lemma isAvailable_iff:
  "isAvailableLocked p hp i now ex \<longleftrightarrow> 0 \<le> i \<and> i < num_keys p \<and> i \<notin> ex \<and> \<not> ks_retired (key_at p hp i) \<and>
     IsActiveStatus (ks_Status (key_at p hp i)) \<and> ks_CooldownUntil (key_at p hp i) \<le> now"
  by (simp add: isAvailableLocked_def not_less)

lemma isAvailable_range: "isAvailableLocked p hp i now ex \<Longrightarrow> 0 \<le> i \<and> i < num_keys p"
  by (simp add: isAvailableLocked_def split: if_splits)

lemma isAvailable_rrIdx [simp]:
  "isAvailableLocked (p\<lparr>pl_rrIdx := r\<rparr>) hp i now ex = isAvailableLocked p hp i now ex"
  by (simp add: isAvailableLocked_def)

lemma scan_order_rrIdx [simp]: "scan_order (p\<lparr>pl_rrIdx := r\<rparr>) al = scan_order p al"
  by (cases al) (simp_all add: scan_order_def)

lemma pool_wf_next: "0 \<le> i \<Longrightarrow> i < num_keys p \<Longrightarrow> pool_wf (p\<lparr>pl_rrIdx := (i + 1) mod num_keys p\<rparr>)"
  by (auto simp: pool_wf_def)

lemma HasAvailableAllowed_iff:
  "HasAvailableAllowed now ex al hp p \<longleftrightarrow> (\<exists>i \<in> set (scan_order p al). isAvailableLocked p hp i now ex)"
  by (simp add: HasAvailableAllowed_def scan_order_def list_ex_iff split: option.split)

section \<open>The contract of a picker\<close>

locale key_picker =
  fixes pick :: "time \<Rightarrow> int set \<Rightarrow> int list option \<Rightarrow> heap \<Rightarrow> Pool \<Rightarrow> int option \<times> Pool \<times> heap"
  assumes pick_some: "pool_wf p \<Longrightarrow> pick now ex al hp p = (Some i, p', hp') \<Longrightarrow>
      i \<in> set (scan_order p al) \<and> isAvailableLocked p hp i now ex \<and>
      (\<exists>r. p' = p\<lparr>pl_rrIdx := r\<rparr>) \<and> pool_wf p' \<and> sched_frame hp hp'"
    and pick_none: "pool_wf p \<Longrightarrow> pick now ex al hp p = (None, p', hp') \<Longrightarrow>
      (\<forall>i \<in> set (scan_order p al). \<not> isAvailableLocked p hp i now ex) \<and> p' = p \<and> hp' = hp"
begin

lemma pick_iff:
  assumes "pool_wf p"
  shows "fst (pick now ex al hp p) \<noteq> None \<longleftrightarrow> HasAvailableAllowed now ex al hp p"
proof (cases "pick now ex al hp p")
  case (fields r p' hp')
  show ?thesis
  proof (cases r)
    case None
    with fields pick_none [OF assms, of now ex al hp p' hp'] show ?thesis
      by (simp add: HasAvailableAllowed_iff)
  next
    case (Some i)
    with fields pick_some [OF assms, of now ex al hp i p' hp'] show ?thesis
      by (auto simp: HasAvailableAllowed_iff)
  qed
qed

text \<open>A sequence of picks at given times, each result recorded.\<close>

lemma pick_excluded: "pool_wf p \<Longrightarrow> pick now ex al hp p = (Some i, p', hp') \<Longrightarrow> i \<notin> ex"
  using pick_some [of p now ex al hp i p' hp'] by (auto simp: isAvailableLocked_def split: if_splits)

end

section \<open>Round robin\<close>

lemma rr_best_spec:
  "(rr_best avail rr n (best, bd) cs = best \<and> (\<forall>c \<in> set cs. avail c \<longrightarrow> bd \<le> (c - rr + n) mod n)) \<or>
   (let b = rr_best avail rr n (best, bd) cs in
    b \<in> set cs \<and> avail b \<and> (b - rr + n) mod n < bd \<and>
    (\<forall>c \<in> set cs. avail c \<longrightarrow> (b - rr + n) mod n \<le> (c - rr + n) mod n))"
proof (induction cs arbitrary: best bd)
  case (Cons c cs)
  let ?d = "(c - rr + n) mod n"
  show ?case
  proof (cases "avail c \<and> ?d < bd")
    case True
    then have "rr_best avail rr n (best, bd) (c # cs) = rr_best avail rr n (c, ?d) cs" by simp
    with True Cons.IH [of c ?d] show ?thesis by (auto simp: Let_def)
  next
    case False
    then have "rr_best avail rr n (best, bd) (c # cs) = rr_best avail rr n (best, bd) cs"
      by (auto simp: Let_def)
    with False Cons.IH [of best bd] show ?thesis by (auto simp: Let_def)
  qed
qed simp

text \<open>The picked key is the first available one at or after the rotation index.\<close>

definition rr_distance :: "Pool \<Rightarrow> int \<Rightarrow> int" where
  "rr_distance p i = (i - pl_rrIdx p + num_keys p) mod num_keys p"

lemma rr_distance_offset:
  assumes "pool_wf p" and "0 \<le> k" and "k < num_keys p"
  shows "rr_distance p ((pl_rrIdx p + k) mod num_keys p) = k"
proof -
  let ?n = "num_keys p"
  have "rr_distance p ((pl_rrIdx p + k) mod ?n) = (pl_rrIdx p + k - pl_rrIdx p + ?n) mod ?n"
    unfolding rr_distance_def by (metis mod_add_left_eq mod_diff_left_eq)
  with assms show ?thesis by simp
qed

lemma rr_offset_distance:
  assumes "pool_wf p" and "0 \<le> i" and "i < num_keys p"
  shows "(pl_rrIdx p + rr_distance p i) mod num_keys p = i"
    and "0 \<le> rr_distance p i" and "rr_distance p i < num_keys p"
proof -
  have n: "0 < num_keys p" using assms by linarith
  show "0 \<le> rr_distance p i" "rr_distance p i < num_keys p"
    unfolding rr_distance_def using n by (rule pos_mod_sign, rule pos_mod_bound)
  show "(pl_rrIdx p + rr_distance p i) mod num_keys p = i"
    using assms unfolding rr_distance_def by (simp add: mod_simps)
qed

lemma set_rotation:
  assumes "pool_wf p" and "num_keys p > 0"
  shows "set (map (\<lambda>t. (pl_rrIdx p + t) mod num_keys p) [0..num_keys p - 1]) = set [0..num_keys p - 1]"
proof (rule set_eqI)
  fix i
  show "i \<in> set (map (\<lambda>t. (pl_rrIdx p + t) mod num_keys p) [0..num_keys p - 1]) \<longleftrightarrow> i \<in> set [0..num_keys p - 1]"
  proof
    assume "i \<in> set [0..num_keys p - 1]"
    then have i: "0 \<le> i" "i < num_keys p" by auto
    show "i \<in> set (map (\<lambda>t. (pl_rrIdx p + t) mod num_keys p) [0..num_keys p - 1])"
      using rr_offset_distance [OF assms(1) i] by (auto intro!: image_eqI [where x = "rr_distance p i"])
  qed (use assms(2) in auto)
qed

lemma find_first:
  assumes "find P (map f [0..m]) = Some x"
  shows "\<exists>k. 0 \<le> k \<and> k \<le> m \<and> x = f k \<and> P x \<and> (\<forall>j. 0 \<le> j \<and> j < k \<longrightarrow> \<not> P (f j))"
proof -
  from assms obtain i where i: "i < length (map f [0..m])" "P (map f [0..m] ! i)" "x = map f [0..m] ! i"
    "\<forall>j < i. \<not> P (map f [0..m] ! j)" by (auto simp: find_Some_iff)
  have "P (f (int i))" "x = f (int i)" using i by simp_all
  moreover have "\<not> P (f j)" if "0 \<le> j" "j < int i" for j
  proof -
    have "nat j < i" "j \<le> m" using that i(1) by auto
    moreover from this have "map f [0..m] ! nat j = f j" using that(1) by (simp add: nth_upto)
    ultimately show ?thesis using i(4) by metis
  qed
  ultimately show ?thesis using i(1) by (intro exI [of _ "int i"]) simp
qed

lemma pickRoundRobin_some:
  assumes wf: "pool_wf p" and pick: "pickRoundRobinLocked now ex al hp p = (Some i, p')"
  shows "i \<in> set (scan_order p al) \<and> isAvailableLocked p hp i now ex \<and>
    p' = p\<lparr>pl_rrIdx := (i + 1) mod num_keys p\<rparr> \<and>
    (\<forall>c \<in> set (scan_order p al). isAvailableLocked p hp c now ex \<longrightarrow> rr_distance p i \<le> rr_distance p c)"
proof (cases al)
  case None
  let ?P = "\<lambda>c. isAvailableLocked p hp c now ex" and ?f = "\<lambda>t. (pl_rrIdx p + t) mod num_keys p"
  from pick None have n: "pl_keys p \<noteq> []" and f: "find ?P (map ?f [0..num_keys p - 1]) = Some i"
    and p': "p' = p\<lparr>pl_rrIdx := (i + 1) mod num_keys p\<rparr>"
    by (auto simp: pickRoundRobinLocked_def Let_def split: if_splits option.splits)
  from find_first [OF f] obtain k where k: "0 \<le> k" "k \<le> num_keys p - 1" "i = ?f k" "?P i"
    "\<And>j. 0 \<le> j \<Longrightarrow> j < k \<Longrightarrow> \<not> ?P (?f j)" by blast
  have di: "rr_distance p i = k" using rr_distance_offset [OF wf] k by simp
  have "k \<le> rr_distance p c" if c: "?P c" for c
  proof (rule ccontr)
    assume "\<not> k \<le> rr_distance p c"
    with k(5) [of "rr_distance p c"] rr_offset_distance [OF wf, of c] isAvailable_range [OF c] c
    show False by simp
  qed
  with k(4) di p' isAvailable_range [OF k(4)] None show ?thesis by (auto simp: scan_order_def)
next
  case (Some xs)
  let ?P = "\<lambda>c. isAvailableLocked p hp c now ex"
  let ?b = "rr_best ?P (pl_rrIdx p) (num_keys p) (- 1, num_keys p + 1) xs"
  from pick Some have b: "?b \<ge> 0" "i = ?b" "p' = p\<lparr>pl_rrIdx := (i + 1) mod num_keys p\<rparr>"
    by (auto simp: pickRoundRobinLocked_def Let_def split: if_splits)
  from rr_best_spec [of ?P "pl_rrIdx p" "num_keys p" "- 1" "num_keys p + 1" xs] b Some show ?thesis
    by (auto simp: Let_def scan_order_def rr_distance_def)
qed

lemma pickRoundRobin_none:
  assumes wf: "pool_wf p" and pick: "pickRoundRobinLocked now ex al hp p = (None, p')"
  shows "(\<forall>i \<in> set (scan_order p al). \<not> isAvailableLocked p hp i now ex) \<and> p' = p"
proof (cases "pl_keys p = []")
  case True
  with pick show ?thesis by (auto simp: pickRoundRobinLocked_def isAvailableLocked_def)
next
  case False
  show ?thesis
  proof (cases al)
    case None
    with pick False have "find (\<lambda>c. isAvailableLocked p hp c now ex)
        (map (\<lambda>t. (pl_rrIdx p + t) mod num_keys p) [0..num_keys p - 1]) = None" "p' = p"
      by (auto simp: pickRoundRobinLocked_def Let_def split: option.splits)
    moreover have "set (scan_order p al) =
        set (map (\<lambda>t. (pl_rrIdx p + t) mod num_keys p) [0..num_keys p - 1])"
      using None set_rotation [OF wf] False by (simp add: scan_order_def del: set_map set_upto)
    ultimately show ?thesis unfolding find_None_iff by blast
  next
    case (Some xs)
    let ?P = "\<lambda>c. isAvailableLocked p hp c now ex"
    let ?b = "rr_best ?P (pl_rrIdx p) (num_keys p) (- 1, num_keys p + 1) xs"
    have "\<not> ?P c" if "c \<in> set xs" for c
    proof
      assume c: "?P c"
      have "(c - pl_rrIdx p + num_keys p) mod num_keys p < num_keys p" using False by simp
      with that c rr_best_spec [of ?P "pl_rrIdx p" "num_keys p" "- 1" "num_keys p + 1" xs]
      have "?P ?b" by (auto simp: Let_def)
      with isAvailable_range [OF this] pick Some False that show False
        by (auto simp: pickRoundRobinLocked_def Let_def split: if_splits)
    qed
    moreover have "p' = p" using pick Some False
      by (auto simp: pickRoundRobinLocked_def Let_def split: if_splits)
    ultimately show ?thesis using Some by (simp add: scan_order_def)
  qed
qed

interpretation round_robin: key_picker
  "\<lambda>now ex al hp p. (let (pick, p') = pickRoundRobinLocked now ex al hp p in (pick, p', hp))"
proof (unfold_locales, goal_cases)
  case (1 p now ex al hp i p' hp')
  then have "pickRoundRobinLocked now ex al hp p = (Some i, p')" and "hp' = hp"
    by (auto split: prod.splits)
  with pickRoundRobin_some [OF 1(1) this(1)] show ?case
    by (auto intro!: pool_wf_next dest: isAvailable_range)
next
  case (2 p now ex al hp p' hp')
  then have "pickRoundRobinLocked now ex al hp p = (None, p')" and "hp' = hp"
    by (auto split: prod.splits)
  with pickRoundRobin_none [OF 2(1) this(1)] show ?case by simp
qed

section \<open>Random\<close>

interpretation random: key_picker
  "\<lambda>now ex al hp p. (pickRandomLocked choice now ex al hp p, p, hp)" for choice
proof (unfold_locales, goal_cases)
  case (1 p now ex al hp i p' hp')
  let ?s = "filter (\<lambda>i. isAvailableLocked p hp i now ex) (scan_order p al)"
  from 1 have "?s \<noteq> []" "i = ?s ! (choice mod length ?s)" "p' = p" "hp' = hp"
    by (auto simp: pickRandomLocked_def Let_def split: if_splits)
  then have "i \<in> set ?s" by (metis length_greater_0_conv mod_less_divisor nth_mem)
  with \<open>p' = p\<close> \<open>hp' = hp\<close> 1(1) show ?case
    by (auto intro!: exI [of _ "pl_rrIdx p"])
next
  case (2 p now ex al hp p' hp')
  then show ?case
    by (auto simp: pickRandomLocked_def Let_def filter_empty_conv isAvailableLocked_def split: if_splits)
qed

section \<open>Least score\<close>

text \<open>The score as a point of a lexicographic order.\<close>

definition score_key :: "loadScore \<Rightarrow> rat \<times> int \<times> int" where
  "score_key s = (sc_cost s, sc_primary s, sc_secondary s)"

lemma score_less_key: "score_less s t \<longleftrightarrow> score_key s < score_key t"
  by (auto simp: score_less_def score_key_def less_prod_def less_eq_prod_def)

lemma score_key_inj: "score_key s = score_key t \<longleftrightarrow> s = t"
  by (cases s, cases t) (auto simp: score_key_def)

lemma score_best_spec:
  fixes scoref :: "int \<Rightarrow> loadScore" and rr n :: int
  assumes nonneg: "\<And>c. avail c \<Longrightarrow> 0 \<le> c"
  defines "rank \<equiv> \<lambda>c. (score_key (scoref c), (c - rr + n) mod n)"
  shows "let b = score_best avail scoref rr n (best, bs, bd) cs in
    (b = best \<and> (\<forall>c \<in> set cs. avail c \<longrightarrow> 0 \<le> best \<and> (score_key bs, bd) \<le> rank c)) \<or>
    (b \<in> set cs \<and> avail b \<and> (0 \<le> best \<longrightarrow> rank b < (score_key bs, bd)) \<and>
     (\<forall>c \<in> set cs. avail c \<longrightarrow> rank b \<le> rank c))"
proof (induction cs arbitrary: best bs bd)
  case (Cons c cs)
  let ?d = "(c - rr + n) mod n"
  have better: "score_less (scoref c) bs \<or> scoref c = bs \<and> ?d < bd \<longleftrightarrow> rank c < (score_key bs, bd)"
    unfolding rank_def score_less_key less_prod_simp order_le_less score_key_inj by blast
  consider (skip) "\<not> avail c" | (take) "avail c" "best < 0 \<or> rank c < (score_key bs, bd)"
    | (keep) "avail c" "0 \<le> best" "\<not> rank c < (score_key bs, bd)" by force
  then show ?case
  proof cases
    case skip
    with Cons.IH [of best bs bd] show ?thesis by (auto simp: Let_def)
  next
    case take
    with better have "score_best avail scoref rr n (best, bs, bd) (c # cs) =
        score_best avail scoref rr n (c, scoref c, ?d) cs" by (auto simp: Let_def)
    moreover have "(score_key (scoref c), ?d) = rank c" by (simp add: rank_def)
    ultimately show ?thesis
      using Cons.IH [of c "scoref c" ?d] take nonneg [OF take(1)] by (auto simp: Let_def dest: less_imp_le)
  next
    case keep
    with better have "score_best avail scoref rr n (best, bs, bd) (c # cs) =
        score_best avail scoref rr n (best, bs, bd) cs" by (auto simp: Let_def)
    with Cons.IH [of best bs bd] keep show ?thesis by (auto simp: Let_def not_less)
  qed
qed simp

lemma score_order_set:
  assumes "pool_wf p" and "pl_keys p \<noteq> []"
  shows "set (case al of None \<Rightarrow> (let start = pl_rrIdx p mod num_keys p in
             map (\<lambda>offset. (start + offset) mod num_keys p) [0..num_keys p - 1]) | Some xs \<Rightarrow> xs) =
         set (scan_order p al)"
proof (cases al)
  case None
  have "pl_rrIdx p mod num_keys p = pl_rrIdx p" using assms by (simp add: pool_wf_def)
  with None set_rotation [OF assms(1)] assms(2) show ?thesis
    by (simp add: scan_order_def Let_def del: set_map set_upto)
qed (simp add: scan_order_def)

definition score_rank :: "(int \<Rightarrow> loadScore) \<Rightarrow> Pool \<Rightarrow> int \<Rightarrow> (rat \<times> int \<times> int) \<times> int" where
  "score_rank scoref p i = (score_key (scoref i), rr_distance p i)"

lemma pickByScore_spec:
  assumes wf: "pool_wf p" and pick: "pickByScoreLocked now ex al scoref hp p = (r, p')"
  shows "case r of
      None \<Rightarrow> (\<forall>i \<in> set (scan_order p al). \<not> isAvailableLocked p hp i now ex) \<and> p' = p
    | Some i \<Rightarrow> i \<in> set (scan_order p al) \<and> isAvailableLocked p hp i now ex \<and>
        p' = p\<lparr>pl_rrIdx := (i + 1) mod num_keys p\<rparr> \<and>
        (\<forall>c \<in> set (scan_order p al). isAvailableLocked p hp c now ex \<longrightarrow>
           score_rank scoref p i \<le> score_rank scoref p c)"
proof (cases "pl_keys p = []")
  case True
  with pick show ?thesis by (auto simp: pickByScoreLocked_def isAvailableLocked_def)
next
  case False
  let ?P = "\<lambda>c. isAvailableLocked p hp c now ex"
  let ?order = "case al of None \<Rightarrow> (let start = pl_rrIdx p mod num_keys p in
             map (\<lambda>offset. (start + offset) mod num_keys p) [0..num_keys p - 1]) | Some xs \<Rightarrow> xs"
  let ?b = "score_best ?P scoref (pl_rrIdx p) (num_keys p) (- 1, zero_score, num_keys p + 1) ?order"
  have res: "(r, p') = (if ?b < 0 then (None, p) else (Some ?b, p\<lparr>pl_rrIdx := (?b + 1) mod num_keys p\<rparr>))"
    using pick False by (simp add: pickByScoreLocked_def Let_def)
  have nonneg: "\<And>c. ?P c \<Longrightarrow> 0 \<le> c" by (blast dest: isAvailable_range)
  note spec = score_best_spec [of ?P, OF nonneg, where scoref = scoref and rr = "pl_rrIdx p" and n = "num_keys p"
      and best = "- 1" and bs = zero_score and bd = "num_keys p + 1" and cs = ?order,
      unfolded score_order_set [OF wf False], folded rr_distance_def]
  show ?thesis
  proof (cases "\<forall>c \<in> set (scan_order p al). \<not> ?P c")
    case True
    with spec have "?b = - 1" unfolding Let_def by blast
    with res True show ?thesis by simp
  next
    case some: False
    with spec have "?b \<in> set (scan_order p al)" "?P ?b"
      "\<forall>c \<in> set (scan_order p al). ?P c \<longrightarrow> score_rank scoref p ?b \<le> score_rank scoref p c"
      by (auto simp: Let_def score_rank_def)
    with res nonneg [of ?b] show ?thesis by auto
  qed
qed

lemma score_picker:
  "key_picker (\<lambda>now ex al hp p. (let (pick, p') = pickByScoreLocked now ex al (scoref p hp) hp p in (pick, p', hp)))"
proof (unfold_locales, goal_cases)
  case (1 p now ex al hp i p' hp')
  then have "pickByScoreLocked now ex al (scoref p hp) hp p = (Some i, p')" and "hp' = hp"
    by (auto split: prod.splits)
  with pickByScore_spec [OF 1(1) this(1)] show ?case
    by (auto intro!: pool_wf_next dest: isAvailable_range)
next
  case (2 p now ex al hp p' hp')
  then have "pickByScoreLocked now ex al (scoref p hp) hp p = (None, p')" and "hp' = hp"
    by (auto split: prod.splits)
  with pickByScore_spec [OF 2(1) this(1)] show ?case by simp
qed

interpretation least_used: key_picker
  "\<lambda>now ex al hp p. (let (pick, p') = pickByScoreLocked now ex al (leastUsedScore p hp) hp p in (pick, p', hp))"
  by (rule score_picker)

interpretation least_requests: key_picker
  "\<lambda>now ex al hp p. (let (pick, p') = pickByScoreLocked now ex al (leastRequestsScore p hp) hp p in (pick, p', hp))"
  by (rule score_picker)

section \<open>Performance strategies\<close>

text \<open>What the scan reads of a key: its state after the lazy reset of the exploration history.\<close>

definition synced :: "heap \<Rightarrow> duration \<Rightarrow> nat \<Rightarrow> KeyState" where
  "synced hp tick a =
     syncStatsGeneration (h_generation (hp_handles hp (ks_stats (hp_keys hp a)))) tick (hp_keys hp a)"

definition scan_cost :: "Pool \<Rightarrow> heap \<Rightarrow> time \<Rightarrow> int \<Rightarrow> rat" where
  "scan_cost p hp now i = candidate_cost (pl_strategy p) (now - hp_epoch hp) (handle_at p hp i)
     (synced hp (now - hp_epoch hp) (key_addr p i))"

definition scan_rank :: "Pool \<Rightarrow> heap \<Rightarrow> time \<Rightarrow> int \<Rightarrow> rat \<times> int" where
  "scan_rank p hp now i = (scan_cost p hp now i, rr_distance p i)"

definition scan_due :: "Pool \<Rightarrow> heap \<Rightarrow> time \<Rightarrow> int \<Rightarrow> int \<Rightarrow> bool" where
  "scan_due p hp now credit i =
     exploration_due credit (now - hp_epoch hp) (synced hp (now - hp_epoch hp) (key_addr p i))"

definition last_attempt :: "Pool \<Rightarrow> heap \<Rightarrow> time \<Rightarrow> int \<Rightarrow> duration" where
  "last_attempt p hp now i = ks_lastAttempt (synced hp (now - hp_epoch hp) (key_addr p i))"

lemma sync_idem [simp]: "syncStatsGeneration g t (syncStatsGeneration g t k) = syncStatsGeneration g t k"
  by (simp add: syncStatsGeneration_def)

lemma sync_health [simp]: "health (syncStatsGeneration g t k) = health k"
  by (simp add: syncStatsGeneration_def health_def)

lemma sync_stats [simp]: "ks_stats (syncStatsGeneration g t k) = ks_stats k"
  by (simp add: syncStatsGeneration_def)

lemma synced_stats [simp]: "ks_stats (synced hp t a) = ks_stats (hp_keys hp a)"
  by (simp add: synced_def)

text \<open>The invariant of the scan: \<open>visited\<close> are the candidates considered so far.\<close>

definition scan_heap :: "heap \<Rightarrow> time \<Rightarrow> heap \<Rightarrow> bool" where
  "scan_heap hp0 now hp \<longleftrightarrow>
     (\<forall>a. hp_keys hp a = hp_keys hp0 a \<or> hp_keys hp a = synced hp0 (now - hp_epoch hp0) a) \<and>
     hp_handles hp = hp_handles hp0 \<and> hp_next hp = hp_next hp0 \<and> hp_epoch hp = hp_epoch hp0 \<and>
     hp_credit hp = hp_credit hp0"

definition best_inv :: "Pool \<Rightarrow> heap \<Rightarrow> time \<Rightarrow> int set \<Rightarrow> int set \<Rightarrow> perf_scan \<Rightarrow> bool" where
  "best_inv p hp0 now ex visited s \<longleftrightarrow>
     (if pf_best s < 0 then \<forall>c \<in> visited. \<not> isAvailableLocked p hp0 c now ex
      else pf_best s \<in> visited \<and> isAvailableLocked p hp0 (pf_best s) now ex \<and>
        (pf_bestCost s, pf_bestDistance s) = scan_rank p hp0 now (pf_best s) \<and>
        (\<forall>c \<in> visited. isAvailableLocked p hp0 c now ex \<longrightarrow>
           scan_rank p hp0 now (pf_best s) \<le> scan_rank p hp0 now c))"

definition probe_inv :: "Pool \<Rightarrow> heap \<Rightarrow> time \<Rightarrow> int set \<Rightarrow> int \<Rightarrow> int set \<Rightarrow> perf_scan \<Rightarrow> bool" where
  "probe_inv p hp0 now ex credit visited s \<longleftrightarrow>
     (if pf_probe s < 0
      then \<forall>c \<in> visited. \<not> (isAvailableLocked p hp0 c now ex \<and> scan_due p hp0 now credit c)
      else pf_probe s \<in> visited \<and> isAvailableLocked p hp0 (pf_probe s) now ex \<and>
        scan_due p hp0 now credit (pf_probe s) \<and>
        (\<forall>c \<in> visited. isAvailableLocked p hp0 c now ex \<and> scan_due p hp0 now credit c \<longrightarrow>
           last_attempt p hp0 now (pf_probe s) \<le> last_attempt p hp0 now c))"

definition scan_inv ::
  "Pool \<Rightarrow> heap \<Rightarrow> time \<Rightarrow> int set \<Rightarrow> int \<Rightarrow> int set \<Rightarrow> perf_scan \<Rightarrow> heap \<Rightarrow> bool" where
  "scan_inv p hp0 now ex credit visited s hp \<longleftrightarrow>
     scan_heap hp0 now hp \<and>
     (\<forall>c \<in> visited. isAvailableLocked p hp0 c now ex \<longrightarrow>
        hp_keys hp (key_addr p c) = synced hp0 (now - hp_epoch hp0) (key_addr p c)) \<and>
     best_inv p hp0 now ex visited s \<and> probe_inv p hp0 now ex credit visited s"

lemma scan_heap_frame: "scan_heap hp0 now hp \<Longrightarrow> sched_frame hp0 hp"
  unfolding scan_heap_def sched_frame_def synced_def by (metis sync_health)

lemma scan_heap_sync:
  assumes "scan_heap hp0 now hp"
  shows "syncStatsGeneration (h_generation (hp_handles hp (ks_stats (hp_keys hp a)))) (now - hp_epoch hp) (hp_keys hp a)
    = synced hp0 (now - hp_epoch hp0) a"
  using assms unfolding scan_heap_def by (metis synced_def sync_idem sync_stats)

lemma rr_distance_cases:
  assumes "pool_wf p" and "0 \<le> i" and "i < num_keys p"
  shows "(if i - pl_rrIdx p < 0 then i - pl_rrIdx p + num_keys p else i - pl_rrIdx p) = rr_distance p i"
proof (cases "i < pl_rrIdx p")
  case True
  with assms have "0 \<le> i - pl_rrIdx p + num_keys p" "i - pl_rrIdx p + num_keys p < num_keys p"
    by (auto simp: pool_wf_def split: if_splits)
  then have "rr_distance p i = i - pl_rrIdx p + num_keys p"
    unfolding rr_distance_def by (rule mod_pos_pos_trivial)
  with True show ?thesis by simp
next
  case False
  with assms show ?thesis by (simp add: rr_distance_def pool_wf_def)
qed

text \<open>One candidate, in terms of the initial heap.\<close>

definition scan_step :: "Pool \<Rightarrow> heap \<Rightarrow> time \<Rightarrow> int \<Rightarrow> int \<Rightarrow> perf_scan \<Rightarrow> perf_scan" where
  "scan_step p hp0 now credit i s =
     (let s = (if pf_best s < 0 \<or> scan_rank p hp0 now i < (pf_bestCost s, pf_bestDistance s)
               then s\<lparr>pf_best := i, pf_bestCost := scan_cost p hp0 now i, pf_bestDistance := rr_distance p i\<rparr>
               else s)
      in if scan_due p hp0 now credit i \<and>
            (pf_probe s < 0 \<or> last_attempt p hp0 now i < last_attempt p hp0 now (pf_probe s))
         then s\<lparr>pf_probe := i\<rparr> else s)"

lemma perf_consider_step:
  assumes wf: "pool_wf p" and inv: "scan_inv p hp0 now ex credit visited s hp"
    and av: "isAvailableLocked p hp0 i now ex"
  shows "perf_consider p now ex credit i (s, hp) =
    (scan_step p hp0 now credit i s, upd_key p i (\<lambda>k. synced hp0 (now - hp_epoch hp0) (key_addr p i)) hp)"
proof -
  let ?t = "now - hp_epoch hp0" and ?a = "key_addr p i"
  have sh: "scan_heap hp0 now hp" using inv by (simp add: scan_inv_def)
  then have eqs: "hp_epoch hp = hp_epoch hp0" "hp_handles hp = hp_handles hp0" by (simp_all add: scan_heap_def)
  have st: "ks_stats (hp_keys hp ?a) = ks_stats (hp_keys hp0 ?a)"
    using health_fields(6) [OF sched_frame_health [OF scan_heap_frame [OF sh], of ?a]] by simp
  have av': "isAvailableLocked p hp i now ex" using av isAvailable_frame [OF scan_heap_frame [OF sh]] by simp
  have upd: "upd_key p i (syncStatsGeneration (h_generation (handle_at p hp i)) ?t) hp =
      upd_key p i (\<lambda>k. synced hp0 ?t ?a) hp"
    using scan_heap_sync [OF sh, of ?a] by (simp add: upd_key_def eqs)
  let ?hp = "upd_key p i (\<lambda>k. synced hp0 ?t ?a) hp"
  have reads: "key_at p ?hp i = synced hp0 ?t ?a"
      "hp_handles ?hp (ks_stats (synced hp0 ?t ?a)) = hp_handles hp0 (ks_stats (hp_keys hp0 ?a))"
    by (simp_all add: upd_key_def eqs)
  have probe: "pf_probe s < 0 \<or> x < ks_lastAttempt (key_at p ?hp (pf_probe s)) \<longleftrightarrow>
      pf_probe s < 0 \<or> x < last_attempt p hp0 now (pf_probe s)" for x
    using inv by (auto simp: scan_inv_def probe_inv_def last_attempt_def upd_key_def split: if_splits)
  have cost: "candidate_cost (pl_strategy p) ?t (hp_handles hp0 (ks_stats (hp_keys hp0 ?a))) (synced hp0 ?t ?a) =
      scan_cost p hp0 now i" by (simp add: scan_cost_def)
  have dist: "(if i - pl_rrIdx p < 0 then i - pl_rrIdx p + num_keys p else i - pl_rrIdx p) = rr_distance p i"
    using rr_distance_cases [OF wf] isAvailable_range [OF av] by simp
  have better: "pf_best s < 0 \<or> x < y \<or> x = y \<and> d < e \<longleftrightarrow> pf_best s < 0 \<or> (x, d) < (y, e)"
    for x y :: rat and d e :: int by auto
  have due: "exploration_due credit ?t (synced hp0 ?t ?a) = scan_due p hp0 now credit i"
      "ks_lastAttempt (synced hp0 ?t ?a) = last_attempt p hp0 now i"
    by (simp_all add: scan_due_def last_attempt_def)
  have probe_if: "pf_probe (if b then s\<lparr>pf_best := x, pf_bestCost := y, pf_bestDistance := z\<rparr> else s) = pf_probe s"
    for b x y z by simp
  show ?thesis
    unfolding perf_consider_def prod.case Let_def upd dist eqs(1) reads cost better due probe_if probe scan_step_def scan_rank_def
    using av' by (simp only: not_True_eq_False if_False)
qed

lemma scan_step_fields:
  "pf_probe (scan_step p hp0 now credit i s) =
     (if scan_due p hp0 now credit i \<and>
         (pf_probe s < 0 \<or> last_attempt p hp0 now i < last_attempt p hp0 now (pf_probe s)) then i else pf_probe s)"
  "pf_best (scan_step p hp0 now credit i s) =
     (if pf_best s < 0 \<or> scan_rank p hp0 now i < (pf_bestCost s, pf_bestDistance s) then i else pf_best s)"
  "(pf_bestCost (scan_step p hp0 now credit i s), pf_bestDistance (scan_step p hp0 now credit i s)) =
     (if pf_best s < 0 \<or> scan_rank p hp0 now i < (pf_bestCost s, pf_bestDistance s)
      then scan_rank p hp0 now i else (pf_bestCost s, pf_bestDistance s))"
  unfolding scan_step_def Let_def scan_rank_def by (simp_all only: if_split) auto

lemma best_inv_step:
  assumes "best_inv p hp0 now ex visited s" and "isAvailableLocked p hp0 i now ex"
  shows "best_inv p hp0 now ex (insert i visited) (scan_step p hp0 now credit i s)"
proof -
  have i: "0 \<le> i" using isAvailable_range [OF assms(2)] by simp
  show ?thesis
  proof (cases "pf_best s < 0 \<or> scan_rank p hp0 now i < (pf_bestCost s, pf_bestDistance s)")
    case True
    then have "\<forall>c \<in> visited. isAvailableLocked p hp0 c now ex \<longrightarrow> scan_rank p hp0 now i \<le> scan_rank p hp0 now c"
      using assms(1) unfolding best_inv_def by (metis order_less_imp_le order_trans)
    with True i assms(2) show ?thesis
      unfolding best_inv_def scan_step_fields by simp
  next
    case False
    then have "\<not> pf_best s < 0" "(pf_bestCost s, pf_bestDistance s) \<le> scan_rank p hp0 now i"
      by (simp_all add: not_less)
    with False assms show ?thesis
      unfolding best_inv_def scan_step_fields by auto
  qed
qed

lemma probe_inv_step:
  assumes "probe_inv p hp0 now ex credit visited s" and "isAvailableLocked p hp0 i now ex"
  shows "probe_inv p hp0 now ex credit (insert i visited) (scan_step p hp0 now credit i s)"
  using assms isAvailable_range [OF assms(2)] unfolding probe_inv_def scan_step_fields
  by (auto split: if_splits)

lemma perf_consider_inv:
  assumes wf: "pool_wf p" and inv: "scan_inv p hp0 now ex credit visited s hp"
    and res: "perf_consider p now ex credit i (s, hp) = (s', hp')"
  shows "scan_inv p hp0 now ex credit (insert i visited) s' hp'"
proof (cases "isAvailableLocked p hp0 i now ex")
  case True
  let ?new = "synced hp0 (now - hp_epoch hp0) (key_addr p i)"
  have s': "s' = scan_step p hp0 now credit i s" and hp': "hp' = upd_key p i (\<lambda>k. ?new) hp"
    using res perf_consider_step [OF wf inv True] by simp_all
  have "scan_heap hp0 now hp'" "\<forall>c \<in> insert i visited. isAvailableLocked p hp0 c now ex \<longrightarrow>
      hp_keys hp' (key_addr p c) = synced hp0 (now - hp_epoch hp0) (key_addr p c)"
    using inv by (auto simp: scan_inv_def hp' upd_key_def scan_heap_def)
  with inv best_inv_step [OF _ True] probe_inv_step [OF _ True] show ?thesis
    unfolding scan_inv_def s' by blast
next
  case False
  have "\<not> isAvailableLocked p hp i now ex"
    using False inv isAvailable_frame [OF scan_heap_frame [of hp0 now hp]] by (simp add: scan_inv_def)
  with res have "s' = s" "hp' = hp" by (simp_all add: perf_consider_def)
  moreover have "best_inv p hp0 now ex (insert i visited) s" "probe_inv p hp0 now ex credit (insert i visited) s"
    using inv False unfolding scan_inv_def best_inv_def probe_inv_def
    by (simp_all split: if_splits)
  ultimately show ?thesis using inv False by (simp add: scan_inv_def)
qed

lemma perf_scan_inv:
  assumes "pool_wf p" and "scan_inv p hp0 now ex credit visited s hp"
    and "fold (perf_consider p now ex credit) cs (s, hp) = (s', hp')"
  shows "scan_inv p hp0 now ex credit (visited \<union> set cs) s' hp'"
  using assms(2,3)
proof (induction cs arbitrary: visited s hp)
  case (Cons c cs)
  obtain s1 hp1 where one: "perf_consider p now ex credit c (s, hp) = (s1, hp1)" by fastforce
  with perf_consider_inv [OF assms(1) Cons.prems(1) one] Cons.IH [of "insert c visited" s1 hp1] Cons.prems(2)
  show ?case by simp
qed simp

lemma perf_scan_start: "scan_inv p hp now ex credit {} (perf_start p) hp"
  by (simp add: scan_inv_def best_inv_def probe_inv_def scan_heap_def perf_start_def)

text \<open>The performance picker: the cheapest available candidate, or the candidate due for
  exploration that was attempted longest ago.\<close>

lemma pickPerformance_some:
  assumes wf: "pool_wf p" and pick: "pickPerformanceLocked now ex al hp p = (Some i, p', hp')"
    and cr: "(if hp_credit hp (pl_exploration p) < explorationInterval then hp_credit hp (pl_exploration p) + 1
      else hp_credit hp (pl_exploration p)) = credit"
  defines "cands \<equiv> {c \<in> set (scan_order p al). isAvailableLocked p hp c now ex}"
  shows "i \<in> cands \<and> p' = p\<lparr>pl_rrIdx := (i + 1) mod num_keys p\<rparr> \<and> sched_frame hp hp' \<and>
    (if \<exists>c \<in> cands. scan_due p hp now credit c
     then scan_due p hp now credit i \<and> hp_credit hp' (pl_exploration p) = 0 \<and>
       (\<forall>c \<in> cands. scan_due p hp now credit c \<longrightarrow> last_attempt p hp now i \<le> last_attempt p hp now c)
     else hp_credit hp' (pl_exploration p) = credit \<and>
       (\<forall>c \<in> cands. scan_rank p hp now i \<le> scan_rank p hp now c))"
proof -
  obtain s hp1 where scan: "fold (perf_consider p now ex credit) (scan_order p al) (perf_start p, hp) = (s, hp1)"
    by fastforce
  from perf_scan_inv [OF wf perf_scan_start scan]
  have inv: "scan_heap hp now hp1" "best_inv p hp now ex (set (scan_order p al)) s"
    "probe_inv p hp now ex credit (set (scan_order p al)) s" by (simp_all add: scan_inv_def)
  note pick' = pick [unfolded pickPerformanceLocked_def cr Let_def scan prod.case]
  have frame: "sched_frame hp (hp1\<lparr>hp_credit := f\<rparr>)" for f
    using scan_heap_frame [OF inv(1)] by (simp add: sched_frame_def)
  have best: "\<not> pf_best s < 0" using pick' by (auto split: if_splits)
  show ?thesis
  proof (cases "pf_probe s \<ge> 0")
    case True
    with pick' best have "i = pf_probe s" "p' = p\<lparr>pl_rrIdx := (i + 1) mod num_keys p\<rparr>"
      "hp' = hp1\<lparr>hp_credit := (hp_credit hp1)(pl_exploration p := 0)\<rparr>" by auto
    with True inv(3) frame show ?thesis by (auto simp: probe_inv_def cands_def)
  next
    case False
    with pick' best have "i = pf_best s" "p' = p\<lparr>pl_rrIdx := (i + 1) mod num_keys p\<rparr>"
      "hp' = hp1\<lparr>hp_credit := (hp_credit hp1)(pl_exploration p := credit)\<rparr>" by auto
    moreover have "\<not> (\<exists>c \<in> cands. scan_due p hp now credit c)"
      using inv(3) False by (auto simp: probe_inv_def cands_def)
    moreover have "pf_best s \<in> cands" "\<forall>c \<in> cands. scan_rank p hp now (pf_best s) \<le> scan_rank p hp now c"
      using inv(2) best by (simp_all add: best_inv_def cands_def)
    ultimately show ?thesis using frame by simp
  qed
qed

lemma pickPerformance_none:
  assumes wf: "pool_wf p" and pick: "pickPerformanceLocked now ex al hp p = (None, p', hp')"
  shows "(\<forall>i \<in> set (scan_order p al). \<not> isAvailableLocked p hp i now ex) \<and> p' = p \<and> hp' = hp"
proof -
  let ?cr = "hp_credit hp (pl_exploration p)"
  define credit where "credit = (if ?cr < explorationInterval then ?cr + 1 else ?cr)"
  obtain s hp1 where scan: "fold (perf_consider p now ex credit) (scan_order p al) (perf_start p, hp) = (s, hp1)"
    by fastforce
  from perf_scan_inv [OF wf perf_scan_start scan]
  have "best_inv p hp now ex (set (scan_order p al)) s" by (simp add: scan_inv_def)
  moreover from pick have best: "pf_best s < 0" and out: "p' = p" "hp' = hp1"
    unfolding pickPerformanceLocked_def Let_def credit_def [symmetric] scan prod.case
    by (auto split: if_splits)
  ultimately have none: "\<forall>i \<in> set (scan_order p al). \<not> isAvailableLocked p hp i now ex"
    by (simp add: best_inv_def)
  have "fold (perf_consider p now ex credit) cs (st, hp) = (st, hp)"
    if "\<forall>i \<in> set cs. \<not> isAvailableLocked p hp i now ex" for cs st
    using that by (induction cs) (simp_all add: perf_consider_def)
  from this [OF none] scan have "hp1 = hp" by simp
  with none out show ?thesis by simp
qed

interpretation performance: key_picker pickPerformanceLocked
proof (unfold_locales, goal_cases)
  case (1 p now ex al hp i p' hp')
  from pickPerformance_some [OF 1 refl] show ?case
    by (auto intro!: pool_wf_next dest: isAvailable_range split: if_splits)
next
  case (2 p now ex al hp p' hp')
  then show ?case by (rule pickPerformance_none)
qed

section \<open>The pool's own picker and acquisition\<close>

interpretation pool: key_picker "pick_key choice" for choice
proof (unfold_locales, goal_cases)
  case (1 p now ex al hp i p' hp')
  then show ?case
    unfolding pick_key_def
    by (auto split: if_splits
        dest: random.pick_some least_used.pick_some least_requests.pick_some performance.pick_some round_robin.pick_some)
next
  case (2 p now ex al hp p' hp')
  then show ?case
    unfolding pick_key_def
    by (auto split: if_splits
        dest: random.pick_none least_used.pick_none least_requests.pick_none performance.pick_none round_robin.pick_none)
qed

text \<open>The change an acquisition makes: one more attempt in flight on one key.\<close>

definition acquired :: "Pool \<Rightarrow> heap \<Rightarrow> int \<Rightarrow> heap \<Rightarrow> bool" where
  "acquired p hp i hp' \<longleftrightarrow>
     (\<forall>a. health (hp_keys hp' a) = (let k = health (hp_keys hp a) in
        if a = key_addr p i then k\<lparr>ks_Inflight := ks_Inflight k + 1\<rparr> else k)) \<and>
     hp_handles hp' = hp_handles hp \<and> hp_next hp' = hp_next hp \<and> hp_epoch hp' = hp_epoch hp"

lemma AcquireVersioned_spec:
  assumes wf: "pool_wf p" and acq: "AcquireVersioned choice now ex al hp p = (r, p', hp')"
  shows "case r of
      None \<Rightarrow> (\<forall>i \<in> set (scan_order p al). \<not> isAvailableLocked p hp i now ex) \<and> p' = p \<and> hp' = hp
    | Some (i, key, version) \<Rightarrow>
        i \<in> set (scan_order p al) \<and> isAvailableLocked p hp i now ex \<and>
        key = ks_Key (key_at p hp i) \<and> version = ks_Version (key_at p hp i) \<and>
        acquired p hp i hp' \<and> (\<exists>r. p' = p\<lparr>pl_rrIdx := r\<rparr>) \<and> pool_wf p'"
proof (cases "pick_key choice now ex al hp p")
  case (fields pick p1 hp1)
  show ?thesis
  proof (cases pick)
    case None
    with fields acq pool.pick_none [OF wf, of choice now ex al hp p1 hp1] show ?thesis
      by (auto simp: AcquireVersioned_def)
  next
    case (Some i)
    note pk = pool.pick_some [OF wf fields [unfolded Some]]
    then obtain rr where p1: "p1 = p\<lparr>pl_rrIdx := rr\<rparr>" by blast
    let ?hp = "upd_key p i (\<lambda>k. k\<lparr>ks_Inflight := ks_Inflight k + 1, ks_lastAttempt := now - hp_epoch hp1\<rparr>) hp1"
    have r: "r = Some (i, ks_Key (key_at p ?hp i), ks_Version (key_at p ?hp i))" "p' = p1" "hp' = ?hp"
      using acq fields Some p1 by (auto simp: AcquireVersioned_def Let_def upd_key_def)
    have fr: "health (hp_keys hp1 a) = health (hp_keys hp a)" for a using pk by (simp add: sched_frame_def)
    have "acquired p hp i hp'"
      using pk fr [of "key_addr p i"] health_fields(5) [OF fr, of "key_addr p i"]
      by (auto simp: acquired_def r upd_key_def sched_frame_def Let_def)
    moreover have "ks_Key (key_at p ?hp i) = ks_Key (key_at p hp i)" "ks_Version (key_at p ?hp i) = ks_Version (key_at p hp i)"
      using health_fields [OF fr, of "key_addr p i"] by (simp_all add: upd_key_def)
    ultimately show ?thesis using pk p1 by (simp add: r)
  qed
qed

lemma acquired_available:
  assumes "acquired p hp i hp'"
  shows "isAvailableLocked q hp' c now ex = isAvailableLocked q hp c now ex"
proof -
  let ?k = "key_at q hp c" and ?k' = "key_at q hp' c"
  have "health ?k' = health ?k \<or> health ?k' = (health ?k)\<lparr>ks_Inflight := ks_Inflight ?k + 1\<rparr>"
    using assms by (auto simp: acquired_def Let_def)
  then have "ks_retired ?k' = ks_retired ?k \<and> ks_Status ?k' = ks_Status ?k \<and>
      ks_CooldownUntil ?k' = ks_CooldownUntil ?k"
    by (elim disjE) (cases ?k, cases ?k', simp add: health_def)+
  then show ?thesis by (simp add: isAvailableLocked_def)
qed

section \<open>Properties of selection\<close>

text \<open>A concrete pool for the witnesses: keys k1, k2, k3, where k2 is disabled.\<close>

definition sample_heap :: heap where
  "sample_heap = \<lparr>hp_keys = (\<lambda>a. (new_key_state \<lparr>kc_Key = ''k1'', kc_Status = (if a = 2 then KeyStatusDisabledManual
       else KeyStatusActive), kc_DisableReason = [], kc_DisabledAt = None, kc_DisabledBy = [],
       kc_RuntimeStats = zero_stats, kc_Version = 1, kc_Stats = None\<rparr> (if a = 1 then ''k1'' else if a = 2 then ''k2'' else ''k3'') (a + 10) 0)),
     hp_handles = (\<lambda>a. NewRuntimeStatsHandle zero_stats), hp_credit = (\<lambda>a. 0), hp_next = 20, hp_epoch = 0\<rparr>"

definition sample_pool :: "string \<Rightarrow> Pool" where
  "sample_pool strategy = \<lparr>pl_strategy = strategy, pl_keys = [1, 2, 3], pl_rrIdx = 1, pl_exploration = 0, pl_mu = 0\<rparr>"

lemma sample_pool_wf [simp]: "pool_wf (sample_pool strategy)"
  by (simp add: pool_wf_def sample_pool_def)

lemma sample_available:
  "isAvailableLocked (sample_pool strategy) sample_heap 0 5 {}"
  "isAvailableLocked (sample_pool strategy) sample_heap 2 5 {0}"
  "num_keys (sample_pool strategy) = 3"
  by (simp_all add: isAvailable_iff sample_pool_def sample_heap_def new_key_state_def)

text \<open>C26: Under every strategy, acquisition succeeds exactly when the cheap test \<open>HasAvailableAllowed\<close>
  says so; a success returns an allowed, not excluded key that is active, not retired and out of
  cooldown, with its current version, and adds one attempt in flight to that key alone; a failure
  means that no allowed key qualifies and changes nothing.\<close>

theorem acquire_sound_complete:
  assumes "pool_wf p" and "AcquireVersioned choice now ex al hp p = (r, p', hp')"
  shows "(r \<noteq> None \<longleftrightarrow> HasAvailableAllowed now ex al hp p) \<and>
    (case r of
       None \<Rightarrow> p' = p \<and> hp' = hp
     | Some (i, key, version) \<Rightarrow>
         0 \<le> i \<and> i < num_keys p \<and> i \<notin> ex \<and> (al = None \<or> i \<in> set (the al)) \<and>
         \<not> ks_retired (key_at p hp i) \<and> IsActiveStatus (ks_Status (key_at p hp i)) \<and>
         ks_CooldownUntil (key_at p hp i) \<le> now \<and>
         key = ks_Key (key_at p hp i) \<and> version = ks_Version (key_at p hp i) \<and>
         ks_Inflight (key_at p hp' i) = ks_Inflight (key_at p hp i) + 1 \<and> acquired p hp i hp' \<and>
         pl_keys p' = pl_keys p \<and> pool_wf p')"
proof (cases r)
  case None
  with AcquireVersioned_spec [OF assms] show ?thesis by (auto simp: HasAvailableAllowed_iff)
next
  case (Some x)
  obtain i key version where x: "x = (i, key, version)" by (cases x)
  note s = AcquireVersioned_spec [OF assms, unfolded Some x option.case prod.case]
  have av: "isAvailableLocked p hp i now ex" using s by blast
  have "ks_Inflight (health (key_at p hp' i)) = ks_Inflight (health (key_at p hp i)) + 1"
    using s unfolding acquired_def Let_def by simp
  moreover have "HasAvailableAllowed now ex al hp p" using s unfolding HasAvailableAllowed_iff by blast
  moreover have "al = None \<or> i \<in> set (the al)" using s by (cases al) (simp_all add: scan_order_def)
  moreover have "pl_keys p' = pl_keys p" using s by auto
  ultimately show ?thesis using s av [unfolded isAvailable_iff] by (simp add: Some x)
qed

theorem acquire_sound_complete_witness:
  "fst (AcquireVersioned 0 5 {0} None sample_heap (sample_pool ''round_robin'')) \<noteq> None \<and>
   HasAvailableAllowed 5 {0} None sample_heap (sample_pool ''round_robin'')"
proof (cases "AcquireVersioned 0 5 {0} None sample_heap (sample_pool ''round_robin'')")
  case (fields r p' hp')
  have "HasAvailableAllowed 5 {0} None sample_heap (sample_pool ''round_robin'')"
    unfolding HasAvailableAllowed_iff
    by (rule bexI [of _ 2]) (rule sample_available(2), simp add: scan_order_def sample_pool_def)
  with fields acquire_sound_complete [OF sample_pool_wf fields] show ?thesis by simp
qed

text \<open>Consecutive acquisitions at the given times, without exclusions.\<close>

fun acquire_seq :: "time list \<Rightarrow> heap \<Rightarrow> Pool \<Rightarrow> int option list" where
  "acquire_seq [] hp p = []"
| "acquire_seq (t # ts) hp p =
     (case AcquireVersioned 0 t {} None hp p of (r, p', hp') \<Rightarrow> map_option fst r # acquire_seq ts hp' p')"

lemma round_robin_next:
  assumes wf: "pool_wf p" and rr: "pl_strategy p = ''round_robin''" and n: "pl_keys p \<noteq> []"
    and av: "isAvailableLocked p hp (pl_rrIdx p) t {}"
    and acq: "AcquireVersioned choice t {} None hp p = (r, p', hp')"
  shows "map_option fst r = Some (pl_rrIdx p) \<and> p' = p\<lparr>pl_rrIdx := (pl_rrIdx p + 1) mod num_keys p\<rparr> \<and>
    acquired p hp (pl_rrIdx p) hp'"
proof -
  have inr: "0 \<le> pl_rrIdx p" "pl_rrIdx p < num_keys p" using wf n by (auto simp: pool_wf_def)
  from AcquireVersioned_spec [OF wf acq] av inr obtain i key version where
    r: "r = Some (i, key, version)" and ac: "acquired p hp i hp'"
    by (cases r) (auto simp: scan_order_def)
  obtain p1 where pick: "pickRoundRobinLocked t {} None hp p = (Some i, p1)" and p': "p' = p1"
    using acq r rr by (auto simp: AcquireVersioned_def pick_key_def Let_def split: prod.splits option.splits)
  note s = pickRoundRobin_some [OF wf pick]
  have "rr_distance p i \<le> rr_distance p (pl_rrIdx p)" using s av inr by (simp add: scan_order_def)
  also have "\<dots> = 0" by (simp add: rr_distance_def)
  finally have "rr_distance p i = 0" using rr_offset_distance(2) [OF wf] s isAvailable_range by fastforce
  then have "i = pl_rrIdx p"
    using rr_offset_distance(1) [OF wf, of i] s isAvailable_range [of p hp i t "{}"] inr by simp
  with r ac s p' show ?thesis by simp
qed

lemma acquire_seq_round_robin:
  assumes "pool_wf p" and "pl_strategy p = ''round_robin''" and "pl_keys p \<noteq> []"
    and "\<forall>t \<in> set ts. \<forall>i. 0 \<le> i \<and> i < num_keys p \<longrightarrow> isAvailableLocked p hp i t {}"
  shows "acquire_seq ts hp p = map (\<lambda>j. Some ((pl_rrIdx p + int j) mod num_keys p)) [0..<length ts]"
  using assms
proof (induction ts arbitrary: hp p)
  case (Cons t ts)
  obtain r p' hp' where acq: "AcquireVersioned 0 t {} None hp p = (r, p', hp')" by (cases "AcquireVersioned 0 t {} None hp p")
  have inr: "0 \<le> pl_rrIdx p" "pl_rrIdx p < num_keys p" using Cons.prems(1,3) by (auto simp: pool_wf_def)
  have "isAvailableLocked p hp (pl_rrIdx p) t {}" using Cons.prems(4) inr by simp
  note s = round_robin_next [OF Cons.prems(1-3) this acq]
  have wf': "pool_wf p'" using s pool_wf_next [OF inr] by simp
  have "acquire_seq ts hp' p' = map (\<lambda>j. Some ((pl_rrIdx p' + int j) mod num_keys p')) [0..<length ts]"
    using Cons.IH [OF wf', of hp'] Cons.prems(2-4) s acquired_available [of p hp "pl_rrIdx p" hp'] by simp
  then have "acquire_seq (t # ts) hp p =
      Some (pl_rrIdx p) # map (\<lambda>j. Some ((pl_rrIdx p + 1 + int j) mod num_keys p)) [0..<length ts]"
    using acq s by (simp add: mod_add_left_eq)
  also have "\<dots> = map (\<lambda>j. Some ((pl_rrIdx p + int j) mod num_keys p)) (0 # map Suc [0..<length ts])"
    using inr by (simp add: ac_simps)
  also have "0 # map Suc [0..<length ts] = [0..<length (t # ts)]" by (simp add: map_Suc_upt upt_conv_Cons del: upt_Suc)
  finally show ?case .
qed simp

text \<open>Round robin is fair: while every key is available, consecutive acquisitions walk the keys
  cyclically from the rotation index, so any run of as many acquisitions as there are keys returns
  every key exactly once.\<close>

theorem round_robin_fair:
  assumes "pool_wf p" and "pl_strategy p = ''round_robin''" and "pl_keys p \<noteq> []"
    and "\<forall>t \<in> set ts. \<forall>i. 0 \<le> i \<and> i < num_keys p \<longrightarrow> isAvailableLocked p hp i t {}"
  shows "acquire_seq ts hp p = map (\<lambda>j. Some ((pl_rrIdx p + int j) mod num_keys p)) [0..<length ts] \<and>
    (length ts = length (pl_keys p) \<longrightarrow>
       distinct (acquire_seq ts hp p) \<and> set (acquire_seq ts hp p) = Some ` {0..<num_keys p})"
proof -
  have seq: "acquire_seq ts hp p = map (\<lambda>j. Some ((pl_rrIdx p + int j) mod num_keys p)) [0..<length ts]"
    by (rule acquire_seq_round_robin [OF assms])
  moreover have "distinct (acquire_seq ts hp p) \<and> set (acquire_seq ts hp p) = Some ` {0..<num_keys p}"
    if len: "length ts = length (pl_keys p)"
  proof -
    let ?f = "\<lambda>j. (pl_rrIdx p + int j) mod num_keys p"
    have inj: "inj_on ?f {0..<length ts}"
    proof (rule inj_onI)
      fix j k assume jk: "j \<in> {0..<length ts}" "k \<in> {0..<length ts}" "?f j = ?f k"
      have "rr_distance p (?f j) = int j" "rr_distance p (?f k) = int k"
        using jk(1,2) len by (auto intro!: rr_distance_offset [OF assms(1)])
      with jk(3) show "j = k" by (metis of_nat_eq_iff)
    qed
    have "?f ` {0..<length ts} \<subseteq> {0..<num_keys p}" using assms(3) by auto
    moreover have "card (?f ` {0..<length ts}) = card {0..<num_keys p}" using card_image [OF inj] len by simp
    ultimately have "?f ` {0..<length ts} = {0..<num_keys p}" by (intro card_subset_eq) auto
    moreover have "set (acquire_seq ts hp p) = Some ` (?f ` {0..<length ts})" by (simp add: seq image_image)
    moreover have "distinct (acquire_seq ts hp p)"
      using inj by (simp add: seq distinct_map inj_on_def)
    ultimately show ?thesis by simp
  qed
  ultimately show ?thesis by blast
qed

definition active_heap :: heap where
  "active_heap = sample_heap\<lparr>hp_keys := (\<lambda>a. (hp_keys sample_heap a)\<lparr>ks_Status := KeyStatusActive\<rparr>)\<rparr>"

theorem round_robin_fair_witness:
  "acquire_seq [1, 2, 3] active_heap (sample_pool ''round_robin'') = [Some 1, Some 2, Some 0]"
proof -
  have "isAvailableLocked (sample_pool ''round_robin'') active_heap i t {}"
    if "0 \<le> i" "i < num_keys (sample_pool ''round_robin'')" "t \<in> set [1, 2, 3]" for i t
    using that by (auto simp: isAvailableLocked_def active_heap_def sample_heap_def new_key_state_def)
  then show ?thesis
    using round_robin_fair [of "sample_pool ''round_robin''" "[1, 2, 3]" active_heap]
    by (simp add: sample_pool_def pool_wf_def upt_rec)
qed

text \<open>\<open>least_used\<close> picks an available allowed key with the fewest attempts in flight, breaking
  ties by fewest requests ever, and \<open>least_requests\<close> one with the fewest requests ever including
  those in flight; remaining ties go to the next key in rotation.\<close>

theorem least_load_optimal:
  assumes "pool_wf p" and "pl_strategy p \<in> {''least_used'', ''least_requests''}"
    and "AcquireVersioned choice now ex al hp p = (Some (i, key, version), p', hp')"
    and "c \<in> set (scan_order p al)" and "isAvailableLocked p hp c now ex"
    and "load = (\<lambda>i. ks_Inflight (key_at p hp i))" and "requests = (\<lambda>i. h_totalRequests (handle_at p hp i))"
  shows "(if pl_strategy p = ''least_used'' then (load i, requests i, rr_distance p i) \<le> (load c, requests c, rr_distance p c)
    else (requests i + load i, load i, rr_distance p i) \<le> (requests c + load c, load c, rr_distance p c)) \<and>
    p' = p\<lparr>pl_rrIdx := (i + 1) mod num_keys p\<rparr>"
proof -
  let ?scoref = "if pl_strategy p = ''least_used'' then leastUsedScore p hp else leastRequestsScore p hp"
  have "pickByScoreLocked now ex al ?scoref hp p = (Some i, p')"
    using assms(2,3) by (auto simp: AcquireVersioned_def pick_key_def Let_def split: prod.splits option.splits)
  from pickByScore_spec [OF assms(1) this] assms(4,5)
  have s: "isAvailableLocked p hp i now ex" "p' = p\<lparr>pl_rrIdx := (i + 1) mod num_keys p\<rparr>"
    "score_rank ?scoref p i \<le> score_rank ?scoref p c" by auto
  have t: "totalRequestsLocked p hp i = requests i" "totalRequestsLocked p hp c = requests c"
    using isAvailable_range [OF s(1)] isAvailable_range [OF assms(5)] assms(7) by (simp_all add: totalRequestsLocked_def)
  show ?thesis
    using s(2,3) assms(6) t
    by (auto simp: score_rank_def score_key_def leastUsedScore_def leastRequestsScore_def split: if_splits)
qed

theorem least_load_optimal_witness:
  "\<exists>i key version p' hp'. AcquireVersioned 0 5 {} None sample_heap (sample_pool ''least_used'') = (Some (i, key, version), p', hp') \<and>
     ks_Inflight (key_at (sample_pool ''least_used'') sample_heap i) \<le> 0"
proof -
  let ?p = "sample_pool ''least_used''"
  obtain r p' hp' where acq: "AcquireVersioned 0 5 {} None sample_heap ?p = (r, p', hp')"
    by (cases "AcquireVersioned 0 5 {} None sample_heap ?p")
  note av = sample_available(1)
  have c: "0 \<in> set (scan_order ?p None)" by (simp add: scan_order_def sample_pool_def)
  from AcquireVersioned_spec [OF sample_pool_wf acq] av c obtain i key version
    where r: "r = Some (i, key, version)" by (cases r) auto
  have "ks_Inflight (key_at ?p sample_heap 0) = 0"
    by (simp add: sample_pool_def sample_heap_def new_key_state_def)
  then show ?thesis
    using least_load_optimal [OF sample_pool_wf _ acq [unfolded r] c av refl refl] acq r
    by (auto simp: sample_pool_def)
qed

text \<open>A performance strategy explores at most on every tenth pick: when the credit is full and
  some available key is due for exploration, it takes the due key that was attempted longest ago and
  spends the credit; otherwise it takes the key with the least aged cost per load, ties to the next
  in rotation, and the credit grows by one up to ten.\<close>

theorem performance_choice:
  assumes "pool_wf p" and "pl_strategy p \<in> {''lowest_latency'', ''highest_success'', ''adaptive''}"
    and "AcquireVersioned choice now ex al hp p = (Some (i, key, version), p', hp')"
    and "0 \<le> hp_credit hp (pl_exploration p)" and "hp_credit hp (pl_exploration p) \<le> explorationInterval"
    and "credit = min explorationInterval (hp_credit hp (pl_exploration p) + 1)"
    and "cands = {c \<in> set (scan_order p al). isAvailableLocked p hp c now ex}"
  shows "i \<in> cands \<and> (credit < explorationInterval \<longrightarrow> \<not> (\<exists>c \<in> cands. scan_due p hp now credit c)) \<and>
    (if \<exists>c \<in> cands. scan_due p hp now credit c
     then scan_due p hp now credit i \<and> hp_credit hp' (pl_exploration p) = 0 \<and>
       (\<forall>c \<in> cands. scan_due p hp now credit c \<longrightarrow> last_attempt p hp now i \<le> last_attempt p hp now c)
     else hp_credit hp' (pl_exploration p) = credit \<and>
       (\<forall>c \<in> cands. (scan_cost p hp now i, rr_distance p i) \<le> (scan_cost p hp now c, rr_distance p c)))"
proof -
  have strat: "pick_key choice now ex al hp p = pickPerformanceLocked now ex al hp p"
    using assms(2) by (auto simp: pick_key_def)
  obtain hp1 where pick: "pickPerformanceLocked now ex al hp p = (Some i, p', hp1)"
    and hp': "hp_credit hp' = hp_credit hp1"
    using assms(3) unfolding AcquireVersioned_def strat
    by (auto simp: upd_key_def Let_def split: prod.splits option.splits)
  have credit: "(if hp_credit hp (pl_exploration p) < explorationInterval then hp_credit hp (pl_exploration p) + 1
      else hp_credit hp (pl_exploration p)) = credit" using assms(5,6) by auto
  have "credit < explorationInterval \<longrightarrow> \<not> scan_due p hp now credit c" for c
    by (simp add: scan_due_def exploration_due_def)
  moreover note pickPerformance_some [OF assms(1) pick credit, folded assms(7)]
  ultimately show ?thesis unfolding hp' scan_rank_def by (auto simp del: less_eq_prod_simp)
qed

theorem performance_choice_witness:
  "\<exists>i key version p' hp'. AcquireVersioned 0 5 {} None sample_heap (sample_pool ''adaptive'') = (Some (i, key, version), p', hp') \<and>
     hp_credit hp' 0 = 1"
proof -
  let ?p = "sample_pool ''adaptive''"
  obtain r p' hp' where acq: "AcquireVersioned 0 5 {} None sample_heap ?p = (r, p', hp')"
    by (cases "AcquireVersioned 0 5 {} None sample_heap ?p")
  have c: "0 \<in> set (scan_order ?p None)" by (simp add: scan_order_def sample_pool_def)
  from AcquireVersioned_spec [OF sample_pool_wf acq] sample_available(1) c obtain i key version
    where r: "r = Some (i, key, version)" by (cases r) auto
  have fields: "pl_strategy ?p = ''adaptive''" "pl_exploration ?p = 0" "hp_credit sample_heap 0 = 0"
    by (simp_all add: sample_pool_def sample_heap_def)
  have "hp_credit hp' 0 = 1"
    using performance_choice [OF sample_pool_wf _ acq [unfolded r] _ _ refl refl] fields by (simp split: if_splits)
  with acq r show ?thesis by blast
qed

end
