(* ===== verification/PoolSettle.thy ===== *)
theory PoolSettle
  imports PoolPick
begin

text \<open>
  Settlement of attempts.  \<open>settle\<close> is the contract of \<open>CompleteAttempt\<close> on one key state and
  its statistics handle; the heap operation refines it and touches nothing else.  From it follow
  that a result of an outdated admin version never changes the health of a key, what each outcome
  does to a current key, the cooldown arithmetic, and that every operation keeps the numeric
  invariant of key states and handles.
\<close>

section \<open>Cooldown arithmetic\<close>

lemma scale_factor_spec:
  "1 \<le> f \<Longrightarrow> f \<le> max_int64 \<Longrightarrow> scale_factor i f = (if f * 2 ^ i \<le> max_int64 then Some (f * 2 ^ i) else None)"
proof (induction i arbitrary: f)
  case (Suc i)
  show ?case
  proof (cases "f > max_int64 div 2")
    case True
    have "1 * (2::int) \<le> 2 ^ i * 2" by (rule mult_right_mono) simp_all
    then have "f * 2 \<le> f * 2 ^ Suc i" using Suc.prems(1) by (intro mult_left_mono) auto
    moreover have "max_int64 < f * 2" using True by simp
    ultimately have "\<not> f * 2 ^ Suc i \<le> max_int64" by linarith
    with True show ?thesis by simp
  next
    case False
    with Suc.IH [of "f * 2"] Suc.prems show ?thesis by (simp add: ac_simps)
  qed
qed simp

lemma le_div_int: assumes "0 < b" shows "(a::int) \<le> c div b \<longleftrightarrow> a * b \<le> c"
proof
  assume "a \<le> c div b"
  then have "a * b \<le> c div b * b" using assms by (intro mult_right_mono) auto
  also have "\<dots> \<le> c" using assms by (simp add: minus_mod_eq_div_mult [symmetric])
  finally show "a * b \<le> c" .
next
  assume "a * b \<le> c"
  then have "a * b div b \<le> c div b" using assms by (rule zdiv_mono1)
  with assms show "a \<le> c div b" by simp
qed

lemma scaledCooldown_eq:
  assumes "0 < base" and "base \<le> max_int64" and "1 \<le> level"
  shows "scaledCooldownDuration level base = min max_int64 (base * 2 ^ nat (level - 1))"
proof (cases "level = 1")
  case True
  with assms show ?thesis by (simp add: scaledCooldownDuration_def)
next
  case False
  let ?f = "2 ^ nat (level - 1) :: int"
  have f: "1 \<le> ?f" by simp
  have le: "base \<le> max_int64 div ?f \<longleftrightarrow> base * ?f \<le> max_int64"
    by (simp add: le_div_int)
  have "scale_factor (nat (level - 1)) 1 = (if ?f \<le> max_int64 then Some ?f else None)"
    by (simp add: scale_factor_spec)
  moreover have "max_int64 < base * ?f" if "\<not> ?f \<le> max_int64"
  proof -
    have "1 * ?f \<le> base * ?f" using assms(1) by (intro mult_right_mono) auto
    with that show ?thesis by linarith
  qed
  ultimately show ?thesis
    using False assms le by (auto simp: scaledCooldownDuration_def min_def not_le)
qed

section \<open>The contract of one settlement\<close>

definition release_state :: "KeyState \<Rightarrow> KeyState" where
  "release_state k = (if ks_Inflight k > 0 then k\<lparr>ks_Inflight := ks_Inflight k - 1\<rparr> else k)"

definition counted :: "AttemptResult \<Rightarrow> bool \<Rightarrow> stats_handle \<Rightarrow> stats_handle" where
  "counted r preserve =
     (if ar_Action r = AttemptSuccess then recordSuccessLocked preserve
      else recordErrorLocked (ar_StatusCode r) (ar_Reason r) preserve)"

definition sampled :: "AttemptResult \<Rightarrow> time \<Rightarrow> stats_handle \<Rightarrow> stats_handle" where
  "sampled r now h = fst (recordSampleLocked (ar_HeaderElapsed r) (ar_FullElapsed r) (ar_Action r = AttemptSuccess) now h)"

definition is_current :: "int \<Rightarrow> KeyState \<Rightarrow> bool" where
  "is_current version k \<longleftrightarrow> \<not> ks_retired k \<and> ks_Version k = version"

definition settle ::
  "time \<Rightarrow> time \<Rightarrow> time \<Rightarrow> int \<Rightarrow> AttemptResult \<Rightarrow> KeyState \<Rightarrow> stats_handle \<Rightarrow> bool \<times> KeyState \<times> stats_handle" where
  "settle now1 now2 epoch version r k h =
     (let k = release_state k in
      case ar_Action r of
        AttemptInterrupted \<Rightarrow> (False, k, RecordInterrupted h)
      | AttemptOther _ \<Rightarrow> (False, k, h)
      | _ \<Rightarrow>
          if is_current version k
          then (ar_Action r = AttemptDisable,
                attempt_health now2 r
                  (noteSample (h_generation h) (now1 - epoch) (ar_Action r = AttemptSuccess) k),
                counted r False (sampled r now1 h))
          else (False, k, counted r True h))"

definition put :: "Pool \<Rightarrow> int \<Rightarrow> KeyState \<Rightarrow> stats_handle \<Rightarrow> heap \<Rightarrow> heap" where
  "put p idx k h hp = hp\<lparr>hp_keys := (hp_keys hp)(key_addr p idx := k),
     hp_handles := (hp_handles hp)(ks_stats (key_at p hp idx) := h)\<rparr>"

lemma noteSample_stats [simp]:
  "ks_stats (noteSample g t s k) = ks_stats k" "ks_retired (noteSample g t s k) = ks_retired k"
  "ks_Version (noteSample g t s k) = ks_Version k" "ks_Inflight (noteSample g t s k) = ks_Inflight k"
  "ks_Status (noteSample g t s k) = ks_Status k" "ks_Key (noteSample g t s k) = ks_Key k"
  "ks_CooldownUntil (noteSample g t s k) = ks_CooldownUntil k"
  "ks_CooldownLevel (noteSample g t s k) = ks_CooldownLevel k" "ks_Failures (noteSample g t s k) = ks_Failures k"
  by (simp_all add: noteSample_def syncStatsGeneration_def Let_def)

lemma release_state_fields [simp]:
  "ks_stats (release_state k) = ks_stats k" "ks_retired (release_state k) = ks_retired k"
  "ks_Version (release_state k) = ks_Version k" "ks_Status (release_state k) = ks_Status k"
  "ks_Key (release_state k) = ks_Key k" "ks_CooldownUntil (release_state k) = ks_CooldownUntil k"
  "ks_CooldownLevel (release_state k) = ks_CooldownLevel k" "ks_Failures (release_state k) = ks_Failures k"
  by (simp_all add: release_state_def)

lemma releaseInflight_eq:
  "in_range p idx \<Longrightarrow> releaseInflightLocked p idx hp = (True, upd_key p idx release_state hp)"
  by (simp add: releaseInflightLocked_def in_range_def upd_key_def release_state_def)

lemma upd_key_twice: "upd_key p i g (upd_key p i f hp) = upd_key p i (\<lambda>k. g (f k)) hp"
  by (simp add: upd_key_def)

lemma put_upd: "put p i k h hp = hp\<lparr>hp_keys := (hp_keys hp)(key_addr p i := k),
     hp_handles := (hp_handles hp)(ks_stats (key_at p hp i) := h)\<rparr>"
  by (rule put_def)

lemma attempt_sample_eq:
  "attempt_sample now i r p hp =
     put p i (noteSample (h_generation (handle_at p hp i)) (now - hp_epoch hp) (ar_Action r = AttemptSuccess) (key_at p hp i))
       (sampled r now (handle_at p hp i)) hp"
  by (simp add: attempt_sample_def put_def upd_key_def upd_handle_def sampled_def Let_def)

lemma CompleteAttempt_refines:
  assumes "in_range p idx"
  shows "CompleteAttempt now1 now2 idx version r p hp =
    (case settle now1 now2 (hp_epoch hp) version r (key_at p hp idx) (handle_at p hp idx) of
       (b, k, h) \<Rightarrow> (b, put p idx k h hp))"
proof -
  let ?k = "release_state (key_at p hp idx)" and ?h = "handle_at p hp idx"
  let ?hp = "upd_key p idx release_state hp"
  have reads: "key_at p ?hp idx = ?k" "hp_handles ?hp (ks_stats ?k) = ?h" "hp_epoch ?hp = hp_epoch hp"
    by (simp_all add: upd_key_def)
  have cur: "currentVersionLocked p idx (Some version) ?hp = is_current version ?k"
    by (simp add: currentVersionLocked_def is_current_def reads)
  note eqs = CompleteAttempt_def releaseInflight_eq [OF assms] Let_def prod.case cur settle_def
  have put_release: "put p idx k h ?hp = put p idx k h hp" for k h
    by (simp add: put_def upd_key_def)
  have stale: "upd_handle p idx f ?hp = put p idx ?k (f ?h) hp" for f
    by (simp add: upd_handle_def put_def upd_key_def)
  have nochange: "?hp = put p idx ?k ?h hp" by (simp add: put_def upd_key_def)
  have fresh: "upd_key p idx g (upd_handle p idx f (attempt_sample now1 idx r p ?hp)) =
      put p idx (g (noteSample (h_generation ?h) (now1 - hp_epoch hp) (ar_Action r = AttemptSuccess) ?k))
        (f (sampled r now1 ?h)) hp" for f g
    unfolding attempt_sample_eq reads put_release by (simp add: upd_key_def upd_handle_def put_def)
  show ?thesis
  proof (cases "ar_Action r")
    case AttemptInterrupted
    then show ?thesis unfolding eqs by (simp add: stale)
  next
    case (AttemptOther x)
    then show ?thesis unfolding eqs using nochange by simp
  qed (cases "is_current version ?k"; unfold eqs; simp add: stale fresh counted_def)+
qed

section \<open>The numeric invariant\<close>

definition key_inv :: "KeyState \<Rightarrow> bool" where
  "key_inv k \<longleftrightarrow> 0 \<le> ks_Inflight k \<and> 0 \<le> ks_Failures k \<and> 0 \<le> ks_CooldownLevel k \<and> ks_CooldownLevel k \<le> 10 \<and>
     0 \<le> ks_liveSamples k \<and> ks_liveSamples k \<le> 2 \<and> 0 \<le> ks_failedSamples k \<and> ks_failedSamples k \<le> 4"

text \<open>Every key state, handle and credit is well formed.\<close>

definition heap_inv :: "heap \<Rightarrow> bool" where
  "heap_inv hp \<longleftrightarrow> (\<forall>a. key_inv (hp_keys hp a) \<and> handle_inv (hp_handles hp a) \<and>
     0 \<le> hp_credit hp a \<and> hp_credit hp a \<le> explorationInterval)"

lemma key_inv_release [simp]: "key_inv k \<Longrightarrow> key_inv (release_state k)"
  by (simp add: key_inv_def release_state_def)

lemma key_inv_sync [simp]: "key_inv k \<Longrightarrow> key_inv (syncStatsGeneration g t k)"
  by (simp add: key_inv_def syncStatsGeneration_def)

lemma key_inv_noteSample [simp]: "key_inv k \<Longrightarrow> key_inv (noteSample g t s k)"
  using key_inv_sync [of k g t] by (auto simp: key_inv_def noteSample_def Let_def)

lemma key_inv_failure [simp]: "key_inv k \<Longrightarrow> key_inv (recordFailure k)"
  by (simp add: key_inv_def recordFailure_def Let_def)

lemma key_inv_health [simp]: "key_inv k \<Longrightarrow> key_inv (attempt_health now r k)"
  by (auto simp: key_inv_def attempt_health_def recordFailure_def disable_state_def Let_def split: AttemptAction.split)

lemma counted_inv [simp]: "handle_inv h \<Longrightarrow> handle_inv (counted r b h)"
  by (simp add: counted_def recordSuccess_inv recordError_inv)

lemma sampled_inv [simp]: "handle_inv h \<Longrightarrow> handle_inv (sampled r now h)"
  by (simp add: sampled_def recordSample_inv)

lemma settle_inv:
  "key_inv k \<Longrightarrow> handle_inv h \<Longrightarrow> settle now1 now2 epoch v r k h = (b, k', h') \<Longrightarrow> key_inv k' \<and> handle_inv h'"
  by (auto simp: settle_def Let_def RecordInterrupted_inv split: AttemptAction.splits if_splits)

lemma settle_inflight:
  "settle now1 now2 epoch v r k h = (b, k', h') \<Longrightarrow> ks_Inflight k' = ks_Inflight (release_state k)"
  by (auto simp: settle_def Let_def attempt_health_def recordFailure_def disable_state_def
      split: AttemptAction.splits if_splits)

lemma settle_identity:
  "settle now1 now2 epoch v r k h = (b, k', h') \<Longrightarrow>
     ks_Key k' = ks_Key k \<and> ks_stats k' = ks_stats k \<and> ks_retired k' = ks_retired k \<and> ks_Version k' = ks_Version k"
  by (auto simp: settle_def Let_def attempt_health_def recordFailure_def disable_state_def
      split: AttemptAction.splits if_splits)

section \<open>Properties of settlement\<close>

text \<open>The cooldown of a key is the configured duration doubled per consecutive failure level and
  saturated at the largest duration: no level and no duration overflows.\<close>

theorem cooldown_scaling:
  assumes "0 < base" and "base \<le> max_int64" and "1 \<le> level"
  shows "scaledCooldownDuration level base = min max_int64 (base * 2 ^ nat (level - 1)) \<and>
    base \<le> scaledCooldownDuration level base \<and> scaledCooldownDuration level base \<le> max_int64"
proof -
  have "base * 1 \<le> base * 2 ^ nat (level - 1)" using assms(1) by (intro mult_left_mono) auto
  with scaledCooldown_eq [OF assms] assms(2) show ?thesis by (simp add: min_def)
qed

theorem cooldown_scaling_witness:
  "scaledCooldownDuration 10 (30 * second) = 512 * 30 * second \<and>
   scaledCooldownDuration 10 max_int64 = max_int64"
  using cooldown_scaling [of "30 * second" 10] cooldown_scaling [of max_int64 10] by simp

text \<open>C21: A result for an outdated admin version, or for a key that left the plan, never touches
  health: no status, cooldown, failure count or sample changes, nothing is authorised for persisting,
  the last status and error stay; only the attempt in flight is released and the attempt counted.\<close>

theorem stale_attempt_keeps_health:
  assumes "in_range p idx" and "\<not> (\<not> ks_retired (key_at p hp idx) \<and> ks_Version (key_at p hp idx) = version)"
    and "CompleteAttempt now1 now2 idx version r p hp = (authorised, hp')"
  shows "\<not> authorised \<and>
    hp_keys hp' = (hp_keys hp)(key_addr p idx := release_state (key_at p hp idx)) \<and>
    (\<forall>a. a \<noteq> ks_stats (key_at p hp idx) \<longrightarrow> hp_handles hp' a = hp_handles hp a) \<and>
    (let h = handle_at p hp idx; h' = hp_handles hp' (ks_stats (key_at p hp idx)) in
     LastStatus (h_stats h') = LastStatus (h_stats h) \<and> LastError (h_stats h') = LastError (h_stats h) \<and>
     RecentStats (h_stats h') = RecentStats (h_stats h) \<and> samples h' = samples h \<and>
     performanceCost strategy h' = performanceCost strategy h \<and>
     TotalRequests (h_stats h') = TotalRequests (h_stats h) + (case ar_Action r of AttemptOther _ \<Rightarrow> 0 | _ \<Rightarrow> 1))"
proof -
  let ?k = "key_at p hp idx" and ?h = "handle_at p hp idx"
  obtain b k' h' where s: "settle now1 now2 (hp_epoch hp) version r ?k ?h = (b, k', h')"
    by (cases "settle now1 now2 (hp_epoch hp) version r ?k ?h")
  have out: "authorised = b" "hp' = put p idx k' h' hp"
    using CompleteAttempt_refines [OF assms(1), of now1 now2 version r hp] assms(3) s by simp_all
  have stale: "\<not> is_current version (release_state ?k)" using assms(2) by (simp add: is_current_def)
  have "b = False \<and> k' = release_state ?k \<and>
      h' = (case ar_Action r of AttemptInterrupted \<Rightarrow> RecordInterrupted ?h | AttemptOther _ \<Rightarrow> ?h | _ \<Rightarrow> counted r True ?h)"
    using s stale by (auto simp: settle_def Let_def split: AttemptAction.splits)
  then show ?thesis
    by (simp add: out put_def Let_def counted_def recordSuccessLocked_def recordErrorLocked_def RecordInterrupted_def
        samples_def split: AttemptAction.split)
qed

definition cooldown_result :: AttemptResult where
  "cooldown_result = \<lparr>ar_Action = AttemptCooldown, ar_StatusCode = 429, ar_Reason = ''busy'', ar_Cooldown = 30 * second,
     ar_HeaderElapsed = 1, ar_FullElapsed = 2\<rparr>"

theorem stale_attempt_keeps_health_witness:
  "fst (CompleteAttempt 5 6 0 7 cooldown_result (sample_pool ''random'') sample_heap) = False"
proof (cases "CompleteAttempt 5 6 0 7 cooldown_result (sample_pool ''random'') sample_heap")
  case (Pair b hp')
  have "in_range (sample_pool ''random'') 0" by (simp add: in_range_def sample_pool_def)
  from stale_attempt_keeps_health [OF this _ Pair] Pair show ?thesis
    by (simp add: sample_pool_def sample_heap_def new_key_state_def)
qed

text \<open>What a result of the current version does to its key: a success clears the failures and the
  cooldown level, an observed error clears the failures, a cooldown raises the level up to ten and
  blocks the key until the scaled time, a disable blocks it with the normalised reason until an admin
  enables it and is the only outcome that is authorised for persisting; every such result is recorded
  as a sample and counted, and releases one attempt in flight.\<close>

theorem current_attempt_effect:
  assumes "in_range p idx" and "\<not> ks_retired (key_at p hp idx)" and "ks_Version (key_at p hp idx) = version"
    and "CompleteAttempt now1 now2 idx version r p hp = (authorised, hp')"
    and "ar_Action r \<in> {AttemptSuccess, AttemptObserve, AttemptCooldown, AttemptDisable}"
    and "k = key_at p hp idx" and "k' = key_at p hp' idx" and "h = handle_at p hp idx"
  shows "authorised = (ar_Action r = AttemptDisable) \<and>
    ks_Inflight k' = max (min 0 (ks_Inflight k)) (ks_Inflight k - 1) \<and>
    hp_handles hp' (ks_stats k) = counted r False (sampled r now1 h) \<and>
    (case ar_Action r of
       AttemptSuccess \<Rightarrow> ks_Failures k' = 0 \<and> ks_CooldownLevel k' = 0 \<and> ks_Status k' = ks_Status k \<and>
         ks_CooldownUntil k' = ks_CooldownUntil k
     | AttemptObserve \<Rightarrow> ks_Failures k' = 0 \<and> ks_CooldownLevel k' = ks_CooldownLevel k \<and>
         ks_Status k' = ks_Status k \<and> ks_CooldownUntil k' = ks_CooldownUntil k
     | AttemptCooldown \<Rightarrow> ks_Failures k' = ks_Failures k + 1 \<and>
         ks_CooldownLevel k' = (if ks_CooldownLevel k < 10 then ks_CooldownLevel k + 1 else ks_CooldownLevel k) \<and>
         ks_CooldownUntil k' = now2 + scaledCooldownDuration (ks_CooldownLevel k') (ar_Cooldown r) \<and>
         ks_Status k' = ks_Status k
     | AttemptDisable \<Rightarrow> ks_Status k' = KeyStatusDisabledAuto \<and> ks_DisabledBy k' = ''system:auto'' \<and>
         ks_DisableReason k' = normalizeLastError (ar_Reason r) \<and> ks_DisabledAt k' = Some now2 \<and>
         (\<forall>now ex. \<not> isAvailableLocked p hp' idx now ex)
     | _ \<Rightarrow> True) \<and>
    (\<forall>a. a \<noteq> key_addr p idx \<longrightarrow> hp_keys hp' a = hp_keys hp a)"
proof -
  obtain b k2 h2 where s: "settle now1 now2 (hp_epoch hp) version r k h = (b, k2, h2)"
    by (cases "settle now1 now2 (hp_epoch hp) version r k h")
  have out: "authorised = b" "hp' = put p idx k2 h2 hp"
    using CompleteAttempt_refines [OF assms(1), of now1 now2 version r hp] assms(4) s unfolding assms(6,8) by simp_all
  have k': "k' = k2" by (simp add: assms(7) out put_def)
  have cur: "is_current version (release_state k)" using assms(2,3,6) by (simp add: is_current_def)
  have two: "b = (ar_Action r = AttemptDisable)" "h2 = counted r False (sampled r now1 h)"
    "k2 = attempt_health now2 r (noteSample (h_generation h) (now1 - hp_epoch hp) (ar_Action r = AttemptSuccess) (release_state k))"
    using s cur assms(5) by (auto simp: settle_def Let_def)
  have infl: "ks_Inflight k2 = max (min 0 (ks_Inflight k)) (ks_Inflight k - 1)"
    using settle_inflight [OF s] by (auto simp: release_state_def)
  have trim: "trim_space ''system:auto'' = ''system:auto''" by code_simp
  show ?thesis
  proof (cases "ar_Action r")
    case AttemptDisable
    have st: "ks_Status k2 = KeyStatusDisabledAuto" using AttemptDisable by (simp add: two attempt_health_def disable_state_def)
    then have "\<not> isAvailableLocked p hp' idx now ex" for now ex
      by (simp add: isAvailable_iff out put_def)
    with AttemptDisable two(1,2) infl st trim show ?thesis
      unfolding k' by (simp add: out assms(6) put_def) (simp add: two(3) attempt_health_def disable_state_def)
  qed (use two infl assms(5,6) in \<open>simp_all add: out k' put_def attempt_health_def recordFailure_def Let_def\<close>)
qed

theorem current_attempt_effect_witness:
  "ks_CooldownUntil (key_at (sample_pool ''random'') (snd (CompleteAttempt 5 6 0 1 cooldown_result (sample_pool ''random'') sample_heap)) 0)
     = 6 + 30 * second"
proof (cases "CompleteAttempt 5 6 0 1 cooldown_result (sample_pool ''random'') sample_heap")
  case (Pair b hp')
  have "in_range (sample_pool ''random'') 0" by (simp add: in_range_def sample_pool_def)
  from current_attempt_effect [OF this _ _ Pair _ refl refl refl] Pair show ?thesis
    by (simp add: sample_pool_def sample_heap_def new_key_state_def cooldown_result_def scaledCooldownDuration_def)
qed

end
