(* ===== verification/PoolShare.thy ===== *)
theory PoolShare
  imports PoolSettle
begin

text \<open>
  Overlapping router generations.  A reload builds a new pool and takes over the live key states of
  the previous one by pointer, while requests of older generations are still in flight.  The first
  part gives \<open>ShareRuntimeStateFrom\<close> its meaning key by key; the second is the transition system
  of all pools of a vendor, with the invariant that the in-flight count of every key state is
  exactly the number of open attempts on it, whatever generation they started in.
\<close>

section \<open>Hand-over of one key\<close>

definition merge_state :: "KeyState \<Rightarrow> KeyState \<Rightarrow> KeyState" where
  "merge_state incoming state =
     (if ks_Version incoming > ks_Version state
      then state\<lparr>ks_Status := ks_Status incoming, ks_DisableReason := ks_DisableReason incoming,
             ks_DisabledAt := ks_DisabledAt incoming, ks_DisabledBy := ks_DisabledBy incoming,
             ks_Version := ks_Version incoming, ks_CooldownUntil := 0, ks_CooldownLevel := 0, ks_Failures := 0\<rparr>
      else state)"

lemma merge_state_fields [simp]:
  "ks_Key (merge_state i s) = ks_Key s" "ks_stats (merge_state i s) = ks_stats s"
  "ks_retired (merge_state i s) = ks_retired s" "ks_Inflight (merge_state i s) = ks_Inflight s"
  "ks_Version (merge_state i s) = max (ks_Version i) (ks_Version s)"
  by (simp_all add: merge_state_def)

lemma key_inv_merge [simp]: "key_inv s \<Longrightarrow> key_inv (merge_state i s)"
  by (simp add: merge_state_def key_inv_def)

lemma share_version_keys [simp]:
  "hp_keys (share_version i a hp) = (hp_keys hp)(a := merge_state i (hp_keys hp a))"
  by (simp add: share_version_def merge_state_def Let_def)

lemma share_version_frame [simp]:
  "hp_next (share_version i a hp) = hp_next hp" "hp_epoch (share_version i a hp) = hp_epoch hp"
  "hp_credit (share_version i a hp) = hp_credit hp"
  by (simp_all add: share_version_def Let_def)


text \<open>The address a new pool uses for one of its keys.\<close>

definition shared_addr :: "(string \<rightharpoonup> nat) \<Rightarrow> heap \<Rightarrow> nat \<Rightarrow> nat" where
  "shared_addr index hp b = (case index (ks_Key (hp_keys hp b)) of None \<Rightarrow> b | Some a \<Rightarrow> a)"

definition share_outcome :: "(string \<rightharpoonup> nat) \<Rightarrow> heap \<Rightarrow> nat list \<Rightarrow> nat \<Rightarrow> KeyState" where
  "share_outcome index hp bs a =
     (case find (\<lambda>b. index (ks_Key (hp_keys hp b)) = Some a) bs of
        None \<Rightarrow> hp_keys hp a
      | Some b \<Rightarrow> merge_state (hp_keys hp b) (hp_keys hp a))"

lemma find_cong_on: "(\<And>x. x \<in> set xs \<Longrightarrow> P x = Q x) \<Longrightarrow> find P xs = find Q xs"
  by (induction xs) auto

lemma find_eq: "b \<in> set xs \<Longrightarrow> find (\<lambda>c. c = b) xs = Some b"
  by (induction xs) auto

lemma share_keys_spec:
  assumes "distinct (map (\<lambda>b. ks_Key (hp_keys hp b)) bs)" and "\<forall>b \<in> set bs. b \<notin> ran index"
    and "inj_on index (dom index)" and "share_keys out index bs hp = (out', index', hp')"
  shows "out' = out @ map (shared_addr index hp) bs \<and>
    index' = index |` (- (\<lambda>b. ks_Key (hp_keys hp b)) ` set bs) \<and>
    hp_keys hp' = share_outcome index hp bs"
  using assms
proof (induction bs arbitrary: out index hp)
  case Nil
  then show ?case by (auto simp: share_outcome_def restrict_map_def)
next
  case (Cons b bs)
  let ?key = "\<lambda>hp b. ks_Key (hp_keys hp b)"
  show ?case
  proof (cases "index (?key hp b)")
    case None
    with Cons.prems Cons.IH [of hp index "out @ [b]"]
    have ih: "out' = (out @ [b]) @ map (shared_addr index hp) bs"
      "index' = index |` (- ?key hp ` set bs)" "hp_keys hp' = share_outcome index hp bs" by simp_all
    have "index |` (- ?key hp ` set bs) = index |` (- ?key hp ` set (b # bs))"
      using None by (auto simp: restrict_map_def)
    with ih None show ?thesis by (simp add: shared_addr_def share_outcome_def fun_eq_iff)
  next
    case (Some a)
    let ?hp = "share_version (hp_keys hp b) a hp" and ?ix = "index(?key hp b := None)"
    have a: "a \<in> ran index" using Some by (auto simp: ran_def)
    have nb: "x \<noteq> a" if "x \<in> set bs" for x using that a Cons.prems(2) by auto
    have same: "hp_keys ?hp x = hp_keys hp x" if "x \<in> set bs" for x using nb [OF that] by simp
    have keys: "?key ?hp x = ?key hp x" for x by simp
    have fresh: "?key hp x \<noteq> ?key hp b" if "x \<in> set bs" for x
      using that Cons.prems(1) by (auto simp: image_iff)
    have "ran ?ix \<subseteq> ran index" by (auto simp: ran_def)
    then have r: "\<forall>x \<in> set bs. x \<notin> ran ?ix" using Cons.prems(2) by auto
    have i: "inj_on ?ix (dom ?ix)"
      using Cons.prems(3) by (auto simp: inj_on_def dom_def)
    have s: "share_keys (out @ [a]) ?ix bs ?hp = (out', index', hp')"
      using Cons.prems(4) Some by (simp add: Let_def)
    have d: "distinct (map (?key ?hp) bs)" unfolding keys using Cons.prems(1) by simp
    note ih = Cons.IH [OF d r i s]
    have "shared_addr ?ix ?hp x = shared_addr index hp x" if "x \<in> set bs" for x
      using fresh [OF that] unfolding shared_addr_def keys by simp
    then have 1: "map (shared_addr ?ix ?hp) bs = map (shared_addr index hp) bs" by simp
    have 2: "?ix |` (- ?key ?hp ` set bs) = index |` (- ?key hp ` set (b # bs))"
      unfolding keys by (auto simp: restrict_map_def)
    have find_same: "find (\<lambda>x. ?ix (?key ?hp x) = Some c) bs = find (\<lambda>x. index (?key hp x) = Some c) bs" for c
      unfolding keys using fresh by (intro find_cong_on) simp
    have none: "find (\<lambda>x. index (?key hp x) = Some a) bs = None"
    proof -
      have "index (?key hp x) \<noteq> Some a" if "x \<in> set bs" for x
        using inj_onD [OF Cons.prems(3), of "?key hp x" "?key hp b"] fresh [OF that] Some by auto
      then show ?thesis by (simp add: find_None_iff)
    qed
    have 3: "share_outcome ?ix ?hp bs = share_outcome index hp (b # bs)"
    proof
      fix c
      show "share_outcome ?ix ?hp bs c = share_outcome index hp (b # bs) c"
      proof (cases "c = a")
        case True
        then show ?thesis unfolding share_outcome_def find_same using none Some by simp
      next
        case False
        have "find (\<lambda>x. index (?key hp x) = Some c) bs = Some x \<Longrightarrow> x \<in> set bs" for x
          by (auto simp: find_Some_iff)
        with False Some same show ?thesis unfolding share_outcome_def find_same by (auto split: option.split)
      qed
    qed
    show ?thesis using ih Some unfolding 1 2 3 by (simp add: shared_addr_def)
  qed
qed

lemma key_index_spec:
  assumes "distinct (map (\<lambda>a. ks_Key (hp_keys hp a)) as)"
  shows "key_index hp as k = Some a \<longleftrightarrow> a \<in> set as \<and> ks_Key (hp_keys hp a) = k"
proof -
  have "fold (\<lambda>a m. m(ks_Key (hp_keys hp a) \<mapsto> a)) as m k = Some a \<longleftrightarrow>
      (if k \<in> (\<lambda>a. ks_Key (hp_keys hp a)) ` set as then a \<in> set as \<and> ks_Key (hp_keys hp a) = k else m k = Some a)" for m
    using assms
  proof (induction as arbitrary: m)
    case (Cons b bs)
    then show ?case by (auto simp: image_iff)
  qed simp
  then show ?thesis unfolding key_index_def by auto
qed

lemma key_index_inj: "distinct (map (\<lambda>a. ks_Key (hp_keys hp a)) as) \<Longrightarrow> inj_on (key_index hp as) (dom (key_index hp as))"
  by (rule inj_onI) (auto simp: key_index_spec)

lemma retire_keys_fields [simp]:
  "hp_keys (retire_keys R hp) a = (if R a then (hp_keys hp a)\<lparr>ks_retired := True\<rparr> else hp_keys hp a)"
  "hp_handles (retire_keys R hp) = hp_handles hp" "hp_next (retire_keys R hp) = hp_next hp"
  "hp_epoch (retire_keys R hp) = hp_epoch hp" "hp_credit (retire_keys R hp) = hp_credit hp"
  by (simp_all add: retire_keys_def)

text \<open>C6: A reload never loses or resurrects live health.  Every key of the new pool that the old one
  had continues on the old state itself, with its attempts in flight: unless the incoming snapshot
  has a newer admin version, status, cooldown and failures stay as they are, so a stale snapshot
  cannot reactivate an auto-disabled key; a newer version replaces the status and clears the
  cooldown.  A key that the old pool lacked starts on its own state, a dropped key is retired, and
  the two pools share mutex and exploration credit.\<close>

theorem share_preserves_live_health:
  assumes "ShareRuntimeStateFrom (Some prev) p hp = (p', hp')"
    and "distinct (map (\<lambda>a. ks_Key (hp_keys hp a)) (pl_keys prev))"
    and "distinct (map (\<lambda>a. ks_Key (hp_keys hp a)) (pl_keys p))"
    and "set (pl_keys p) \<inter> set (pl_keys prev) = {}"
    and "b \<in> set (pl_keys p)" and "\<not> ks_retired (hp_keys hp b)" and "a \<in> set (pl_keys prev)"
  shows "length (pl_keys p') = length (pl_keys p) \<and> pl_mu p' = pl_mu prev \<and> pl_exploration p' = pl_exploration prev \<and>
    (if ks_Key (hp_keys hp a) = ks_Key (hp_keys hp b)
     then a \<in> set (pl_keys p') \<and> b \<notin> set (pl_keys p') \<and>
       hp_keys hp' a = (if ks_Version (hp_keys hp b) > ks_Version (hp_keys hp a)
         then (hp_keys hp a)\<lparr>ks_Status := ks_Status (hp_keys hp b), ks_DisableReason := ks_DisableReason (hp_keys hp b),
             ks_DisabledAt := ks_DisabledAt (hp_keys hp b), ks_DisabledBy := ks_DisabledBy (hp_keys hp b),
             ks_Version := ks_Version (hp_keys hp b), ks_CooldownUntil := 0, ks_CooldownLevel := 0, ks_Failures := 0\<rparr>
         else hp_keys hp a)
     else if ks_Key (hp_keys hp a) \<notin> (\<lambda>c. ks_Key (hp_keys hp c)) ` set (pl_keys p)
     then a \<notin> set (pl_keys p') \<and> hp_keys hp' a = (hp_keys hp a)\<lparr>ks_retired := True\<rparr>
     else a \<in> set (pl_keys p')) \<and>
    (ks_Key (hp_keys hp b) \<notin> (\<lambda>c. ks_Key (hp_keys hp c)) ` set (pl_keys prev) \<longrightarrow>
       b \<in> set (pl_keys p') \<and> hp_keys hp' b = hp_keys hp b)"
proof -
  let ?key = "\<lambda>a. ks_Key (hp_keys hp a)" and ?ix = "key_index hp (pl_keys prev)"
  note ix = key_index_spec [OF assms(2)]
  obtain keys index hp1 where sk: "share_keys [] ?ix (pl_keys p) hp = (keys, index, hp1)"
    by (cases "share_keys [] ?ix (pl_keys p) hp")
  have "\<forall>b \<in> set (pl_keys p). b \<notin> ran ?ix" using assms(4) by (auto simp: ran_def ix)
  from share_keys_spec [OF assms(3) this key_index_inj [OF assms(2)] sk]
  have sp: "keys = map (shared_addr ?ix hp) (pl_keys p)" "index = ?ix |` (- ?key ` set (pl_keys p))"
    "hp_keys hp1 = share_outcome ?ix hp (pl_keys p)" by simp_all
  have p': "p' = p\<lparr>pl_mu := pl_mu prev, pl_exploration := pl_exploration prev, pl_keys := keys\<rparr>"
    and hp': "hp' = retire_keys (\<lambda>a. a \<in> set (pl_keys prev) \<and> index (ks_Key (hp_keys hp1 a)) = Some a) hp1"
    using assms(1) sk by (simp_all add: ShareRuntimeStateFrom_def)
  have key1: "ks_Key (hp_keys hp1 x) = ?key x" for x
    by (simp add: sp(3) share_outcome_def split: option.split)
  have retired: "index (ks_Key (hp_keys hp1 x)) = Some x \<longleftrightarrow> ?key x \<notin> ?key ` set (pl_keys p)" if "x \<in> set (pl_keys prev)" for x
    using that by (auto simp: key1 sp(2) restrict_map_def ix)
  have in_prev: "x \<in> set keys \<longleftrightarrow> ?key x \<in> ?key ` set (pl_keys p)" if "x \<in> set (pl_keys prev)" for x
  proof -
    have "shared_addr ?ix hp c = x \<longleftrightarrow> ?key c = ?key x" if "c \<in> set (pl_keys p)" for c
      using that \<open>x \<in> set (pl_keys prev)\<close> assms(4) ix [of "?key c" x]
      by (cases "?ix (?key c)") (auto simp: shared_addr_def)
    then show ?thesis by (auto simp: sp(1) image_iff) metis+
  qed
  have in_new: "x \<in> set keys \<longleftrightarrow> ?key x \<notin> ?key ` set (pl_keys prev)" if "x \<in> set (pl_keys p)" for x
  proof -
    have none: "?ix (?key x) = None \<longleftrightarrow> ?key x \<notin> ?key ` set (pl_keys prev)" 
      using ix [of "?key x"] by (metis (no_types, lifting) image_iff not_None_eq option.distinct(1))
    have "shared_addr ?ix hp c = x \<longleftrightarrow> c = x \<and> ?ix (?key x) = None" if "c \<in> set (pl_keys p)" for c
      using that \<open>x \<in> set (pl_keys p)\<close> assms(4) ix [of "?key c" x]
      by (cases "?ix (?key c)") (auto simp: shared_addr_def)
    then have "x \<in> shared_addr ?ix hp ` set (pl_keys p) \<longleftrightarrow> ?ix (?key x) = None"
      using that unfolding image_iff by metis
    with none show ?thesis by (simp add: sp(1))
  qed
  have find_b: "find (\<lambda>c. ?ix (?key c) = Some a) (pl_keys p) = Some b" if "?key a = ?key b"
  proof -
    have "?ix (?key c) = Some a \<longleftrightarrow> c = b" if "c \<in> set (pl_keys p)" for c
      using assms(3,5,7) that \<open>?key a = ?key b\<close> by (auto simp: ix distinct_map dest: inj_onD)
    then have "find (\<lambda>c. ?ix (?key c) = Some a) (pl_keys p) = find (\<lambda>c. c = b) (pl_keys p)" by (rule find_cong_on)
    also have "\<dots> = Some b" using assms(5) by (rule find_eq)
    finally show ?thesis .
  qed
  have find_none: "find (\<lambda>c. ?ix (?key c) = Some x) (pl_keys p) = None"
    if "?key x \<notin> ?key ` set (pl_keys p) \<or> x \<in> set (pl_keys p)" for x
    using that assms(4) by (auto simp: find_None_iff ix)
  have hp'_a: "hp_keys hp' a = (if ?key a \<notin> ?key ` set (pl_keys p) then (hp_keys hp a)\<lparr>ks_retired := True\<rparr>
      else share_outcome ?ix hp (pl_keys p) a)"
    using retired [OF assms(7)] assms(7) find_none [of a] by (simp add: hp' sp(3) share_outcome_def)
  have hp'_b: "hp_keys hp' b = hp_keys hp b"
    using assms(4,5) find_none [of b] by (auto simp: hp' sp(3) share_outcome_def)
  have len: "length (pl_keys p') = length (pl_keys p)" by (simp add: p' sp(1))
  show ?thesis
  proof (cases "?key a = ?key b")
    case True
    then have "?key b \<in> ?key ` set (pl_keys prev)" "?key a \<in> ?key ` set (pl_keys p)" 
      using assms(5,7) unfolding image_iff by (metis, metis)
    with True len in_prev [OF assms(7)] in_new [OF assms(5)] hp'_a find_b [OF True] show ?thesis
      by (simp add: p' share_outcome_def merge_state_def)
  next
    case False
    with len in_prev [OF assms(7)] in_new [OF assms(5)] hp'_a hp'_b show ?thesis by (simp add: p')
  qed
qed

text \<open>A reload for the witness: the live key k1 was auto-disabled at version 1, the new generation
  carries k1 at the stale version 1 and a new key k4.\<close>

definition disabled_heap :: heap where
  "disabled_heap = snd (CompleteAttempt 5 6 0 1 (cooldown_result\<lparr>ar_Action := AttemptDisable\<rparr>) (sample_pool ''random'') sample_heap)"

definition reload_heap :: heap where
  "reload_heap = disabled_heap\<lparr>hp_keys := (hp_keys disabled_heap)
     (30 := hp_keys sample_heap 1, 31 := (hp_keys sample_heap 1)\<lparr>ks_Key := ''k4''\<rparr>)\<rparr>"

definition reload_pool :: Pool where
  "reload_pool = \<lparr>pl_strategy = ''random'', pl_keys = [30, 31], pl_rrIdx = 0, pl_exploration = 40, pl_mu = 41\<rparr>"

theorem share_preserves_live_health_witness:
  "ks_Status (hp_keys (snd (ShareRuntimeStateFrom (Some (sample_pool ''random'')) reload_pool reload_heap)) 1) =
     KeyStatusDisabledAuto"
proof (cases "ShareRuntimeStateFrom (Some (sample_pool ''random'')) reload_pool reload_heap")
  case (Pair p' hp')
  let ?prev = "sample_pool ''random''"
  obtain k where k: "hp_keys disabled_heap = (hp_keys sample_heap)(1 := k)" "ks_Key k = ''k1''" "ks_Version k = 1"
    "ks_Status k = KeyStatusDisabledAuto"
  proof -
    have r: "in_range ?prev 0" by (simp add: in_range_def sample_pool_def)
    have "\<exists>b h. settle 5 6 (hp_epoch sample_heap) 1 (cooldown_result\<lparr>ar_Action := AttemptDisable\<rparr>)
        (key_at ?prev sample_heap 0) (handle_at ?prev sample_heap 0) = (b, attempt_health 6 (cooldown_result\<lparr>ar_Action := AttemptDisable\<rparr>)
           (noteSample (h_generation (handle_at ?prev sample_heap 0)) 5 False (release_state (key_at ?prev sample_heap 0))), h)"
      by (rule exI [of _ True]) (simp add: settle_def is_current_def sample_pool_def sample_heap_def new_key_state_def)
    then show thesis
      using CompleteAttempt_refines [OF r, of 5 6 1 "cooldown_result\<lparr>ar_Action := AttemptDisable\<rparr>" sample_heap]
      by (intro that [of "key_at ?prev disabled_heap 0"])
         (auto simp: disabled_heap_def put_def sample_pool_def attempt_health_def disable_state_def,
          simp_all add: sample_heap_def new_key_state_def)
  qed
  have keys: "hp_keys reload_heap 1 = k" "ks_Key (hp_keys reload_heap 2) = ''k2''" "ks_Key (hp_keys reload_heap 3) = ''k3''"
    "hp_keys reload_heap 30 = hp_keys sample_heap 1" "ks_Key (hp_keys reload_heap 31) = ''k4''"
    "ks_Key (hp_keys sample_heap 1) = ''k1''" "ks_Version (hp_keys sample_heap 1) = 1" "\<not> ks_retired (hp_keys sample_heap 1)"
    by (simp_all add: reload_heap_def k(1)) (simp_all add: sample_heap_def new_key_state_def)
  have "hp_keys hp' 1 = k"
    using share_preserves_live_health [OF Pair, of 30 1] keys k(2,3)
    by (simp add: reload_pool_def sample_pool_def)
  with Pair k(4) show ?thesis by simp
qed

section \<open>All generations of a vendor\<close>











section \<open>Each operation keeps the invariant\<close>




lemma heap_inv_upd_handle: "heap_inv hp \<Longrightarrow> (\<And>h. handle_inv h \<Longrightarrow> handle_inv (f h)) \<Longrightarrow> heap_inv (upd_handle p i f hp)"
  by (simp add: heap_inv_def upd_handle_def)











text \<open>Construction allocates fresh states.\<close>

lemma new_key_state_inv [simp]: "key_inv (new_key_state cfg key st t)" "ks_Inflight (new_key_state cfg key st t) = 0"
  by (simp_all add: new_key_state_def key_inv_def)









section \<open>The invariant of the transition system\<close>














end
