(* ===== verification/GoStd.thy ===== *)
theory GoStd
  imports GoText "HOL-Library.AList"
begin

text \<open>
  What the gateway uses of Go's standard library beyond \<open>strings\<close>: 64-bit wrap-around,
  \<open>strconv.Itoa\<close> and \<open>strconv.Atoi\<close>, \<open>strings.Fields\<close>, \<open>strings.Join\<close> and \<open>strings.SplitN\<close>,
  header maps, \<open>http.StatusText\<close> and the values of \<open>encoding/json\<close> with its string encoder.

  The large codecs of the library (JSON decoding, MIME media types, HTTP dates, duration texts and
  the printable runes of \<open>unicode\<close>) are the record \<open>std_lib\<close>, an argument of the definitions that
  call them; no theorem assumes anything about its fields.
\<close>

section \<open>Integers\<close>

text \<open>Arithmetic of \<open>int64\<close> and \<open>time.Duration\<close>.\<close>

definition wrap64 :: "int \<Rightarrow> int" where
  "wrap64 x = (x + 9223372036854775808) mod 18446744073709551616 - 9223372036854775808"

lemma wrap64_id: "min_int64 \<le> x \<Longrightarrow> x \<le> max_int64 \<Longrightarrow> wrap64 x = x"
  by (simp add: wrap64_def)

lemma wrap64_range: "min_int64 \<le> wrap64 x \<and> wrap64 x \<le> max_int64"
proof -
  have "0 \<le> (x + 9223372036854775808) mod 18446744073709551616"
    and "(x + 9223372036854775808) mod 18446744073709551616 < 18446744073709551616" by simp_all
  then show ?thesis unfolding wrap64_def by linarith
qed

definition digit_char :: "nat \<Rightarrow> char" where
  "digit_char n = char_of (48 + n)"

definition is_digit :: "char \<Rightarrow> bool" where
  "is_digit c \<longleftrightarrow> 48 \<le> (of_char c :: nat) \<and> (of_char c :: nat) \<le> 57"

fun nat_text :: "nat \<Rightarrow> string" where
  "nat_text n = (if n < 10 then [digit_char n] else nat_text (n div 10) @ [digit_char (n mod 10)])"

declare nat_text.simps [simp del]

definition itoa :: "int \<Rightarrow> string" where
  "itoa i = (if i < 0 then CHR ''-'' # nat_text (nat (- i)) else nat_text (nat i))"

definition digits_value :: "string \<Rightarrow> int" where
  "digits_value s = foldl (\<lambda>v c. v * 10 + (of_char c - 48)) 0 s"

text \<open>\<open>strconv.Atoi\<close>: an optional sign, then decimal digits, in the range of \<open>int\<close>.\<close>

definition atoi :: "string \<Rightarrow> int option" where
  "atoi s =
     (let neg = (s \<noteq> [] \<and> hd s = CHR ''-'');
          ds = (if s \<noteq> [] \<and> (hd s = CHR ''-'' \<or> hd s = CHR ''+'') then tl s else s)
      in if ds = [] \<or> \<not> list_all is_digit ds then None
         else let v = (if neg then - digits_value ds else digits_value ds)
              in if v < min_int64 \<or> v > max_int64 then None else Some v)"

lemma of_char_digit_char: "n < 10 \<Longrightarrow> (of_char (digit_char n) :: nat) = 48 + n"
  by (simp add: digit_char_def of_char_of)

lemma of_char_digit_char_int: "n < 10 \<Longrightarrow> (of_char (digit_char n) :: int) = 48 + int n"
  using of_char_digit_char [of n] by (metis of_nat_add of_nat_numeral of_nat_of_char)

lemma nat_text_digits: "list_all is_digit (nat_text n) \<and> nat_text n \<noteq> []"
proof (induction n rule: nat_text.induct)
  case (1 n)
  then show ?case
    by (cases "n < 10") (simp_all add: nat_text.simps [of n] is_digit_def of_char_digit_char)
qed

lemma digits_value_append: "digits_value (s @ [c]) = digits_value s * 10 + (of_char c - 48)"
  by (simp add: digits_value_def)

lemma digits_value_nat_text: "digits_value (nat_text n) = int n"
proof (induction n rule: nat_text.induct)
  case (1 n)
  show ?case
  proof (cases "n < 10")
    case True
    then show ?thesis by (simp add: nat_text.simps [of n] digits_value_def of_char_digit_char_int)
  next
    case False
    then have "digits_value (nat_text n) = int (n div 10) * 10 + int (n mod 10)"
      using 1 by (simp add: nat_text.simps [of n] digits_value_append of_char_digit_char_int)
    then show ?thesis by (metis div_mod_decomp_int zdiv_int zmod_int of_nat_numeral)
  qed
qed

lemma nat_text_head: "nat_text n = c # r \<Longrightarrow> c \<noteq> CHR ''-'' \<and> c \<noteq> CHR ''+''"
  using nat_text_digits [of n] by (auto simp: is_digit_def)

lemma atoi_itoa: "min_int64 \<le> i \<Longrightarrow> i \<le> max_int64 \<Longrightarrow> atoi (itoa i) = Some i"
proof (cases "i < 0")
  case True
  assume "min_int64 \<le> i" "i \<le> max_int64"
  with True show ?thesis
    using nat_text_digits [of "nat (- i)"] by (simp add: itoa_def atoi_def digits_value_nat_text)
next
  case False
  assume r: "min_int64 \<le> i" "i \<le> max_int64"
  obtain c s where s: "nat_text (nat i) = c # s" using nat_text_digits [of "nat i"] by (cases "nat_text (nat i)") auto
  have "atoi (nat_text (nat i)) = Some (int (nat i))"
    using nat_text_digits [of "nat i"] nat_text_head [OF s] r False digits_value_nat_text [of "nat i"]
    unfolding s atoi_def by simp
  with False show ?thesis by (simp add: itoa_def)
qed

section \<open>Splitting and joining\<close>

fun join :: "string \<Rightarrow> string list \<Rightarrow> string" where
  "join sep [] = []"
| "join sep [x] = x"
| "join sep (x # y # xs) = x @ sep @ join sep (y # xs)"

text \<open>\<open>strings.Fields\<close>: the maximal runs without white space.  The argument in front collects the
  bytes of the current field in reverse.\<close>

fun fields_from :: "string \<Rightarrow> string \<Rightarrow> string list" where
  "fields_from acc [] = (if acc = [] then [] else [rev acc])"
| "fields_from acc (c # s) =
     (case first_strip space_encodings (c # s) of
        Some r \<Rightarrow> if length r \<le> length s then (if acc = [] then [] else [rev acc]) @ fields_from [] r
                  else fields_from (c # acc) s
      | None \<Rightarrow> fields_from (c # acc) s)"

definition str_fields :: "string \<Rightarrow> string list" where
  "str_fields s = fields_from [] s"

text \<open>\<open>strings.SplitN(s, sep, 2)\<close> and \<open>strings.Cut\<close> at one byte.\<close>

fun cut :: "char \<Rightarrow> string \<Rightarrow> string \<times> string option" where
  "cut sep [] = ([], None)"
| "cut sep (c # s) = (if c = sep then ([], Some s) else (let (a, b) = cut sep s in (c # a, b)))"

lemma cut_Some: "cut sep s = (a, Some b) \<Longrightarrow> s = a @ sep # b \<and> sep \<notin> set a"
  by (induction s arbitrary: a) (auto split: if_splits prod.splits)

lemma cut_None: "cut sep s = (a, None) \<Longrightarrow> a = s \<and> sep \<notin> set s"
  by (induction s arbitrary: a) (auto split: if_splits prod.splits)

section \<open>Headers\<close>

text \<open>An \<open>http.Header\<close>: the values of each canonical name, in order.  \<open>Get\<close> reads the first value.\<close>

type_synonym header = "(string \<times> string list) list"

definition header_values :: "header \<Rightarrow> string \<Rightarrow> string list" where
  "header_values h name = (case map_of h name of None \<Rightarrow> [] | Some vs \<Rightarrow> vs)"

definition header_get :: "header \<Rightarrow> string \<Rightarrow> string" where
  "header_get h name = (case header_values h name of [] \<Rightarrow> [] | v # _ \<Rightarrow> v)"

definition header_set :: "string \<Rightarrow> string \<Rightarrow> header \<Rightarrow> header" where
  "header_set name v h = AList.update name [v] h"

section \<open>Status texts\<close>

definition status_texts :: "(int \<times> string) list" where
  "status_texts =
     [(100, ''Continue''), (101, ''Switching Protocols''), (102, ''Processing''), (103, ''Early Hints''),
      (200, ''OK''), (201, ''Created''), (202, ''Accepted''), (203, ''Non-Authoritative Information''),
      (204, ''No Content''), (205, ''Reset Content''), (206, ''Partial Content''), (207, ''Multi-Status''),
      (208, ''Already Reported''), (226, ''IM Used''),
      (300, ''Multiple Choices''), (301, ''Moved Permanently''), (302, ''Found''), (303, ''See Other''),
      (304, ''Not Modified''), (305, ''Use Proxy''), (307, ''Temporary Redirect''), (308, ''Permanent Redirect''),
      (400, ''Bad Request''), (401, ''Unauthorized''), (402, ''Payment Required''), (403, ''Forbidden''),
      (404, ''Not Found''), (405, ''Method Not Allowed''), (406, ''Not Acceptable''),
      (407, ''Proxy Authentication Required''), (408, ''Request Timeout''), (409, ''Conflict''), (410, ''Gone''),
      (411, ''Length Required''), (412, ''Precondition Failed''), (413, ''Request Entity Too Large''),
      (414, ''Request URI Too Long''), (415, ''Unsupported Media Type''),
      (416, ''Requested Range Not Satisfiable''), (417, ''Expectation Failed''), (418, ''I'' @ CHR 0x27 # ''m a teapot''),
      (421, ''Misdirected Request''), (422, ''Unprocessable Entity''), (423, ''Locked''),
      (424, ''Failed Dependency''), (425, ''Too Early''), (426, ''Upgrade Required''),
      (428, ''Precondition Required''), (429, ''Too Many Requests''),
      (431, ''Request Header Fields Too Large''), (451, ''Unavailable For Legal Reasons''),
      (500, ''Internal Server Error''), (501, ''Not Implemented''), (502, ''Bad Gateway''),
      (503, ''Service Unavailable''), (504, ''Gateway Timeout''), (505, ''HTTP Version Not Supported''),
      (506, ''Variant Also Negotiates''), (507, ''Insufficient Storage''), (508, ''Loop Detected''),
      (510, ''Not Extended''), (511, ''Network Authentication Required'')]"

definition StatusText :: "int \<Rightarrow> string" where
  "StatusText code = (case map_of status_texts code of None \<Rightarrow> [] | Some t \<Rightarrow> t)"

section \<open>JSON\<close>

text \<open>What \<open>json.Unmarshal\<close> puts into an \<open>any\<close>.  An object is the map from its names to values;
  numbers keep their text.\<close>

datatype json = JNull | JBool bool | JNumber string | JString string | JArray "json list"
  | JObject "(string \<times> json) list"

definition hex_digit :: "nat \<Rightarrow> char" where
  "hex_digit n = (if n < 10 then char_of (48 + n) else char_of (87 + n))"

text \<open>The string encoder of \<open>json.Marshal\<close> with HTML escaping: control characters, quotes,
  backslashes, angle brackets, ampersands, U+2028, U+2029 and invalid bytes are escaped.\<close>

definition json_escape :: "char \<Rightarrow> string" where
  "json_escape c =
     (if c = CHR 0x22 then [CHR 0x5C, CHR 0x22]
      else if c = CHR 0x5C then [CHR 0x5C, CHR 0x5C]
      else if c = CHR 0x08 then [CHR 0x5C, CHR ''b'']
      else if c = CHR 0x0C then [CHR 0x5C, CHR ''f'']
      else if c = CHR 0x0A then [CHR 0x5C, CHR ''n'']
      else if c = CHR 0x0D then [CHR 0x5C, CHR ''r'']
      else if c = CHR 0x09 then [CHR 0x5C, CHR ''t'']
      else let n = (of_char c :: nat) in
        if n < 32 \<or> c = CHR ''<'' \<or> c = CHR ''>'' \<or> c = CHR ''&''
        then CHR 0x5C # ''u00'' @ [hex_digit (n div 16), hex_digit (n mod 16)]
        else [c])"

fun json_string_body :: "string \<Rightarrow> string" where
  "json_string_body [] = []"
| "json_string_body (c # s) =
     (let n = rune_len (c # s) in
      if n = 0 then (CHR 0x5C # ''ufffd'') @ json_string_body s
      else if n = 1 then json_escape c @ json_string_body s
      else let r = take n (c # s) in
        (if r = [CHR 0xE2, CHR 0x80, CHR 0xA8] then CHR 0x5C # ''u2028''
         else if r = [CHR 0xE2, CHR 0x80, CHR 0xA9] then CHR 0x5C # ''u2029'' else r)
        @ json_string_body (drop (n - 1) s))"

definition json_string :: "string \<Rightarrow> string" where
  "json_string s = CHR 0x22 # json_string_body s @ [CHR 0x22]"

section \<open>The codecs of the standard library\<close>

record std_lib =
  std_Unmarshal :: "string \<Rightarrow> json option"
  std_Compact :: "string \<Rightarrow> string option"
  std_ParseMediaType :: "string \<Rightarrow> string option"
  std_ParseTime :: "string \<Rightarrow> time option"
  std_ParseDuration :: "string \<Rightarrow> duration option"
  std_IsPrint :: "string \<Rightarrow> bool"

end
