(* ===== verification/ConfigTypes.thy ===== *)
theory ConfigTypes
  imports Prelude
begin

text \<open>
  The error-policy part of a vendor's configuration, from \<open>internal/config/config.go\<close>.  A Go
  pointer to a boolean is a boolean option, \<open>None\<close> for nil.
\<close>

record ErrorAutoDisableConfig =
  ad_Enabled :: "bool option"
  ad_StatusCodes :: "int list"
  ad_Keywords :: "string list"

record ErrorCooldownRule =
  cr_Enabled :: "bool option"
  cr_Duration :: duration

record ErrorResponseCooldownRule =
  rr_StatusCodes :: "int list"
  rr_Keywords :: "string list"
  rr_Duration :: duration
  rr_RetryAfter :: string

record ErrorCooldownConfig =
  cd_RequestError :: ErrorCooldownRule
  cd_Unauthorized :: ErrorCooldownRule
  cd_PaymentRequired :: ErrorCooldownRule
  cd_Forbidden :: ErrorCooldownRule
  cd_RateLimit :: ErrorCooldownRule
  cd_ServerError :: ErrorCooldownRule
  cd_OpenAISlowDown :: ErrorCooldownRule
  cd_NoDefaultBackoff :: bool
  cd_ResponseRules :: "ErrorResponseCooldownRule list"

record ErrorFailoverConfig =
  fo_RequestError :: "bool option"
  fo_Unauthorized :: "bool option"
  fo_PaymentRequired :: "bool option"
  fo_Forbidden :: "bool option"
  fo_RateLimit :: "bool option"
  fo_ServerError :: "bool option"
  fo_ResponseStatusCodes :: "int list"
  fo_MaxAttempts :: int

record ErrorMaskingRule =
  mr_StatusCodes :: "int list"
  mr_Keywords :: "string list"
  mr_StatusCode :: int
  mr_Body :: string
  mr_Message :: string
  mr_ContentType :: string
  mr_RetryAfter :: string
  mr_Cooldown :: duration

record ErrorMaskingConfig =
  mk_Enabled :: "bool option"
  mk_Rules :: "ErrorMaskingRule list"

record ErrorPolicyConfig =
  ep_AutoDisable :: ErrorAutoDisableConfig
  ep_Cooldown :: ErrorCooldownConfig
  ep_Failover :: ErrorFailoverConfig
  ep_Masking :: ErrorMaskingConfig

end
