(* ===== verification/ErrorPolicy.thy ===== *)
theory ErrorPolicy
  imports GoStd ConfigTypes Pool
begin

text \<open>
  Classification and masking of upstream failures, from \<open>internal/gateway/key_policy.go\<close> and
  \<open>internal/gateway/error_masking.go\<close>: what a failed request or an error response means for the
  key that made it (observe, cool down, disable), whether another key may be tried, and what the
  client is shown instead.  The decision feeds \<open>CompleteAttempt\<close> of the key pool.

  The theorems characterise automatic disabling, the cooldown chosen for each status, the
  independence of failover from health, and the rule that masking only ever extends a cooldown.
\<close>

section \<open>Decisions\<close>

record keyDecision =
  kd_action :: AttemptAction
  kd_statusCode :: int
  kd_cooldown :: duration
  kd_reason :: string
  kd_failover :: bool

definition boolOrDefault :: "bool option \<Rightarrow> bool \<Rightarrow> bool" where
  "boolOrDefault v fallback = (case v of None \<Rightarrow> fallback | Some b \<Rightarrow> b)"

definition maxDuration :: "duration \<Rightarrow> duration \<Rightarrow> duration" where
  "maxDuration a b = (if a > b then a else b)"

definition applyNoDefaultBackoff :: "ErrorPolicyConfig \<Rightarrow> ErrorCooldownRule \<Rightarrow> ErrorCooldownRule" where
  "applyNoDefaultBackoff policy rule =
     (if \<not> cd_NoDefaultBackoff (ep_Cooldown policy) then rule else rule\<lparr>cr_Enabled := Some False\<rparr>)"

definition disableDecision :: "int \<Rightarrow> string \<Rightarrow> bool \<Rightarrow> keyDecision" where
  "disableDecision statusCode reason failover =
     \<lparr>kd_action = AttemptDisable, kd_statusCode = statusCode, kd_cooldown = 0, kd_reason = reason,
      kd_failover = failover\<rparr>"

definition observeDecision :: "int \<Rightarrow> string \<Rightarrow> bool \<Rightarrow> keyDecision" where
  "observeDecision statusCode reason failover =
     \<lparr>kd_action = AttemptObserve, kd_statusCode = statusCode, kd_cooldown = 0, kd_reason = reason,
      kd_failover = failover\<rparr>"

definition cooldownDecision ::
  "int \<Rightarrow> string \<Rightarrow> ErrorCooldownRule \<Rightarrow> bool \<Rightarrow> duration \<Rightarrow> bool \<Rightarrow> keyDecision" where
  "cooldownDecision statusCode reason rule failover retryAfter useMaxRetryAfter =
     (if \<not> boolOrDefault (cr_Enabled rule) True then observeDecision statusCode reason failover
      else
        let duration = (if retryAfter > 0
              then if useMaxRetryAfter then maxDuration retryAfter (cr_Duration rule) else retryAfter
              else cr_Duration rule)
        in \<lparr>kd_action = AttemptCooldown, kd_statusCode = statusCode, kd_cooldown = duration,
            kd_reason = reason, kd_failover = failover\<rparr>)"

definition retryAfterMode :: "string \<Rightarrow> int \<Rightarrow> string" where
  "retryAfterMode raw statusCode =
     (let mode = to_lower (trim_space raw) in
      if mode \<noteq> [] then mode else if statusCode = 429 then ''override'' else ''ignore'')"

definition responseCooldownDecision ::
  "int \<Rightarrow> string \<Rightarrow> ErrorResponseCooldownRule \<Rightarrow> bool \<Rightarrow> duration \<Rightarrow> keyDecision" where
  "responseCooldownDecision statusCode reason rule failover retryAfter =
     (let mode = retryAfterMode (rr_RetryAfter rule) statusCode;
          duration = (if mode = ''override'' then if retryAfter > 0 then retryAfter else rr_Duration rule
            else if mode = ''max''
              then if retryAfter > 0 then maxDuration retryAfter (rr_Duration rule) else rr_Duration rule
            else rr_Duration rule)
      in \<lparr>kd_action = AttemptCooldown, kd_statusCode = statusCode, kd_cooldown = duration,
          kd_reason = reason, kd_failover = failover\<rparr>)"

section \<open>Matching\<close>

fun matchKeyword :: "string \<Rightarrow> string list \<Rightarrow> string option" where
  "matchKeyword body [] = None"
| "matchKeyword body (pattern # patterns) =
     (if body = [] then None
      else let pattern = to_lower (trim_space pattern) in
        if pattern = [] then matchKeyword body patterns
        else if contains body pattern then Some pattern else matchKeyword body patterns)"

fun containsAnyKeyword :: "string \<Rightarrow> string list \<Rightarrow> bool" where
  "containsAnyKeyword body [] = False"
| "containsAnyKeyword body (pattern # patterns) =
     (if body = [] then False
      else let pattern = to_lower (trim_space pattern) in
        if pattern = [] then containsAnyKeyword body patterns
        else if contains body pattern then True else containsAnyKeyword body patterns)"

fun containsStatusCode :: "int list \<Rightarrow> int \<Rightarrow> bool" where
  "containsStatusCode [] statusCode = False"
| "containsStatusCode (candidate # codes) statusCode =
     (if candidate = statusCode then True else containsStatusCode codes statusCode)"

fun hasNonEmptyPattern :: "string list \<Rightarrow> bool" where
  "hasNonEmptyPattern [] = False"
| "hasNonEmptyPattern (pattern # patterns) =
     (if trim_space pattern \<noteq> [] then True else hasNonEmptyPattern patterns)"

text \<open>The three guards that response rules and masking rules share.\<close>

definition rule_matches :: "int list \<Rightarrow> string list \<Rightarrow> int \<Rightarrow> string \<Rightarrow> bool" where
  "rule_matches codes keywords statusCode body =
     (if codes \<noteq> [] \<and> \<not> containsStatusCode codes statusCode then False
      else if hasNonEmptyPattern keywords \<and> \<not> containsAnyKeyword body keywords then False
      else if codes = [] \<and> \<not> hasNonEmptyPattern keywords then False
      else True)"

fun matchResponseCooldownRule ::
  "int \<Rightarrow> string \<Rightarrow> ErrorResponseCooldownRule list \<Rightarrow> ErrorResponseCooldownRule option" where
  "matchResponseCooldownRule statusCode body [] = None"
| "matchResponseCooldownRule statusCode body (rule # rules) =
     (if rule_matches (rr_StatusCodes rule) (rr_Keywords rule) statusCode body then Some rule
      else matchResponseCooldownRule statusCode body rules)"

definition server_error_codes :: "int list" where
  "server_error_codes = [529, 500, 502, 503, 504]"

definition shouldFailoverResponse :: "int \<Rightarrow> ErrorPolicyConfig \<Rightarrow> bool" where
  "shouldFailoverResponse statusCode policy =
     (let fo = ep_Failover policy in
      if fo_ResponseStatusCodes fo \<noteq> [] then containsStatusCode (fo_ResponseStatusCodes fo) statusCode
      else if statusCode = 401 then boolOrDefault (fo_Unauthorized fo) True
      else if statusCode = 402 then boolOrDefault (fo_PaymentRequired fo) True
      else if statusCode = 403 then boolOrDefault (fo_Forbidden fo) True
      else if statusCode = 429 then boolOrDefault (fo_RateLimit fo) True
      else if statusCode \<in> set server_error_codes then boolOrDefault (fo_ServerError fo) True
      else False)"

section \<open>Automatic disabling\<close>

definition normalizedCredentialCode :: "string \<Rightarrow> string" where
  "normalizedCredentialCode value =
     (let code = to_lower (trim_space value) in
      if code = ''invalid_api_key'' \<or> code = ''incorrect_api_key'' then code else [])"

definition isQuotaKeyword :: "string \<Rightarrow> bool" where
  "isQuotaKeyword kw =
     (let kw = to_lower kw in
      contains kw ''quota'' \<or> contains kw ''balance'' \<or> contains kw ''billing'' \<or>
      contains kw [CHR 0xE4, CHR 0xBD, CHR 0x99, CHR 0xE9, CHR 0xA2, CHR 0x9D])"

fun auto_disable_keywords :: "string \<Rightarrow> string \<Rightarrow> string list \<Rightarrow> string option" where
  "auto_disable_keywords body credentialCode [] = None"
| "auto_disable_keywords body credentialCode (keyword # keywords) =
     (let code = normalizedCredentialCode keyword in
      if code \<noteq> [] then
        if code = credentialCode then Some ''invalid key''
        else auto_disable_keywords body credentialCode keywords
      else case matchKeyword body [keyword] of
             Some match \<Rightarrow> Some (if isQuotaKeyword match then ''quota exhausted'' else ''invalid key'')
           | None \<Rightarrow> auto_disable_keywords body credentialCode keywords)"

definition classifyAutoDisable :: "ErrorAutoDisableConfig \<Rightarrow> int \<Rightarrow> string \<Rightarrow> string \<Rightarrow> string option" where
  "classifyAutoDisable auto statusCode body credentialCode =
     (if \<not> boolOrDefault (ad_Enabled auto) True then None
      else if containsStatusCode (ad_StatusCodes auto) statusCode
      then Some (if statusCode = 402 then ''billing or quota exhausted'' else ''invalid key'')
      else auto_disable_keywords body credentialCode (ad_Keywords auto))"

section \<open>Retry-After\<close>

text \<open>\<open>time.Duration(secs) * time.Second\<close> is a 64-bit product.\<close>

definition parseRetryAfter :: "std_lib \<Rightarrow> time \<Rightarrow> string \<Rightarrow> duration" where
  "parseRetryAfter std now raw =
     (let raw = trim_space raw in
      if raw = [] then 0
      else case (case atoi raw of Some secs \<Rightarrow> if secs > 0 then Some secs else None | None \<Rightarrow> None) of
             Some secs \<Rightarrow> wrap64 (secs * second)
           | None \<Rightarrow>
               (case std_ParseTime std raw of
                  Some when \<Rightarrow> if when - now > 0 then when - now else 0
                | None \<Rightarrow> 0))"

section \<open>Reasons\<close>

definition replace_byte :: "char \<Rightarrow> char \<Rightarrow> string \<Rightarrow> string" where
  "replace_byte a b = map (\<lambda>c. if c = a then b else c)"

definition compactReason :: "string \<Rightarrow> string \<Rightarrow> string" where
  "compactReason prefix body =
     (let prefix = trim_space prefix;
          body = trim_space body;
          body = replace_byte (CHR 0x0A) (CHR '' '') body;
          body = replace_byte (CHR 0x0D) (CHR '' '') body;
          body = join '' '' (str_fields body)
      in if body = [] then prefix
         else let body = (if length body > 160 then take 160 body else body)
              in if prefix = [] then body else prefix @ '': '' @ body)"

section \<open>Previews of error bodies\<close>

text \<open>The object whose fields are inspected, and the code of one string field.\<close>

definition error_envelope :: "(string \<times> json) list \<Rightarrow> (string \<times> json) list" where
  "error_envelope obj = (case map_of obj ''error'' of Some (JObject nested) \<Rightarrow> nested | _ \<Rightarrow> obj)"

definition field_code :: "json option \<Rightarrow> string" where
  "field_code field = (case field of Some (JString value) \<Rightarrow> normalizedCredentialCode value | _ \<Rightarrow> [])"

definition previewCredentialCode :: "json \<Rightarrow> string" where
  "previewCredentialCode payload =
     (case payload of
        JObject obj \<Rightarrow>
          let early = field_code (map_of obj ''error'');
              obj = error_envelope obj
          in if early \<noteq> [] then early
             else if field_code (map_of obj ''code'') \<noteq> [] then field_code (map_of obj ''code'')
             else field_code (map_of obj ''type'')
      | _ \<Rightarrow> [])"

fun dedupe_loop :: "string list \<Rightarrow> string list \<Rightarrow> string list" where
  "dedupe_loop seen [] = []"
| "dedupe_loop seen (value # rest) =
     (let value = trim_space value in
      if value = [] \<or> value \<in> set seen then dedupe_loop seen rest
      else value # dedupe_loop (value # seen) rest)"

definition dedupeStrings :: "string list \<Rightarrow> string list" where
  "dedupeStrings values = dedupe_loop [] values"

definition preview_fields :: "string list" where
  "preview_fields = [''message'', ''error_description'', ''description'', ''detail'', ''error'', ''type'',
     ''code'', ''param'']"

lemma json_child_size: "map_of kvs key = Some child \<Longrightarrow> size child \<le> size_list (size_prod (\<lambda>_. 0) size) kvs"
  by (induction kvs) (auto split: if_splits)

function (sequential) collectJSONPreviewStrings :: "json \<Rightarrow> string list" where
  "collectJSONPreviewStrings (JString typed) =
     (let text = trim_space typed in if text = [] then [] else [text])"
| "collectJSONPreviewStrings (JArray items) =
     dedupeStrings (concat (map collectJSONPreviewStrings items))"
| "collectJSONPreviewStrings (JObject kvs) =
     dedupeStrings (concat (map (\<lambda>key. case map_of kvs key of
         Some child \<Rightarrow> collectJSONPreviewStrings child | None \<Rightarrow> []) preview_fields))"
| "collectJSONPreviewStrings _ = []"
  by pat_completeness auto

termination collectJSONPreviewStrings
  by (relation "measure size") (auto simp: json_child_size less_Suc_eq_le size_list_estimation')

definition looksLikeJSON :: "string \<Rightarrow> bool" where
  "looksLikeJSON preview =
     (case preview of [] \<Rightarrow> False | c # _ \<Rightarrow> c = CHR 0x7B \<or> c = CHR 0x5B)"

text \<open>The match text, the reason text and the credential code of a JSON preview.\<close>

definition summarizeJSONPreview :: "std_lib \<Rightarrow> string \<Rightarrow> (string \<times> string \<times> string) option" where
  "summarizeJSONPreview std preview =
     (if \<not> looksLikeJSON preview then None
      else case std_Unmarshal std preview of
        None \<Rightarrow> None
      | Some payload \<Rightarrow>
          let credentialCode = previewCredentialCode payload;
              parts = collectJSONPreviewStrings payload
          in if parts \<noteq> [] then Some (join '' '' parts, join '' | '' parts, credentialCode)
             else case std_Compact std preview of
                    None \<Rightarrow> None
                  | Some text \<Rightarrow> Some (text, text, credentialCode))"

definition normalizedContentType :: "std_lib \<Rightarrow> header \<Rightarrow> string" where
  "normalizedContentType std headers =
     (let contentType = trim_space (header_get headers ''Content-Type'') in
      if contentType = [] then []
      else case std_ParseMediaType std contentType of
             None \<Rightarrow> to_lower contentType
           | Some mediaType \<Rightarrow> to_lower mediaType)"

definition isTextualContentType :: "string \<Rightarrow> bool" where
  "isTextualContentType contentType =
     (if has_prefix contentType ''text/'' then True
      else if contentType \<in> {''application/json'', ''application/problem+json'', ''application/ld+json'',
           ''application/xml'', ''application/javascript'', ''application/x-www-form-urlencoded''} then True
      else has_suffix contentType ''+json'' \<or> has_suffix contentType ''+xml'')"

fun valid_utf8 :: "string \<Rightarrow> bool" where
  "valid_utf8 [] = True"
| "valid_utf8 (c # s) = (let n = rune_len (c # s) in n \<noteq> 0 \<and> valid_utf8 (drop (n - 1) s))"

definition isLikelyTextPreview :: "std_lib \<Rightarrow> header \<Rightarrow> string \<Rightarrow> bool" where
  "isLikelyTextPreview std headers preview =
     (if preview = [] \<or> \<not> valid_utf8 preview then False
      else
        let runes = to_runes preview;
            totalRunes = length runes;
            badRunes = length (filter (\<lambda>r. \<not> (std_IsPrint std r \<or> r \<in> set space_encodings)) runes)
        in if totalRunes = 0 then False
           else if badRunes = 0 then True
           else
             let contentType = normalizedContentType std headers
             in if contentType = [] then badRunes * 10 \<le> totalRunes
                else if isTextualContentType contentType then badRunes * 5 \<le> totalRunes
                else badRunes * 10 \<le> totalRunes)"

definition describeNonTextPreview :: "std_lib \<Rightarrow> header \<Rightarrow> nat \<Rightarrow> string" where
  "describeNonTextPreview std headers n =
     (let contentType = normalizedContentType std headers in
      if contentType = [] then ''<non-text response body: '' @ itoa (int n) @ '' bytes>''
      else ''<non-text response body: '' @ itoa (int n) @ '' bytes; content-type='' @ contentType @ ''>'')"

definition summarizeResponsePreview :: "std_lib \<Rightarrow> header \<Rightarrow> string \<Rightarrow> string \<times> string \<times> string" where
  "summarizeResponsePreview std headers preview =
     (let preview = trim_space preview in
      if preview = [] then ([], [], [])
      else case summarizeJSONPreview std preview of
        Some (matchText, reasonText, credentialCode) \<Rightarrow> (to_lower matchText, reasonText, credentialCode)
      | None \<Rightarrow>
          if isLikelyTextPreview std headers preview
          then let text = trim_space preview in (to_lower text, text, [])
          else ([], describeNonTextPreview std headers (length preview), []))"

section \<open>Classification\<close>

definition classifyRequestError :: "ErrorPolicyConfig \<Rightarrow> string \<Rightarrow> keyDecision" where
  "classifyRequestError policy message =
     (let reason = compactReason ''request error'' message;
          rule = applyNoDefaultBackoff policy (cd_RequestError (ep_Cooldown policy))
      in cooldownDecision 0 reason rule (boolOrDefault (fo_RequestError (ep_Failover policy)) True) 0 False)"

text \<open>The switch on the status code.\<close>

definition status_decision ::
  "string \<Rightarrow> ErrorPolicyConfig \<Rightarrow> int \<Rightarrow> string \<Rightarrow> string \<Rightarrow> bool \<Rightarrow> duration \<Rightarrow> keyDecision" where
  "status_decision provider policy statusCode body reason responseFailover retryAfter =
     (let cd = ep_Cooldown policy in
      if statusCode = 401 then
        cooldownDecision statusCode reason (applyNoDefaultBackoff policy (cd_Unauthorized cd)) responseFailover 0 False
      else if statusCode = 402 then
        cooldownDecision statusCode reason (applyNoDefaultBackoff policy (cd_PaymentRequired cd)) responseFailover 0 False
      else if statusCode = 403 then
        cooldownDecision statusCode reason (applyNoDefaultBackoff policy (cd_Forbidden cd)) responseFailover 0 False
      else if statusCode = 429 then
        cooldownDecision statusCode reason (applyNoDefaultBackoff policy (cd_RateLimit cd)) responseFailover retryAfter False
      else if statusCode \<in> set server_error_codes then
        if provider = ''openai'' \<and> contains body ''slow down'' then
          cooldownDecision statusCode reason (applyNoDefaultBackoff policy (cd_OpenAISlowDown cd)) responseFailover retryAfter True
        else
          cooldownDecision statusCode reason (applyNoDefaultBackoff policy (cd_ServerError cd)) responseFailover retryAfter False
      else observeDecision statusCode reason responseFailover)"

definition classifyErrorResponse ::
  "std_lib \<Rightarrow> time \<Rightarrow> string \<Rightarrow> ErrorPolicyConfig \<Rightarrow> int \<Rightarrow> header \<Rightarrow> string \<Rightarrow> string \<Rightarrow> string \<Rightarrow> keyDecision" where
  "classifyErrorResponse std now provider policy statusCode headers body reasonBody credentialCode =
     (let retryAfter = parseRetryAfter std now (header_get headers ''Retry-After'');
          reason = compactReason (''HTTP '' @ itoa statusCode) reasonBody;
          responseFailover = shouldFailoverResponse statusCode policy
      in case classifyAutoDisable (ep_AutoDisable policy) statusCode body credentialCode of
        Some autoReason \<Rightarrow>
          disableDecision statusCode (compactReason (''auto disabled: '' @ autoReason) reasonBody) responseFailover
      | None \<Rightarrow>
        (case matchResponseCooldownRule statusCode body (cd_ResponseRules (ep_Cooldown policy)) of
          Some rule \<Rightarrow> responseCooldownDecision statusCode reason rule responseFailover retryAfter
        | None \<Rightarrow> status_decision provider policy statusCode body reason responseFailover retryAfter))"

definition classifyResponse ::
  "std_lib \<Rightarrow> time \<Rightarrow> string \<Rightarrow> ErrorPolicyConfig \<Rightarrow> int \<Rightarrow> header \<Rightarrow> string \<Rightarrow> keyDecision" where
  "classifyResponse std now provider policy statusCode headers preview =
     (if statusCode < 400
      then \<lparr>kd_action = AttemptSuccess, kd_statusCode = statusCode, kd_cooldown = 0, kd_reason = [],
            kd_failover = False\<rparr>
      else
        let (body, reasonBody, credentialCode) = summarizeResponsePreview std headers preview
        in classifyErrorResponse std now provider policy statusCode headers body reasonBody credentialCode)"

section \<open>Masking\<close>

definition errorMaskingEnabled :: "ErrorMaskingConfig \<Rightarrow> bool" where
  "errorMaskingEnabled masking = boolOrDefault (mk_Enabled masking) True"

fun matchErrorMaskRule :: "int \<Rightarrow> string \<Rightarrow> ErrorMaskingRule list \<Rightarrow> ErrorMaskingRule option" where
  "matchErrorMaskRule statusCode body [] = None"
| "matchErrorMaskRule statusCode body (rule # rules) =
     (if rule_matches (mr_StatusCodes rule) (mr_Keywords rule) statusCode body then Some rule
      else matchErrorMaskRule statusCode body rules)"

definition matchUpstreamErrorMask :: "ErrorPolicyConfig \<Rightarrow> int \<Rightarrow> string \<Rightarrow> ErrorMaskingRule option" where
  "matchUpstreamErrorMask policy statusCode body =
     (let masking = ep_Masking policy in
      if mk_Rules masking = [] \<or> \<not> errorMaskingEnabled masking \<or> statusCode < 400 then None
      else matchErrorMaskRule statusCode body (mk_Rules masking))"

definition matchGatewayErrorMask :: "ErrorPolicyConfig \<Rightarrow> int \<Rightarrow> string \<Rightarrow> ErrorMaskingRule option" where
  "matchGatewayErrorMask policy statusCode message =
     (if \<not> errorMaskingEnabled (ep_Masking policy) then None
      else matchErrorMaskRule statusCode message (mk_Rules (ep_Masking policy)))"

definition extendDecisionCooldown :: "keyDecision \<Rightarrow> ErrorMaskingRule \<Rightarrow> keyDecision" where
  "extendDecisionCooldown decision rule =
     (if mr_Cooldown rule \<le> 0 \<or> kd_action decision = AttemptDisable then decision
      else if kd_action decision = AttemptCooldown \<and> kd_cooldown decision \<ge> mr_Cooldown rule then decision
      else decision\<lparr>kd_action := AttemptCooldown, kd_cooldown := mr_Cooldown rule\<rparr>)"

definition analyzeErrorResponse ::
  "std_lib \<Rightarrow> time \<Rightarrow> string \<Rightarrow> ErrorPolicyConfig \<Rightarrow> int \<Rightarrow> header \<Rightarrow> string \<Rightarrow>
     keyDecision \<times> ErrorMaskingRule option" where
  "analyzeErrorResponse std now provider policy statusCode headers preview =
     (let (body, reason, credentialCode) = summarizeResponsePreview std headers preview;
          decision = classifyErrorResponse std now provider policy statusCode headers body reason credentialCode
      in case matchUpstreamErrorMask policy statusCode body of
           Some rule \<Rightarrow> (extendDecisionCooldown decision rule, Some rule)
         | None \<Rightarrow> (decision, None))"

record maskedResponse =
  ms_statusCode :: int
  ms_contentType :: string
  ms_body :: string
  ms_retryAfter :: string

definition maskedRetryAfterMode :: "string \<Rightarrow> string" where
  "maskedRetryAfterMode raw =
     (let mode = to_lower (trim_space raw) in
      if mode = [] \<or> mode = ''preserve'' then ''preserve''
      else if mode = ''ignore'' then ''ignore'' else ''set'')"

definition gateway_error_json :: "string \<Rightarrow> string" where
  "gateway_error_json message =
     CHR 0x7B # json_string ''error'' @ '':'' @ CHR 0x7B # json_string ''message'' @ '':'' @ json_string message @ '',''
       @ json_string ''type'' @ '':'' @ json_string ''gateway_error'' @ [CHR 0x7D, CHR 0x7D]"

text \<open>\<open>json.Marshal\<close> of a map of strings cannot fail, so its error branch is left out.\<close>

definition buildMaskedResponseBody :: "ErrorMaskingRule \<Rightarrow> string" where
  "buildMaskedResponseBody rule =
     (if trim_space (mr_Body rule) \<noteq> [] then mr_Body rule
      else
        let message = trim_space (mr_Message rule);
            message = (if message = [] then StatusText (mr_StatusCode rule) else message);
            message = (if message = [] then ''upstream error masked by gateway'' else message)
        in gateway_error_json message)"

definition buildMaskedResponse :: "std_lib \<Rightarrow> ErrorMaskingRule \<Rightarrow> string \<Rightarrow> maskedResponse" where
  "buildMaskedResponse std rule upstreamRetryAfter =
     (let contentType = trim_space (mr_ContentType rule);
          contentType = (if contentType = [] then ''application/json'' else contentType);
          mode = maskedRetryAfterMode (mr_RetryAfter rule);
          retryAfter = (if mode = ''ignore'' then []
            else if mode = ''set'' then
              (case std_ParseDuration std (trim_space (mr_RetryAfter rule)) of
                 Some d \<Rightarrow> itoa (if d < 0 then - (- d div second) else d div second)
               | None \<Rightarrow> [])
            else trim_space upstreamRetryAfter)
      in \<lparr>ms_statusCode = mr_StatusCode rule, ms_contentType = contentType,
          ms_body = buildMaskedResponseBody rule, ms_retryAfter = retryAfter\<rparr>)"


section \<open>Lemmas on matching\<close>

lemma containsStatusCode_iff: "containsStatusCode codes c \<longleftrightarrow> c \<in> set codes"
  by (induction codes) auto

lemma hasNonEmptyPattern_iff: "hasNonEmptyPattern ps \<longleftrightarrow> (\<exists>p \<in> set ps. trim_space p \<noteq> [])"
  by (induction ps) auto

lemma to_lower_eq_Nil [simp]: "to_lower s = [] \<longleftrightarrow> s = []"
  by (simp add: to_lower_def)

text \<open>A configured keyword occurs in the lower-case match text.\<close>

definition keyword_hit :: "string \<Rightarrow> string \<Rightarrow> bool" where
  "keyword_hit body kw \<longleftrightarrow> trim_space kw \<noteq> [] \<and> body \<noteq> [] \<and> contains body (to_lower (trim_space kw))"

lemma containsAnyKeyword_iff: "containsAnyKeyword body ps \<longleftrightarrow> (\<exists>p \<in> set ps. keyword_hit body p)"
  by (induction ps) (auto simp: keyword_hit_def Let_def)

lemma matchKeyword_single:
  "matchKeyword body [kw] = (if keyword_hit body kw then Some (to_lower (trim_space kw)) else None)"
  by (simp add: keyword_hit_def Let_def)

lemma rule_matches_iff:
  "rule_matches codes kws c body \<longleftrightarrow>
     (codes \<noteq> [] \<or> (\<exists>kw \<in> set kws. trim_space kw \<noteq> [])) \<and> (codes = [] \<or> c \<in> set codes) \<and>
     ((\<forall>kw \<in> set kws. trim_space kw = []) \<or> (\<exists>kw \<in> set kws. keyword_hit body kw))"
  by (auto simp: rule_matches_def containsStatusCode_iff hasNonEmptyPattern_iff containsAnyKeyword_iff)

text \<open>Both rule lists are read in order and the first matching rule is taken.\<close>

lemma matchResponseCooldownRule_find:
  "matchResponseCooldownRule c body rules = find (\<lambda>r. rule_matches (rr_StatusCodes r) (rr_Keywords r) c body) rules"
  by (induction rules) auto

lemma matchErrorMaskRule_find:
  "matchErrorMaskRule c body rules = find (\<lambda>r. rule_matches (mr_StatusCodes r) (mr_Keywords r) c body) rules"
  by (induction rules) auto

section \<open>Automatic disabling\<close>

text \<open>When a response disables the key, in terms of the configuration: a built-in credential code must
  be the code of the error envelope, any other keyword must occur in the text.\<close>

definition keyword_disables :: "string \<Rightarrow> string \<Rightarrow> string \<Rightarrow> bool" where
  "keyword_disables body credentialCode kw \<longleftrightarrow>
     (if normalizedCredentialCode kw \<noteq> [] then normalizedCredentialCode kw = credentialCode
      else keyword_hit body kw)"

definition disables :: "ErrorAutoDisableConfig \<Rightarrow> int \<Rightarrow> string \<Rightarrow> string \<Rightarrow> bool" where
  "disables auto statusCode body credentialCode \<longleftrightarrow>
     ad_Enabled auto \<noteq> Some False \<and>
     (statusCode \<in> set (ad_StatusCodes auto) \<or>
      (\<exists>kw \<in> set (ad_Keywords auto). keyword_disables body credentialCode kw))"

lemma auto_disable_keywords_iff:
  "auto_disable_keywords body code kws \<noteq> None \<longleftrightarrow> (\<exists>kw \<in> set kws. keyword_disables body code kw)"
proof (induction kws)
  case (Cons kw kws)
  have "auto_disable_keywords body code (kw # kws) \<noteq> None \<longleftrightarrow>
      keyword_disables body code kw \<or> auto_disable_keywords body code kws \<noteq> None"
    by (simp add: Let_def matchKeyword_single keyword_disables_def del: matchKeyword.simps)
  with Cons show ?case by (simp del: auto_disable_keywords.simps)
qed simp

lemma classifyAutoDisable_iff: "classifyAutoDisable auto c body code \<noteq> None \<longleftrightarrow> disables auto c body code"
  using auto_disable_keywords_iff [of body code "ad_Keywords auto"]
  by (auto simp: classifyAutoDisable_def disables_def containsStatusCode_iff boolOrDefault_def split: option.split)

text \<open>The texts of the error envelope: the \<open>error\<close> field when it is a text, and the fields \<open>code\<close> and
  \<open>type\<close> of the error object (of the body itself when there is no error object).\<close>

definition envelope_fields :: "json \<Rightarrow> json option set" where
  "envelope_fields payload = (case payload of
      JObject obj \<Rightarrow> {map_of obj ''error'', map_of (error_envelope obj) ''code'', map_of (error_envelope obj) ''type''}
    | _ \<Rightarrow> {})"

lemma field_code_nonempty: "field_code f \<noteq> [] \<Longrightarrow> \<exists>s. f = Some (JString s) \<and> normalizedCredentialCode s = field_code f"
  by (simp add: field_code_def split: option.splits json.splits)

lemma previewCredentialCode_envelope:
  assumes "previewCredentialCode payload \<noteq> []"
  shows "\<exists>s. Some (JString s) \<in> envelope_fields payload \<and> normalizedCredentialCode s = previewCredentialCode payload"
proof -
  obtain obj where p: "payload = JObject obj" using assms by (cases payload) (auto simp: previewCredentialCode_def)
  have "\<exists>f \<in> envelope_fields payload. field_code f = previewCredentialCode payload"
    unfolding p previewCredentialCode_def envelope_fields_def json.case Let_def by (simp split: if_split)
  with assms obtain f where f: "f \<in> envelope_fields payload" "field_code f = previewCredentialCode payload" by blast
  with assms field_code_nonempty [of f] show ?thesis by metis
qed

section \<open>The decision\<close>

lemma decision_fields [simp]:
  "kd_action (disableDecision c r f) = AttemptDisable" "kd_failover (disableDecision c r f) = f"
  "kd_statusCode (disableDecision c r f) = c"
  "kd_action (observeDecision c r f) = AttemptObserve" "kd_failover (observeDecision c r f) = f"
  "kd_statusCode (observeDecision c r f) = c"
  "kd_failover (cooldownDecision c r rule f ra m) = f" "kd_statusCode (cooldownDecision c r rule f ra m) = c"
  "kd_action (responseCooldownDecision c r rr f ra) = AttemptCooldown"
  "kd_failover (responseCooldownDecision c r rr f ra) = f" "kd_statusCode (responseCooldownDecision c r rr f ra) = c"
  by (simp_all add: disableDecision_def observeDecision_def cooldownDecision_def responseCooldownDecision_def Let_def)

lemma cooldownDecision_action:
  "kd_action (cooldownDecision c r rule f ra m) = (if cr_Enabled rule = Some False then AttemptObserve else AttemptCooldown)"
  by (simp add: cooldownDecision_def boolOrDefault_def Let_def split: option.split)

lemma status_decision_basic [simp]:
  "kd_failover (status_decision pv pol c body r f ra) = f" "kd_statusCode (status_decision pv pol c body r f ra) = c"
  by (simp_all add: status_decision_def Let_def)

lemma status_decision_action:
  "kd_action (status_decision pv pol c body r f ra) \<in> {AttemptObserve, AttemptCooldown}"
  by (simp add: status_decision_def Let_def cooldownDecision_action)

lemma classifyErrorResponse_basic:
  "kd_failover (classifyErrorResponse std now pv pol c h body rb code) = shouldFailoverResponse c pol \<and>
   kd_statusCode (classifyErrorResponse std now pv pol c h body rb code) = c"
  by (simp add: classifyErrorResponse_def Let_def split: option.split)

lemma classifyErrorResponse_disable:
  "kd_action (classifyErrorResponse std now pv pol c h body rb code) = AttemptDisable \<longleftrightarrow>
     disables (ep_AutoDisable pol) c body code"
  using classifyAutoDisable_iff [of "ep_AutoDisable pol" c body code]
    status_decision_action [of pv pol c body "compactReason (''HTTP '' @ itoa c) rb" "shouldFailoverResponse c pol"
      "parseRetryAfter std now (header_get h ''Retry-After'')"]
  by (auto simp: classifyErrorResponse_def Let_def split: option.splits)

section \<open>Texts\<close>

lemma first_strip_other_head: "\<forall>e \<in> set es. e \<noteq> [] \<and> hd e \<noteq> c \<Longrightarrow> first_strip es (c # s) = None"
proof (induction es)
  case (Cons e es)
  then show ?case by (cases e) auto
qed simp

lemma space_encodings_no_digit:
  "list_all (\<lambda>e. e \<noteq> [] \<and> \<not> is_digit (hd e)) space_encodings" "list_all (\<lambda>e. e \<noteq> [] \<and> \<not> is_digit (hd e)) (map rev space_encodings)"
  by code_simp+

lemma trim_space_digits:
  assumes "list_all is_digit s" shows "trim_space s = s"
proof (cases "s = []")
  case False
  then obtain c r d q where s: "s = c # r" "rev s = d # q" by (metis neq_Nil_conv rev_is_Nil_conv)
  then have "d \<in> set s" by (metis list.set_intros(1) set_rev)
  then have c: "is_digit c" and d: "is_digit d" using assms s(1) by (auto simp: list_all_iff)
  have "first_strip space_encodings (c # r) = None"
    by (rule first_strip_other_head) (use space_encodings_no_digit(1) c in \<open>auto simp: list_all_iff\<close>)
  moreover have "first_strip (map rev space_encodings) (d # q) = None"
    by (rule first_strip_other_head) (use space_encodings_no_digit(2) d in \<open>auto simp: list_all_iff\<close>)
  ultimately show ?thesis using s trim_space_fixed [of s] by simp
qed simp

lemma length_compactReason: "length (compactReason p b) \<le> length (trim_space p) + 162"
  by (simp add: compactReason_def Let_def)

lemma set_join: "set (join sep xs) \<subseteq> set sep \<union> \<Union> (set ` set xs)"
  by (induction sep xs rule: join.induct) auto

lemma first_strip_space_suffix:
  assumes "first_strip es s = Some r" shows "set r \<subseteq> set s"
  using first_strip_SomeD [OF assms] by auto

lemma set_fields_from: "\<Union> (set ` set (fields_from acc s)) \<subseteq> set acc \<union> set s"
proof (induction acc s rule: fields_from.induct)
  case (2 acc c s)
  show ?case
  proof (cases "first_strip space_encodings (c # s)")
    case None
    then have "\<Union> (set ` set (fields_from (c # acc) s)) \<subseteq> set (c # acc) \<union> set s" by (intro "2.IH"(1))
    with None show ?thesis by auto
  next
    case (Some r)
    show ?thesis
    proof (cases "length r \<le> length s")
      case True
      with Some have "\<Union> (set ` set (fields_from [] r)) \<subseteq> set [] \<union> set r" by (intro "2.IH"(2))
      with True Some first_strip_space_suffix [OF Some] show ?thesis by auto
    next
      case False
      with Some have "\<Union> (set ` set (fields_from (c # acc) s)) \<subseteq> set (c # acc) \<union> set s" by (intro "2.IH"(3))
      with False Some show ?thesis by auto
    qed
  qed
qed simp

lemma compactReason_single_line:
  assumes "c = CHR 0x0A \<or> c = CHR 0x0D" and "c \<notin> set (trim_space p)"
  shows "c \<notin> set (compactReason p b)"
proof -
  let ?b = "replace_byte (CHR 0x0D) (CHR '' '') (replace_byte (CHR 0x0A) (CHR '' '') (trim_space b))"
  have "c \<notin> set ?b" using assms(1) by (auto simp: replace_byte_def)
  moreover have "set (join '' '' (str_fields ?b)) \<subseteq> {CHR '' ''} \<union> set ?b"
    using set_join [of "'' ''" "str_fields ?b"] set_fields_from [of "[]" ?b] by (auto simp: str_fields_def)
  ultimately have "c \<notin> set (join '' '' (str_fields ?b))" using assms(1) by auto
  then show ?thesis
    using assms by (auto simp: compactReason_def Let_def dest: in_set_takeD)
qed

section \<open>Previews\<close>

lemma dedupe_loop_props:
  "distinct (dedupe_loop seen xs) \<and> set (dedupe_loop seen xs) = (trim_space ` set xs) - {[]} - set seen"
  by (induction seen xs rule: dedupe_loop.induct) (auto simp: Let_def)

lemma collect_trimmed:
  "distinct (collectJSONPreviewStrings v) \<and> (\<forall>s \<in> set (collectJSONPreviewStrings v). s \<noteq> [] \<and> trim_space s = s)"
  by (cases v) (auto simp: dedupeStrings_def dedupe_loop_props Let_def)

lemma summarize_credential:
  assumes "summarizeResponsePreview std headers preview = (body, reason, code)" and "code \<noteq> []"
  shows "\<exists>payload. std_Unmarshal std (trim_space preview) = Some payload \<and> previewCredentialCode payload = code"
  using assms
  by (auto simp: summarizeResponsePreview_def summarizeJSONPreview_def Let_def split: if_splits option.splits)

section \<open>Properties\<close>

text \<open>C29: An error response disables its key exactly when the policy says so: automatic disabling is on
  and the status is listed, or a configured keyword applies.  A keyword that names one of the two
  built-in credential codes applies only when the response carries that code in its error envelope,
  so a code quoted elsewhere in the body (a reflected model name, a parameter, a message) never
  disables a key; any other keyword applies when it occurs in the response text.\<close>

theorem auto_disable_exact:
  assumes "400 \<le> statusCode" and "summarizeResponsePreview std headers preview = (body, reason, code)"
  shows "(kd_action (classifyResponse std now provider policy statusCode headers preview) = AttemptDisable \<longleftrightarrow>
      disables (ep_AutoDisable policy) statusCode body code) \<and>
    (code \<noteq> [] \<longrightarrow> (\<exists>payload s. std_Unmarshal std (trim_space preview) = Some payload \<and>
        Some (JString s) \<in> envelope_fields payload \<and> normalizedCredentialCode s = code))"
proof -
  have "classifyResponse std now provider policy statusCode headers preview =
      classifyErrorResponse std now provider policy statusCode headers body reason code"
    using assms by (simp add: classifyResponse_def)
  moreover have "\<exists>payload s. std_Unmarshal std (trim_space preview) = Some payload \<and>
        Some (JString s) \<in> envelope_fields payload \<and> normalizedCredentialCode s = code" if "code \<noteq> []"
    using summarize_credential [OF assms(2) that] previewCredentialCode_envelope that by blast
  ultimately show ?thesis by (simp add: classifyErrorResponse_disable)
qed

definition plain_lib :: std_lib where
  "plain_lib = \<lparr>std_Unmarshal = (\<lambda>_. None), std_Compact = (\<lambda>_. None), std_ParseMediaType = (\<lambda>_. None),
     std_ParseTime = (\<lambda>_. None), std_ParseDuration = (\<lambda>_. None), std_IsPrint = (\<lambda>_. True)\<rparr>"

abbreviation on_for :: "duration \<Rightarrow> ErrorCooldownRule" where
  "on_for d \<equiv> \<lparr>cr_Enabled = None, cr_Duration = d\<rparr>"

definition sample_policy :: ErrorPolicyConfig where
  "sample_policy =
     \<lparr>ep_AutoDisable = \<lparr>ad_Enabled = None, ad_StatusCodes = [401], ad_Keywords = [''invalid_api_key'', ''quota'']\<rparr>,
      ep_Cooldown = \<lparr>cd_RequestError = on_for second, cd_Unauthorized = on_for minute, cd_PaymentRequired = on_for minute,
        cd_Forbidden = on_for minute, cd_RateLimit = on_for second, cd_ServerError = on_for second,
        cd_OpenAISlowDown = on_for minute, cd_NoDefaultBackoff = False, cd_ResponseRules = []\<rparr>,
      ep_Failover = \<lparr>fo_RequestError = None, fo_Unauthorized = None, fo_PaymentRequired = None, fo_Forbidden = None,
        fo_RateLimit = None, fo_ServerError = None, fo_ResponseStatusCodes = [], fo_MaxAttempts = 3\<rparr>,
      ep_Masking = \<lparr>mk_Enabled = None, mk_Rules =
        [\<lparr>mr_StatusCodes = [429], mr_Keywords = [], mr_StatusCode = 503, mr_Body = [], mr_Message = [], mr_ContentType = [],
          mr_RetryAfter = [], mr_Cooldown = minute\<rparr>]\<rparr>\<rparr>"

lemma sample_summary:
  "summarizeResponsePreview plain_lib [] ''unknown model invalid_api_key'' =
     (''unknown model invalid_api_key'', ''unknown model invalid_api_key'', [])"
  by code_simp

theorem auto_disable_exact_witness:
  "kd_action (classifyResponse plain_lib 0 ''openai'' sample_policy 400 [] ''unknown model invalid_api_key'') \<noteq> AttemptDisable"
proof -
  have "\<not> disables (ep_AutoDisable sample_policy) 400 ''unknown model invalid_api_key'' []" by code_simp
  with auto_disable_exact [OF _ sample_summary, of 400 0 "''openai''" sample_policy] show ?thesis by simp
qed

text \<open>C30: Masking never softens what happens to a key.  The decision on an error response keeps the
  status, reason and failover of the classification, which alone decides on failover; the key is
  disabled exactly when it would be without masking; without a matching rule nothing changes, and
  the matching rule is the first one in the list.  A rule with a cooldown only ever extends: the key
  cools down for the longer of the two times.\<close>

theorem masking_extends_only:
  assumes "400 \<le> statusCode"
    and "analyzeErrorResponse std now provider policy statusCode headers preview = (d', matched)"
    and "d = classifyResponse std now provider policy statusCode headers preview"
  shows "kd_statusCode d' = statusCode \<and> kd_reason d' = kd_reason d \<and>
    kd_failover d' = shouldFailoverResponse statusCode policy \<and>
    (kd_action d' = AttemptDisable \<longleftrightarrow> kd_action d = AttemptDisable) \<and>
    (case matched of None \<Rightarrow> d' = d
     | Some rule \<Rightarrow>
         find (\<lambda>r. rule_matches (mr_StatusCodes r) (mr_Keywords r) statusCode (fst (summarizeResponsePreview std headers preview)))
           (mk_Rules (ep_Masking policy)) = Some rule \<and>
         (if mr_Cooldown rule \<le> 0 \<or> kd_action d = AttemptDisable then d' = d
          else kd_action d' = AttemptCooldown \<and>
               kd_cooldown d' = (if kd_action d = AttemptCooldown then max (kd_cooldown d) (mr_Cooldown rule) else mr_Cooldown rule)))"
proof -
  obtain body reason code where s: "summarizeResponsePreview std headers preview = (body, reason, code)"
    by (cases "summarizeResponsePreview std headers preview")
  have d: "d = classifyErrorResponse std now provider policy statusCode headers body reason code"
    using assms(1,3) s by (simp add: classifyResponse_def)
  have b: "kd_failover d = shouldFailoverResponse statusCode policy" "kd_statusCode d = statusCode"
    using classifyErrorResponse_basic unfolding d by blast+
  show ?thesis
  proof (cases "matchUpstreamErrorMask policy statusCode body")
    case None
    then have "d' = d \<and> matched = None" using assms(2) s d by (simp add: analyzeErrorResponse_def)
    with b show ?thesis by simp
  next
    case (Some rule)
    then have e: "d' = extendDecisionCooldown d rule" "matched = Some rule"
      using assms(2) s d by (simp_all add: analyzeErrorResponse_def)
    have f: "find (\<lambda>r. rule_matches (mr_StatusCodes r) (mr_Keywords r) statusCode body) (mk_Rules (ep_Masking policy)) = Some rule"
      using Some by (simp add: matchUpstreamErrorMask_def matchErrorMaskRule_find Let_def split: if_splits)
    show ?thesis using b f unfolding e s by (auto simp: extendDecisionCooldown_def max_def)
  qed
qed

theorem masking_extends_only_witness:
  "kd_cooldown (fst (analyzeErrorResponse plain_lib 0 ''openai'' sample_policy 429 [] [])) = minute \<and>
   kd_cooldown (classifyResponse plain_lib 0 ''openai'' sample_policy 429 [] []) = second"
proof -
  obtain d' matched where a: "analyzeErrorResponse plain_lib 0 ''openai'' sample_policy 429 [] [] = (d', matched)" by fastforce
  have m: "matched = Some (hd (mk_Rules (ep_Masking sample_policy)))"
  proof -
    have "snd (analyzeErrorResponse plain_lib 0 ''openai'' sample_policy 429 [] []) = Some (hd (mk_Rules (ep_Masking sample_policy)))" by code_simp
    then show ?thesis unfolding a by (simp only: snd_conv)
  qed
  have d: "kd_action (classifyResponse plain_lib 0 ''openai'' sample_policy 429 [] []) = AttemptCooldown"
    "kd_cooldown (classifyResponse plain_lib 0 ''openai'' sample_policy 429 [] []) = second" by code_simp+
  have r: "mr_Cooldown (hd (mk_Rules (ep_Masking sample_policy))) = minute" by code_simp
  show ?thesis using masking_extends_only [OF _ a refl] d r unfolding a m by simp
qed

text \<open>Backoff is never invented.  An error response cools its key down only through an explicit
  response rule, the first one that matches, or through the built-in rule of its status when that
  rule is enabled and \<open>no_default_backoff\<close> is off; with \<open>no_default_backoff\<close> a failed request is only
  observed.  The cooldown of a response rule is the configured time or the time the upstream asked
  for.\<close>

theorem cooldown_needs_rule:
  assumes "400 \<le> statusCode" and "summarizeResponsePreview std headers preview = (body, reason, code)"
    and "d = classifyResponse std now provider policy statusCode headers preview"
  shows "(kd_action d = AttemptCooldown \<longrightarrow>
      (case find (\<lambda>r. rule_matches (rr_StatusCodes r) (rr_Keywords r) statusCode body) (cd_ResponseRules (ep_Cooldown policy)) of
         Some rule \<Rightarrow> kd_cooldown d \<in> {rr_Duration rule, parseRetryAfter std now (header_get headers ''Retry-After'')}
       | None \<Rightarrow> \<not> cd_NoDefaultBackoff (ep_Cooldown policy) \<and> statusCode \<in> {401, 402, 403, 429} \<union> set server_error_codes)) \<and>
    kd_action d \<in> {AttemptObserve, AttemptCooldown, AttemptDisable} \<and>
    (cd_NoDefaultBackoff (ep_Cooldown policy) \<longrightarrow> kd_action (classifyRequestError policy message) = AttemptObserve)"
proof -
  let ?ra = "parseRetryAfter std now (header_get headers ''Retry-After'')"
  have d: "d = classifyErrorResponse std now provider policy statusCode headers body reason code"
    using assms by (simp add: classifyResponse_def)
  have off: "cd_NoDefaultBackoff (ep_Cooldown policy) \<Longrightarrow> kd_action (cooldownDecision c r (applyNoDefaultBackoff policy rule) f ra m) = AttemptObserve"
    for c r rule f ra m by (simp add: cooldownDecision_action applyNoDefaultBackoff_def)
  have st: "kd_action (status_decision provider policy statusCode body r f ?ra) = AttemptCooldown \<Longrightarrow>
      \<not> cd_NoDefaultBackoff (ep_Cooldown policy) \<and> statusCode \<in> {401, 402, 403, 429} \<union> set server_error_codes" for r f
    using off by (auto simp: status_decision_def Let_def split: if_splits)
  have ru: "kd_cooldown (responseCooldownDecision statusCode r rule f ?ra) \<in> {rr_Duration rule, ?ra}" for r f rule
    by (simp add: responseCooldownDecision_def maxDuration_def Let_def)
  have "kd_action (classifyRequestError policy message) = AttemptObserve" if "cd_NoDefaultBackoff (ep_Cooldown policy)"
    using off [OF that] by (simp add: classifyRequestError_def Let_def)
  moreover have "kd_action d \<in> {AttemptObserve, AttemptCooldown, AttemptDisable}"
  proof -
    have "kd_action (status_decision provider policy statusCode body r f ra) \<in> {AttemptObserve, AttemptCooldown, AttemptDisable}" for r f ra
      using status_decision_action [of provider policy statusCode body r f ra] by blast
    then show ?thesis unfolding d classifyErrorResponse_def Let_def by (simp split: option.split)
  qed
  ultimately show ?thesis
    using st ru unfolding d classifyErrorResponse_def Let_def matchResponseCooldownRule_find
    by (auto split: option.split)
qed

theorem cooldown_needs_rule_witness:
  "kd_action (classifyResponse plain_lib 0 ''openai'' sample_policy 404 [] ''unknown model invalid_api_key'') = AttemptObserve"
proof -
  have "\<not> disables (ep_AutoDisable sample_policy) 404 ''unknown model invalid_api_key'' []" by code_simp
  then have n: "kd_action (classifyResponse plain_lib 0 ''openai'' sample_policy 404 [] ''unknown model invalid_api_key'') \<noteq> AttemptDisable"
    using sample_summary by (simp add: classifyResponse_def classifyErrorResponse_disable)
  have "cd_ResponseRules (ep_Cooldown sample_policy) = []" by (simp add: sample_policy_def)
  with n cooldown_needs_rule [OF _ sample_summary refl, of 404 0 "''openai''" sample_policy] show ?thesis
    by (auto simp: server_error_codes_def)
qed

text \<open>A Retry-After header of a number of seconds is read as a 64-bit product: every value up to
  9223372036 seconds is honoured exactly, and the next one wraps to a negative time, which the
  classification ignores.\<close>

theorem retry_after_seconds:
  assumes "0 < secs" and "secs \<le> max_int64"
  shows "parseRetryAfter std now (itoa secs) = wrap64 (secs * second) \<and>
    (secs \<le> 9223372036 \<longrightarrow> parseRetryAfter std now (itoa secs) = secs * second) \<and>
    parseRetryAfter std now (itoa 9223372037) < 0"
proof -
  have p: "parseRetryAfter std now (itoa s) = wrap64 (s * second)" if "0 < s" "s \<le> max_int64" for s
  proof -
    have "trim_space (itoa s) = itoa s" "itoa s \<noteq> []"
      using nat_text_digits [of "nat s"] that(1) by (simp_all add: itoa_def trim_space_digits)
    with that show ?thesis by (simp add: parseRetryAfter_def Let_def atoi_itoa)
  qed
  have "wrap64 (9223372037 * second) < 0" by (simp add: wrap64_def)
  with p [of secs] p [of 9223372037] assms show ?thesis by (simp add: wrap64_id)
qed

theorem retry_after_seconds_witness: "parseRetryAfter plain_lib 0 ''30'' = 30 * second"
proof -
  have "itoa 30 = ''30''" by code_simp
  with retry_after_seconds [of 30 plain_lib 0] show ?thesis by simp
qed

text \<open>The reason recorded with a key is short and, when its prefix is, a single line: at most 162
  bytes follow the trimmed prefix, whatever the upstream sent.\<close>

theorem compact_reason_bounded:
  "length (compactReason prefix body) \<le> length (trim_space prefix) + 162 \<and>
   (\<forall>c \<in> {CHR 0x0A, CHR 0x0D}. c \<in> set (compactReason prefix body) \<longrightarrow> c \<in> set (trim_space prefix))"
  using length_compactReason compactReason_single_line by blast

theorem compact_reason_bounded_witness:
  "CHR 0x0A \<notin> set (compactReason ''HTTP 500'' [CHR ''a'', CHR 0x0A, CHR ''b''])"
proof -
  have "CHR 0x0A \<notin> set (trim_space ''HTTP 500'')" by code_simp
  with compact_reason_bounded [of "''HTTP 500''" "[CHR ''a'', CHR 0x0A, CHR ''b'']"] show ?thesis by blast
qed

text \<open>The length limit of a reason counts bytes, so it can cut a multi-byte character: a valid UTF-8
  text of 161 bytes becomes a reason that is not valid UTF-8.\<close>

theorem compact_reason_splits_rune:
  "\<exists>body. valid_utf8 body \<and> length body = 161 \<and> \<not> valid_utf8 (compactReason ''HTTP 500'' body)"
proof -
  let ?b = "replicate 159 (CHR ''a'') @ [CHR 0xC3, CHR 0xA9]"
  have "valid_utf8 ?b \<and> length ?b = 161 \<and> \<not> valid_utf8 (compactReason ''HTTP 500'' ?b)" by code_simp
  then show ?thesis by blast
qed

end
