(* ===== verification/VendorGateway.thy ===== *)
theory VendorGateway
  imports ErrorPolicy
begin

text \<open>
  The vendor gateway of \<open>internal/gateway\<close>: its settings, the authorisation of clients, and the
  headers it forwards in both directions (\<open>gateway.go\<close>, \<open>vendor_proxy.go\<close>, \<open>headers.go\<close>), with the
  account header of \<open>internal/resin\<close>.  A header map is the list of its entries in the order in which
  Go's random map iteration visits them; the theorems hold for every order.
\<close>

section \<open>Settings\<close>

record UpstreamAuthConfig =
  ua_Mode :: string
  ua_Header :: string
  ua_Prefix :: string

record AggregateRetryConfig =
  rc_Enabled :: "bool option"
  rc_MaxAttempts :: int
  rc_RateLimit :: "bool option"
  rc_ServerError :: "bool option"
  rc_NetworkError :: "bool option"
  rc_StatusCodes :: "int list"

text \<open>The fields of \<open>vendorGateway\<close> that the request path reads.  The key pool is found under the vendor id
  in the state of the gateway: \<open>buildVendorGateway\<close> gives every vendor that serves upstream requests a
  pool, so the tests for a nil pool are not modelled.  A set of names is a list.\<close>

record vendorGateway =
  vg_id :: string
  vg_name :: string
  vg_provider :: string
  vg_managedKeyCount :: int
  vg_clientAuth :: "string list"
  vg_allowlist :: "string list"
  vg_dropHeaders :: "string list"
  vg_injectHeaders :: "(string \<times> string) list"
  vg_upstreamAuth :: UpstreamAuthConfig
  vg_errorPolicy :: ErrorPolicyConfig
  vg_maxAttemptsBudget :: int
  vg_resin :: bool
  vg_isAggregate :: bool
  vg_aggRetry :: AggregateRetryConfig

abbreviation DefaultMaxUpstreamAttempts :: int where
  "DefaultMaxUpstreamAttempts \<equiv> 10"

definition maxUpstreamAttempts :: "vendorGateway \<Rightarrow> int" where
  "maxUpstreamAttempts v =
     (if vg_maxAttemptsBudget v \<le> 0 then DefaultMaxUpstreamAttempts else vg_maxAttemptsBudget v)"

definition usesManagedUpstreamKeys :: "vendorGateway \<Rightarrow> bool" where
  "usesManagedUpstreamKeys v \<longleftrightarrow> ua_Mode (vg_upstreamAuth v) \<noteq> ''passthrough''"

section \<open>Header names\<close>

text \<open>\<open>textproto.CanonicalMIMEHeaderKey\<close>: a name with a byte that is no token byte is kept as it is.\<close>

definition token_byte :: "char \<Rightarrow> bool" where
  "token_byte c =
     (let n = (of_char c :: nat) in
      48 \<le> n \<and> n \<le> 57 \<or> 65 \<le> n \<and> n \<le> 90 \<or> 97 \<le> n \<and> n \<le> 122 \<or>
      c \<in> set ''!#$%&*+-.^_|~'' \<or> c = CHR 0x27 \<or> c = CHR 0x60)"

fun canonical_from :: "bool \<Rightarrow> string \<Rightarrow> string" where
  "canonical_from upper [] = []"
| "canonical_from upper (c # s) =
     (if upper then ascii_upper c else ascii_lower c) # canonical_from (c = CHR ''-'') s"

definition CanonicalMIMEHeaderKey :: "string \<Rightarrow> string" where
  "CanonicalMIMEHeaderKey s = (if list_all token_byte s then canonical_from True s else s)"

definition headerNameSet :: "string list \<Rightarrow> string list" where
  "headerNameSet values = filter (\<lambda>canon. canon \<noteq> []) (map (\<lambda>v. CanonicalMIMEHeaderKey (trim_space v)) values)"

fun split_byte :: "char \<Rightarrow> string \<Rightarrow> string list" where
  "split_byte sep [] = [[]]"
| "split_byte sep (c # s) =
     (if c = sep then [] # split_byte sep s
      else case split_byte sep s of [] \<Rightarrow> [[c]] | w # ws \<Rightarrow> (c # w) # ws)"

definition hopHeaders :: "string list" where
  "hopHeaders = [''connection'', ''proxy-connection'', ''keep-alive'', ''proxy-authenticate'', ''proxy-authorization'',
     ''te'', ''trailer'', ''trailers'', ''transfer-encoding'', ''upgrade'']"

definition isHopHeader :: "string \<Rightarrow> bool" where
  "isHopHeader name \<longleftrightarrow> to_lower name \<in> set hopHeaders"

definition header_tokens :: "string list \<Rightarrow> string list" where
  "header_tokens raws =
     filter (\<lambda>token. token \<noteq> [])
       (map (\<lambda>part. CanonicalMIMEHeaderKey (trim_space part)) (concat (map (split_byte (CHR '','')) raws)))"

definition extraHopTokens :: "header \<Rightarrow> string list" where
  "extraHopTokens headers =
     header_tokens (header_values headers ''Connection'') @ header_tokens (header_values headers ''Trailer'')"

definition isConnectionScopedHopHeader :: "string \<Rightarrow> string list \<Rightarrow> bool" where
  "isConnectionScopedHopHeader name connectionHeaders =
     (if isHopHeader name then True else CanonicalMIMEHeaderKey name \<in> set connectionHeaders)"

section \<open>Credentials\<close>

text \<open>\<open>strings.EqualFold\<close> on a fixed ASCII text.\<close>

definition headerCredential :: "header \<Rightarrow> string" where
  "headerCredential headers =
     (let auth = trim_space (header_get headers ''Authorization'');
          apiKey = trim_space (header_get headers ''X-Api-Key'')
      in if auth \<noteq> [] then
           if length auth \<ge> 7 \<and> to_lower (take 7 auth) = ''bearer '' then
             let token = trim_space (drop 7 auth) in if token \<noteq> [] then token else apiKey
           else auth
         else apiKey)"

datatype auth_error = MissingClientKey | InvalidClientKey

definition auth_error_text :: "auth_error \<Rightarrow> string" where
  "auth_error_text e = (case e of MissingClientKey \<Rightarrow> ''missing client api key'' | InvalidClientKey \<Rightarrow> ''invalid client api key'')"

definition authorizeClient :: "vendorGateway \<Rightarrow> header \<Rightarrow> auth_error option" where
  "authorizeClient v headers =
     (if vg_clientAuth v = [] then None
      else let auth = headerCredential headers in
        if auth = [] then Some MissingClientKey
        else if auth \<notin> set (vg_clientAuth v) then Some InvalidClientKey
        else None)"

definition passthroughUpstreamKey :: "vendorGateway \<Rightarrow> header \<Rightarrow> string" where
  "passthroughUpstreamKey v headers = (if usesManagedUpstreamKeys v then [] else headerCredential headers)"

definition isPassthroughAuthHeader :: "vendorGateway \<Rightarrow> string \<Rightarrow> bool" where
  "isPassthroughAuthHeader v name =
     (if usesManagedUpstreamKeys v then False
      else CanonicalMIMEHeaderKey name \<in> {''Authorization'', ''X-Api-Key''})"

section \<open>The resin account\<close>

text \<open>The hash \<open>xxhash.Sum64String\<close> comes from a third-party package and is the argument \<open>sum64\<close>, a
  number below \<open>2 ^ 64\<close>; its bytes are printed from the most significant one.\<close>

definition sum_bytes :: "nat \<Rightarrow> nat list" where
  "sum_bytes h = map (\<lambda>shift. h div 2 ^ shift mod 256) [56, 48, 40, 32, 24, 16, 8, 0]"

definition hex_bytes :: "nat list \<Rightarrow> string" where
  "hex_bytes bs = concat (map (\<lambda>b. [hex_digit (b div 16), hex_digit (b mod 16)]) bs)"

definition BuildAccount :: "(string \<Rightarrow> nat) \<Rightarrow> string \<Rightarrow> string \<Rightarrow> string" where
  "BuildAccount sum64 provider identity =
     (let name = to_lower (trim_space provider);
          name = (if name = [] then ''generic'' else name);
          hash = hex_bytes (sum_bytes (sum64 identity));
          hash = (if length hash > 12 then take 12 hash else hash)
      in ''jcp:'' @ name @ ''-'' @ hash)"

section \<open>Forwarding headers\<close>

definition shouldDropClientHeader :: "vendorGateway \<Rightarrow> string \<Rightarrow> bool" where
  "shouldDropClientHeader v name \<longleftrightarrow>
     vg_dropHeaders v \<noteq> [] \<and> CanonicalMIMEHeaderKey name \<in> set (vg_dropHeaders v)"

text \<open>\<open>strings.ReplaceAll\<close> of a text that is not empty; the fuel is the length of the input.\<close>

fun replace_all :: "nat \<Rightarrow> string \<Rightarrow> string \<Rightarrow> string \<Rightarrow> string" where
  "replace_all 0 old new s = s"
| "replace_all (Suc n) old new [] = []"
| "replace_all (Suc n) old new (c # s) =
     (case strip_prefix old (c # s) of
        Some r \<Rightarrow> new @ replace_all n old new r
      | None \<Rightarrow> c # replace_all n old new s)"

definition ReplaceAll :: "string \<Rightarrow> string \<Rightarrow> string \<Rightarrow> string" where
  "ReplaceAll s old new = replace_all (length s) old new s"

definition braces :: "string \<Rightarrow> string" where
  "braces s = [CHR 0x7B, CHR 0x7B] @ s @ [CHR 0x7D, CHR 0x7D]"

text \<open>Whether the entry of a client header is copied.\<close>

definition keeps_header :: "vendorGateway \<Rightarrow> string list \<Rightarrow> string \<Rightarrow> bool" where
  "keeps_header v connectionHeaders canon =
     (if shouldDropClientHeader v canon \<or> isConnectionScopedHopHeader canon connectionHeaders then False
      else if vg_allowlist v = [] then True
      else canon \<in> set (vg_allowlist v) \<or> isPassthroughAuthHeader v canon)"

definition copy_header :: "vendorGateway \<Rightarrow> string list \<Rightarrow> string \<times> string list \<Rightarrow> header \<Rightarrow> header" where
  "copy_header v connectionHeaders = (\<lambda>(k, vals) headers.
     let canon = CanonicalMIMEHeaderKey k
     in if keeps_header v connectionHeaders canon then AList.update canon vals headers else headers)"

definition client_headers :: "vendorGateway \<Rightarrow> header \<Rightarrow> header" where
  "client_headers v src = fold (copy_header v (extraHopTokens src)) src []"

definition inject_header :: "vendorGateway \<Rightarrow> string \<Rightarrow> string \<times> string \<Rightarrow> header \<Rightarrow> header" where
  "inject_header v selectedKey = (\<lambda>(k, val) headers.
     let replaced = ReplaceAll val (braces ''vendor'') (vg_name v);
         replaced = ReplaceAll replaced (braces ''upstream_key'') selectedKey
     in header_set (CanonicalMIMEHeaderKey k) replaced headers)"

definition inject_headers :: "vendorGateway \<Rightarrow> string \<Rightarrow> header \<Rightarrow> header" where
  "inject_headers v selectedKey headers = fold (inject_header v selectedKey) (vg_injectHeaders v) headers"

definition forwardHeaders :: "(string \<Rightarrow> nat) \<Rightarrow> vendorGateway \<Rightarrow> header \<Rightarrow> string \<Rightarrow> header" where
  "forwardHeaders sum64 v src selectedKey =
     (let headers = client_headers v src;
          headers = (if ua_Mode (vg_upstreamAuth v) \<noteq> ''passthrough''
            then AList.delete ''X-Api-Key'' (AList.delete ''Authorization'' headers) else headers);
          headers = inject_headers v selectedKey headers;
          headers = (if ua_Mode (vg_upstreamAuth v) = ''bearer'' \<or> ua_Mode (vg_upstreamAuth v) = ''header''
            then header_set (CanonicalMIMEHeaderKey (ua_Header (vg_upstreamAuth v)))
                   (ua_Prefix (vg_upstreamAuth v) @ selectedKey) headers
            else headers);
          headers = (if vg_resin v \<and> selectedKey \<noteq> []
            then header_set ''X-Resin-Account'' (BuildAccount sum64 (vg_provider v) selectedKey) headers
            else headers)
      in AList.delete ''Host'' headers)"

text \<open>\<open>http.Header.Add\<close> appends a value.\<close>

definition header_add :: "string \<Rightarrow> string \<Rightarrow> header \<Rightarrow> header" where
  "header_add name v h = AList.update name (header_values h name @ [v]) h"

definition copyResponseHeaders :: "header \<Rightarrow> header \<Rightarrow> header" where
  "copyResponseHeaders dst src =
     fold (\<lambda>(k, vv) dst.
             let canon = CanonicalMIMEHeaderKey k
             in if isConnectionScopedHopHeader canon (extraHopTokens src) then dst
                else fold (header_add canon) vv dst)
          src dst"

section \<open>Lemmas\<close>

lemma map_of_header_set: "map_of (header_set n x h) m = (if m = n then Some [x] else map_of h m)"
  by (simp add: header_set_def update_conv')

lemma map_of_delete: "map_of (AList.delete n h) m = (if m = n then None else map_of h m)"
  by (simp add: delete_conv')

lemma inject_header_map:
  "map_of (inject_header v key kv h) n =
     (if n = CanonicalMIMEHeaderKey (fst kv)
      then Some [ReplaceAll (ReplaceAll (snd kv) (braces ''vendor'') (vg_name v)) (braces ''upstream_key'') key]
      else map_of h n)"
  by (simp add: inject_header_def map_of_header_set Let_def split: prod.split)

definition injected_names :: "vendorGateway \<Rightarrow> string set" where
  "injected_names v = (CanonicalMIMEHeaderKey \<circ> fst) ` set (vg_injectHeaders v)"

text \<open>The value of a name after the injected headers: unchanged when it is not injected, and in any case
  a function of the value before.\<close>

lemma inject_headers_other: "n \<notin> injected_names v \<Longrightarrow> map_of (inject_headers v key h) n = map_of h n"
proof -
  have "n \<notin> (CanonicalMIMEHeaderKey \<circ> fst) ` set xs \<Longrightarrow> map_of (fold (inject_header v key) xs h) n = map_of h n" for xs
    by (induction xs arbitrary: h) (auto simp: inject_header_map)
  then show "n \<notin> injected_names v \<Longrightarrow> ?thesis" by (simp add: inject_headers_def injected_names_def)
qed

lemma inject_headers_cong:
  "map_of h n = map_of h' n \<Longrightarrow> map_of (inject_headers v key h) n = map_of (inject_headers v key h') n"
proof -
  have "map_of h n = map_of h' n \<Longrightarrow>
     map_of (fold (inject_header v key) xs h) n = map_of (fold (inject_header v key) xs h') n" for xs
    by (induction xs arbitrary: h h') (auto simp: inject_header_map)
  then show "map_of h n = map_of h' n \<Longrightarrow> ?thesis" by (simp add: inject_headers_def)
qed

lemma client_headers_map:
  assumes "distinct (map fst src)" and "\<forall>k \<in> fst ` set src. CanonicalMIMEHeaderKey k = k"
  shows "map_of (client_headers v src) n = (if keeps_header v (extraHopTokens src) n then map_of src n else None)"
proof -
  have "map_of (fold (copy_header v hop) xs h) n =
        (if keeps_header v hop n \<and> n \<in> fst ` set xs then map_of xs n else map_of h n)"
    if "distinct (map fst xs)" and "\<forall>k \<in> fst ` set xs. CanonicalMIMEHeaderKey k = k" for xs h hop
    using that
  proof (induction xs arbitrary: h)
    case (Cons kv xs)
    obtain k vals where kv: "kv = (k, vals)" by (cases kv)
    have "CanonicalMIMEHeaderKey k = k" using Cons.prems(2) kv by simp
    then have "map_of (copy_header v hop kv h) n = (if keeps_header v hop n \<and> n = k then Some vals else map_of h n)"
      by (auto simp: copy_header_def kv Let_def update_conv')
    moreover have "k \<notin> fst ` set xs" using Cons.prems(1) kv by simp
    ultimately show ?case using Cons.IH [of "copy_header v hop kv h"] Cons.prems by (auto simp: kv)
  qed simp
  from this [OF assms, of "extraHopTokens src" "[]"] show ?thesis
    using map_of_eq_None_iff [of src n] by (auto simp: client_headers_def)
qed

section \<open>Properties\<close>

text \<open>The names the gateway sets itself.\<close>

definition gateway_names :: "vendorGateway \<Rightarrow> string set" where
  "gateway_names v = injected_names v \<union> {''X-Resin-Account''} \<union>
     (if ua_Mode (vg_upstreamAuth v) \<in> {''bearer'', ''header''} then {CanonicalMIMEHeaderKey (ua_Header (vg_upstreamAuth v))} else {})"

text \<open>C22: Client credentials never reach an upstream whose keys the gateway manages: the values of
  Authorization and X-Api-Key in the upstream request are the same whatever headers the client sent.\<close>

theorem client_credentials_stay:
  assumes "usesManagedUpstreamKeys v" and "n \<in> {''Authorization'', ''X-Api-Key''}"
  shows "header_values (forwardHeaders sum64 v src key) n = header_values (forwardHeaders sum64 v src' key) n"
proof -
  let ?strip = "\<lambda>h. AList.delete ''X-Api-Key'' (AList.delete ''Authorization'' h)"
  have "map_of (?strip (client_headers v src)) n = map_of (?strip (client_headers v src')) n"
    using assms(2) by (auto simp: map_of_delete)
  from inject_headers_cong [OF this, of v key] show ?thesis
    using assms by (auto simp: header_values_def forwardHeaders_def Let_def usesManagedUpstreamKeys_def map_of_delete map_of_header_set)
qed

definition sample_vendor :: vendorGateway where
  "sample_vendor = \<lparr>vg_id = ''v1'', vg_name = ''acme'', vg_provider = ''openai'', vg_managedKeyCount = 3,
     vg_clientAuth = [''secret''], vg_allowlist = [], vg_dropHeaders = [''X-Drop''], vg_injectHeaders = [],
     vg_upstreamAuth = \<lparr>ua_Mode = ''bearer'', ua_Header = ''Authorization'', ua_Prefix = ''Bearer ''\<rparr>,
     vg_errorPolicy = sample_policy, vg_maxAttemptsBudget = 0, vg_resin = False, vg_isAggregate = False,
     vg_aggRetry = \<lparr>rc_Enabled = None, rc_MaxAttempts = 0, rc_RateLimit = None, rc_ServerError = None, rc_NetworkError = None,
       rc_StatusCodes = []\<rparr>\<rparr>"

theorem client_credentials_stay_witness:
  "header_values (forwardHeaders (\<lambda>_. 0) sample_vendor [(''Authorization'', [''Bearer secret''])] ''k1'') ''Authorization'' = [''Bearer k1'']"
proof -
  have "header_values (forwardHeaders (\<lambda>_. 0) sample_vendor [] ''k1'') ''Authorization'' = [''Bearer k1'']" by code_simp
  with client_credentials_stay [of sample_vendor "''Authorization''" "\<lambda>_. 0" "[(''Authorization'', [''Bearer secret''])]" "''k1''" "[]"]
  show ?thesis by (simp add: usesManagedUpstreamKeys_def sample_vendor_def)
qed

text \<open>Every other header is forwarded exactly as configured: a name that the gateway does not set
  itself carries the client's values when the vendor does not drop it, it is not scoped to the
  connection (by name or by a Connection or Trailer token) and the allowlist, if there is one,
  contains it or it is a passed-through credential; it is absent otherwise.  Host never passes.\<close>

theorem forward_headers_exact:
  assumes "distinct (map fst src)" and "\<forall>k \<in> fst ` set src. CanonicalMIMEHeaderKey k = k" and "n \<notin> gateway_names v"
  shows "map_of (forwardHeaders sum64 v src key) n =
    (if n \<noteq> ''Host'' \<and> \<not> shouldDropClientHeader v n \<and> \<not> isHopHeader n \<and> CanonicalMIMEHeaderKey n \<notin> set (extraHopTokens src) \<and>
        (vg_allowlist v = [] \<or> n \<in> set (vg_allowlist v) \<or> isPassthroughAuthHeader v n) \<and>
        (usesManagedUpstreamKeys v \<longrightarrow> n \<notin> {''Authorization'', ''X-Api-Key''})
     then map_of src n else None)"
proof -
  have o: "n \<notin> injected_names v" "n \<noteq> ''X-Resin-Account''"
    "ua_Mode (vg_upstreamAuth v) \<in> {''bearer'', ''header''} \<longrightarrow> n \<noteq> CanonicalMIMEHeaderKey (ua_Header (vg_upstreamAuth v))"
    using assms(3) by (auto simp: gateway_names_def split: if_splits)
  have "map_of (forwardHeaders sum64 v src key) n =
      (if n = ''Host'' \<or> usesManagedUpstreamKeys v \<and> n \<in> {''Authorization'', ''X-Api-Key''} then None else map_of (client_headers v src) n)"
    using o by (auto simp: forwardHeaders_def Let_def map_of_delete map_of_header_set inject_headers_other usesManagedUpstreamKeys_def)
  then show ?thesis
    using client_headers_map [OF assms(1,2), of v n] by (auto simp: keeps_header_def isConnectionScopedHopHeader_def)
qed

theorem forward_headers_exact_witness:
  "map_of (forwardHeaders (\<lambda>_. 0) sample_vendor [(''Accept'', [''x'']), (''Te'', [''y''])] ''k1'') ''Accept'' = Some [''x''] \<and>
   map_of (forwardHeaders (\<lambda>_. 0) sample_vendor [(''Accept'', [''x'']), (''Te'', [''y''])] ''k1'') ''Te'' = None"
proof -
  let ?src = "[(''Accept'', [''x'']), (''Te'', [''y''])] :: header"
  have s: "distinct (map fst ?src)" "\<forall>k \<in> fst ` set ?src. CanonicalMIMEHeaderKey k = k" "gateway_names sample_vendor = {''X-Resin-Account'', ''Authorization''}"
    by (simp, simp, code_simp, simp add: gateway_names_def injected_names_def sample_vendor_def, code_simp)
  have "\<not> shouldDropClientHeader sample_vendor ''Accept''" "\<not> isHopHeader ''Accept''" "isHopHeader ''Te''" "extraHopTokens ?src = []"
    "vg_allowlist sample_vendor = []" by code_simp+
  then show ?thesis
    using forward_headers_exact [OF s(1,2), of "''Accept''" sample_vendor "\<lambda>_. 0" "''k1''"]
      forward_headers_exact [OF s(1,2), of "''Te''" sample_vendor "\<lambda>_. 0" "''k1''"] by (simp add: s(3))
qed

end
