(* ===== verification/AggregatePool.thy ===== *)
theory AggregatePool
  imports VendorGateway
begin

text \<open>
  Routing between the children of an aggregate vendor, from \<open>internal/gateway/gateway.go\<close>: children in
  tiers of priority, selection within the best available tier by smooth weighted round robin, weighted
  random choice or least load.  A child entry is named by its index.  The random source is a number
  whose remainder is the result of \<open>Intn\<close>.  Weights and load counters are exact integers: their
  products leave the range of \<open>int64\<close> only beyond \<open>2 ^ 63\<close>.

  What the strategies promise is the locale \<open>child_picker\<close>, interpreted on each of them.
\<close>

section \<open>State\<close>

record aggregateChildEntry =
  ce_id :: string
  ce_vendorID :: string
  ce_name :: string
  ce_vendor :: "vendorGateway option"
  ce_weight :: int
  ce_priority :: int
  ce_keyIdxs :: "int list option"

record aggregatePool =
  ap_strategy :: string
  ap_entries :: "aggregateChildEntry list"
  ap_currentWeights :: "int list"

text \<open>The state of the gateway that a request reads and changes: the key pools by vendor id, their shared
  objects and the aggregate pools by vendor id.\<close>

record world =
  w_pools :: "string \<Rightarrow> Pool"
  w_heap :: heap
  w_aggs :: "string \<Rightarrow> aggregatePool"

definition default_entry :: "nat \<Rightarrow> aggregateChildEntry \<Rightarrow> aggregateChildEntry" where
  "default_entry i e =
     (let e = (if ce_id e = [] then e\<lparr>ce_id := ce_vendorID e @ ''#'' @ itoa (int i)\<rparr> else e)
      in if ce_weight e \<le> 0 then e\<lparr>ce_weight := 1\<rparr> else e)"

definition newAggregatePool :: "string \<Rightarrow> aggregateChildEntry list \<Rightarrow> aggregatePool" where
  "newAggregatePool strategy entries =
     \<lparr>ap_strategy = strategy,
      ap_entries = sort_key ce_priority (map (\<lambda>i. default_entry i (entries ! i)) [0..<length entries]),
      ap_currentWeights = replicate (length entries) 0\<rparr>"

abbreviation entry_weight :: "aggregatePool \<Rightarrow> nat \<Rightarrow> int" where
  "entry_weight p i \<equiv> ce_weight (ap_entries p ! i)"

definition total_weight :: "aggregatePool \<Rightarrow> nat list \<Rightarrow> int" where
  "total_weight p indexes = sum_list (map (entry_weight p) indexes)"

section \<open>Strategies\<close>

fun wrr_scan :: "aggregatePool \<Rightarrow> nat list \<Rightarrow> nat \<times> int list \<Rightarrow> nat \<times> int list" where
  "wrr_scan p [] (best, cw) = (best, cw)"
| "wrr_scan p (i # is) (best, cw) =
     (let cw = cw[i := cw ! i + entry_weight p i];
          best = (if cw ! i > cw ! best then i else best)
      in wrr_scan p is (best, cw))"

definition agg_pickRoundRobinLocked :: "nat list \<Rightarrow> aggregatePool \<Rightarrow> nat option \<times> aggregatePool" where
  "agg_pickRoundRobinLocked indexes p =
     (if indexes = [] then (None, p)
      else
        let totalWeight = total_weight p indexes in
        if totalWeight \<le> 0 then (Some (hd indexes), p)
        else
          let (best, cw) = wrr_scan p indexes (hd indexes, ap_currentWeights p)
          in (Some best, p\<lparr>ap_currentWeights := cw[best := cw ! best - totalWeight]\<rparr>))"

fun random_scan :: "aggregatePool \<Rightarrow> nat \<Rightarrow> int \<Rightarrow> nat list \<Rightarrow> nat" where
  "random_scan p final r [] = final"
| "random_scan p final r (i # is) =
     (let r = r - entry_weight p i in if r < 0 then i else random_scan p final r is)"

definition agg_pickRandomLocked :: "nat \<Rightarrow> nat list \<Rightarrow> aggregatePool \<Rightarrow> nat option" where
  "agg_pickRandomLocked choice indexes p =
     (if indexes = [] then None
      else
        let totalWeight = total_weight p indexes in
        if totalWeight \<le> 0 then Some (indexes ! (choice mod length indexes))
        else Some (random_scan p (last indexes) (int choice mod totalWeight) indexes))"

definition aggregateChildLoadScore :: "world \<Rightarrow> aggregateChildEntry \<Rightarrow> bool \<Rightarrow> int \<times> int" where
  "aggregateChildLoadScore w entry includeRequests =
     (case ce_vendor entry of
        None \<Rightarrow> (0, 0)
      | Some v \<Rightarrow>
          let (inflight, totalRequests) = LoadTotals (ce_keyIdxs entry) (w_pools w (vg_id v)) (w_heap w)
          in if includeRequests then (totalRequests + inflight, inflight) else (inflight, totalRequests))"

definition compareWeightedScore :: "int \<Rightarrow> int \<Rightarrow> int \<Rightarrow> int \<Rightarrow> int" where
  "compareWeightedScore leftScore leftWeight rightScore rightWeight =
     (let leftWeight = (if leftWeight \<le> 0 then 1 else leftWeight);
          rightWeight = (if rightWeight \<le> 0 then 1 else rightWeight);
          left = leftScore * rightWeight;
          right = rightScore * leftWeight
      in if left < right then - 1 else if left > right then 1 else 0)"

text \<open>Whether a candidate replaces the best entry found so far.\<close>

definition least_better ::
  "aggregatePool \<Rightarrow> (nat \<Rightarrow> int \<times> int) \<Rightarrow> nat \<Rightarrow> nat \<Rightarrow> bool" where
  "least_better p score i best =
     (let primary = compareWeightedScore (fst (score i)) (entry_weight p i) (fst (score best)) (entry_weight p best) in
      if primary = - 1 then True
      else if primary = 1 then False
      else
        let secondary = compareWeightedScore (snd (score i)) (entry_weight p i) (snd (score best)) (entry_weight p best) in
        if secondary = - 1 then True
        else if secondary = 0 then
          entry_weight p i > entry_weight p best \<or>
          entry_weight p i = entry_weight p best \<and> ce_name (ap_entries p ! i) < ce_name (ap_entries p ! best)
        else False)"

definition agg_pickLeastLocked :: "world \<Rightarrow> bool \<Rightarrow> nat list \<Rightarrow> aggregatePool \<Rightarrow> nat option" where
  "agg_pickLeastLocked w includeRequests indexes p =
     (if indexes = [] then None
      else
        let score = (\<lambda>i. aggregateChildLoadScore w (ap_entries p ! i) includeRequests)
        in Some (fold (\<lambda>i best. if least_better p score i best then i else best) (tl indexes) (hd indexes)))"

section \<open>Selection\<close>

text \<open>The scan for the candidates of the best available tier; the option is the priority of that tier once
  it is set.\<close>

fun tier_scan :: "(aggregateChildEntry \<Rightarrow> bool) \<Rightarrow> aggregatePool \<Rightarrow> int option \<Rightarrow> nat list \<Rightarrow> nat list" where
  "tier_scan ok p minPriority [] = []"
| "tier_scan ok p minPriority (i # is) =
     (let e = ap_entries p ! i in
      if \<not> ok e then tier_scan ok p minPriority is
      else let m = (case minPriority of None \<Rightarrow> ce_priority e | Some m \<Rightarrow> m)
           in if ce_priority e > m then [] else i # tier_scan ok p (Some m) is)"

definition tier_candidates :: "(aggregateChildEntry \<Rightarrow> bool) \<Rightarrow> string set \<Rightarrow> aggregatePool \<Rightarrow> nat list" where
  "tier_candidates available exclude p =
     tier_scan (\<lambda>e. ce_id e \<notin> exclude \<and> available e) p None [0..<length (ap_entries p)]"

definition pickAvailableLocked ::
  "world \<Rightarrow> nat \<Rightarrow> (aggregateChildEntry \<Rightarrow> bool) \<Rightarrow> string set \<Rightarrow> bool \<Rightarrow> aggregatePool \<Rightarrow> nat option \<times> aggregatePool" where
  "pickAvailableLocked w choice available exclude useStrategy p =
     (let candidates = tier_candidates available exclude p in
      if candidates = [] then (None, p)
      else if \<not> useStrategy then (Some (hd candidates), p)
      else
        let (picked, p) =
              (if ap_strategy p = ''random'' then (agg_pickRandomLocked choice candidates p, p)
               else if ap_strategy p = ''least_used'' then (agg_pickLeastLocked w False candidates p, p)
               else if ap_strategy p = ''least_requests'' then (agg_pickLeastLocked w True candidates p, p)
               else agg_pickRoundRobinLocked candidates p)
        in case picked of Some i \<Rightarrow> (Some i, p) | None \<Rightarrow> (Some (hd candidates), p))"

definition PickAvailable ::
  "world \<Rightarrow> nat \<Rightarrow> (aggregateChildEntry \<Rightarrow> bool) \<Rightarrow> string set \<Rightarrow> aggregatePool \<Rightarrow> nat option \<times> aggregatePool" where
  "PickAvailable w choice available exclude p =
     (if ap_entries p = [] then (None, p) else pickAvailableLocked w choice available exclude True p)"

definition HasAvailable :: "world \<Rightarrow> (aggregateChildEntry \<Rightarrow> bool) \<Rightarrow> string set \<Rightarrow> aggregatePool \<Rightarrow> bool" where
  "HasAvailable w available exclude p = (fst (pickAvailableLocked w 0 available exclude False p) \<noteq> None)"

definition agg_Pick :: "world \<Rightarrow> nat \<Rightarrow> aggregatePool \<Rightarrow> nat option \<times> aggregatePool" where
  "agg_Pick w choice p =
     (if ap_entries p = [] then (None, p) else pickAvailableLocked w choice (\<lambda>_. True) {} True p)"

section \<open>Invariant\<close>

definition agg_inv :: "aggregatePool \<Rightarrow> bool" where
  "agg_inv p \<longleftrightarrow> sorted (map ce_priority (ap_entries p)) \<and> (\<forall>e \<in> set (ap_entries p). 1 \<le> ce_weight e) \<and>
     length (ap_currentWeights p) = length (ap_entries p)"

lemma default_entry_weight: "1 \<le> ce_weight (default_entry i e)"
  by (simp add: default_entry_def Let_def)

lemma entry_weight_pos:
  assumes "agg_inv p" and "i < length (ap_entries p)" shows "0 < entry_weight p i"
proof -
  have "ap_entries p ! i \<in> set (ap_entries p)" using assms(2) by simp
  with assms(1) have "1 \<le> entry_weight p i" unfolding agg_inv_def by blast
  then show ?thesis by linarith
qed

lemma newAggregatePool_inv: "agg_inv (newAggregatePool strategy entries)"
  by (auto simp: agg_inv_def newAggregatePool_def default_entry_weight)

section \<open>What a strategy promises\<close>

text \<open>A strategy picks one of the candidates it is given and changes nothing but the scheduling weights.\<close>

locale child_picker =
  fixes pick :: "nat list \<Rightarrow> aggregatePool \<Rightarrow> nat option \<times> aggregatePool"
  assumes pick_member: "is \<noteq> [] \<Longrightarrow> pick is p = (r, p') \<Longrightarrow> \<exists>i \<in> set is. r = Some i"
    and pick_frame: "pick is p = (r, p') \<Longrightarrow>
      \<exists>cw. p' = p\<lparr>ap_currentWeights := cw\<rparr> \<and> length cw = length (ap_currentWeights p)"
begin

lemma pick_inv: "agg_inv p \<Longrightarrow> pick is p = (r, p') \<Longrightarrow> agg_inv p'"
  using pick_frame [of "is" p r p'] by (auto simp: agg_inv_def)

lemma pick_strategy: "pick is p = (r, p') \<Longrightarrow> ap_strategy p' = ap_strategy p \<and> ap_entries p' = ap_entries p"
  using pick_frame [of "is" p r p'] by auto

end

lemma wrr_scan_frame:
  "wrr_scan p is (best, cw) = (b, cw') \<Longrightarrow> (b = best \<or> b \<in> set is) \<and> length cw' = length cw"
  by (induction "is" arbitrary: best cw) (auto simp: Let_def split: if_splits)

lemma random_scan_member: "random_scan p final r is = i \<Longrightarrow> i = final \<or> i \<in> set is"
  by (induction "is" arbitrary: r) (auto simp: Let_def split: if_splits)

lemma fold_choice_member: "fold (\<lambda>i best. if P i best then i else best) xs b \<in> insert b (set xs)"
  by (induction xs arbitrary: b) auto

lemma frame_refl: "\<exists>cw. p = p\<lparr>ap_currentWeights := cw\<rparr> \<and> length cw = length (ap_currentWeights p)"
  by (rule exI [of _ "ap_currentWeights p"]) simp

interpretation wrr: child_picker agg_pickRoundRobinLocked
proof (unfold_locales, goal_cases)
  case (1 "is" p r p')
  then show ?case
    using wrr_scan_frame [of p "is" "hd is" "ap_currentWeights p"]
    by (auto simp: agg_pickRoundRobinLocked_def Let_def split: if_splits prod.splits)
next
  case (2 "is" p r p')
  then show ?case
    using wrr_scan_frame [of p "is" "hd is" "ap_currentWeights p"]
    by (auto intro!: frame_refl simp: agg_pickRoundRobinLocked_def Let_def split: if_splits prod.splits)
qed

interpretation weighted_random: child_picker "\<lambda>is p. (agg_pickRandomLocked choice is p, p)" for choice
proof (unfold_locales, goal_cases)
  case (1 "is" p r p')
  then show ?case
    using random_scan_member [of p "last is" "int choice mod total_weight p is" "is"]
    by (auto simp: agg_pickRandomLocked_def Let_def split: if_splits)
next
  case (2 "is" p r p')
  then show ?case using frame_refl by simp
qed

interpretation least_load: child_picker "\<lambda>is p. (agg_pickLeastLocked w reqs is p, p)" for w reqs
proof (unfold_locales, goal_cases)
  case (1 "is" p r p')
  then show ?case
    using fold_choice_member [of "least_better p (\<lambda>i. aggregateChildLoadScore w (ap_entries p ! i) reqs)" "tl is" "hd is"]
    by (cases "is") (auto simp: agg_pickLeastLocked_def Let_def)
next
  case (2 "is" p r p')
  then show ?case using frame_refl by simp
qed

section \<open>The best available tier\<close>

lemma tier_scan_props:
  assumes "sorted (map (\<lambda>i. ce_priority (ap_entries p ! i)) is)"
    and "case m of None \<Rightarrow> True | Some x \<Rightarrow> \<forall>i \<in> set is. x \<le> ce_priority (ap_entries p ! i)"
  shows "set (tier_scan ok p m is) = {i \<in> set is. ok (ap_entries p ! i) \<and>
     (case m of Some x \<Rightarrow> ce_priority (ap_entries p ! i) = x
      | None \<Rightarrow> \<forall>j \<in> set is. ok (ap_entries p ! j) \<longrightarrow> ce_priority (ap_entries p ! i) \<le> ce_priority (ap_entries p ! j))}"
  using assms
proof (induction ok p m "is" rule: tier_scan.induct)
  case (2 ok p m i "is")
  let ?e = "ap_entries p ! i"
  let ?x = "case m of None \<Rightarrow> ce_priority ?e | Some m \<Rightarrow> m"
  show ?case
  proof (cases "ok ?e")
    case False
    with 2 show ?thesis by (auto simp: Let_def split: option.splits)
  next
    case True
    have le: "\<forall>j \<in> set is. ?x \<le> ce_priority (ap_entries p ! j)" using "2.prems" by (auto split: option.splits)
    show ?thesis
    proof (cases "ce_priority ?e > ?x")
      case True
      with \<open>ok ?e\<close> "2.prems" show ?thesis by (auto simp: Let_def split: option.splits)
    next
      case False
      then have x: "?x = ce_priority ?e" using "2.prems" by (auto split: option.splits)
      have "set (tier_scan ok p (Some ?x) is) = {j \<in> set is. ok (ap_entries p ! j) \<and> ce_priority (ap_entries p ! j) = ?x}"
        using "2.IH"(2) [OF refl _ refl] \<open>ok ?e\<close> False "2.prems" le by auto
      then have "set (tier_scan ok p m (i # is)) = insert i {j \<in> set is. ok (ap_entries p ! j) \<and> ce_priority (ap_entries p ! j) = ?x}"
        using \<open>ok ?e\<close> False by (simp add: Let_def)
      with \<open>ok ?e\<close> x le "2.prems" show ?thesis by (cases m) (auto intro: order_antisym)
    qed
  qed
qed simp

lemma tier_candidates_set:
  assumes "agg_inv p"
  shows "set (tier_candidates available exclude p) = {i. i < length (ap_entries p) \<and>
     ce_id (ap_entries p ! i) \<notin> exclude \<and> available (ap_entries p ! i) \<and>
     (\<forall>j < length (ap_entries p). ce_id (ap_entries p ! j) \<notin> exclude \<longrightarrow> available (ap_entries p ! j) \<longrightarrow>
        ce_priority (ap_entries p ! i) \<le> ce_priority (ap_entries p ! j))}"
proof -
  have "map (\<lambda>i. ce_priority (ap_entries p ! i)) [0..<length (ap_entries p)] = map ce_priority (ap_entries p)"
    by (rule nth_equalityI) simp_all
  then have "sorted (map (\<lambda>i. ce_priority (ap_entries p ! i)) [0..<length (ap_entries p)])"
    using assms by (simp add: agg_inv_def)
  from tier_scan_props [OF this, of None "\<lambda>e. ce_id e \<notin> exclude \<and> available e"] show ?thesis
    by (auto simp: tier_candidates_def)
qed

section \<open>Smooth weighted round robin\<close>

lemma wrr_scan_weights:
  assumes "wrr_scan p is (best, cw) = (b, cw')" and "distinct is" and "\<forall>i \<in> set is. i < length cw"
  shows "j < length cw \<Longrightarrow> cw' ! j = cw ! j + (if j \<in> set is then entry_weight p j else 0)"
  using assms
proof (induction "is" arbitrary: best cw)
  case (Cons i "is")
  let ?cw = "cw[i := cw ! i + entry_weight p i]"
  have run: "wrr_scan p is (if ?cw ! i > ?cw ! best then i else best, ?cw) = (b, cw')"
    using Cons.prems(2) by (simp only: wrr_scan.simps Let_def)
  have "cw' ! j = ?cw ! j + (if j \<in> set is then entry_weight p j else 0)"
    using Cons.prems by (intro Cons.IH [OF _ run]) auto
  with Cons.prems show ?case by (auto simp: nth_list_update)
qed simp

lemma wrr_scan_best:
  assumes "wrr_scan p is (best, cw) = (b, cw')" and "distinct is" and "best \<notin> set is"
    and "\<forall>i \<in> insert best (set is). i < length cw"
  shows "b \<in> insert best (set is) \<and> (\<forall>j \<in> insert best (set is). cw' ! j \<le> cw' ! b)"
  using assms
proof (induction "is" arbitrary: best cw)
  case (Cons i "is")
  let ?cw = "cw[i := cw ! i + entry_weight p i]"
  let ?best = "if ?cw ! i > ?cw ! best then i else best"
  have run: "wrr_scan p is (?best, ?cw) = (b, cw')"
    using Cons.prems(1) by (simp only: wrr_scan.simps Let_def)
  have ih: "b \<in> insert ?best (set is) \<and> (\<forall>j \<in> insert ?best (set is). cw' ! j \<le> cw' ! b)"
    using Cons.prems by (intro Cons.IH [OF run]) auto
  have fixed: "cw' ! j = ?cw ! j" if "j \<notin> set is" "j < length cw" for j
    using wrr_scan_weights [OF run, of j] that Cons.prems(2,4) by simp
  have "cw' ! i = ?cw ! i" "cw' ! best = ?cw ! best"
    using fixed [of i] fixed [of best] Cons.prems(2-4) by simp_all
  with ih show ?case by (auto split: if_splits)
qed simp

text \<open>One round: every candidate gains its weight, and the one that has most pays the total.\<close>

lemma wrr_step:
  assumes inv: "agg_inv p" and ne: "is \<noteq> []" and d: "distinct is" and r: "\<forall>i \<in> set is. i < length (ap_entries p)"
  obtains b p' where "agg_pickRoundRobinLocked is p = (Some b, p')" "b \<in> set is" "agg_inv p'" "ap_entries p' = ap_entries p"
    "\<forall>i \<in> set is. ap_currentWeights p' ! i = ap_currentWeights p ! i + entry_weight p i - (if i = b then total_weight p is else 0)"
    "\<forall>i \<in> set is. ap_currentWeights p ! i + entry_weight p i \<le> ap_currentWeights p ! b + entry_weight p b"
proof -
  let ?cw = "ap_currentWeights p"
  obtain b p' where pick: "agg_pickRoundRobinLocked is p = (Some b, p')" and mem: "b \<in> set is"
    using wrr.pick_member [OF ne] by (metis surj_pair)
  obtain i "is'" where iss: "is = i # is'" using ne by (cases "is") auto
  have len: "\<forall>i \<in> set is. i < length ?cw" using r inv by (simp add: agg_inv_def)
  have w: "\<forall>i \<in> set is. 1 \<le> entry_weight p i" using r inv by (simp add: agg_inv_def)
  have "1 * int (length is) \<le> total_weight p is"
    using w unfolding total_weight_def by (induction "is") auto
  then have pos: "0 < total_weight p is" using iss by simp
  obtain b' cw' where run: "wrr_scan p is (i, ?cw) = (b', cw')" by fastforce
  have run': "wrr_scan p is' (i, ?cw[i := ?cw ! i + entry_weight p i]) = (b', cw')"
    using run iss len by (simp add: Let_def)
  have best: "\<forall>j \<in> set is. cw' ! j \<le> cw' ! b'" and b'm: "b' \<in> set is"
    using wrr_scan_best [OF run'] d iss len by auto
  have wts: "cw' ! j = ?cw ! j + entry_weight p j" if "j \<in> set is" for j
    using wrr_scan_weights [OF run d len, of j] that len by auto
  have p': "b = b'" "p' = p\<lparr>ap_currentWeights := cw'[b' := cw' ! b' - total_weight p is]\<rparr>"
    using pick pos run iss by (auto simp: agg_pickRoundRobinLocked_def Let_def)
  have lc: "length cw' = length ?cw" using wrr_scan_frame [OF run] by simp
  show ?thesis
  proof (rule that [OF pick mem])
    show "agg_inv p'" using wrr.pick_inv [OF inv pick] .
    show "ap_entries p' = ap_entries p" using p' by simp
    show "\<forall>i \<in> set is. ap_currentWeights p' ! i = ?cw ! i + entry_weight p i - (if i = b then total_weight p is else 0)"
      using wts p' len lc by (auto simp: nth_list_update)
    show "\<forall>i \<in> set is. ?cw ! i + entry_weight p i \<le> ?cw ! b + entry_weight p b"
      using best wts b'm p'(1) by metis
  qed
qed

fun wrr_picks :: "nat \<Rightarrow> nat list \<Rightarrow> aggregatePool \<Rightarrow> nat option list \<times> aggregatePool" where
  "wrr_picks 0 is p = ([], p)"
| "wrr_picks (Suc n) is p =
     (let (r, p) = agg_pickRoundRobinLocked is p; (rs, p) = wrr_picks n is p in (r # rs, p))"

lemma total_weight_sum: "distinct is \<Longrightarrow> total_weight p is = (\<Sum>i \<in> set is. entry_weight p i)"
  by (simp add: total_weight_def sum_list_distinct_conv_sum_set)

lemma wrr_picks_inv:
  assumes "agg_inv p" and "is \<noteq> []" and "distinct is" and "\<forall>i \<in> set is. i < length (ap_entries p)"
    and "(\<Sum>i \<in> set is. ap_currentWeights p ! i) = 0" and "\<forall>i \<in> set is. - total_weight p is < ap_currentWeights p ! i"
    and "wrr_picks n is p = (rs, p')"
  shows "length rs = n \<and> (\<Sum>i \<in> set is. ap_currentWeights p' ! i) = 0 \<and> ap_entries p' = ap_entries p \<and>
    (\<forall>i \<in> set is. - total_weight p is < ap_currentWeights p' ! i \<and>
      ap_currentWeights p' ! i = ap_currentWeights p ! i + int n * entry_weight p i - int (count_list rs (Some i)) * total_weight p is)"
  using assms
proof (induction n arbitrary: p rs)
  case (Suc n)
  let ?W = "total_weight p is"
  obtain b p1 where s: "agg_pickRoundRobinLocked is p = (Some b, p1)" "b \<in> set is" "agg_inv p1" "ap_entries p1 = ap_entries p"
    "\<forall>i \<in> set is. ap_currentWeights p1 ! i = ap_currentWeights p ! i + entry_weight p i - (if i = b then ?W else 0)"
    "\<forall>i \<in> set is. ap_currentWeights p ! i + entry_weight p i \<le> ap_currentWeights p ! b + entry_weight p b"
    using wrr_step [OF Suc.prems(1-4)] by blast
  obtain rs1 where rest: "wrr_picks n is p1 = (rs1, p')" "rs = Some b # rs1"
    using Suc.prems(7) s(1) by (auto split: prod.splits)
  have W: "total_weight p1 is = ?W" by (simp add: total_weight_def s(4))
  have pos: "0 < entry_weight p i" if "i \<in> set is" for i
    using entry_weight_pos [OF Suc.prems(1)] Suc.prems(4) that by blast
  have all: "(\<Sum>i \<in> set is. ap_currentWeights p ! i + entry_weight p i) = ?W"
    using Suc.prems(5) total_weight_sum [OF Suc.prems(3), of p] by (simp add: sum.distrib)
  have "0 < ?W" using total_weight_sum [OF Suc.prems(3), of p] pos s(2) by (auto intro!: sum_pos)
  have top: "0 < ap_currentWeights p ! b + entry_weight p b"
  proof (rule ccontr)
    assume "\<not> ?thesis"
    then have "(\<Sum>i \<in> set is. ap_currentWeights p ! i + entry_weight p i) \<le> 0"
      using s(6) by (intro sum_nonpos) force
    with all \<open>0 < ?W\<close> show False by simp
  qed
  have sum0: "(\<Sum>i \<in> set is. ap_currentWeights p1 ! i) = 0"
  proof -
    have "(\<Sum>i \<in> set is. ap_currentWeights p1 ! i) =
        (\<Sum>i \<in> set is. (ap_currentWeights p ! i + entry_weight p i) - (if i = b then ?W else 0))"
      using s(5) by (intro sum.cong) auto
    also have "\<dots> = 0" using all s(2) by (simp add: sum_subtractf)
    finally show ?thesis .
  qed
  have low: "\<forall>i \<in> set is. - ?W < ap_currentWeights p1 ! i"
    using s(5) top pos Suc.prems(6) by (auto simp: add_strict_increasing2) force
  have ih: "length rs1 = n \<and> (\<Sum>i \<in> set is. ap_currentWeights p' ! i) = 0 \<and> ap_entries p' = ap_entries p1 \<and>
    (\<forall>i \<in> set is. - total_weight p1 is < ap_currentWeights p' ! i \<and>
      ap_currentWeights p' ! i = ap_currentWeights p1 ! i + int n * entry_weight p1 i - int (count_list rs1 (Some i)) * total_weight p1 is)"
    using Suc.prems(2,3,4) s(3,4) sum0 low W rest(1) by (intro Suc.IH) simp_all
  with s(4,5) W rest(2) show ?case by (auto simp: algebra_simps)
qed simp

section \<open>Least load\<close>

lemma compareWeightedScore_le:
  assumes "0 < lw" and "0 < rw"
  shows "compareWeightedScore l lw r rw \<noteq> 1 \<longleftrightarrow> l * rw \<le> r * lw"
    and "compareWeightedScore l lw r rw = - 1 \<longleftrightarrow> l * rw < r * lw"
  using assms by (simp_all add: compareWeightedScore_def Let_def)

lemma weighted_le_trans:
  fixes a b c :: int
  assumes "a * wb \<le> b * wa" and "b * wc \<le> c * wb" and "0 < wa" and "0 < wb" and "0 < wc"
  shows "a * wc \<le> c * wa"
proof -
  have "a * wb * wc \<le> b * wa * wc" "b * wc * wa \<le> c * wb * wa" using assms by simp_all
  then have "wb * (a * wc) \<le> wb * (c * wa)" by (simp add: ac_simps)
  with assms(4) show ?thesis by simp
qed

lemma least_better_primary:
  assumes "0 < entry_weight p i" and "0 < entry_weight p b"
  shows "if least_better p score i b then fst (score i) * entry_weight p b \<le> fst (score b) * entry_weight p i
         else fst (score b) * entry_weight p i \<le> fst (score i) * entry_weight p b"
  using assms compareWeightedScore_le [OF assms, of "fst (score i)" "fst (score b)"]
  by (auto simp: least_better_def Let_def)

lemma least_fold:
  assumes "\<forall>i \<in> insert b (set xs). 0 < entry_weight p i"
    and "r = fold (\<lambda>i best. if least_better p score i best then i else best) xs b"
  shows "\<forall>j \<in> insert b (set xs). fst (score r) * entry_weight p j \<le> fst (score j) * entry_weight p r"
  using assms
proof (induction xs arbitrary: b)
  case (Cons x xs)
  define b' where "b' = (if least_better p score x b then x else b)"
  have r: "r = fold (\<lambda>i best. if least_better p score i best then i else best) xs b'" using Cons.prems(2) by (simp add: b'_def)
  have pos: "0 < entry_weight p x" "0 < entry_weight p b" "0 < entry_weight p b'" using Cons.prems(1) by (simp_all add: b'_def)
  have ih: "\<forall>j \<in> insert b' (set xs). fst (score r) * entry_weight p j \<le> fst (score j) * entry_weight p r"
    using Cons.prems(1) pos(3) by (intro Cons.IH [OF _ r]) simp
  have "r \<in> insert b' (set xs)" unfolding r by (rule fold_choice_member)
  then have rpos: "0 < entry_weight p r" using Cons.prems(1) pos(3) by auto
  have step: "fst (score b') * entry_weight p j \<le> fst (score j) * entry_weight p b'" if "j = x \<or> j = b" for j
    using least_better_primary [OF pos(1,2), of score] that by (auto simp: b'_def split: if_splits)
  have "fst (score r) * entry_weight p j \<le> fst (score j) * entry_weight p r" if "j = x \<or> j = b" for j
    using weighted_le_trans [OF bspec [OF ih insertI1] step [OF that] rpos pos(3)] that pos(1,2) by blast
  with ih show ?case by auto
qed simp

section \<open>Selection by every strategy\<close>

lemma pickAvailableLocked_spec:
  assumes inv: "agg_inv p" and pick: "pickAvailableLocked w choice available exclude use p = (r, p')"
  shows "(case r of None \<Rightarrow> tier_candidates available exclude p = [] | Some i \<Rightarrow> i \<in> set (tier_candidates available exclude p)) \<and>
    agg_inv p' \<and> ap_entries p' = ap_entries p \<and> ap_strategy p' = ap_strategy p"
proof -
  let ?c = "tier_candidates available exclude p"
  consider "?c = []" | "?c \<noteq> []" "\<not> use" | "?c \<noteq> []" use by blast
  then show ?thesis
  proof cases
    case 3
    define res where "res = (if ap_strategy p = ''random'' then (agg_pickRandomLocked choice ?c p, p)
               else if ap_strategy p = ''least_used'' then (agg_pickLeastLocked w False ?c p, p)
               else if ap_strategy p = ''least_requests'' then (agg_pickLeastLocked w True ?c p, p)
               else agg_pickRoundRobinLocked ?c p)"
    obtain q p1 where q: "res = (q, p1)" by (cases res)
    have m: "\<exists>i \<in> set ?c. q = Some i"
      using q weighted_random.pick_member [OF 3(1)] least_load.pick_member [OF 3(1)] wrr.pick_member [OF 3(1)]
      unfolding res_def by (metis prod.inject)
    have f: "agg_inv p1 \<and> ap_entries p1 = ap_entries p \<and> ap_strategy p1 = ap_strategy p"
      using q wrr.pick_inv [OF inv] wrr.pick_strategy inv unfolding res_def by (auto split: if_splits)
    have "(r, p') = (q, p1)"
      using pick 3 m q unfolding pickAvailableLocked_def Let_def res_def [symmetric] by auto
    with m f show ?thesis by auto
  qed (use pick inv in \<open>auto simp: pickAvailableLocked_def Let_def\<close>)
qed

section \<open>Properties\<close>

text \<open>C27: An aggregate routes to its best available tier under every strategy: a child is returned exactly
  when some child is available and not excluded, the one returned is, and no child of a better
  priority is; the cheap check \<open>HasAvailable\<close> agrees; and the pool keeps its invariant.\<close>

theorem aggregate_best_tier:
  assumes "agg_inv p" and "PickAvailable w choice available exclude p = (r, p')"
    and "elig = (\<lambda>i. i < length (ap_entries p) \<and> ce_id (ap_entries p ! i) \<notin> exclude \<and> available (ap_entries p ! i))"
  shows "(r \<noteq> None \<longleftrightarrow> (\<exists>i. elig i)) \<and> (HasAvailable w available exclude p \<longleftrightarrow> (\<exists>i. elig i)) \<and>
    (\<forall>i. r = Some i \<longrightarrow> elig i \<and> (\<forall>j. elig j \<longrightarrow> ce_priority (ap_entries p ! i) \<le> ce_priority (ap_entries p ! j))) \<and>
    agg_inv p' \<and> ap_entries p' = ap_entries p"
proof -
  have c: "set (tier_candidates available exclude p) =
      {i. elig i \<and> (\<forall>j. elig j \<longrightarrow> ce_priority (ap_entries p ! i) \<le> ce_priority (ap_entries p ! j))}"
    unfolding tier_candidates_set [OF assms(1)] assms(3) by auto
  have ne: "tier_candidates available exclude p \<noteq> [] \<longleftrightarrow> (\<exists>i. elig i)"
  proof
    assume "\<exists>i. elig i"
    then obtain i where i: "elig i" by blast
    have fin: "finite {i. elig i}" by (rule finite_subset [of _ "{..<length (ap_entries p)}"]) (auto simp: assms(3))
    obtain m where "elig m" "\<forall>j. elig j \<longrightarrow> ce_priority (ap_entries p ! m) \<le> ce_priority (ap_entries p ! j)"
      using arg_min_if_finite [OF fin, of "\<lambda>i. ce_priority (ap_entries p ! i)"] i
      by (metis (mono_tags, lifting) empty_iff linorder_not_le mem_Collect_eq)
    then have "m \<in> set (tier_candidates available exclude p)" using c by simp
    then show "tier_candidates available exclude p \<noteq> []" by auto
  next
    assume "tier_candidates available exclude p \<noteq> []"
    then show "\<exists>i. elig i" using c by (metis (mono_tags, lifting) hd_in_set mem_Collect_eq)
  qed
  have has: "HasAvailable w available exclude p \<longleftrightarrow> tier_candidates available exclude p \<noteq> []"
    by (simp add: HasAvailable_def pickAvailableLocked_def Let_def)
  show ?thesis
  proof (cases "ap_entries p = []")
    case True
    then have "\<not> elig i" for i by (simp add: assms(3))
    with True assms(1,2) ne has show ?thesis by (auto simp: PickAvailable_def)
  next
    case False
    with assms(2) have "pickAvailableLocked w choice available exclude True p = (r, p')" by (simp add: PickAvailable_def)
    from pickAvailableLocked_spec [OF assms(1) this] ne has c show ?thesis by (cases r) auto
  qed
qed

text \<open>C33: Smooth weighted round robin is exact: over one cycle of as many picks as the total weight of a
  fixed set of candidates, each is picked exactly as often as its weight says, and the scheduling
  weights are back at zero, so the pattern repeats.\<close>

theorem weighted_round_robin_exact:
  assumes "agg_inv p" and "is \<noteq> []" and "distinct is" and "\<forall>i \<in> set is. i < length (ap_entries p)"
    and "\<forall>i \<in> set is. ap_currentWeights p ! i = 0" and "wrr_picks (nat (total_weight p is)) is p = (picks, p')"
  shows "\<forall>i \<in> set is. int (count_list picks (Some i)) = entry_weight p i \<and> ap_currentWeights p' ! i = 0"
proof -
  let ?W = "total_weight p is"
  have W: "0 < ?W"
    using total_weight_sum [OF assms(3), of p] assms(2) entry_weight_pos [OF assms(1)] assms(4) by (auto intro!: sum_pos)
  have r: "length picks = nat ?W \<and> (\<Sum>i \<in> set is. ap_currentWeights p' ! i) = 0 \<and> ap_entries p' = ap_entries p \<and>
    (\<forall>i \<in> set is. - ?W < ap_currentWeights p' ! i \<and>
      ap_currentWeights p' ! i = ap_currentWeights p ! i + int (nat ?W) * entry_weight p i - int (count_list picks (Some i)) * ?W)"
    using assms W by (intro wrr_picks_inv) simp_all
  have cw: "ap_currentWeights p' ! i = ?W * (entry_weight p i - int (count_list picks (Some i)))" if "i \<in> set is" for i
    using r assms(5) W that by (simp add: algebra_simps)
  have ge: "0 \<le> ap_currentWeights p' ! i" if "i \<in> set is" for i
  proof -
    have "?W * (- 1) < ?W * (entry_weight p i - int (count_list picks (Some i)))" using r cw [OF that] that by auto
    then have "- 1 < entry_weight p i - int (count_list picks (Some i))" using W by (simp only: mult_less_cancel_left_pos)
    then show ?thesis using W cw [OF that] by simp
  qed
  have z: "ap_currentWeights p' ! i = 0" if "i \<in> set is" for i
    using sum_nonneg_eq_0_iff [of "set is" "\<lambda>i. ap_currentWeights p' ! i"] ge r that by auto
  show ?thesis using z cw W by fastforce
qed

definition sample_entries :: "aggregateChildEntry list" where
  "sample_entries = [
     \<lparr>ce_id = [], ce_vendorID = ''a'', ce_name = ''a'', ce_vendor = None, ce_weight = 2, ce_priority = 1, ce_keyIdxs = None\<rparr>,
     \<lparr>ce_id = [], ce_vendorID = ''b'', ce_name = ''b'', ce_vendor = None, ce_weight = 1, ce_priority = 1, ce_keyIdxs = None\<rparr>,
     \<lparr>ce_id = [], ce_vendorID = ''c'', ce_name = ''c'', ce_vendor = None, ce_weight = 0, ce_priority = 0, ce_keyIdxs = None\<rparr>]"

abbreviation sample_agg :: aggregatePool where
  "sample_agg \<equiv> newAggregatePool ''round_robin'' sample_entries"

theorem aggregate_best_tier_witness:
  "\<forall>w. \<exists>i. fst (PickAvailable w 0 (\<lambda>e. ce_name e \<noteq> ''c'') {} sample_agg) = Some i"
proof
  fix w
  obtain r p' where f: "PickAvailable w 0 (\<lambda>e. ce_name e \<noteq> ''c'') {} sample_agg = (r, p')" by fastforce
  have e: "1 < length (ap_entries sample_agg) \<and> ce_name (ap_entries sample_agg ! 1) \<noteq> ''c''" by code_simp
  have "(r \<noteq> None) = (\<exists>i. i < length (ap_entries sample_agg) \<and> ce_id (ap_entries sample_agg ! i) \<notin> {} \<and> ce_name (ap_entries sample_agg ! i) \<noteq> ''c'')"
    using aggregate_best_tier [OF newAggregatePool_inv f refl] by blast
  with e f show "\<exists>i. fst (PickAvailable w 0 (\<lambda>e. ce_name e \<noteq> ''c'') {} sample_agg) = Some i" by auto
qed

theorem weighted_round_robin_exact_witness:
  "int (count_list (fst (wrr_picks 3 [1, 2] sample_agg)) (Some 1)) = 2"
proof -
  have w: "total_weight sample_agg [1, 2] = 3" "entry_weight sample_agg 1 = 2" "length (ap_entries sample_agg) = 3"
    "ap_currentWeights sample_agg = [0, 0, 0]" by code_simp+
  obtain picks p' where f: "wrr_picks 3 [1, 2] sample_agg = (picks, p')" by fastforce
  then have "wrr_picks (nat (total_weight sample_agg [1, 2])) [1, 2] sample_agg = (picks, p')" by (simp only: w(1), simp)
  then have "\<forall>i \<in> set [1, 2]. int (count_list picks (Some i)) = entry_weight sample_agg i \<and> ap_currentWeights p' ! i = 0"
    by (intro weighted_round_robin_exact [OF newAggregatePool_inv]) (simp_all add: w(3,4))
  with f w(2) show ?thesis by simp
qed

text \<open>The least-load strategies return a child whose load, divided by its weight, no other candidate
  undercuts; the load is the in-flight count or the requests so far, summed over the keys the child
  may use.\<close>

theorem aggregate_least_load:
  assumes "agg_inv p" and "\<forall>i \<in> set is. i < length (ap_entries p)" and "agg_pickLeastLocked w reqs is p = Some b" and "j \<in> set is"
  shows "fst (aggregateChildLoadScore w (ap_entries p ! b) reqs) * entry_weight p j
    \<le> fst (aggregateChildLoadScore w (ap_entries p ! j) reqs) * entry_weight p b"
proof -
  have w: "0 < entry_weight p i" if "i \<in> set is" for i using entry_weight_pos [OF assms(1)] assms(2) that by blast
  obtain i "is'" where iss: "is = i # is'" using assms(4) by (cases "is") auto
  show ?thesis
    using least_fold [of i "is'" p b "\<lambda>i. aggregateChildLoadScore w (ap_entries p ! i) reqs"] w assms(3,4)
    by (auto simp: iss agg_pickLeastLocked_def Let_def)
qed

theorem aggregate_least_load_witness:
  "\<forall>w. \<exists>b. agg_pickLeastLocked w True [1, 2] sample_agg = Some b \<and>
     fst (aggregateChildLoadScore w (ap_entries sample_agg ! b) True) * entry_weight sample_agg 1
       \<le> fst (aggregateChildLoadScore w (ap_entries sample_agg ! 1) True) * entry_weight sample_agg b"
proof
  fix w
  obtain b where b: "agg_pickLeastLocked w True [1, 2] sample_agg = Some b" by (simp add: agg_pickLeastLocked_def Let_def)
  have l: "length (ap_entries sample_agg) = 3" by code_simp
  show "\<exists>b. agg_pickLeastLocked w True [1, 2] sample_agg = Some b \<and>
     fst (aggregateChildLoadScore w (ap_entries sample_agg ! b) True) * entry_weight sample_agg 1
       \<le> fst (aggregateChildLoadScore w (ap_entries sample_agg ! 1) True) * entry_weight sample_agg b"
    using b aggregate_least_load [OF newAggregatePool_inv _ b, of 1] by (simp add: l)
qed

end
