(* ===== verification/RequestBody.thy ===== *)
theory RequestBody
  imports VendorGateway
begin

text \<open>
  Request bodies and the retry rules that depend on them, from \<open>internal/gateway/request_body.go\<close>: when
  a client's body is kept in memory so that it can be sent again, and which failures allow another
  attempt.  An error value is the list of the sentinel errors in its chain with its text.
\<close>

section \<open>Errors\<close>

datatype sentinel = ContextCanceled | DeadlineExceeded | NetErrClosed | EPIPE | ECONNRESET | ECONNABORTED
  | UpstreamBodyTimeout | UpstreamUploadTimeout | ClientUploadTimeout | RequestBodyReadFailed | IoEOF

record go_error =
  er_is :: "sentinel list"
  er_text :: string

definition isRequestBodyReadError :: "go_error \<Rightarrow> bool" where
  "isRequestBodyReadError err \<longleftrightarrow> RequestBodyReadFailed \<in> set (er_is err)"

definition isClientDisconnectError :: "go_error \<Rightarrow> bool" where
  "isClientDisconnectError err =
     (if \<exists>s \<in> set (er_is err). s \<in> {ContextCanceled, NetErrClosed, EPIPE, ECONNRESET, ECONNABORTED} then True
      else let msg = to_lower (er_text err) in
        contains msg ''broken pipe'' \<or> contains msg ''connection reset by peer'' \<or>
        contains msg ''use of closed network connection'')"

text \<open>The error of the request context is \<open>None\<close> while the request is alive.\<close>

definition isCanceledUpstreamError :: "sentinel option \<Rightarrow> go_error \<Rightarrow> bool" where
  "isCanceledUpstreamError ctx err =
     (case ctx of
        None \<Rightarrow> False
      | Some c \<Rightarrow>
          if UpstreamBodyTimeout \<in> set (er_is err) \<or> UpstreamUploadTimeout \<in> set (er_is err) then False
          else if c \<in> set (er_is err) \<or> ContextCanceled \<in> set (er_is err) \<or> DeadlineExceeded \<in> set (er_is err) then True
          else if isClientDisconnectError err then True
          else let msg = to_lower (er_text err) in
            contains msg ''context canceled'' \<or> contains msg ''request canceled'' \<or>
            contains msg ''operation was canceled'')"

lemma isCanceledUpstreamError_alive [simp]: "\<not> isCanceledUpstreamError None err"
  by (simp add: isCanceledUpstreamError_def)

lemma isCanceledUpstreamError_gone: "isCanceledUpstreamError ctx err \<Longrightarrow> \<exists>c. ctx = Some c"
  by (cases ctx) simp_all

section \<open>Body sources\<close>

abbreviation maxReplayableRequestBodyBytes :: int where
  "maxReplayableRequestBodyBytes \<equiv> 4194304"

text \<open>A client request: \<open>hr_NoBody\<close> stands for a nil or empty body reader; the body is the bytes the client
  sends and the error that ends the upload, if any.\<close>

record client_request =
  hr_Method :: string
  hr_Header :: header
  hr_NoBody :: bool
  hr_ContentLength :: int
  hr_HasGetBody :: bool
  hr_Body :: string
  hr_BodyError :: "go_error option"

text \<open>What every call of \<open>newBody\<close> delivers, and whether it may be called again.\<close>

record requestBodySource =
  rb_replayable :: bool
  rb_safeRetry :: bool
  rb_contentLength :: int
  rb_bytes :: string
  rb_error :: "go_error option"

definition isSafeRetryMethod :: "string \<Rightarrow> bool" where
  "isSafeRetryMethod method = (to_upper (trim_space method) \<in> {''GET'', ''HEAD'', ''OPTIONS'', ''TRACE''})"

definition newSingleUseBodySource :: "client_request \<Rightarrow> bool \<Rightarrow> requestBodySource" where
  "newSingleUseBodySource req safeRetry =
     \<lparr>rb_replayable = False, rb_safeRetry = safeRetry, rb_contentLength = hr_ContentLength req,
      rb_bytes = hr_Body req, rb_error = hr_BodyError req\<rparr>"

text \<open>Reading through a limited reader of one byte more than the limit: the bytes and whether there are
  more, or the error of the upload if it comes first.\<close>

definition readReplayableRequestBody :: "client_request \<Rightarrow> int \<Rightarrow> go_error + string \<times> bool" where
  "readReplayableRequestBody req limit =
     (let n = nat (limit + 1) in
      if length (hr_Body req) \<ge> n then Inr (take n (hr_Body req), True)
      else case hr_BodyError req of Some e \<Rightarrow> Inl e | None \<Rightarrow> Inr (hr_Body req, False))"

definition shouldBufferRequestBody :: "std_lib \<Rightarrow> string \<Rightarrow> bool" where
  "shouldBufferRequestBody std contentType =
     (let contentType = trim_space contentType in
      if contentType = [] then True
      else
        let mediaType = (case std_ParseMediaType std contentType of None \<Rightarrow> contentType | Some m \<Rightarrow> m);
            mediaType = to_lower (trim_space mediaType)
        in \<not> has_prefix mediaType ''multipart/'')"

text \<open>An oversized body is sent from the buffered bytes followed by the rest of the reader, which is the
  client's body again.\<close>

definition prepareRequestBody :: "std_lib \<Rightarrow> client_request \<Rightarrow> bool \<Rightarrow> go_error + requestBodySource" where
  "prepareRequestBody std req allowReplay =
     (let safeRetry = isSafeRetryMethod (hr_Method req) in
      if hr_NoBody req \<or> hr_ContentLength req = 0
      then Inr \<lparr>rb_replayable = True, rb_safeRetry = safeRetry, rb_contentLength = 0, rb_bytes = [], rb_error = None\<rparr>
      else if hr_HasGetBody req
      then Inr \<lparr>rb_replayable = True, rb_safeRetry = safeRetry, rb_contentLength = hr_ContentLength req,
                rb_bytes = hr_Body req, rb_error = hr_BodyError req\<rparr>
      else if \<not> allowReplay then Inr (newSingleUseBodySource req safeRetry)
      else if hr_ContentLength req < 0 then Inr (newSingleUseBodySource req safeRetry)
      else if \<not> shouldBufferRequestBody std (header_get (hr_Header req) ''Content-Type'')
      then Inr (newSingleUseBodySource req safeRetry)
      else if hr_ContentLength req > maxReplayableRequestBodyBytes then Inr (newSingleUseBodySource req safeRetry)
      else case readReplayableRequestBody req maxReplayableRequestBodyBytes of
        Inl e \<Rightarrow> Inl e
      | Inr (buf, overflow) \<Rightarrow>
          if overflow then Inr (newSingleUseBodySource req safeRetry)
          else Inr \<lparr>rb_replayable = True, rb_safeRetry = safeRetry, rb_contentLength = int (length buf),
                    rb_bytes = buf, rb_error = None\<rparr>)"

text \<open>Whether a vendor wants the body of a request buffered.\<close>

definition vg_shouldBufferRequestBody :: "vendorGateway \<Rightarrow> string \<Rightarrow> bool" where
  "vg_shouldBufferRequestBody v method =
     (let fo = ep_Failover (vg_errorPolicy v) in
      if \<not> usesManagedUpstreamKeys v \<or> vg_managedKeyCount v < 2 then False
      else if isSafeRetryMethod method then
        boolOrDefault (fo_RequestError fo) True \<or> fo_ResponseStatusCodes fo \<noteq> [] \<or>
        list_ex (\<lambda>c. shouldFailoverResponse c (vg_errorPolicy v)) [401, 402, 403, 429, 529, 500, 502, 503, 504]
      else list_ex (\<lambda>c. shouldFailoverResponse c (vg_errorPolicy v)) [401, 402, 403, 429])"

section \<open>Retry rules\<close>

definition shouldRetryDecision :: "keyDecision \<Rightarrow> bool" where
  "shouldRetryDecision decision =
     (if \<not> kd_failover decision then False
      else kd_action decision \<in> {AttemptCooldown, AttemptDisable, AttemptObserve})"

definition isRetryableStatusForUnsafeMethod :: "int \<Rightarrow> bool" where
  "isRetryableStatusForUnsafeMethod statusCode \<longleftrightarrow> statusCode \<in> {401, 402, 403, 429}"

definition canRetryRequestError :: "requestBodySource \<Rightarrow> keyDecision \<Rightarrow> bool" where
  "canRetryRequestError s decision =
     (if \<not> rb_replayable s \<or> \<not> rb_safeRetry s then False else shouldRetryDecision decision)"

definition canRetryResponse :: "requestBodySource \<Rightarrow> int \<Rightarrow> keyDecision \<Rightarrow> bool" where
  "canRetryResponse s statusCode decision =
     (if \<not> rb_replayable s \<or> \<not> shouldRetryDecision decision then False
      else rb_safeRetry s \<or> isRetryableStatusForUnsafeMethod statusCode)"

definition canRetryAggregate :: "requestBodySource \<Rightarrow> int \<Rightarrow> go_error option \<Rightarrow> bool" where
  "canRetryAggregate s statusCode err =
     (if err \<noteq> None then rb_replayable s \<and> rb_safeRetry s
      else if \<not> rb_replayable s then False
      else rb_safeRetry s \<or> isRetryableStatusForUnsafeMethod statusCode)"

definition aggregateRetryable :: "int \<Rightarrow> go_error option \<Rightarrow> AggregateRetryConfig \<Rightarrow> bool" where
  "aggregateRetryable statusCode err retry =
     (if \<not> boolOrDefault (rc_Enabled retry) True then False
      else if err \<noteq> None then boolOrDefault (rc_NetworkError retry) True
      else if statusCode < 400 then False
      else if statusCode = 429 then boolOrDefault (rc_RateLimit retry) True
      else if statusCode \<in> {502, 503, 504, 500} then boolOrDefault (rc_ServerError retry) True
      else containsStatusCode (rc_StatusCodes retry) statusCode)"

section \<open>Properties\<close>

text \<open>The body that goes upstream is the client's.  Preparing a body fails only with the error of the
  upload itself; otherwise every attempt sends exactly the bytes the client sent (none when the
  request has no body), and a body that was read into memory for replay is complete, without an
  error, no longer than the limit, and announced with its true length.\<close>

theorem request_body_faithful:
  assumes "prepareRequestBody std req allowReplay = r"
  shows "(case r of
      Inl e \<Rightarrow> hr_BodyError req = Some e
    | Inr src \<Rightarrow> rb_safeRetry src = isSafeRetryMethod (hr_Method req) \<and>
        (if hr_NoBody req \<or> hr_ContentLength req = 0 then rb_replayable src \<and> rb_bytes src = [] \<and> rb_contentLength src = 0
         else rb_bytes src = hr_Body req \<and>
           (rb_replayable src \<and> \<not> hr_HasGetBody req \<longrightarrow> allowReplay \<and> hr_BodyError req = None \<and>
              rb_contentLength src = int (length (rb_bytes src)) \<and> rb_contentLength src \<le> maxReplayableRequestBodyBytes) \<and>
           (\<not> rb_replayable src \<longrightarrow> rb_contentLength src = hr_ContentLength req \<and> rb_error src = hr_BodyError req)))"
proof -
  have "Inl e = readReplayableRequestBody req maxReplayableRequestBodyBytes \<Longrightarrow> hr_BodyError req = Some e" for e
    by (auto simp: readReplayableRequestBody_def Let_def split: if_splits option.splits)
  moreover have "readReplayableRequestBody req maxReplayableRequestBodyBytes = Inr (buf, False) \<Longrightarrow>
      buf = hr_Body req \<and> hr_BodyError req = None \<and> int (length buf) \<le> maxReplayableRequestBodyBytes" for buf
    by (auto simp: readReplayableRequestBody_def Let_def split: if_splits option.splits)
  ultimately show ?thesis
    using assms unfolding prepareRequestBody_def Let_def
    by (auto simp: newSingleUseBodySource_def split: if_splits sum.splits prod.splits)
qed

definition sample_request :: client_request where
  "sample_request = \<lparr>hr_Method = ''POST'', hr_Header = [], hr_NoBody = False, hr_ContentLength = 5, hr_HasGetBody = False,
     hr_Body = ''hello'', hr_BodyError = None\<rparr>"

theorem request_body_faithful_witness:
  "\<exists>src. prepareRequestBody plain_lib sample_request False = Inr src \<and> rb_bytes src = ''hello'' \<and> \<not> rb_safeRetry src"
proof -
  obtain src where s: "prepareRequestBody plain_lib sample_request False = Inr src"
    by (simp add: prepareRequestBody_def sample_request_def)
  have "\<not> isSafeRetryMethod ''POST''" by code_simp
  with request_body_faithful [OF s] s show ?thesis by (auto simp: sample_request_def)
qed

end
