(* ===== verification/ResponseStream.thy ===== *)
theory ResponseStream
  imports RequestBody
begin

text \<open>
  Delivery of an upstream response to the client, from \<open>internal/gateway/response.go\<close>: when the response is
  committed, how the body is streamed, and what the end of the stream means for the key.  A body is a
  finite sequence of successful reads followed by the read that ends it; a stream that never ends is
  not modelled.  What the client's connection does with each write and flush is part of the sequence.
  The requests to settle the attempt are collected in order, since only the first has an effect.
\<close>

section \<open>Client events\<close>

datatype client_event = ClientStatus int header | ClientBytes string | ClientError string int
  | ClientMasked maskedResponse | ClientAbort

definition is_head :: "client_event \<Rightarrow> bool" where
  "is_head e = (case e of ClientStatus _ _ \<Rightarrow> True | ClientError _ _ \<Rightarrow> True | ClientMasked _ \<Rightarrow> True | _ \<Rightarrow> False)"

datatype flush_result = FlushOk | FlushUnsupported | FlushFailed

record stream_chunk =
  sc_bytes :: string
  sc_writeOk :: bool
  sc_flush :: flush_result

text \<open>The read that ends a body: its last bytes, the error (end of file included), the state of the client's
  context, the time since the start and the outcome of the flush of an empty stream.\<close>

record stream_end =
  se_chunk :: stream_chunk
  se_err :: go_error
  se_ctx :: "sentinel option"
  se_full :: duration
  se_emptyFlush :: flush_result

record upstream_response =
  ur_StatusCode :: int
  ur_Header :: header
  ur_ContentLength :: int
  ur_chunks :: "stream_chunk list"
  ur_end :: stream_end

record stream_state =
  ss_committed :: bool
  ss_hasBody :: bool
  ss_flusher :: bool
  ss_events :: "client_event list"
  ss_finish :: "(keyDecision \<times> duration) list"

section \<open>Writing a response\<close>

text \<open>The value of the query parameter \<open>stream\<close> is an argument.\<close>

definition shouldFlushResponse :: "string \<Rightarrow> header \<Rightarrow> header \<Rightarrow> bool" where
  "shouldFlushResponse streamParam reqHeader respHeader =
     (if has_prefix (to_lower (trim_space (header_get respHeader ''Content-Type''))) ''text/event-stream'' then True
      else let stream = to_lower (trim_space streamParam) in
        if stream = ''true'' \<or> stream = ''1'' \<or> stream = ''yes'' then True
        else contains (to_lower (header_get reqHeader ''Accept'')) ''text/event-stream'')"

definition trim_right_slash :: "string \<Rightarrow> string" where
  "trim_right_slash s = rev (dropWhile (\<lambda>c. c = CHR 0x2F) (rev s))"

definition inference_suffixes :: "string list" where
  "inference_suffixes = [''/chat/completions'', ''/completions'', ''/responses'', ''/messages'', ''/embeddings'',
     '':generateContent'', '':streamGenerateContent'']"

definition expectsUpstreamResponseBody :: "std_lib \<Rightarrow> string \<Rightarrow> string \<Rightarrow> upstream_response \<Rightarrow> bool" where
  "expectsUpstreamResponseBody std method path resp =
     (if method = ''HEAD'' \<or> method = ''OPTIONS'' \<or> ur_StatusCode resp < 200 \<or> ur_StatusCode resp \<ge> 300 \<or>
         ur_StatusCode resp = 204 \<or> ur_StatusCode resp = 205 then False
      else
        let contentType = normalizedContentType std (ur_Header resp) in
        if ur_ContentLength resp > 0 \<or> contentType = ''application/json'' \<or> has_suffix contentType ''+json'' \<or>
           contentType = ''text/event-stream'' then True
        else if method \<noteq> ''POST'' then False
        else list_ex (has_suffix (trim_right_slash path)) inference_suffixes)"

definition emit :: "client_event \<Rightarrow> stream_state \<Rightarrow> stream_state" where
  "emit e ss = ss\<lparr>ss_events := ss_events ss @ [e]\<rparr>"

definition ask_finish :: "keyDecision \<Rightarrow> duration \<Rightarrow> stream_state \<Rightarrow> stream_state" where
  "ask_finish d full ss = ss\<lparr>ss_finish := ss_finish ss @ [(d, full)]\<rparr>"

definition finishReadFailure :: "ErrorPolicyConfig \<Rightarrow> string \<Rightarrow> stream_state \<Rightarrow> stream_state" where
  "finishReadFailure policy err ss =
     ask_finish ((classifyRequestError policy (''upstream response interrupted: '' @ err))\<lparr>kd_statusCode := 502\<rparr>) (- 1) ss"

definition commitUpstream :: "upstream_response \<Rightarrow> stream_state \<Rightarrow> stream_state" where
  "commitUpstream resp ss =
     (if ss_committed ss then ss
      else (emit (ClientStatus (ur_StatusCode resp) (copyResponseHeaders [] (ur_Header resp))) ss)\<lparr>ss_committed := True\<rparr>)"

text \<open>One read with bytes: commit, write, flush.  The flag says whether the loop goes on.\<close>

definition forward_chunk :: "upstream_response \<Rightarrow> stream_chunk \<Rightarrow> stream_state \<Rightarrow> bool \<times> stream_state" where
  "forward_chunk resp c ss =
     (if sc_bytes c = [] then (True, ss)
      else
        let ss = commitUpstream resp (ss\<lparr>ss_hasBody := True\<rparr>) in
        if \<not> sc_writeOk c then (False, ss)
        else
          let ss = emit (ClientBytes (sc_bytes c)) ss in
          if \<not> ss_flusher ss then (True, ss)
          else case sc_flush c of
                 FlushUnsupported \<Rightarrow> (True, ss\<lparr>ss_flusher := False\<rparr>)
               | FlushFailed \<Rightarrow> (False, ss)
               | FlushOk \<Rightarrow> (True, ss))"

fun copy_chunks :: "upstream_response \<Rightarrow> stream_chunk list \<Rightarrow> stream_state \<Rightarrow> bool \<times> stream_state" where
  "copy_chunks resp [] ss = (True, ss)"
| "copy_chunks resp (c # cs) ss =
     (case forward_chunk resp c ss of (True, ss) \<Rightarrow> copy_chunks resp cs ss | (False, ss) \<Rightarrow> (False, ss))"

text \<open>What follows the last read; the flag says whether the handler aborts the connection.\<close>

definition end_of_body ::
  "std_lib \<Rightarrow> ErrorPolicyConfig \<Rightarrow> string \<Rightarrow> string \<Rightarrow> keyDecision \<Rightarrow> upstream_response \<Rightarrow> stream_state \<Rightarrow> bool \<times> stream_state" where
  "end_of_body std policy method path decision resp ss =
     (let e = ur_end resp; err = se_err e in
      if IoEOF \<in> set (er_is err) then
        if \<not> ss_hasBody ss \<and> expectsUpstreamResponseBody std method path resp
        then (False, emit (ClientError ''upstream returned an empty response'' 502)
                (finishReadFailure policy ''empty upstream response'' ss))
        else
          let ss = commitUpstream resp ss in
          if \<not> ss_hasBody ss \<and> ss_flusher ss \<and> se_emptyFlush e = FlushFailed then (False, ss)
          else (False, ask_finish decision (se_full e) ss)
      else if isCanceledUpstreamError (se_ctx e) err then (False, ss)
      else if \<not> ss_committed ss then
        (False, if ur_StatusCode resp \<ge> 400 then commitUpstream resp ss
                else emit (ClientError ''upstream response interrupted'' 502) ss)
      else if ur_StatusCode resp \<ge> 400 then (False, ss)
      else (True, ss))"

definition last_read ::
  "std_lib \<Rightarrow> ErrorPolicyConfig \<Rightarrow> string \<Rightarrow> string \<Rightarrow> keyDecision \<Rightarrow> upstream_response \<Rightarrow> stream_state \<Rightarrow> bool \<times> stream_state" where
  "last_read std policy method path decision resp ss =
     (let e = ur_end resp; err = se_err e;
          ss = (if IoEOF \<notin> set (er_is err) \<and> \<not> isCanceledUpstreamError (se_ctx e) err
                then finishReadFailure policy (er_text err) ss else ss)
      in case forward_chunk resp (se_chunk e) ss of
           (False, ss) \<Rightarrow> (False, ss)
         | (True, ss) \<Rightarrow> end_of_body std policy method path decision resp ss)"

definition interruptedDecision :: keyDecision where
  "interruptedDecision = \<lparr>kd_action = AttemptInterrupted, kd_statusCode = 0, kd_cooldown = 0, kd_reason = [], kd_failover = False\<rparr>"

definition writeUpstreamResponse ::
  "std_lib \<Rightarrow> ErrorPolicyConfig \<Rightarrow> string \<Rightarrow> string \<Rightarrow> bool \<Rightarrow> keyDecision \<Rightarrow> upstream_response \<Rightarrow> bool \<times> stream_state" where
  "writeUpstreamResponse std policy method path streaming decision resp =
     (let ss = \<lparr>ss_committed = False, ss_hasBody = False, ss_flusher = streaming, ss_events = [], ss_finish = []\<rparr>;
          (abort, ss) = (case copy_chunks resp (ur_chunks resp) ss of
              (False, ss) \<Rightarrow> (False, ss)
            | (True, ss) \<Rightarrow> last_read std policy method path decision resp ss)
      in (abort, ask_finish interruptedDecision (- 1) ss))"

section \<open>The invariant of the loop\<close>

text \<open>Before the response is committed the client has seen nothing; afterwards it has seen the status first
  and then the bytes read so far.\<close>

definition stream_inv :: "upstream_response \<Rightarrow> string \<Rightarrow> stream_state \<Rightarrow> bool" where
  "stream_inv resp sent ss \<longleftrightarrow>
     (if ss_committed ss
      then ss_hasBody ss \<and> (\<exists>bs. ss_events ss = ClientStatus (ur_StatusCode resp) (copyResponseHeaders [] (ur_Header resp)) # map ClientBytes bs \<and>
             concat bs = sent)
      else ss_events ss = [] \<and> sent = [] \<and> \<not> ss_hasBody ss)"

lemma forward_chunk_inv:
  assumes inv: "stream_inv resp sent ss" and f: "forward_chunk resp c ss = (go, ss')"
  shows "ss_finish ss' = ss_finish ss \<and> (ss_committed ss \<longrightarrow> ss_committed ss') \<and> (sc_bytes c \<noteq> [] \<longrightarrow> ss_committed ss') \<and>
    (\<exists>sent'. stream_inv resp sent' ss' \<and> (sent' = sent \<or> sent' = sent @ sc_bytes c) \<and> (go \<longrightarrow> sent' = sent @ sc_bytes c))"
proof (cases "sc_bytes c = []")
  case True
  with assms show ?thesis by (simp add: forward_chunk_def)
next
  case False
  define s1 where "s1 = commitUpstream resp (ss\<lparr>ss_hasBody := True\<rparr>)"
  have s1: "stream_inv resp sent s1" "ss_committed s1" "ss_finish s1 = ss_finish ss"
    using inv by (auto simp: s1_def stream_inv_def commitUpstream_def emit_def)
  have s2: "stream_inv resp (sent @ sc_bytes c) (emit (ClientBytes (sc_bytes c)) s1)"
  proof -
    have "ss_hasBody s1" by (simp add: s1_def commitUpstream_def emit_def)
    moreover obtain bs where "ss_events s1 = ClientStatus (ur_StatusCode resp) (copyResponseHeaders [] (ur_Header resp)) # map ClientBytes bs"
      "concat bs = sent" using s1 by (auto simp: stream_inv_def)
    ultimately show ?thesis using s1(2) by (auto simp: stream_inv_def emit_def intro!: exI [of _ "bs @ [sc_bytes c]"])
  qed
  have fin: "ss_finish (emit e s1) = ss_finish ss" "ss_committed (emit e s1)" for e using s1 by (simp_all add: emit_def)
  have upd: "stream_inv resp x (s\<lparr>ss_flusher := b\<rparr>) = stream_inv resp x s" for x s b by (simp add: stream_inv_def)
  show ?thesis
    using f False s1 s2 fin
    by (auto simp: forward_chunk_def Let_def s1_def [symmetric] upd split: if_splits flush_result.splits)
qed

lemma copy_chunks_inv:
  assumes "stream_inv resp sent ss" and "copy_chunks resp cs ss = (go, ss')"
  shows "ss_finish ss' = ss_finish ss \<and>
    (\<exists>sent'. stream_inv resp sent' ss' \<and> (\<exists>rest. sent @ concat (map sc_bytes cs) = sent' @ rest) \<and>
       (go \<longrightarrow> sent' = sent @ concat (map sc_bytes cs)))"
  using assms
proof (induction cs arbitrary: sent ss)
  case Nil
  then show ?case by auto
next
  case (Cons c cs)
  obtain go1 s1 where f: "forward_chunk resp c ss = (go1, s1)" by (cases "forward_chunk resp c ss")
  from forward_chunk_inv [OF Cons.prems(1) f] obtain sent1 where s1: "stream_inv resp sent1 s1"
    "sent1 = sent \<or> sent1 = sent @ sc_bytes c" "go1 \<longrightarrow> sent1 = sent @ sc_bytes c" "ss_finish s1 = ss_finish ss" by blast
  show ?case
  proof (cases go1)
    case True
    with f Cons.prems(2) have "copy_chunks resp cs s1 = (go, ss')" by simp
    from Cons.IH [OF s1(1) this] s1 True show ?thesis by auto
  next
    case False
    with f Cons.prems(2) have "go = False" "ss' = s1" by simp_all
    moreover have "\<exists>rest. sent @ concat (map sc_bytes (c # cs)) = sent1 @ rest" using s1(2) by auto
    ultimately show ?thesis using s1(1,4) by blast
  qed
qed

lemma forward_chunk_stop:
  "forward_chunk resp c ss = (False, ss') \<Longrightarrow> (\<not> sc_writeOk c \<or> sc_flush c = FlushFailed) \<and> ss_committed ss'"
  by (auto simp: forward_chunk_def commitUpstream_def emit_def Let_def split: if_splits flush_result.splits)

lemma copy_chunks_stop:
  "copy_chunks resp cs ss = (False, ss') \<Longrightarrow>
     (\<exists>c \<in> set cs. \<not> sc_writeOk c \<or> sc_flush c = FlushFailed) \<and> ss_committed ss'"
  by (induction cs arbitrary: ss) (auto dest: forward_chunk_stop split: prod.splits bool.splits)

text \<open>The bytes the client received, and the bytes the upstream sent.\<close>

definition delivered :: "client_event list \<Rightarrow> string" where
  "delivered es = concat (map (\<lambda>e. case e of ClientBytes b \<Rightarrow> b | _ \<Rightarrow> []) es)"

definition upstream_bytes :: "upstream_response \<Rightarrow> string" where
  "upstream_bytes resp = concat (map sc_bytes (ur_chunks resp)) @ sc_bytes (se_chunk (ur_end resp))"

definition downstream_failed :: "upstream_response \<Rightarrow> bool" where
  "downstream_failed resp \<longleftrightarrow> (\<exists>c \<in> set (se_chunk (ur_end resp) # ur_chunks resp). \<not> sc_writeOk c \<or> sc_flush c = FlushFailed)"

lemma stream_inv_events:
  assumes "stream_inv resp sent ss"
  shows "delivered (ss_events ss) = sent \<and> length (filter is_head (ss_events ss)) = (if ss_committed ss then 1 else 0)"
proof -
  have "delivered (map ClientBytes bs) = concat bs" "filter is_head (map ClientBytes bs) = []" for bs
    by (induction bs) (auto simp: delivered_def is_head_def)
  with assms show ?thesis by (auto simp: stream_inv_def delivered_def is_head_def split: if_splits)
qed

lemma commitUpstream_events:
  assumes "stream_inv resp sent ss"
  shows "delivered (ss_events (commitUpstream resp ss)) = sent" "length (filter is_head (ss_events (commitUpstream resp ss))) = 1"
    "ss_finish (commitUpstream resp ss) = ss_finish ss" "ss_hasBody (commitUpstream resp ss) = ss_hasBody ss"
  using stream_inv_events [OF assms] assms
  by (auto simp: stream_inv_def commitUpstream_def emit_def delivered_def is_head_def split: if_splits)

text \<open>The outcome of the loop, before the deferred settlement.\<close>

definition stream_result ::
  "upstream_response \<Rightarrow> keyDecision \<Rightarrow> bool \<Rightarrow> stream_state \<Rightarrow> bool" where
  "stream_result resp decision abort ss \<longleftrightarrow>
     length (filter is_head (ss_events ss)) \<le> 1 \<and> (\<exists>rest. upstream_bytes resp = delivered (ss_events ss) @ rest) \<and>
     (ss_finish ss = [] \<longrightarrow> \<not> abort) \<and>
     (se_ctx (ur_end resp) = None \<longrightarrow> length (filter is_head (ss_events ss)) = 1) \<and>
     (\<forall>d \<in> set (ss_finish ss). d = (decision, se_full (ur_end resp)) \<and> IoEOF \<in> set (er_is (se_err (ur_end resp))) \<and>
          delivered (ss_events ss) = upstream_bytes resp \<and> length (filter is_head (ss_events ss)) = 1
        \<or> kd_statusCode (fst d) = 502 \<and> kd_action (fst d) \<in> {AttemptObserve, AttemptCooldown}) \<and>
     (IoEOF \<notin> set (er_is (se_err (ur_end resp))) \<and> \<not> isCanceledUpstreamError (se_ctx (ur_end resp)) (se_err (ur_end resp)) \<and>
        \<not> downstream_failed resp \<longrightarrow>
        ss_finish ss \<noteq> [] \<and> (ur_StatusCode resp < 400 \<longrightarrow> abort \<or> ss_events ss = [ClientError ''upstream response interrupted'' 502]))"

lemma classifyRequestError_action: "kd_action (classifyRequestError policy m) \<in> {AttemptObserve, AttemptCooldown}"
  by (simp add: classifyRequestError_def cooldownDecision_action Let_def)

lemma stream_inv_finish [simp]:
  "stream_inv resp sent (finishReadFailure policy e ss) = stream_inv resp sent ss"
  "stream_inv resp sent (ask_finish d full ss) = stream_inv resp sent ss"
  by (simp_all add: stream_inv_def finishReadFailure_def ask_finish_def)

lemma finishReadFailure_fields [simp]:
  "ss_events (finishReadFailure policy e ss) = ss_events ss" "ss_committed (finishReadFailure policy e ss) = ss_committed ss"
  "ss_hasBody (finishReadFailure policy e ss) = ss_hasBody ss" "ss_flusher (finishReadFailure policy e ss) = ss_flusher ss"
  "ss_finish (finishReadFailure policy e ss) = ss_finish ss @
     [((classifyRequestError policy (''upstream response interrupted: '' @ e))\<lparr>kd_statusCode := 502\<rparr>, - 1)]"
  by (simp_all add: finishReadFailure_def ask_finish_def)

lemma end_of_body_result:
  assumes inv: "stream_inv resp (upstream_bytes resp) ss" and e: "end_of_body std policy method path decision resp ss = (abort, ss')"
    and fin: "ss_finish ss = (if IoEOF \<notin> set (er_is (se_err (ur_end resp))) \<and>
        \<not> isCanceledUpstreamError (se_ctx (ur_end resp)) (se_err (ur_end resp)) then [(d, n)] else [])"
    and d: "kd_statusCode d = 502" "kd_action d \<in> {AttemptObserve, AttemptCooldown}"
  shows "stream_result resp decision abort ss'"
proof -
  note ev = stream_inv_events [OF inv]
  note co = commitUpstream_events [OF inv]
  let ?eof = "IoEOF \<in> set (er_is (se_err (ur_end resp)))"
  let ?can = "isCanceledUpstreamError (se_ctx (ur_end resp)) (se_err (ur_end resp))"
  have none: "ss_events ss = [] \<and> upstream_bytes resp = []" if "\<not> ss_committed ss" using inv that by (simp add: stream_inv_def)
  have body: "ss_hasBody ss = ss_committed ss" using inv by (simp add: stream_inv_def split: if_splits)
  consider (eof) ?eof | (can) "\<not> ?eof" ?can | (cut) "\<not> ?eof" "\<not> ?can" by blast
  then show ?thesis
  proof cases
    case eof
    show ?thesis
    proof (cases "\<not> ss_hasBody ss \<and> expectsUpstreamResponseBody std method path resp")
      case True
      have "abort = False" "ss' = emit (ClientError ''upstream returned an empty response'' 502) (finishReadFailure policy ''empty upstream response'' ss)"
        using e eof True by (simp_all add: end_of_body_def Let_def)
      then show ?thesis
        using True eof fin none body classifyRequestError_action
        by (simp add: stream_result_def emit_def delivered_def is_head_def)
    next
      case False
      then have "abort = False" "ss' = commitUpstream resp ss \<or> ss' = ask_finish decision (se_full (ur_end resp)) (commitUpstream resp ss)"
        using e eof by (auto simp: end_of_body_def Let_def split: if_splits)
      then show ?thesis using eof fin co by (auto simp: stream_result_def ask_finish_def)
    qed
  next
    case can
    then have "abort = False" "ss' = ss" using e by (simp_all add: end_of_body_def Let_def)
    moreover have "se_ctx (ur_end resp) \<noteq> None" using can by (metis isCanceledUpstreamError_alive)
    ultimately show ?thesis using can fin ev by (auto simp: stream_result_def)
  next
    case cut
    then show ?thesis
      using e fin d ev co none
      by (auto simp: stream_result_def end_of_body_def Let_def emit_def delivered_def is_head_def split: if_splits)
  qed
qed

lemma last_read_result:
  assumes inv: "stream_inv resp (concat (map sc_bytes (ur_chunks resp))) ss" and fin: "ss_finish ss = []"
    and l: "last_read std policy method path decision resp ss = (abort, ss')"
  shows "stream_result resp decision abort ss'"
proof -
  let ?cut = "IoEOF \<notin> set (er_is (se_err (ur_end resp))) \<and> \<not> isCanceledUpstreamError (se_ctx (ur_end resp)) (se_err (ur_end resp))"
  define d where "d = (classifyRequestError policy (''upstream response interrupted: '' @ er_text (se_err (ur_end resp))))\<lparr>kd_statusCode := 502\<rparr>"
  define s1 where "s1 = (if ?cut then finishReadFailure policy (er_text (se_err (ur_end resp))) ss else ss)"
  have s1: "stream_inv resp (concat (map sc_bytes (ur_chunks resp))) s1" "ss_finish s1 = (if ?cut then [(d, - 1)] else [])"
    using inv fin by (simp_all add: s1_def d_def)
  have d: "kd_statusCode d = 502" "kd_action d \<in> {AttemptObserve, AttemptCooldown}"
    using classifyRequestError_action by (simp_all add: d_def)
  obtain go s2 where f: "forward_chunk resp (se_chunk (ur_end resp)) s1 = (go, s2)" by fastforce
  from forward_chunk_inv [OF s1(1) f] obtain sent where s2: "stream_inv resp sent s2" "ss_finish s2 = ss_finish s1"
    "\<exists>rest. upstream_bytes resp = sent @ rest" "go \<longrightarrow> sent = upstream_bytes resp" by (auto simp: upstream_bytes_def)
  show ?thesis
  proof (cases go)
    case True
    then have "end_of_body std policy method path decision resp s2 = (abort, ss')"
      using l f by (simp add: last_read_def Let_def s1_def)
    with s2 s1(2) d True show ?thesis by (intro end_of_body_result [where d = d and n = "- 1"]) auto
  next
    case False
    then have "abort = False" "ss' = s2" using l f by (simp_all add: last_read_def Let_def s1_def)
    moreover have "downstream_failed resp \<and> ss_committed s2"
      using forward_chunk_stop [of resp "se_chunk (ur_end resp)" s1 s2] f False by (auto simp: downstream_failed_def)
    ultimately show ?thesis
      using s2(2,3) s1(2) d stream_inv_events [OF s2(1)] by (auto simp: stream_result_def)
  qed
qed

lemma loop_result:
  assumes "(case copy_chunks resp (ur_chunks resp)
        \<lparr>ss_committed = False, ss_hasBody = False, ss_flusher = streaming, ss_events = [], ss_finish = []\<rparr> of
      (False, ss) \<Rightarrow> (False, ss) | (True, ss) \<Rightarrow> last_read std policy method path decision resp ss) = (abort, ss')"
  shows "stream_result resp decision abort ss'"
proof -
  define init where "init = \<lparr>ss_committed = False, ss_hasBody = False, ss_flusher = streaming, ss_events = [], ss_finish = []\<rparr>"
  obtain go s1 where c: "copy_chunks resp (ur_chunks resp) init = (go, s1)" by fastforce
  have "stream_inv resp [] init" by (simp add: stream_inv_def init_def)
  from copy_chunks_inv [OF this c] obtain sent where s1: "stream_inv resp sent s1" "ss_finish s1 = []"
    "\<exists>rest. concat (map sc_bytes (ur_chunks resp)) = sent @ rest" "go \<longrightarrow> sent = concat (map sc_bytes (ur_chunks resp))"
    by (auto simp: init_def)
  show ?thesis
  proof (cases go)
    case True
    with assms c s1 show ?thesis by (intro last_read_result) (simp_all add: init_def [symmetric])
  next
    case False
    then have "abort = False" "ss' = s1" using assms c by (simp_all add: init_def [symmetric])
    moreover have "downstream_failed resp \<and> ss_committed s1"
      using copy_chunks_stop [of resp "ur_chunks resp" init s1] c False by (auto simp: downstream_failed_def)
    moreover obtain rest where "concat (map sc_bytes (ur_chunks resp)) = sent @ rest" using s1(3) by blast
    then have "\<exists>rest. upstream_bytes resp = sent @ rest" by (simp add: upstream_bytes_def)
    ultimately show ?thesis
      using s1(2) stream_inv_events [OF s1(1)] by (simp add: stream_result_def)
  qed
qed

text \<open>What a caller needs of a delivery: at least one settlement is asked for, the client sees at most one
  response head, and the first settlement reports a success only for a complete delivery.\<close>

lemma writeUpstreamResponse_result:
  assumes "writeUpstreamResponse std policy method path streaming decision resp = (abort, ss)"
  obtains ss0 where "stream_result resp decision abort ss0" "ss_events ss = ss_events ss0"
    "ss_finish ss = ss_finish ss0 @ [(interruptedDecision, - 1)]"
proof -
  obtain ss0 where "(case copy_chunks resp (ur_chunks resp)
        \<lparr>ss_committed = False, ss_hasBody = False, ss_flusher = streaming, ss_events = [], ss_finish = []\<rparr> of
      (False, ss) \<Rightarrow> (False, ss) | (True, ss) \<Rightarrow> last_read std policy method path decision resp ss) = (abort, ss0)"
    "ss = ask_finish interruptedDecision (- 1) ss0"
    using assms by (auto simp: writeUpstreamResponse_def Let_def split: prod.splits)
  with loop_result [OF this(1)] show ?thesis by (intro that) (simp_all add: ask_finish_def)
qed

section \<open>Properties\<close>

text \<open>C8: A truncated response is never passed off as a success.  What the client receives is a prefix of
  what the upstream sent, after at most one response head.  The attempt is first settled as a success
  only when the upstream reached its end and the client received every byte.  When the upstream breaks
  off (not the client), the attempt is settled as a failure with status 502, and unless the client's
  connection failed too, a response below 400 is either replaced by an error or its connection is
  aborted.\<close>

theorem truncated_never_success:
  assumes "kd_action decision = AttemptSuccess"
    and "writeUpstreamResponse std policy method path streaming decision resp = (abort, ss)"
  shows "(\<exists>rest. upstream_bytes resp = delivered (ss_events ss) @ rest) \<and> length (filter is_head (ss_events ss)) \<le> 1 \<and>
    ss_finish ss \<noteq> [] \<and>
    (kd_action (fst (hd (ss_finish ss))) = AttemptSuccess \<longrightarrow>
       IoEOF \<in> set (er_is (se_err (ur_end resp))) \<and> delivered (ss_events ss) = upstream_bytes resp) \<and>
    (IoEOF \<notin> set (er_is (se_err (ur_end resp))) \<and> \<not> isCanceledUpstreamError (se_ctx (ur_end resp)) (se_err (ur_end resp)) \<and>
       \<not> downstream_failed resp \<longrightarrow>
       kd_statusCode (fst (hd (ss_finish ss))) = 502 \<and> kd_action (fst (hd (ss_finish ss))) \<in> {AttemptObserve, AttemptCooldown} \<and>
       (ur_StatusCode resp < 400 \<longrightarrow> abort \<or> ss_events ss = [ClientError ''upstream response interrupted'' 502]))"
proof -
  obtain ss0 where s: "stream_result resp decision abort ss0" "ss_events ss = ss_events ss0"
    "ss_finish ss = ss_finish ss0 @ [(interruptedDecision, - 1)]"
    using writeUpstreamResponse_result [OF assms(2)] .
  have i: "kd_action interruptedDecision = AttemptInterrupted" by (simp add: interruptedDecision_def)
  show ?thesis
  proof (cases "ss_finish ss0")
    case Nil
    with s i show ?thesis by (auto simp: stream_result_def)
  next
    case (Cons d ds)
    then have d: "hd (ss_finish ss) = d" "d \<in> set (ss_finish ss0)" using s(3) by simp_all
    show ?thesis
      using s(1) d assms(1) unfolding stream_result_def s(2)
      by (auto simp: s(3) Cons)
  qed
qed

abbreviation fine_chunk :: "string \<Rightarrow> stream_chunk" where
  "fine_chunk b \<equiv> \<lparr>sc_bytes = b, sc_writeOk = True, sc_flush = FlushOk\<rparr>"

definition broken_response :: upstream_response where
  "broken_response = \<lparr>ur_StatusCode = 200, ur_Header = [], ur_ContentLength = - 1, ur_chunks = [fine_chunk ''par''],
     ur_end = \<lparr>se_chunk = fine_chunk [], se_err = \<lparr>er_is = [UpstreamBodyTimeout], er_text = ''timeout''\<rparr>, se_ctx = None,
       se_full = 5, se_emptyFlush = FlushOk\<rparr>\<rparr>"

definition successDecision :: "int \<Rightarrow> keyDecision" where
  "successDecision code = \<lparr>kd_action = AttemptSuccess, kd_statusCode = code, kd_cooldown = 0, kd_reason = [], kd_failover = False\<rparr>"

theorem truncated_never_success_witness:
  "fst (writeUpstreamResponse plain_lib sample_policy ''POST'' ''/v1/messages'' True (successDecision 200) broken_response)"
proof -
  obtain abort ss where w: "writeUpstreamResponse plain_lib sample_policy ''POST'' ''/v1/messages'' True (successDecision 200) broken_response = (abort, ss)"
    by fastforce
  have ev: "ss_events (snd (writeUpstreamResponse plain_lib sample_policy ''POST'' ''/v1/messages'' True (successDecision 200) broken_response)) =
      [ClientStatus 200 [], ClientBytes ''par'']" by code_simp
  have "IoEOF \<notin> set (er_is (se_err (ur_end broken_response)))"
    "\<not> isCanceledUpstreamError (se_ctx (ur_end broken_response)) (se_err (ur_end broken_response))" "\<not> downstream_failed broken_response"
    "ur_StatusCode broken_response < 400" "kd_action (successDecision 200) = AttemptSuccess"
    by (simp_all add: broken_response_def isCanceledUpstreamError_def downstream_failed_def successDecision_def)
  with truncated_never_success [OF _ w] have "abort \<or> ss_events ss = [ClientError ''upstream response interrupted'' 502]" by blast
  with ev w show ?thesis by simp
qed

end
