(* ===== verification/RequestExec.thy ===== *)
theory RequestExec
  imports AggregatePool ResponseStream PoolPick
begin

text \<open>
  The life of one client request, from \<open>internal/gateway/router.go\<close>, \<open>attempt_timing.go\<close> and the attempt
  part of \<open>vendor_proxy.go\<close>: authorisation, the body, the attempts with the keys of a vendor, the switch
  between the children of an aggregate, settlement of each attempt with the key pool, and the answer
  to the client.

  What the request cannot decide is an argument: for the attempt with number \<open>n\<close> the record \<open>env n\<close> says
  what other requests did to the shared state before the attempt and while it was running, what the clock
  showed, and what the upstream answered.  Everything the request does that is visible from outside is
  recorded in a log of events, over which the theorems are stated.
\<close>

section \<open>The budget of a request\<close>

record requestExecution =
  ex_maxAttempts :: int
  ex_attempts :: int
  ex_tried :: "string set"
  ex_triedIndexes :: "string \<Rightarrow> int set"

definition newRequestExecution :: "int \<Rightarrow> requestExecution" where
  "newRequestExecution maxAttempts =
     \<lparr>ex_maxAttempts = (if maxAttempts \<le> 0 then DefaultMaxUpstreamAttempts else maxAttempts),
      ex_attempts = 0, ex_tried = {}, ex_triedIndexes = (\<lambda>_. {})\<rparr>"

definition consumeAttempt :: "requestExecution \<Rightarrow> bool \<times> requestExecution" where
  "consumeAttempt e =
     (if ex_attempts e \<ge> ex_maxAttempts e then (False, e) else (True, e\<lparr>ex_attempts := ex_attempts e + 1\<rparr>))"

definition hasBudget :: "requestExecution \<Rightarrow> bool" where
  "hasBudget e \<longleftrightarrow> ex_attempts e < ex_maxAttempts e"

definition executionTargetKey :: "vendorGateway \<Rightarrow> string \<Rightarrow> string" where
  "executionTargetKey v selectedKey = vg_id v @ CHR 0x00 # selectedKey"

definition hasTried :: "vendorGateway \<Rightarrow> string \<Rightarrow> requestExecution \<Rightarrow> bool" where
  "hasTried v selectedKey e \<longleftrightarrow> executionTargetKey v selectedKey \<in> ex_tried e"

definition triedKeyIndexes :: "vendorGateway \<Rightarrow> requestExecution \<Rightarrow> int set" where
  "triedKeyIndexes v e = ex_triedIndexes e (vg_id v)"

definition markTried :: "vendorGateway \<Rightarrow> string \<Rightarrow> int \<Rightarrow> requestExecution \<Rightarrow> requestExecution" where
  "markTried v selectedKey idx e =
     (let e = e\<lparr>ex_tried := insert (executionTargetKey v selectedKey) (ex_tried e)\<rparr>
      in if idx \<ge> 0 \<and> usesManagedUpstreamKeys v
         then e\<lparr>ex_triedIndexes := (ex_triedIndexes e)(vg_id v := insert idx (ex_triedIndexes e (vg_id v)))\<rparr>
         else e)"

section \<open>State of a request\<close>

text \<open>Events: a key was acquired, released without a result, used for an upstream request, settled; a status
  change was handed to the key store; the client saw something.\<close>

datatype event = EvAcquire string int | EvRelease string int | EvSend string int string
  | EvSettle string int keyDecision | EvPersist string string int string | EvClient client_event

record upstreamAttempt =
  at_idx :: int
  at_selectedVersion :: int
  at_selectedKey :: string
  at_headerElapsed :: duration
  at_finished :: bool

record rq_state =
  q_exec :: requestExecution
  q_world :: world
  q_log :: "event list"

definition logs :: "event list \<Rightarrow> rq_state \<Rightarrow> rq_state" where
  "logs es s = s\<lparr>q_log := q_log s @ es\<rparr>"

definition set_heap :: "heap \<Rightarrow> rq_state \<Rightarrow> rq_state" where
  "set_heap hp s = s\<lparr>q_world := (q_world s)\<lparr>w_heap := hp\<rparr>\<rparr>"

definition set_pool :: "vendorGateway \<Rightarrow> Pool \<Rightarrow> heap \<Rightarrow> rq_state \<Rightarrow> rq_state" where
  "set_pool v p hp s =
     s\<lparr>q_world := (q_world s)\<lparr>w_pools := (w_pools (q_world s))(vg_id v := p), w_heap := hp\<rparr>\<rparr>"

abbreviation pool_of :: "vendorGateway \<Rightarrow> rq_state \<Rightarrow> Pool" where
  "pool_of v s \<equiv> w_pools (q_world s) (vg_id v)"

abbreviation heap_of :: "rq_state \<Rightarrow> heap" where
  "heap_of s \<equiv> w_heap (q_world s)"

section \<open>The environment of an attempt\<close>

datatype build_result = BuildOk | BuildDisconnect | BuildFailed

datatype preview = PreviewFailed go_error "sentinel option" | Preview string

text \<open>The answer to an upstream request: an error with the state of the client's context, or a response with
  the decoded preview of an error body and the time until its headers.\<close>

datatype upstream_reply = ReplyError go_error "sentinel option" | Reply upstream_response preview duration

record attempt_env =
  av_before :: "world \<Rightarrow> world"
  av_choice :: nat
  av_acquireNow :: time
  av_targetURL :: "string option"
  av_build :: build_result
  av_during :: "world \<Rightarrow> world"
  av_reply :: upstream_reply
  av_policyNow :: time
  av_settleNow :: "time \<times> time"
  av_checkNow :: time
  av_streamParam :: string

section \<open>Attempts\<close>

datatype attempt_result = AttemptFailed string int | AttemptGone | AttemptReady upstreamAttempt

definition release_managed :: "vendorGateway \<Rightarrow> int \<Rightarrow> rq_state \<Rightarrow> rq_state" where
  "release_managed v idx s =
     (if usesManagedUpstreamKeys v
      then logs [EvRelease (vg_id v) idx] (set_heap (Release idx (pool_of v s) (heap_of s)) s) else s)"

definition build_attempt ::
  "attempt_env \<Rightarrow> vendorGateway \<Rightarrow> int \<Rightarrow> string \<Rightarrow> int \<Rightarrow> rq_state \<Rightarrow> attempt_result \<times> rq_state" where
  "build_attempt env v idx selectedKey selectedVersion s =
     (case av_targetURL env of
        Some message \<Rightarrow> (AttemptFailed message 502, release_managed v idx s)
      | None \<Rightarrow>
          (case av_build env of
             BuildDisconnect \<Rightarrow> (AttemptGone, release_managed v idx s)
           | BuildFailed \<Rightarrow> (AttemptFailed ''build upstream request failed'' 500, release_managed v idx s)
           | BuildOk \<Rightarrow>
               (AttemptReady \<lparr>at_idx = idx, at_selectedVersion = selectedVersion, at_selectedKey = selectedKey,
                  at_headerElapsed = 0, at_finished = False\<rparr>, s)))"

definition newAttempt ::
  "attempt_env \<Rightarrow> vendorGateway \<Rightarrow> header \<Rightarrow> int set \<Rightarrow> int list option \<Rightarrow> rq_state \<Rightarrow> attempt_result \<times> rq_state" where
  "newAttempt env v headers excluded allowedKeyIdxs s =
     (let s = s\<lparr>q_world := av_before env (q_world s)\<rparr> in
      if usesManagedUpstreamKeys v then
        (case AcquireVersioned (av_choice env) (av_acquireNow env) excluded allowedKeyIdxs (heap_of s) (pool_of v s) of
           (None, p, hp) \<Rightarrow> (AttemptFailed ''all vendor keys in cooldown or disabled'' 503, set_pool v p hp s)
         | (Some (idx, selectedKey, selectedVersion), p, hp) \<Rightarrow>
             build_attempt env v idx selectedKey selectedVersion (logs [EvAcquire (vg_id v) idx] (set_pool v p hp s)))
      else build_attempt env v (- 1) (passthroughUpstreamKey v headers) 0 s)"

definition hasAvailableKey :: "time \<Rightarrow> vendorGateway \<Rightarrow> int set \<Rightarrow> int list option \<Rightarrow> world \<Rightarrow> bool" where
  "hasAvailableKey now v excluded allowedKeyIdxs w =
     (if \<not> usesManagedUpstreamKeys v then False
      else HasAvailableAllowed now excluded allowedKeyIdxs (w_heap w) (w_pools w (vg_id v)))"

text \<open>\<open>finish\<close> is the boundary behind which an attempt is settled once.\<close>

definition finish ::
  "attempt_env \<Rightarrow> vendorGateway \<Rightarrow> keyDecision \<Rightarrow> duration \<Rightarrow> upstreamAttempt \<times> rq_state \<Rightarrow> upstreamAttempt \<times> rq_state" where
  "finish env v decision full = (\<lambda>(a, s).
     if at_finished a then (a, s)
     else
       let a = a\<lparr>at_finished := True\<rparr> in
       if \<not> usesManagedUpstreamKeys v \<or> at_idx a < 0 then (a, s)
       else
         let (disabled, hp) = CompleteAttempt (fst (av_settleNow env)) (snd (av_settleNow env)) (at_idx a) (at_selectedVersion a)
               \<lparr>ar_Action = kd_action decision, ar_StatusCode = kd_statusCode decision, ar_Reason = kd_reason decision,
                ar_Cooldown = kd_cooldown decision, ar_HeaderElapsed = at_headerElapsed a, ar_FullElapsed = full\<rparr>
               (pool_of v s) (heap_of s);
             s = logs [EvSettle (vg_id v) (at_idx a) decision] (set_heap hp s)
         in (a, if disabled
                then logs [EvPersist (vg_id v) (at_selectedKey a) (at_selectedVersion a) (kd_reason decision)] s else s))"

section \<open>Answers of the gateway itself\<close>

definition writeHTTPError :: "string \<Rightarrow> int \<Rightarrow> rq_state \<Rightarrow> rq_state" where
  "writeHTTPError message statusCode s = logs [EvClient (ClientError message statusCode)] s"

definition writeMaskableGatewayError :: "std_lib \<Rightarrow> vendorGateway \<Rightarrow> string \<Rightarrow> int \<Rightarrow> rq_state \<Rightarrow> rq_state" where
  "writeMaskableGatewayError std v message statusCode s =
     (case matchGatewayErrorMask (vg_errorPolicy v) statusCode message of
        Some rule \<Rightarrow> logs [EvClient (ClientMasked (buildMaskedResponse std rule []))] s
      | None \<Rightarrow> writeHTTPError message statusCode s)"

section \<open>One attempt\<close>

record preparedProxyRequest =
  pp_vendor :: vendorGateway
  pp_path :: string
  pp_bodySource :: requestBodySource
  pp_allowedKeyIdxs :: "int list option"
  pp_aggregateChildID :: string

datatype step_result = StepRetryKey | StepRetryChild | StepDone

type_synonym aggregateRetryHook = "int \<Rightarrow> go_error option \<Rightarrow> rq_state \<Rightarrow> bool"

definition call_hook :: "aggregateRetryHook option \<Rightarrow> int \<Rightarrow> go_error option \<Rightarrow> rq_state \<Rightarrow> bool" where
  "call_hook hook statusCode err s = (case hook of None \<Rightarrow> False | Some h \<Rightarrow> h statusCode err s)"

text \<open>The upstream request failed without a response.\<close>

definition request_failed ::
  "std_lib \<Rightarrow> attempt_env \<Rightarrow> preparedProxyRequest \<Rightarrow> aggregateRetryHook option \<Rightarrow> bool \<Rightarrow> upstreamAttempt \<Rightarrow>
     go_error \<Rightarrow> sentinel option \<Rightarrow> rq_state \<Rightarrow> step_result \<times> rq_state" where
  "request_failed std env prepared hook retryRemaining attempt err ctx s =
     (let vg = pp_vendor prepared in
      if isRequestBodyReadError err then
        let s = snd (finish env vg interruptedDecision (- 1) (attempt, s))
        in (StepDone, if ctx = None \<or> ClientUploadTimeout \<in> set (er_is err)
                      then writeHTTPError ''read request body failed'' 400 s else s)
      else if isCanceledUpstreamError ctx err then
        (StepDone, snd (finish env vg interruptedDecision (- 1) (attempt, s)))
      else
        let decision = classifyRequestError (vg_errorPolicy vg) (''upstream request failed: '' @ er_text err);
            s = snd (finish env vg decision (- 1) (attempt, s))
        in if canRetryRequestError (pp_bodySource prepared) decision \<and> retryRemaining \<and>
              hasAvailableKey (av_checkNow env) vg (triedKeyIndexes vg (q_exec s)) (pp_allowedKeyIdxs prepared) (q_world s)
           then (StepRetryKey, s)
           else if call_hook hook 0 (Some err) s then (StepRetryChild, s)
           else (StepDone, writeMaskableGatewayError std vg ''upstream request failed'' 502 s))"

text \<open>An error response whose preview could not be read.\<close>

definition preview_failed ::
  "std_lib \<Rightarrow> attempt_env \<Rightarrow> preparedProxyRequest \<Rightarrow> aggregateRetryHook option \<Rightarrow> bool \<Rightarrow> upstreamAttempt \<Rightarrow>
     upstream_response \<Rightarrow> go_error \<Rightarrow> sentinel option \<Rightarrow> rq_state \<Rightarrow> step_result \<times> rq_state" where
  "preview_failed std env prepared hook retryRemaining attempt resp err ctx s =
     (let vg = pp_vendor prepared;
          decision = classifyResponse std (av_policyNow env) (vg_provider vg) (vg_errorPolicy vg) (ur_StatusCode resp) (ur_Header resp) [];
          decision = decision\<lparr>kd_reason := compactReason (kd_reason decision) (''read upstream response failed: '' @ er_text err)\<rparr>;
          s = snd (finish env vg decision (- 1) (attempt, s))
      in if isCanceledUpstreamError ctx err then (StepDone, s)
         else
           let retryDecision = classifyRequestError (vg_errorPolicy vg) ''read upstream response failed'' in
           if canRetryRequestError (pp_bodySource prepared) retryDecision \<and> retryRemaining \<and>
              hasAvailableKey (av_checkNow env) vg (triedKeyIndexes vg (q_exec s)) (pp_allowedKeyIdxs prepared) (q_world s)
           then (StepRetryKey, s)
           else if call_hook hook 0 (Some err) s then (StepRetryChild, s)
           else (StepDone, writeMaskableGatewayError std vg ''upstream request failed'' 502 s))"

text \<open>Delivery of a response; every settlement the writer asks for goes through \<open>finish\<close>.\<close>

definition deliver ::
  "std_lib \<Rightarrow> attempt_env \<Rightarrow> client_request \<Rightarrow> preparedProxyRequest \<Rightarrow> upstreamAttempt \<Rightarrow> keyDecision \<Rightarrow>
     upstream_response \<Rightarrow> rq_state \<Rightarrow> step_result \<times> rq_state" where
  "deliver std env req prepared attempt decision resp s =
     (let vg = pp_vendor prepared;
          (abort, ss) = writeUpstreamResponse std (vg_errorPolicy vg) (hr_Method req) (pp_path prepared)
            (shouldFlushResponse (av_streamParam env) (hr_Header req) (ur_Header resp)) decision resp;
          s = snd (fold (\<lambda>(d, full). finish env vg d full) (ss_finish ss) (attempt, s));
          s = logs (map EvClient (ss_events ss)) s
      in (StepDone, if abort then logs [EvClient ClientAbort] s else s))"

definition handleUpstreamResponse ::
  "std_lib \<Rightarrow> attempt_env \<Rightarrow> client_request \<Rightarrow> preparedProxyRequest \<Rightarrow> aggregateRetryHook option \<Rightarrow> bool \<Rightarrow>
     upstreamAttempt \<Rightarrow> upstream_response \<Rightarrow> preview \<Rightarrow> rq_state \<Rightarrow> step_result \<times> rq_state" where
  "handleUpstreamResponse std env req prepared hook vendorRetryRemaining attempt resp pv s =
     (let vg = pp_vendor prepared; code = ur_StatusCode resp in
      if code < 400 then deliver std env req prepared attempt (successDecision code) resp s
      else case pv of
        PreviewFailed err ctx \<Rightarrow> preview_failed std env prepared hook vendorRetryRemaining attempt resp err ctx s
      | Preview decoded \<Rightarrow>
          let (decision, maskRule) = analyzeErrorResponse std (av_policyNow env) (vg_provider vg) (vg_errorPolicy vg) code (ur_Header resp) decoded;
              (attempt, s) = finish env vg decision (- 1) (attempt, s)
          in if canRetryResponse (pp_bodySource prepared) code decision \<and> vendorRetryRemaining \<and>
                hasAvailableKey (av_checkNow env) vg (triedKeyIndexes vg (q_exec s)) (pp_allowedKeyIdxs prepared) (q_world s)
             then (StepRetryKey, s)
             else if call_hook hook code None s then (StepRetryChild, s)
             else case maskRule of
               Some rule \<Rightarrow> (StepDone, logs [EvClient (ClientMasked (buildMaskedResponse std rule (header_get (ur_Header resp) ''Retry-After'')))] s)
             | None \<Rightarrow> deliver std env req prepared attempt decision resp s)"

definition vendor_attempt ::
  "std_lib \<Rightarrow> attempt_env \<Rightarrow> client_request \<Rightarrow> preparedProxyRequest \<Rightarrow> aggregateRetryHook option \<Rightarrow> bool \<Rightarrow>
     rq_state \<Rightarrow> step_result \<times> rq_state" where
  "vendor_attempt std env req prepared hook moreAttempts s =
     (let vg = pp_vendor prepared in
      case newAttempt env vg (hr_Header req) (triedKeyIndexes vg (q_exec s)) (pp_allowedKeyIdxs prepared) s of
        (AttemptFailed message code, s) \<Rightarrow> (StepDone, writeMaskableGatewayError std vg message code s)
      | (AttemptGone, s) \<Rightarrow> (StepDone, s)
      | (AttemptReady attempt, s) \<Rightarrow>
          (case consumeAttempt (q_exec s) of
             (False, _) \<Rightarrow> (StepDone, writeHTTPError ''exceeded maximum upstream attempts'' 502 (release_managed vg (at_idx attempt) s))
           | (True, ex) \<Rightarrow>
               let ex = markTried vg (at_selectedKey attempt) (at_idx attempt) ex;
                   retryRemaining = (moreAttempts \<and> hasBudget ex);
                   s = logs [EvSend (vg_id vg) (at_idx attempt) (at_selectedKey attempt)]
                         (s\<lparr>q_exec := ex, q_world := av_during env (q_world s)\<rparr>)
               in case av_reply env of
                    ReplyError err ctx \<Rightarrow> request_failed std env prepared hook retryRemaining attempt err ctx s
                  | Reply resp pv elapsed \<Rightarrow>
                      handleUpstreamResponse std env req prepared hook retryRemaining
                        (attempt\<lparr>at_headerElapsed := elapsed\<rparr>) resp pv s))"

section \<open>The failover loop of a vendor\<close>

text \<open>The result says whether the aggregate should try another child.\<close>

function serve_loop ::
  "std_lib \<Rightarrow> (nat \<Rightarrow> attempt_env) \<Rightarrow> client_request \<Rightarrow> preparedProxyRequest \<Rightarrow> aggregateRetryHook option \<Rightarrow> int \<Rightarrow> int \<Rightarrow>
     rq_state \<Rightarrow> bool \<times> rq_state" where
  "serve_loop std env req prepared hook maxAttempts attempts s =
     (let attempts = attempts + 1 in
      if attempts > maxAttempts then (False, writeHTTPError ''exceeded maximum failover attempts'' 502 s)
      else case vendor_attempt std (env (nat (ex_attempts (q_exec s)))) req prepared hook (attempts < maxAttempts) s of
             (StepRetryKey, s) \<Rightarrow> serve_loop std env req prepared hook maxAttempts attempts s
           | (StepRetryChild, s) \<Rightarrow> (True, s)
           | (StepDone, s) \<Rightarrow> (False, s))"
  by pat_completeness auto

termination serve_loop
  by (relation "measure (\<lambda>(std, env, req, prepared, hook, maxAttempts, attempts, s). nat (maxAttempts - attempts))") auto

definition serveVendorRequestWithAggregateHook ::
  "std_lib \<Rightarrow> (nat \<Rightarrow> attempt_env) \<Rightarrow> client_request \<Rightarrow> preparedProxyRequest \<Rightarrow> aggregateRetryHook option \<Rightarrow> rq_state \<Rightarrow>
     bool \<times> rq_state" where
  "serveVendorRequestWithAggregateHook std env req prepared hook s =
     (let m = fo_MaxAttempts (ep_Failover (vg_errorPolicy (pp_vendor prepared)))
      in serve_loop std env req prepared hook (if m \<le> 0 then 5 else m) 0 s)"

section \<open>Preparing a request\<close>

datatype prepare_result = PrepError string int | PrepGone | Prepared preparedProxyRequest

definition prepareNonAggregateRequest :: "std_lib \<Rightarrow> client_request \<Rightarrow> vendorGateway \<Rightarrow> (string \<Rightarrow> string) \<Rightarrow> prepare_result" where
  "prepareNonAggregateRequest std req vg path =
     (case authorizeClient vg (hr_Header req) of
        Some e \<Rightarrow> PrepError (auth_error_text e) 401
      | None \<Rightarrow>
          (case prepareRequestBody std req (vg_shouldBufferRequestBody vg (hr_Method req)) of
             Inl err \<Rightarrow> if isClientDisconnectError err then PrepGone else PrepError ''read request body failed'' 400
           | Inr bodySource \<Rightarrow>
               Prepared \<lparr>pp_vendor = vg, pp_path = path (vg_id vg), pp_bodySource = bodySource, pp_allowedKeyIdxs = None,
                         pp_aggregateChildID = []\<rparr>))"

text \<open>What an aggregate request reads before it picks a child: the state other requests left, the random source
  and the clock, which is read for each child.\<close>

record aggregate_env =
  ag_before :: "world \<Rightarrow> world"
  ag_choice :: nat
  ag_now :: "string \<Rightarrow> time"
  ag_hookNow :: "string \<Rightarrow> time"

definition aggregateChildAvailableForExecution ::
  "(string \<Rightarrow> time) \<Rightarrow> client_request \<Rightarrow> requestExecution \<Rightarrow> world \<Rightarrow> aggregateChildEntry \<Rightarrow> bool" where
  "aggregateChildAvailableForExecution now req execution w child =
     (case ce_vendor child of
        None \<Rightarrow> False
      | Some v \<Rightarrow>
          if \<not> usesManagedUpstreamKeys v then \<not> hasTried v (passthroughUpstreamKey v (hr_Header req)) execution
          else hasAvailableKey (now (ce_id child)) v (triedKeyIndexes v execution) (ce_keyIdxs child) w)"

definition prepareAggregateRequest ::
  "std_lib \<Rightarrow> aggregate_env \<Rightarrow> client_request \<Rightarrow> vendorGateway \<Rightarrow> (string \<Rightarrow> string) \<Rightarrow> string set \<Rightarrow> requestBodySource option \<Rightarrow> rq_state \<Rightarrow>
     prepare_result \<times> rq_state" where
  "prepareAggregateRequest std genv req agg path exclude bodySource s =
     (let w = ag_before genv (q_world s);
          (picked, p) = PickAvailable w (ag_choice genv)
            (aggregateChildAvailableForExecution (ag_now genv) req (q_exec s) w) exclude (w_aggs w (vg_id agg));
          s = s\<lparr>q_world := w\<lparr>w_aggs := (w_aggs w)(vg_id agg := p)\<rparr>\<rparr>
      in case picked of
           None \<Rightarrow> (PrepError ''no available child vendor'' 503, s)
         | Some i \<Rightarrow>
             let child = ap_entries p ! i; v = the (ce_vendor child);
                 body = (case bodySource of
                     Some b \<Rightarrow> Inr b
                   | None \<Rightarrow> prepareRequestBody std req
                       (vg_shouldBufferRequestBody v (hr_Method req) \<or> boolOrDefault (rc_Enabled (vg_aggRetry agg)) True))
             in (case body of
                   Inl err \<Rightarrow> if isClientDisconnectError err then PrepGone else PrepError ''read request body failed'' 400
                 | Inr b \<Rightarrow> Prepared \<lparr>pp_vendor = v, pp_path = path (vg_id v), pp_bodySource = b, pp_allowedKeyIdxs = ce_keyIdxs child,
                                       pp_aggregateChildID = ce_id child\<rparr>, s))"

section \<open>Aggregate requests\<close>

text \<open>The closure \<open>shouldRetryAggregate\<close>; \<open>final\<close> says that this is the last child attempt.\<close>

definition shouldRetryAggregate ::
  "aggregate_env \<Rightarrow> client_request \<Rightarrow> vendorGateway \<Rightarrow> bool \<Rightarrow> string set \<Rightarrow> preparedProxyRequest \<Rightarrow> aggregateRetryHook" where
  "shouldRetryAggregate genv req agg final exclude prepared statusCode err s =
     (if final then False
      else if \<not> hasBudget (q_exec s) then False
      else if \<not> aggregateRetryable statusCode err (vg_aggRetry agg) then False
      else if \<not> canRetryAggregate (pp_bodySource prepared) statusCode err then False
      else HasAvailable (q_world s)
             (aggregateChildAvailableForExecution (ag_hookNow genv) req (q_exec s) (q_world s))
             (insert (pp_aggregateChildID prepared) exclude) (w_aggs (q_world s) (vg_id agg)))"

text \<open>The loop over children; the number is how many child attempts are left, and the body is kept from the
  first child on.\<close>

fun aggregate_loop ::
  "std_lib \<Rightarrow> (nat \<Rightarrow> attempt_env) \<Rightarrow> (nat \<Rightarrow> aggregate_env) \<Rightarrow> client_request \<Rightarrow> vendorGateway \<Rightarrow> (string \<Rightarrow> string) \<Rightarrow> nat \<Rightarrow> string set \<Rightarrow>
     requestBodySource option \<Rightarrow> rq_state \<Rightarrow> rq_state" where
  "aggregate_loop std env genv req agg path 0 exclude bodySource s = s"
| "aggregate_loop std env genv req agg path (Suc n) exclude bodySource s =
     (case prepareAggregateRequest std (genv n) req agg path exclude bodySource s of
        (PrepError message code, s) \<Rightarrow> writeHTTPError message code s
      | (PrepGone, s) \<Rightarrow> s
      | (Prepared prepared, s) \<Rightarrow>
          (case serveVendorRequestWithAggregateHook std env req prepared
                  (Some (shouldRetryAggregate (genv n) req agg (n = 0) exclude prepared)) s of
             (True, s) \<Rightarrow> aggregate_loop std env genv req agg path n (insert (pp_aggregateChildID prepared) exclude)
                            (Some (case bodySource of None \<Rightarrow> pp_bodySource prepared | Some b \<Rightarrow> b)) s
           | (False, s) \<Rightarrow> s))"

definition initial_state :: "vendorGateway \<Rightarrow> world \<Rightarrow> rq_state" where
  "initial_state v w = \<lparr>q_exec = newRequestExecution (maxUpstreamAttempts v), q_world = w, q_log = []\<rparr>"

definition serveAggregateRequest ::
  "std_lib \<Rightarrow> (nat \<Rightarrow> attempt_env) \<Rightarrow> (nat \<Rightarrow> aggregate_env) \<Rightarrow> client_request \<Rightarrow> vendorGateway \<Rightarrow> (string \<Rightarrow> string) \<Rightarrow> world \<Rightarrow> rq_state" where
  "serveAggregateRequest std env genv req agg path w =
     (let s = initial_state agg w in
      case authorizeClient agg (hr_Header req) of
        Some e \<Rightarrow> writeHTTPError (auth_error_text e) 401 s
      | None \<Rightarrow>
          if \<not> boolOrDefault (rc_Enabled (vg_aggRetry agg)) True then
            (case prepareAggregateRequest std (genv 0) req agg path {} None s of
               (PrepError message code, s) \<Rightarrow> writeHTTPError message code s
             | (PrepGone, s) \<Rightarrow> s
             | (Prepared prepared, s) \<Rightarrow> snd (serveVendorRequestWithAggregateHook std env req prepared None s))
          else
            let m = rc_MaxAttempts (vg_aggRetry agg)
            in aggregate_loop std env genv req agg path (nat (if m \<le> 0 then 2 else m)) {} None s)"

definition serveVendorRequest ::
  "std_lib \<Rightarrow> (nat \<Rightarrow> attempt_env) \<Rightarrow> client_request \<Rightarrow> preparedProxyRequest \<Rightarrow> world \<Rightarrow> rq_state" where
  "serveVendorRequest std env req prepared w =
     snd (serveVendorRequestWithAggregateHook std env req prepared None (initial_state (pp_vendor prepared) w))"

text \<open>\<open>ServeHTTP\<close> from the point where the vendor of the request is known.  The argument \<open>path\<close> gives for
  each vendor the path of the URL of the upstream request: the routed path after the rewriting rules,
  joined to the base URL of the vendor.\<close>

definition serve_vendor ::
  "std_lib \<Rightarrow> (nat \<Rightarrow> attempt_env) \<Rightarrow> (nat \<Rightarrow> aggregate_env) \<Rightarrow> client_request \<Rightarrow> vendorGateway \<Rightarrow> (string \<Rightarrow> string) \<Rightarrow> world \<Rightarrow> rq_state" where
  "serve_vendor std env genv req vg path w =
     (if vg_isAggregate vg then serveAggregateRequest std env genv req vg path w
      else case prepareNonAggregateRequest std req vg path of
             PrepError message code \<Rightarrow> writeHTTPError message code (initial_state vg w)
           | PrepGone \<Rightarrow> initial_state vg w
           | Prepared prepared \<Rightarrow> serveVendorRequest std env req prepared w)"

end
