(* ===== verification/RequestEffects.thy ===== *)
theory RequestEffects
  imports RequestExec
begin

text \<open>
  What one client request may do, part one: readings of the event log, and for each operation that follows
  an upstream request its effect on the log, on the budget and on the shared state.  The predicate
  \<open>handled\<close> collects what every way of dealing with an upstream answer has in common; the loops build
  on it in the theory \<open>RequestSafety\<close>.
\<close>

section \<open>Readings of the log\<close>

definition send_of :: "event \<Rightarrow> (string \<times> int \<times> string) option" where
  "send_of e = (case e of EvSend v i k \<Rightarrow> Some (v, i, k) | _ \<Rightarrow> None)"

definition sends :: "event list \<Rightarrow> (string \<times> int \<times> string) list" where
  "sends es = List.map_filter send_of es"

text \<open>A managed key is identified by its index, a passed-through key by its text.\<close>

definition target :: "string \<times> int \<times> string \<Rightarrow> string \<times> int \<times> string" where
  "target = (\<lambda>(v, i, k). (v, i, if 0 \<le> i then [] else k))"

definition open_of :: "string \<Rightarrow> int \<Rightarrow> event \<Rightarrow> int" where
  "open_of v i e = (case e of
      EvAcquire w j \<Rightarrow> if w = v \<and> j = i then 1 else 0
    | EvRelease w j \<Rightarrow> if w = v \<and> j = i then - 1 else 0
    | EvSettle w j _ \<Rightarrow> if w = v \<and> j = i then - 1 else 0
    | _ \<Rightarrow> 0)"

definition open_count :: "event list \<Rightarrow> string \<Rightarrow> int \<Rightarrow> int" where
  "open_count es v i = sum_list (map (open_of v i) es)"

definition event_head :: "event \<Rightarrow> bool" where
  "event_head e = (case e of EvClient c \<Rightarrow> is_head c | _ \<Rightarrow> False)"

definition heads :: "event list \<Rightarrow> nat" where
  "heads es = length (filter event_head es)"

definition guard_events :: "event set" where
  "guard_events = {EvClient (ClientError ''exceeded maximum failover attempts'' 502),
     EvClient (ClientError ''exceeded maximum upstream attempts'' 502)}"

lemma log_append [simp]:
  "sends (a @ b) = sends a @ sends b" "open_count (a @ b) v i = open_count a v i + open_count b v i"
  "heads (a @ b) = heads a + heads b"
  by (simp_all add: sends_def open_count_def heads_def List.map_filter_def)

lemma log_Nil [simp]: "sends [] = []" "open_count [] v i = 0" "heads [] = 0"
  by (simp_all add: sends_def open_count_def heads_def)

lemma log_Cons [simp]:
  "sends [e] = (case send_of e of None \<Rightarrow> [] | Some x \<Rightarrow> [x])" "open_count [e] v i = open_of v i e"
  "heads [e] = (if event_head e then 1 else 0)"
  by (simp_all add: sends_def open_count_def heads_def List.map_filter_simps split: option.split)

lemma log_clients [simp]:
  "sends (map EvClient es) = []" "open_count (map EvClient es) v i = 0" "heads (map EvClient es) = length (filter is_head es)"
  by (induction es) (simp_all add: sends_def open_count_def heads_def List.map_filter_simps send_of_def open_of_def event_head_def)

section \<open>Effects\<close>

text \<open>What an operation after the upstream request does: it settles one acquired key or none, shows the client
  \<open>h\<close> response heads, and leaves the budget, the pools and the aggregates alone.\<close>

definition effect :: "rq_state \<Rightarrow> rq_state \<Rightarrow> (string \<times> int) option \<Rightarrow> nat \<Rightarrow> bool" where
  "effect s s' settled h \<longleftrightarrow>
     q_exec s' = q_exec s \<and> w_pools (q_world s') = w_pools (q_world s) \<and> w_aggs (q_world s') = w_aggs (q_world s) \<and>
     (\<exists>es. q_log s' = q_log s @ es \<and> sends es = [] \<and> heads es = h \<and> set es \<inter> guard_events = {} \<and>
        (\<forall>v i. open_count es v i = (if settled = Some (v, i) then - 1 else 0)))"

lemma effect_refl: "effect s s None 0"
  by (simp add: effect_def)

lemma effect_trans:
  assumes "effect s s' t h" and "effect s' s'' None h'" shows "effect s s'' t (h + h')"
proof -
  obtain es es' where "q_log s' = q_log s @ es" "sends es = []" "heads es = h" "set es \<inter> guard_events = {}"
    "\<forall>v i. open_count es v i = (if t = Some (v, i) then - 1 else 0)"
    "q_log s'' = q_log s' @ es'" "sends es' = []" "heads es' = h'" "set es' \<inter> guard_events = {}" "\<forall>v i. open_count es' v i = 0"
    using assms unfolding effect_def by auto
  then have "\<exists>es. q_log s'' = q_log s @ es \<and> sends es = [] \<and> heads es = h + h' \<and> set es \<inter> guard_events = {} \<and>
        (\<forall>v i. open_count es v i = (if t = Some (v, i) then - 1 else 0))"
    by (intro exI [of _ "es @ es'"]) auto
  with assms show ?thesis by (simp add: effect_def)
qed

lemma effect_logs:
  assumes "sends es = []" and "\<forall>v i. open_count es v i = 0" and "set es \<inter> guard_events = {}"
  shows "effect s (logs es s) None (heads es)"
  using assms by (auto simp: effect_def logs_def)

text \<open>The key that settling an attempt gives back.\<close>

definition settle_target :: "vendorGateway \<Rightarrow> upstreamAttempt \<Rightarrow> (string \<times> int) option" where
  "settle_target v a =
     (if at_finished a \<or> \<not> usesManagedUpstreamKeys v \<or> at_idx a < 0 then None else Some (vg_id v, at_idx a))"

lemma finish_effect:
  assumes "finish env v d full (a, s) = (a', s')"
  shows "effect s s' (settle_target v a) 0 \<and> at_finished a'"
proof (cases "settle_target v a")
  case None
  with assms show ?thesis by (auto simp: finish_def settle_target_def effect_refl Let_def split: if_splits)
next
  case (Some t)
  then have t: "t = (vg_id v, at_idx a)" "\<not> at_finished a" "usesManagedUpstreamKeys v" "\<not> at_idx a < 0"
    by (auto simp: settle_target_def split: if_splits)
  obtain hp es where s': "s' = logs (EvSettle (vg_id v) (at_idx a) d # es) (set_heap hp s)"
    "es = [] \<or> es = [EvPersist (vg_id v) (at_selectedKey a) (at_selectedVersion a) (kd_reason d)]" and a': "at_finished a'"
    using assms t by (auto simp: finish_def Let_def logs_def split: prod.splits if_splits)
  have "effect s s' (Some t) 0"
    unfolding effect_def s'(1)
    using s'(2) by (auto simp: logs_def set_heap_def t sends_def heads_def open_count_def guard_events_def send_of_def
        event_head_def open_of_def List.map_filter_simps)
  with Some a' show ?thesis by simp
qed

lemma finish_finished: "at_finished a \<Longrightarrow> finish env v d full (a, s) = (a, s)"
  by (simp add: finish_def)

lemma fold_finish_finished: "at_finished a \<Longrightarrow> fold (\<lambda>(d, full). finish env v d full) xs (a, s) = (a, s)"
  by (induction xs) (auto simp: finish_finished)

lemma fold_finish_effect:
  assumes "xs \<noteq> []" shows "effect s (snd (fold (\<lambda>(d, full). finish env v d full) xs (a, s))) (settle_target v a) 0"
proof -
  obtain d full ys where xs: "xs = (d, full) # ys" using assms by (metis list.exhaust surj_pair)
  obtain a' s' where f: "finish env v d full (a, s) = (a', s')" by fastforce
  with finish_effect [OF f] show ?thesis by (simp add: xs fold_finish_finished)
qed

lemma writeHTTPError_effect:
  "EvClient (ClientError m c) \<notin> guard_events \<Longrightarrow> effect s (writeHTTPError m c s) None 1"
  unfolding writeHTTPError_def
  using effect_logs [of "[EvClient (ClientError m c)]" s] by (simp add: send_of_def open_of_def event_head_def is_head_def)

lemma masked_effect: "effect s (logs [EvClient (ClientMasked r)] s) None 1"
  using effect_logs [of "[EvClient (ClientMasked r)]" s]
  by (simp add: send_of_def open_of_def event_head_def is_head_def guard_events_def)

lemma writeMaskable_effect:
  "EvClient (ClientError m c) \<notin> guard_events \<Longrightarrow> effect s (writeMaskableGatewayError std v m c s) None 1"
  unfolding writeMaskableGatewayError_def using writeHTTPError_effect masked_effect by (auto split: option.split)

section \<open>The handlers\<close>

text \<open>The upstream refused the request without acting on it.\<close>

definition rejected :: "upstream_reply \<Rightarrow> bool" where
  "rejected r = (case r of Reply resp _ _ \<Rightarrow> ur_StatusCode resp \<in> {401, 402, 403, 429} | ReplyError _ _ \<Rightarrow> False)"

definition resend_ok :: "requestBodySource \<Rightarrow> upstream_reply \<Rightarrow> bool" where
  "resend_ok body r \<longleftrightarrow> rb_replayable body \<and> (rb_safeRetry body \<or> rejected r)"

text \<open>The client's context is alive in an answer.\<close>

definition client_alive :: "upstream_reply \<Rightarrow> bool" where
  "client_alive r = (case r of
      ReplyError _ ctx \<Rightarrow> ctx = None
    | Reply resp pv _ \<Rightarrow> se_ctx (ur_end resp) = None \<and> (case pv of PreviewFailed _ ctx \<Rightarrow> ctx = None | Preview _ \<Rightarrow> True))"

text \<open>What a handler of an upstream answer does.\<close>

definition handled ::
  "vendorGateway \<Rightarrow> requestBodySource \<Rightarrow> aggregateRetryHook option \<Rightarrow> bool \<Rightarrow> upstream_reply \<Rightarrow> (string \<times> int) option \<Rightarrow>
     rq_state \<Rightarrow> step_result \<Rightarrow> rq_state \<Rightarrow> bool" where
  "handled v body hook remaining reply settled s r s' \<longleftrightarrow>
     (\<exists>h. effect s s' settled h \<and> h \<le> 1 \<and> (r \<noteq> StepDone \<longrightarrow> h = 0) \<and> (r = StepDone \<longrightarrow> client_alive reply \<longrightarrow> h = 1)) \<and>
     (r = StepRetryKey \<longrightarrow> remaining \<and> usesManagedUpstreamKeys v \<and> resend_ok body reply) \<and>
     (r = StepRetryChild \<longrightarrow> (\<exists>code err t. q_exec t = q_exec s \<and> call_hook hook code err t \<and>
        (case reply of ReplyError _ _ \<Rightarrow> err \<noteq> None | Reply resp _ _ \<Rightarrow> err \<noteq> None \<or> code = ur_StatusCode resp)))"

lemma gateway_texts:
  "EvClient (ClientError ''upstream request failed'' 502) \<notin> guard_events"
  "EvClient (ClientError ''read request body failed'' 400) \<notin> guard_events"
  by (simp_all add: guard_events_def)

lemma hasAvailableKey_managed: "hasAvailableKey now v ex al w \<Longrightarrow> usesManagedUpstreamKeys v"
  by (simp add: hasAvailableKey_def split: if_splits)

lemma canRetryRequestError_resend: "canRetryRequestError b d \<Longrightarrow> resend_ok b r"
  by (simp add: canRetryRequestError_def resend_ok_def split: if_splits)

text \<open>The common end of the two paths without a usable response.\<close>

lemma failed_end_handled:
  assumes e: "effect s s1 t 0"
    and r: "(r, s') = (if retry \<and> remaining \<and> hasAvailableKey now v ex al w then (StepRetryKey, s1)
       else if call_hook hook 0 (Some err) s1 then (StepRetryChild, s1)
       else (StepDone, writeMaskableGatewayError std v ''upstream request failed'' 502 s1))"
    and retry: "retry \<Longrightarrow> resend_ok body reply"
  shows "handled v body hook remaining reply t s r s'"
proof -
  have ex: "q_exec s1 = q_exec s" using e by (simp add: effect_def)
  consider "r = StepRetryKey" "s' = s1" "retry" "remaining" "hasAvailableKey now v ex al w"
    | "r = StepRetryChild" "s' = s1" "call_hook hook 0 (Some err) s1"
    | "r = StepDone" "s' = writeMaskableGatewayError std v ''upstream request failed'' 502 s1"
    using r by (auto split: if_splits)
  then show ?thesis
  proof cases
    case 1
    with e retry hasAvailableKey_managed show ?thesis unfolding handled_def by blast
  next
    case 2
    then have "\<exists>code err t. q_exec t = q_exec s \<and> call_hook hook code err t \<and>
        (case reply of ReplyError _ _ \<Rightarrow> err \<noteq> None | Reply resp _ _ \<Rightarrow> err \<noteq> None \<or> code = ur_StatusCode resp)"
      using ex by (intro exI [of _ 0] exI [of _ "Some err"] exI [of _ s1]) (simp split: upstream_reply.split)
    with 2 e show ?thesis by (auto simp: handled_def)
  next
    case 3
    with effect_trans [OF e writeMaskable_effect [OF gateway_texts(1)]] show ?thesis by (auto simp: handled_def)
  qed
qed

lemma request_failed_handled:
  assumes "request_failed std env pp hook remaining a err ctx s = (r, s')"
  shows "handled (pp_vendor pp) (pp_bodySource pp) hook remaining (ReplyError err ctx) (settle_target (pp_vendor pp) a) s r s'"
proof -
  let ?v = "pp_vendor pp" and ?t = "settle_target (pp_vendor pp) a"
  define d where "d = (if isRequestBodyReadError err \<or> isCanceledUpstreamError ctx err then interruptedDecision
      else classifyRequestError (vg_errorPolicy ?v) (''upstream request failed: '' @ er_text err))"
  obtain a1 s1 where f: "finish env ?v d (- 1) (a, s) = (a1, s1)" by fastforce
  have e: "effect s s1 ?t 0" using finish_effect [OF f] by simp
  consider "isRequestBodyReadError err" | "\<not> isRequestBodyReadError err" "isCanceledUpstreamError ctx err"
    | "\<not> isRequestBodyReadError err" "\<not> isCanceledUpstreamError ctx err" by blast
  then show ?thesis
  proof cases
    case 1
    then have "r = StepDone" "s' = (if ctx = None \<or> ClientUploadTimeout \<in> set (er_is err)
        then writeHTTPError ''read request body failed'' 400 s1 else s1)"
      using assms f by (simp_all add: request_failed_def d_def)
    with e effect_trans [OF e writeHTTPError_effect [OF gateway_texts(2)]] show ?thesis
      by (auto simp: handled_def client_alive_def intro: exI [of _ 0] exI [of _ 1])
  next
    case 2
    then have "r = StepDone" "s' = s1" "ctx \<noteq> None"
      using assms f by (auto simp: request_failed_def d_def dest: isCanceledUpstreamError_gone)
    with e show ?thesis by (auto simp: handled_def client_alive_def)
  next
    case 3
    then have d: "classifyRequestError (vg_errorPolicy ?v) (''upstream request failed: '' @ er_text err) = d" by (simp add: d_def)
    have "(r, s') = (if canRetryRequestError (pp_bodySource pp) d \<and> remaining \<and>
          hasAvailableKey (av_checkNow env) ?v (triedKeyIndexes ?v (q_exec s1)) (pp_allowedKeyIdxs pp) (q_world s1)
        then (StepRetryKey, s1) else if call_hook hook 0 (Some err) s1 then (StepRetryChild, s1)
        else (StepDone, writeMaskableGatewayError std ?v ''upstream request failed'' 502 s1))"
      using assms unfolding request_failed_def Let_def d f snd_conv by (simp add: 3)
    from failed_end_handled [OF e this] canRetryRequestError_resend show ?thesis by blast
  qed
qed

lemma preview_failed_handled:
  assumes "preview_failed std env pp hook remaining a resp err ctx s = (r, s')"
  shows "handled (pp_vendor pp) (pp_bodySource pp) hook remaining (Reply resp (PreviewFailed err ctx) el) (settle_target (pp_vendor pp) a) s r s'"
proof -
  let ?v = "pp_vendor pp" and ?t = "settle_target (pp_vendor pp) a"
  define c where "c = classifyResponse std (av_policyNow env) (vg_provider ?v) (vg_errorPolicy ?v) (ur_StatusCode resp) (ur_Header resp) []"
  define d where "d = c\<lparr>kd_reason := compactReason (kd_reason c) (''read upstream response failed: '' @ er_text err)\<rparr>"
  obtain a1 s1 where f: "finish env ?v d (- 1) (a, s) = (a1, s1)" by fastforce
  have e: "effect s s1 ?t 0" using finish_effect [OF f] by simp
  show ?thesis
  proof (cases "isCanceledUpstreamError ctx err")
    case True
    then have "r = StepDone" "s' = s1" "ctx \<noteq> None"
      using assms f by (auto simp: preview_failed_def d_def c_def Let_def dest: isCanceledUpstreamError_gone)
    with e show ?thesis by (auto simp: handled_def client_alive_def)
  next
    case False
    then have "(r, s') = (if canRetryRequestError (pp_bodySource pp) (classifyRequestError (vg_errorPolicy ?v) ''read upstream response failed'') \<and> remaining \<and>
          hasAvailableKey (av_checkNow env) ?v (triedKeyIndexes ?v (q_exec s1)) (pp_allowedKeyIdxs pp) (q_world s1)
        then (StepRetryKey, s1) else if call_hook hook 0 (Some err) s1 then (StepRetryChild, s1)
        else (StepDone, writeMaskableGatewayError std ?v ''upstream request failed'' 502 s1))"
      using assms unfolding preview_failed_def Let_def c_def [symmetric] d_def [symmetric] f snd_conv
      by (simp add: False)
    from failed_end_handled [OF e this] canRetryRequestError_resend show ?thesis by blast
  qed
qed

lemma stream_events_no_guard:
  assumes "writeUpstreamResponse std policy method path streaming decision resp = (abort, ss)"
  shows "EvClient ` set (ss_events ss) \<inter> guard_events = {}"
proof -
  define ok where "ok = (\<lambda>ss :: stream_state. EvClient ` set (ss_events ss) \<inter> guard_events = {})"
  have emit: "ok s \<Longrightarrow> EvClient e \<notin> guard_events \<Longrightarrow> ok (emit e s)" for s e by (simp add: ok_def emit_def)
  have commit: "ok s \<Longrightarrow> ok (commitUpstream resp s)" for s
    by (simp add: ok_def commitUpstream_def emit_def guard_events_def)
  have ask: "ok (ask_finish d n s) = ok s" "ok (finishReadFailure policy e s) = ok s" "ok (s\<lparr>ss_hasBody := b\<rparr>) = ok s"
    "ok (s\<lparr>ss_flusher := b\<rparr>) = ok s" for d n s e b
    by (simp_all add: ok_def ask_finish_def finishReadFailure_def)
  have fwd: "ok s \<Longrightarrow> ok (snd (forward_chunk resp c s))" for s c
    by (auto simp: forward_chunk_def Let_def ask guard_events_def intro!: emit commit split: flush_result.split)
  have copy: "ok s \<Longrightarrow> ok (snd (copy_chunks resp cs s))" for s cs
  proof (induction cs arbitrary: s)
    case (Cons c cs)
    with fwd [OF Cons.prems, of c] show ?case by (auto split: prod.split bool.split)
  qed simp
  have eob: "ok s \<Longrightarrow> ok (snd (end_of_body std policy method path decision resp s))" for s
    by (auto simp: end_of_body_def Let_def ask guard_events_def intro!: emit commit)
  have last: "ok s \<Longrightarrow> ok (snd (last_read std policy method path decision resp s))" for s
  proof -
    assume ok: "ok s"
    define s1 where "s1 = (if IoEOF \<notin> set (er_is (se_err (ur_end resp))) \<and> \<not> isCanceledUpstreamError (se_ctx (ur_end resp)) (se_err (ur_end resp))
        then finishReadFailure policy (er_text (se_err (ur_end resp))) s else s)"
    obtain go s2 where f: "forward_chunk resp (se_chunk (ur_end resp)) s1 = (go, s2)" by fastforce
    have "ok s1" using ok by (simp add: s1_def ask)
    from fwd [OF this, of "se_chunk (ur_end resp)"] have s2: "ok s2" unfolding f by simp
    show ?thesis
      unfolding last_read_def Let_def s1_def [symmetric] f using s2 eob [OF s2] by (cases go) simp_all
  qed
  define init where "init = \<lparr>ss_committed = False, ss_hasBody = False, ss_flusher = streaming, ss_events = [], ss_finish = []\<rparr>"
  obtain go s1 where c: "copy_chunks resp (ur_chunks resp) init = (go, s1)" by fastforce
  have "ok init" by (simp add: ok_def init_def)
  from copy [OF this, of "ur_chunks resp"] have s1: "ok s1" unfolding c by simp
  obtain ab s2 where l: "last_read std policy method path decision resp s1 = (ab, s2)" by fastforce
  have s2: "ok s2" using last [OF s1] unfolding l by simp
  have "ss = ask_finish interruptedDecision (- 1) (if go then s2 else s1)"
    using assms unfolding writeUpstreamResponse_def Let_def init_def [symmetric] c by (cases go) (simp_all add: l)
  with s1 s2 have "ok ss" by (simp add: ask)
  then show ?thesis by (simp add: ok_def)
qed

lemma deliver_effect:
  assumes "deliver std env req pp a d resp s = (r, s')"
  shows "r = StepDone \<and> (\<exists>h. effect s s' (settle_target (pp_vendor pp) a) h \<and> h \<le> 1 \<and> (se_ctx (ur_end resp) = None \<longrightarrow> h = 1))"
proof -
  obtain abort ss where w: "writeUpstreamResponse std (vg_errorPolicy (pp_vendor pp)) (hr_Method req) (pp_path pp)
      (shouldFlushResponse (av_streamParam env) (hr_Header req) (ur_Header resp)) d resp = (abort, ss)" by fastforce
  obtain ss0 where ss: "stream_result resp d abort ss0" "ss_events ss = ss_events ss0"
    "ss_finish ss = ss_finish ss0 @ [(interruptedDecision, - 1)]" using writeUpstreamResponse_result [OF w] .
  define s1 where "s1 = snd (fold (\<lambda>(d, full). finish env (pp_vendor pp) d full) (ss_finish ss) (a, s))"
  have e1: "effect s s1 (settle_target (pp_vendor pp) a) 0" unfolding s1_def by (rule fold_finish_effect) (simp add: ss(3))
  have e2: "effect s1 (logs (map EvClient (ss_events ss)) s1) None (length (filter is_head (ss_events ss)))"
    using effect_logs [of "map EvClient (ss_events ss)" s1] stream_events_no_guard [OF w] by simp
  have e3: "effect t (logs [EvClient ClientAbort] t) None 0" for t
    using effect_logs [of "[EvClient ClientAbort]" t] by (simp add: send_of_def open_of_def event_head_def is_head_def guard_events_def)
  have e: "effect s (logs (map EvClient (ss_events ss)) s1) (settle_target (pp_vendor pp) a) (length (filter is_head (ss_events ss)))"
    using effect_trans [OF e1 e2] by simp
  have "r = StepDone" "s' = (if abort then logs [EvClient ClientAbort] (logs (map EvClient (ss_events ss)) s1) else logs (map EvClient (ss_events ss)) s1)"
    using assms unfolding deliver_def Let_def w prod.case s1_def [symmetric] by simp_all
  moreover have "effect s (logs [EvClient ClientAbort] (logs (map EvClient (ss_events ss)) s1)) (settle_target (pp_vendor pp) a) (length (filter is_head (ss_events ss)))"
    using effect_trans [OF e e3] by simp
  moreover have "length (filter is_head (ss_events ss)) \<le> 1" "se_ctx (ur_end resp) = None \<longrightarrow> length (filter is_head (ss_events ss)) = 1"
    using ss(1,2) by (simp_all add: stream_result_def)
  ultimately show ?thesis using e by auto
qed

lemma response_handled:
  assumes "handleUpstreamResponse std env req pp hook remaining a resp pv s = (r, s')"
  shows "handled (pp_vendor pp) (pp_bodySource pp) hook remaining (Reply resp pv el) (settle_target (pp_vendor pp) a) s r s'"
proof (cases "ur_StatusCode resp < 400")
  case True
  then have "deliver std env req pp a (successDecision (ur_StatusCode resp)) resp s = (r, s')"
    using assms by (simp add: handleUpstreamResponse_def Let_def)
  from deliver_effect [OF this] show ?thesis by (auto simp: handled_def client_alive_def)
next
  case False
  show ?thesis
  proof (cases pv)
    case (PreviewFailed err ctx)
    with assms False have "preview_failed std env pp hook remaining a resp err ctx s = (r, s')"
      by (simp add: handleUpstreamResponse_def Let_def)
    from preview_failed_handled [OF this] show ?thesis by (simp add: PreviewFailed)
  next
    case (Preview decoded)
    let ?v = "pp_vendor pp" and ?code = "ur_StatusCode resp"
    obtain d rule where an: "analyzeErrorResponse std (av_policyNow env) (vg_provider ?v) (vg_errorPolicy ?v) ?code (ur_Header resp) decoded = (d, rule)"
      by fastforce
    obtain a1 s1 where f: "finish env ?v d (- 1) (a, s) = (a1, s1)" by fastforce
    have e: "effect s s1 (settle_target ?v a) 0" and a1: "at_finished a1" using finish_effect [OF f] by simp_all
    have ex: "q_exec s1 = q_exec s" using e by (simp add: effect_def)
    let ?retry = "canRetryResponse (pp_bodySource pp) ?code d \<and> remaining \<and>
        hasAvailableKey (av_checkNow env) ?v (triedKeyIndexes ?v (q_exec s1)) (pp_allowedKeyIdxs pp) (q_world s1)"
    have run: "(r, s') = (if ?retry then (StepRetryKey, s1) else if call_hook hook ?code None s1 then (StepRetryChild, s1)
        else case rule of
          Some rule \<Rightarrow> (StepDone, logs [EvClient (ClientMasked (buildMaskedResponse std rule (header_get (ur_Header resp) ''Retry-After'')))] s1)
        | None \<Rightarrow> deliver std env req pp a1 d resp s1)"
      using assms False an f by (simp add: handleUpstreamResponse_def Preview Let_def)
    consider "?retry" "r = StepRetryKey" "s' = s1" | "call_hook hook ?code None s1" "r = StepRetryChild" "s' = s1"
      | m where "r = StepDone" "s' = logs [EvClient (ClientMasked m)] s1" | "deliver std env req pp a1 d resp s1 = (r, s')"
      using run by (auto split: if_splits option.splits)
    then show ?thesis
    proof cases
      case 1
      then have "resend_ok (pp_bodySource pp) (Reply resp pv el)"
        by (auto simp: canRetryResponse_def resend_ok_def rejected_def isRetryableStatusForUnsafeMethod_def split: if_splits)
      with 1 e show ?thesis by (auto simp: handled_def dest: hasAvailableKey_managed)
    next
      case 2
      then have "\<exists>code err t. q_exec t = q_exec s \<and> call_hook hook code err t \<and>
          (case Reply resp pv el of ReplyError _ _ \<Rightarrow> err \<noteq> None | Reply resp _ _ \<Rightarrow> err \<noteq> None \<or> code = ur_StatusCode resp)"
        using ex by (intro exI [of _ ?code] exI [of _ None] exI [of _ s1]) simp
      with 2 e show ?thesis by (auto simp: handled_def)
    next
      case 3
      with effect_trans [OF e masked_effect] show ?thesis by (auto simp: handled_def)
    next
      case 4
      have fin: "r = StepDone" using deliver_effect [OF 4] by (rule conjunct1)
      obtain h where h: "effect s1 s' (settle_target ?v a1) h \<and> h \<le> 1 \<and> (se_ctx (ur_end resp) = None \<longrightarrow> h = 1)"
        using deliver_effect [OF 4, THEN conjunct2] by (rule exE)
      have "settle_target ?v a1 = None" using a1 by (simp add: settle_target_def)
      with h fin effect_trans [OF e, of s' h] show ?thesis by (auto simp: handled_def client_alive_def)
    qed
  qed
qed

end
