(* ===== verification/RequestSafety.thy ===== *)
theory RequestSafety
  imports RequestEffects
begin

text \<open>
  What one client request may do, part two: the two loops.  The invariant of a request says how its log, its
  budget and the set of keys it has tried belong together.  One attempt keeps it under the contract of
  the retry hook (the locale \<open>retry_hook\<close>, interpreted on plain requests and on the children of an
  aggregate); the failover loop and the loop over the children follow by induction, and the properties
  are read off \<open>serve_vendor\<close>, for every behaviour of the upstreams and of the other requests.
\<close>

declare serve_loop.simps [simp del]

section \<open>The shared state\<close>

definition world_wf :: "world \<Rightarrow> bool" where
  "world_wf w \<longleftrightarrow> (\<forall>v. pool_wf (w_pools w v)) \<and> (\<forall>v. agg_inv (w_aggs w v))"

text \<open>Other requests keep the invariants of the pools.\<close>

definition env_ok :: "(nat \<Rightarrow> attempt_env) \<Rightarrow> (nat \<Rightarrow> aggregate_env) \<Rightarrow> bool" where
  "env_ok env genv \<longleftrightarrow> (\<forall>n w. world_wf w \<longrightarrow>
     world_wf (av_before (env n) w) \<and> world_wf (av_during (env n) w) \<and> world_wf (ag_before (genv n) w))"

text \<open>The texts of the two guards, which no failure to build a target URL may imitate.\<close>

definition urls_ok :: "(nat \<Rightarrow> attempt_env) \<Rightarrow> bool" where
  "urls_ok env \<longleftrightarrow> (\<forall>n. av_targetURL (env n) \<notin>
     {Some ''exceeded maximum failover attempts'', Some ''exceeded maximum upstream attempts''})"

text \<open>The client neither disconnects while the gateway waits for it nor cancels.\<close>

definition client_stays :: "(nat \<Rightarrow> attempt_env) \<Rightarrow> client_request \<Rightarrow> bool" where
  "client_stays env req \<longleftrightarrow> (\<forall>n. client_alive (av_reply (env n)) \<and> av_build (env n) \<noteq> BuildDisconnect) \<and>
     (case hr_BodyError req of None \<Rightarrow> True | Some e \<Rightarrow> \<not> isClientDisconnectError e)"

lemma world_wf_updates:
  "world_wf w \<Longrightarrow> pool_wf p \<Longrightarrow> world_wf (w\<lparr>w_pools := (w_pools w)(v := p)\<rparr>)"
  "world_wf w \<Longrightarrow> agg_inv q \<Longrightarrow> world_wf (w\<lparr>w_aggs := (w_aggs w)(v := q)\<rparr>)"
  "world_wf (w\<lparr>w_heap := hp\<rparr>) = world_wf w"
  by (simp_all add: world_wf_def)

section \<open>Taking a key\<close>

definition opened :: "rq_state \<Rightarrow> rq_state \<Rightarrow> (string \<times> int) option \<Rightarrow> bool" where
  "opened s s' t \<longleftrightarrow> q_exec s' = q_exec s \<and> world_wf (q_world s') \<and>
     (\<exists>es. q_log s' = q_log s @ es \<and> sends es = [] \<and> heads es = 0 \<and> set es \<inter> guard_events = {} \<and>
        (\<forall>v i. open_count es v i = (if t = Some (v, i) then 1 else 0)))"

lemma build_attempt_opened:
  assumes o: "opened s s1 (if usesManagedUpstreamKeys v then Some (vg_id v, idx) else None)"
    and idx: "if usesManagedUpstreamKeys v then 0 \<le> idx else idx = - 1"
    and b: "build_attempt env v idx key version s1 = (r, s')"
  shows "case r of
      AttemptFailed m c \<Rightarrow> opened s s' None \<and> (av_targetURL env = Some m \<or> m = ''build upstream request failed'')
    | AttemptGone \<Rightarrow> opened s s' None \<and> av_build env = BuildDisconnect
    | AttemptReady a \<Rightarrow> opened s s' (settle_target v a) \<and> at_idx a = idx \<and> at_selectedKey a = key"
proof -
  have rel: "opened s (release_managed v idx s1) None"
  proof (cases "usesManagedUpstreamKeys v")
    case True
    from o obtain es where es: "q_log s1 = q_log s @ es" "sends es = []" "heads es = 0" "set es \<inter> guard_events = {}"
      "\<forall>w i. open_count es w i = (if (vg_id v, idx) = (w, i) then 1 else 0)"
      by (auto simp: opened_def True)
    have "q_log (release_managed v idx s1) = q_log s @ es @ [EvRelease (vg_id v) idx]"
      using es(1) by (simp add: release_managed_def True logs_def set_heap_def)
    moreover have "q_exec (release_managed v idx s1) = q_exec s" "world_wf (q_world (release_managed v idx s1))"
      using o by (simp_all add: release_managed_def True logs_def set_heap_def opened_def world_wf_updates)
    moreover have "sends (es @ [EvRelease (vg_id v) idx]) = []" "heads (es @ [EvRelease (vg_id v) idx]) = 0"
      "set (es @ [EvRelease (vg_id v) idx]) \<inter> guard_events = {}" "\<forall>w i. open_count (es @ [EvRelease (vg_id v) idx]) w i = 0"
      using es(2-) by (auto simp: send_of_def event_head_def open_of_def guard_events_def)
    ultimately show ?thesis unfolding opened_def by auto
  next
    case False
    with o show ?thesis by (simp add: release_managed_def)
  qed
  show ?thesis
    using b o rel idx by (auto simp: build_attempt_def settle_target_def split: option.splits build_result.splits if_splits)
qed

lemma newAttempt_opened:
  assumes before: "world_wf (av_before env (q_world s))" and n: "newAttempt env v headers ex al s = (r, s')"
  shows "case r of
      AttemptFailed m c \<Rightarrow> opened s s' None \<and>
        (av_targetURL env = Some m \<or> m = ''build upstream request failed'' \<or> m = ''all vendor keys in cooldown or disabled'')
    | AttemptGone \<Rightarrow> opened s s' None \<and> av_build env = BuildDisconnect
    | AttemptReady a \<Rightarrow> opened s s' (settle_target v a) \<and>
        (if usesManagedUpstreamKeys v then 0 \<le> at_idx a \<and> at_idx a \<notin> ex
         else at_idx a = - 1 \<and> at_selectedKey a = passthroughUpstreamKey v headers)"
proof -
  define s1 where "s1 = s\<lparr>q_world := av_before env (q_world s)\<rparr>"
  have s1: "opened s s1 None" using before by (simp add: opened_def s1_def)
  show ?thesis
  proof (cases "usesManagedUpstreamKeys v")
    case True
    obtain k p hp where acq: "AcquireVersioned (av_choice env) (av_acquireNow env) ex al (heap_of s1) (pool_of v s1) = (k, p, hp)"
      by (metis prod_cases3)
    have wf: "pool_wf (pool_of v s1)" using before by (simp add: s1_def world_wf_def)
    note spec = AcquireVersioned_spec [OF wf acq]
    show ?thesis
    proof (cases k)
      case None
      with n True acq have "r = AttemptFailed ''all vendor keys in cooldown or disabled'' 503" "s' = set_pool v p hp s1"
        by (simp_all add: newAttempt_def Let_def s1_def)
      moreover have "opened s (set_pool v p hp s1) None"
        using s1 spec wf by (simp add: opened_def set_pool_def world_wf_updates None)
      ultimately show ?thesis by simp
    next
      case (Some x)
      obtain idx key version where x: "x = (idx, key, version)" by (cases x)
      note sp = spec [unfolded Some x option.case prod.case]
      have idx: "0 \<le> idx" "idx \<notin> ex" using sp by (auto simp: isAvailable_iff)
      let ?s2 = "logs [EvAcquire (vg_id v) idx] (set_pool v p hp s1)"
      have "build_attempt env v idx key version ?s2 = (r, s')"
        using n True acq by (simp add: newAttempt_def Let_def s1_def Some x)
      moreover have "opened s ?s2 (Some (vg_id v, idx))"
        using s1 sp by (auto simp: opened_def set_pool_def world_wf_updates logs_def send_of_def event_head_def open_of_def guard_events_def)
      ultimately show ?thesis
        using build_attempt_opened [of s ?s2 v idx env key version r s'] True idx by (auto split: attempt_result.splits)
    qed
  next
    case False
    then have "build_attempt env v (- 1) (passthroughUpstreamKey v headers) 0 s1 = (r, s')"
      using n by (simp add: newAttempt_def Let_def s1_def)
    then show ?thesis
      using build_attempt_opened [of s s1 v "- 1" env "passthroughUpstreamKey v headers" 0 r s'] s1 False
      by (auto split: attempt_result.splits)
  qed
qed

section \<open>The invariant of a request\<close>

text \<open>The targets that were used are remembered.\<close>

definition tried_ok :: "requestExecution \<Rightarrow> (string \<times> int \<times> string) list \<Rightarrow> bool" where
  "tried_ok e xs \<longleftrightarrow> (\<forall>(v, i, k) \<in> set xs. if 0 \<le> i then i \<in> ex_triedIndexes e v else v @ CHR 0x00 # k \<in> ex_tried e)"

definition core :: "(nat \<Rightarrow> attempt_env) \<Rightarrow> int \<Rightarrow> rq_state \<Rightarrow> bool" where
  "core env budget s \<longleftrightarrow> world_wf (q_world s) \<and> ex_maxAttempts (q_exec s) = budget \<and>
     int (length (sends (q_log s))) = ex_attempts (q_exec s) \<and> ex_attempts (q_exec s) \<le> budget \<and>
     distinct (map target (sends (q_log s))) \<and> tried_ok (q_exec s) (sends (q_log s)) \<and>
     (\<forall>v i. open_count (q_log s) v i = 0) \<and> (urls_ok env \<longrightarrow> set (q_log s) \<inter> guard_events = {})"

text \<open>Sending the request again after the attempt \<open>n\<close> is justified.\<close>

definition resend :: "std_lib \<Rightarrow> (nat \<Rightarrow> attempt_env) \<Rightarrow> client_request \<Rightarrow> nat \<Rightarrow> bool" where
  "resend std env req n \<longleftrightarrow> (\<exists>allow body. prepareRequestBody std req allow = Inr body \<and> resend_ok body (av_reply (env n)))"

text \<open>A request that goes on, and one that is over.\<close>

definition live :: "std_lib \<Rightarrow> (nat \<Rightarrow> attempt_env) \<Rightarrow> client_request \<Rightarrow> int \<Rightarrow> rq_state \<Rightarrow> bool" where
  "live std env req budget s \<longleftrightarrow> core env budget s \<and> heads (q_log s) = 0 \<and> hasBudget (q_exec s) \<and>
     (\<forall>n < length (sends (q_log s)). resend std env req n)"

definition ended :: "std_lib \<Rightarrow> (nat \<Rightarrow> attempt_env) \<Rightarrow> client_request \<Rightarrow> int \<Rightarrow> rq_state \<Rightarrow> bool" where
  "ended std env req budget s \<longleftrightarrow> core env budget s \<and> heads (q_log s) \<le> 1 \<and>
     (client_stays env req \<longrightarrow> heads (q_log s) = 1) \<and>
     (\<forall>n. Suc n < length (sends (q_log s)) \<longrightarrow> resend std env req n)"

lemma initial_live: "world_wf w \<Longrightarrow> live std env req (ex_maxAttempts (newRequestExecution (maxUpstreamAttempts v))) (initial_state v w)"
  by (simp add: live_def core_def initial_state_def newRequestExecution_def hasBudget_def tried_ok_def)

lemma core_opened:
  assumes "core env budget s" and "opened s s' None" shows "core env budget s'"
  using assms unfolding core_def opened_def by (auto simp: Int_Un_distrib2)

lemma core_effect:
  assumes "core env budget s" and "effect s s' None h" shows "core env budget s'" "heads (q_log s') = heads (q_log s) + h"
    "sends (q_log s') = sends (q_log s)"
  using assms unfolding core_def effect_def world_wf_def by (auto simp: Int_Un_distrib2)

text \<open>A request that answers the client itself before or instead of an attempt.\<close>

lemma ended_answer:
  assumes live: "live std env req budget s" and o: "opened s s1 None"
    and c: "is_head c" "urls_ok env \<longrightarrow> EvClient c \<notin> guard_events"
  shows "ended std env req budget (logs [EvClient c] s1)"
proof -
  have s1: "core env budget s1" "heads (q_log s1) = 0" "sends (q_log s1) = sends (q_log s)"
    using live o core_opened [OF _ o] by (auto simp: live_def opened_def)
  have "core env budget (logs [EvClient c] s1)"
    using s1(1) c(2) by (auto simp: core_def logs_def send_of_def open_of_def)
  moreover have "heads (q_log (logs [EvClient c] s1)) = 1" "sends (q_log (logs [EvClient c] s1)) = sends (q_log s)"
    using s1 c(1) by (simp_all add: logs_def event_head_def send_of_def)
  ultimately show ?thesis using live by (auto simp: live_def ended_def)
qed

lemma writeMaskable_answer:
  "\<exists>c. writeMaskableGatewayError std v m code s = logs [EvClient c] s \<and> is_head c \<and>
     (EvClient c \<in> guard_events \<longrightarrow> c = ClientError m code)"
proof (cases "matchGatewayErrorMask (vg_errorPolicy v) code m")
  case None
  then show ?thesis by (auto simp: writeMaskableGatewayError_def writeHTTPError_def is_head_def)
next
  case (Some rule)
  then show ?thesis by (auto simp: writeMaskableGatewayError_def guard_events_def is_head_def)
qed

lemma ended_gone:
  assumes "live std env req budget s" and "opened s s' None" and "\<not> client_stays env req"
  shows "ended std env req budget s'"
  using assms core_opened [OF _ assms(2)] by (auto simp: live_def ended_def opened_def)

lemma opened_refl: "world_wf (q_world s) \<Longrightarrow> opened s s None"
  by (simp add: opened_def)

section \<open>One attempt\<close>

lemma markTried_tried_ok:
  assumes "tried_ok e xs" and "0 \<le> i \<longrightarrow> usesManagedUpstreamKeys v"
  shows "tried_ok (markTried v k i e) (xs @ [(vg_id v, i, k)])"
  using assms by (auto simp: tried_ok_def markTried_def executionTargetKey_def Let_def split: if_splits)

text \<open>The state in which the upstream request is under way.\<close>

definition sending :: "attempt_env \<Rightarrow> vendorGateway \<Rightarrow> upstreamAttempt \<Rightarrow> rq_state \<Rightarrow> rq_state" where
  "sending env v a s = logs [EvSend (vg_id v) (at_idx a) (at_selectedKey a)]
     (s\<lparr>q_exec := markTried v (at_selectedKey a) (at_idx a) ((q_exec s)\<lparr>ex_attempts := ex_attempts (q_exec s) + 1\<rparr>),
        q_world := av_during env (q_world s)\<rparr>)"

lemma log_send [simp]:
  "sends (EvSend v i k # es) = (v, i, k) # sends es" "open_count (EvSend v i k # es) w j = open_count es w j"
  "heads (EvSend v i k # es) = heads es"
  by (simp_all add: sends_def open_count_def heads_def send_of_def open_of_def event_head_def List.map_filter_simps)

lemma settle_target_elapsed: "settle_target v (a\<lparr>at_headerElapsed := d\<rparr>) = settle_target v a"
  unfolding settle_target_def by simp

lemma markTried_counts [simp]:
  "ex_attempts (markTried v k i e) = ex_attempts e" "ex_maxAttempts (markTried v k i e) = ex_maxAttempts e"
  by (simp_all add: markTried_def Let_def)

text \<open>An attempt that was sent and whose answer was handled, up to the settlement of its key, keeps the
  invariant.\<close>

lemma sent_core:
  assumes live: "live std env req budget s" and o: "opened s s1 (settle_target v a)"
    and during: "world_wf (av_during e (q_world s1))"
    and new: "target (vg_id v, at_idx a, at_selectedKey a) \<notin> set (map target (sends (q_log s)))"
    and idx: "0 \<le> at_idx a \<longrightarrow> usesManagedUpstreamKeys v"
    and eff: "effect (sending e v a s1) s' (settle_target v a) h"
  shows "core env budget s' \<and> heads (q_log s') = h \<and> q_exec s' = q_exec (sending e v a s1) \<and>
    length (sends (q_log s')) = Suc (length (sends (q_log s)))"
proof -
  note l = live [unfolded live_def core_def]
  obtain es where es: "q_log s1 = q_log s @ es" "sends es = []" "heads es = 0" "set es \<inter> guard_events = {}"
    "\<forall>w i. open_count es w i = (if settle_target v a = Some (w, i) then 1 else 0)" and ex: "q_exec s1 = q_exec s"
    using o by (auto simp: opened_def)
  let ?t = "(vg_id v, at_idx a, at_selectedKey a)"
  obtain fs where fs: "q_log s' = q_log s @ es @ [EvSend (vg_id v) (at_idx a) (at_selectedKey a)] @ fs"
    "sends fs = []" "heads fs = h" "set fs \<inter> guard_events = {}"
    "\<forall>w i. open_count fs w i = (if settle_target v a = Some (w, i) then - 1 else 0)"
    using eff by (auto simp: effect_def sending_def logs_def es(1))
  have q: "q_exec s' = q_exec (sending e v a s1)" using eff by (simp add: effect_def)
  have "sends (q_log s') = sends (q_log s) @ [?t]" using es fs by simp
  moreover have "tried_ok (q_exec s') (sends (q_log s) @ [?t])"
  proof -
    have "tried_ok ((q_exec s)\<lparr>ex_attempts := n\<rparr>) (sends (q_log s))" for n using l by (auto simp: tried_ok_def)
    from markTried_tried_ok [OF this idx] show ?thesis by (simp add: q sending_def ex logs_def)
  qed
  moreover have "\<forall>w i. open_count (q_log s') w i = 0" using l es(5) fs(1,5) by auto
  moreover have "heads (q_log s') = h" using l es(3) fs(1,3) by simp
  moreover have "urls_ok env \<longrightarrow> set (q_log s') \<inter> guard_events = {}"
    using l es(4) fs(1,4) by (auto simp: guard_events_def)
  moreover have "world_wf (q_world s')" using eff during by (simp add: effect_def sending_def logs_def world_wf_def)
  ultimately show ?thesis
    using l new q by (auto simp: core_def sending_def logs_def ex hasBudget_def image_image)
qed

lemma target_new:
  assumes "tried_ok e xs"
    and "if usesManagedUpstreamKeys v then 0 \<le> i \<and> i \<notin> triedKeyIndexes v e else i = - 1 \<and> k = passthroughUpstreamKey v headers"
    and "usesManagedUpstreamKeys v \<or> \<not> hasTried v (passthroughUpstreamKey v headers) e"
  shows "target (vg_id v, i, k) \<notin> set (map target xs)"
proof
  assume "target (vg_id v, i, k) \<in> set (map target xs)"
  then obtain k' where m: "(vg_id v, i, k') \<in> set xs" "0 \<le> i \<or> k' = k" by (auto simp: target_def split: if_splits)
  with assms(1) have "if 0 \<le> i then i \<in> ex_triedIndexes e (vg_id v) else vg_id v @ CHR 0x00 # k' \<in> ex_tried e"
    unfolding tried_ok_def by fastforce
  with assms(2,3) m(2) show False
    by (auto simp: triedKeyIndexes_def hasTried_def executionTargetKey_def split: if_splits)
qed

text \<open>The failover limit of a vendor.\<close>

definition failover_limit :: "vendorGateway \<Rightarrow> int" where
  "failover_limit v = (let m = fo_MaxAttempts (ep_Failover (vg_errorPolicy v)) in if m \<le> 0 then 5 else m)"

text \<open>What the loop relies on when it asks whether another child should be tried.\<close>

locale retry_hook =
  fixes hook :: "aggregateRetryHook option" and body :: requestBodySource
  assumes hook_sound: "call_hook hook code err s \<Longrightarrow> hasBudget (q_exec s) \<and> canRetryAggregate body code err"
begin

lemma handled_retry:
  assumes "handled v body hook (again \<and> hasBudget (q_exec s)) reply t s r s'" and "r \<noteq> StepDone"
  shows "hasBudget (q_exec s) \<and> resend_ok body reply"
proof (cases r)
  case StepRetryChild
  with assms obtain code err t where "q_exec t = q_exec s" "call_hook hook code err t"
    "case reply of ReplyError _ _ \<Rightarrow> err \<noteq> None | Reply resp _ _ \<Rightarrow> err \<noteq> None \<or> code = ur_StatusCode resp"
    by (auto simp: handled_def)
  with hook_sound [of code err t] show ?thesis
    by (auto simp: canRetryAggregate_def resend_ok_def rejected_def isRetryableStatusForUnsafeMethod_def
        split: if_splits upstream_reply.splits)
qed (use assms in \<open>auto simp: handled_def\<close>)

lemma attempt_step:
  assumes live: "live std env req budget s" and ok: "env_ok env genv"
    and body: "pp_bodySource pp = body" "prepareRequestBody std req allow = Inr body"
    and fresh: "usesManagedUpstreamKeys (pp_vendor pp) \<or>
      \<not> hasTried (pp_vendor pp) (passthroughUpstreamKey (pp_vendor pp) (hr_Header req)) (q_exec s)"
    and run: "vendor_attempt std (env (nat (ex_attempts (q_exec s)))) req pp hook again s = (r, s')"
  shows "(r = StepDone \<longrightarrow> ended std env req budget s') \<and> (r \<noteq> StepDone \<longrightarrow> live std env req budget s') \<and>
    (r = StepRetryKey \<longrightarrow> again \<and> usesManagedUpstreamKeys (pp_vendor pp)) \<and>
    (r = StepRetryChild \<longrightarrow> (\<exists>code err t. call_hook hook code err t)) \<and>
    length (sends (q_log s')) \<le> Suc (length (sends (q_log s)))"
proof -
  define v where "v = pp_vendor pp"
  define n where "n = length (sends (q_log s))"
  define e where "e = env n"
  have n: "nat (ex_attempts (q_exec s)) = n" using live unfolding live_def core_def n_def by linarith
  have wf: "world_wf (q_world s)" using live by (simp add: live_def core_def)
  have ev: "world_wf (av_before e w)" "world_wf (av_during e w)" if "world_wf w" for w
    using ok that by (simp_all add: env_ok_def e_def)
  obtain ar s1 where na: "newAttempt e v (hr_Header req) (triedKeyIndexes v (q_exec s)) (pp_allowedKeyIdxs pp) s = (ar, s1)" by fastforce
  note run1 = run [unfolded n e_def [symmetric] vendor_attempt_def Let_def v_def [symmetric] na prod.case]
  note no = newAttempt_opened [OF ev(1) [OF wf] na]
  show ?thesis
  proof (cases ar)
    case (AttemptFailed m c)
    obtain x where x: "writeMaskableGatewayError std v m c s1 = logs [EvClient x] s1" "is_head x"
      "EvClient x \<in> guard_events \<longrightarrow> x = ClientError m c" using writeMaskable_answer by blast
    have "av_targetURL e = Some m \<or> m = ''build upstream request failed'' \<or> m = ''all vendor keys in cooldown or disabled''"
      using no AttemptFailed by simp
    then have "urls_ok env \<longrightarrow> EvClient x \<notin> guard_events"
      using x(3) by (auto simp: urls_ok_def e_def guard_events_def)
    moreover have o1: "opened s s1 None" using no AttemptFailed by simp
    ultimately have "ended std env req budget (logs [EvClient x] s1)" using ended_answer [OF live _ x(2)] by blast
    moreover have "sends (q_log (logs [EvClient x] s1)) = sends (q_log s)"
      using o1 by (auto simp: opened_def logs_def send_of_def)
    ultimately show ?thesis using run1 AttemptFailed x(1) by simp
  next
    case AttemptGone
    with no have "opened s s1 None" "\<not> client_stays env req" by (auto simp: client_stays_def e_def)
    moreover have "r = StepDone" "s' = s1" using run1 AttemptGone by simp_all
    moreover have "sends (q_log s1) = sends (q_log s)" using no AttemptGone by (auto simp: opened_def)
    ultimately show ?thesis using ended_gone [OF live] by simp
  next
    case (AttemptReady a)
    have o: "opened s s1 (settle_target v a)" and idx: "if usesManagedUpstreamKeys v
        then 0 \<le> at_idx a \<and> at_idx a \<notin> triedKeyIndexes v (q_exec s)
        else at_idx a = - 1 \<and> at_selectedKey a = passthroughUpstreamKey v (hr_Header req)"
      using no AttemptReady by simp_all
    have wf1: "world_wf (q_world s1)" and ex: "q_exec s1 = q_exec s" using o by (simp_all add: opened_def)
    let ?s2 = "sending e v a s1"
    have "consumeAttempt (q_exec s1) = (True, (q_exec s1)\<lparr>ex_attempts := ex_attempts (q_exec s1) + 1\<rparr>)"
      using live by (simp add: live_def hasBudget_def consumeAttempt_def ex)
    then have run2: "(case av_reply e of
         ReplyError err ctx \<Rightarrow> request_failed std e pp hook (again \<and> hasBudget (q_exec ?s2)) a err ctx ?s2
       | Reply resp pv elapsed \<Rightarrow> handleUpstreamResponse std e req pp hook (again \<and> hasBudget (q_exec ?s2))
           (a\<lparr>at_headerElapsed := elapsed\<rparr>) resp pv ?s2) = (r, s')"
      using run1 AttemptReady by (cases "av_reply e") (simp_all add: sending_def logs_def)
    have h: "handled v body hook (again \<and> hasBudget (q_exec ?s2)) (av_reply e) (settle_target v a) ?s2 r s'"
    proof (cases "av_reply e")
      case (ReplyError err ctx)
      with request_failed_handled [of std e pp hook "again \<and> hasBudget (q_exec ?s2)" a err ctx ?s2 r s'] run2
      show ?thesis by (simp add: body(1) v_def)
    next
      case (Reply resp pv elapsed)
      with response_handled [of std e req pp hook "again \<and> hasBudget (q_exec ?s2)" "a\<lparr>at_headerElapsed := elapsed\<rparr>" resp pv ?s2 r s' elapsed] run2
      show ?thesis by (simp add: body(1) v_def settle_target_elapsed)
    qed
    obtain k where k: "effect ?s2 s' (settle_target v a) k" "k \<le> 1" "r \<noteq> StepDone \<longrightarrow> k = 0"
      "r = StepDone \<longrightarrow> client_alive (av_reply e) \<longrightarrow> k = 1" using h by (auto simp: handled_def)
    have new: "target (vg_id v, at_idx a, at_selectedKey a) \<notin> set (map target (sends (q_log s)))"
      using target_new [OF _ idx] live fresh by (auto simp: live_def core_def v_def)
    have "0 \<le> at_idx a \<longrightarrow> usesManagedUpstreamKeys v" using idx by (auto split: if_splits)
    note sc = sent_core [OF live o ev(2) [OF wf1] new this k(1)]
    have all: "\<forall>m < n. resend std env req m" using live by (simp add: live_def n_def)
    show ?thesis
    proof (cases "r = StepDone")
      case True
      have "client_stays env req \<longrightarrow> k = 1" using k(4) True by (simp add: client_stays_def e_def)
      with sc all k(2) show ?thesis by (simp add: ended_def True n_def)
    next
      case False
      from handled_retry [OF h False] have hb: "hasBudget (q_exec ?s2)" "resend std env req n"
        using body(2) by (auto simp: resend_def e_def)
      with all have "\<forall>m < Suc n. resend std env req m" by (auto simp: less_Suc_eq)
      with sc hb(1) k(3) False have "live std env req budget s'" by (simp add: live_def n_def)
      moreover have "r = StepRetryKey \<longrightarrow> again \<and> usesManagedUpstreamKeys v"
        "r = StepRetryChild \<longrightarrow> (\<exists>code err t. call_hook hook code err t)" using h by (auto simp: handled_def)
      ultimately show ?thesis using False sc by (simp add: v_def)
    qed
  qed
qed

lemma failover_loop_result:
  assumes "live std env req budget s" and ok: "env_ok env genv"
    and body: "pp_bodySource pp = body" "prepareRequestBody std req allow = Inr body"
    and "usesManagedUpstreamKeys (pp_vendor pp) \<or>
      \<not> hasTried (pp_vendor pp) (passthroughUpstreamKey (pp_vendor pp) (hr_Header req)) (q_exec s)"
    and "attempts < maxAttempts" and "serve_loop std env req pp hook maxAttempts attempts s = (r, s')"
  shows "(r \<longrightarrow> live std env req budget s') \<and> (\<not> r \<longrightarrow> ended std env req budget s') \<and> (r \<longrightarrow> (\<exists>code err t. call_hook hook code err t)) \<and>
    int (length (sends (q_log s'))) \<le> int (length (sends (q_log s))) + (maxAttempts - attempts)"
  using assms(1,5-)
proof (induction "nat (maxAttempts - attempts)" arbitrary: attempts s)
  case (Suc m)
  obtain q s1 where a: "vendor_attempt std (env (nat (ex_attempts (q_exec s)))) req pp hook (attempts + 1 < maxAttempts) s = (q, s1)"
    by fastforce
  note st = attempt_step [OF Suc.prems(1) ok body Suc.prems(2) a]
  have run: "(case q of StepRetryKey \<Rightarrow> serve_loop std env req pp hook maxAttempts (attempts + 1) s1
      | StepRetryChild \<Rightarrow> (True, s1) | StepDone \<Rightarrow> (False, s1)) = (r, s')"
    using Suc.prems(3,4) a by (cases q) (simp_all add: serve_loop.simps [of _ _ _ _ _ _ attempts] Let_def)
  show ?case
  proof (cases q)
    case StepRetryKey
    with st run Suc.hyps(2) have "(r \<longrightarrow> live std env req budget s') \<and> (\<not> r \<longrightarrow> ended std env req budget s') \<and>
        (r \<longrightarrow> (\<exists>code err t. call_hook hook code err t)) \<and>
        int (length (sends (q_log s'))) \<le> int (length (sends (q_log s1))) + (maxAttempts - (attempts + 1))"
      by (intro Suc.hyps(1)) simp_all
    moreover have "int (length (sends (q_log s1))) \<le> int (length (sends (q_log s))) + 1" using st by simp
    ultimately show ?thesis by auto
  next
    case StepRetryChild
    with st run Suc.prems(3) show ?thesis by auto
  next
    case StepDone
    with st run Suc.prems(3) show ?thesis by auto
  qed
qed simp

lemma vendor_result:
  assumes "live std env req budget s" and "env_ok env genv"
    and "pp_bodySource pp = body" "prepareRequestBody std req allow = Inr body"
    and "usesManagedUpstreamKeys (pp_vendor pp) \<or>
      \<not> hasTried (pp_vendor pp) (passthroughUpstreamKey (pp_vendor pp) (hr_Header req)) (q_exec s)"
    and "serveVendorRequestWithAggregateHook std env req pp hook s = (r, s')"
  shows "(r \<longrightarrow> live std env req budget s') \<and> (\<not> r \<longrightarrow> ended std env req budget s') \<and> (r \<longrightarrow> (\<exists>code err t. call_hook hook code err t)) \<and>
    int (length (sends (q_log s'))) \<le> int (length (sends (q_log s))) + failover_limit (pp_vendor pp)"
  using failover_loop_result [OF assms(1-5) _ assms(6) [unfolded serveVendorRequestWithAggregateHook_def Let_def]]
  unfolding failover_limit_def Let_def by simp

end

interpretation plain: retry_hook None body for body
  by unfold_locales (simp add: call_hook_def)

interpretation child: retry_hook "Some (shouldRetryAggregate genv req agg final exclude pp)" "pp_bodySource pp"
  for genv req agg final exclude pp
  by unfold_locales (simp add: call_hook_def shouldRetryAggregate_def split: if_splits)

section \<open>Preparing a request\<close>

lemma prepareRequestBody_error: "prepareRequestBody std req allow = Inl e \<Longrightarrow> hr_BodyError req = Some e"
  by (auto simp: prepareRequestBody_def readReplayableRequestBody_def Let_def split: if_splits option.splits sum.splits)

lemma body_disconnect:
  "prepareRequestBody std req allow = Inl e \<Longrightarrow> isClientDisconnectError e \<Longrightarrow> \<not> client_stays env req"
  by (auto dest: prepareRequestBody_error simp: client_stays_def)

lemma PickAvailable_spec:
  assumes "agg_inv p" and "PickAvailable w choice available exclude p = (r, p')"
  shows "agg_inv p' \<and> ap_entries p' = ap_entries p \<and> (\<forall>i. r = Some i \<longrightarrow> available (ap_entries p ! i))"
proof (cases "ap_entries p = []")
  case False
  with assms(2) have "pickAvailableLocked w choice available exclude True p = (r, p')" by (simp add: PickAvailable_def)
  from pickAvailableLocked_spec [OF assms(1) this] show ?thesis
    by (auto simp: tier_candidates_set [OF assms(1)] split: option.splits)
qed (use assms in \<open>auto simp: PickAvailable_def\<close>)

text \<open>The errors of the preparation; none is the text of a guard.\<close>

definition prepare_texts :: "string set" where
  "prepare_texts = {''no available child vendor'', ''read request body failed''} \<union> range auth_error_text"

lemma prepare_texts_fine: "m \<in> prepare_texts \<Longrightarrow> EvClient (ClientError m c) \<notin> guard_events"
  by (auto simp: prepare_texts_def guard_events_def auth_error_text_def split: auth_error.splits)

definition prepared_ok :: "std_lib \<Rightarrow> (nat \<Rightarrow> attempt_env) \<Rightarrow> client_request \<Rightarrow> rq_state \<Rightarrow> prepare_result \<Rightarrow> bool" where
  "prepared_ok std env req s r = (case r of
      PrepError m c \<Rightarrow> m \<in> prepare_texts
    | PrepGone \<Rightarrow> \<not> client_stays env req
    | Prepared pp \<Rightarrow> (\<exists>allow. prepareRequestBody std req allow = Inr (pp_bodySource pp)) \<and>
        (usesManagedUpstreamKeys (pp_vendor pp) \<or>
         \<not> hasTried (pp_vendor pp) (passthroughUpstreamKey (pp_vendor pp) (hr_Header req)) (q_exec s)))"

lemma prepareNonAggregate_ok:
  assumes "q_exec s = newRequestExecution m"
  shows "prepared_ok std env req s (prepareNonAggregateRequest std req v path)"
proof (cases "authorizeClient v (hr_Header req)")
  case None
  then show ?thesis
    using assms body_disconnect [of std req "vg_shouldBufferRequestBody v (hr_Method req)" _ env]
    by (auto simp: prepared_ok_def prepareNonAggregateRequest_def prepare_texts_def hasTried_def newRequestExecution_def split: sum.splits)
qed (simp add: prepared_ok_def prepareNonAggregateRequest_def prepare_texts_def)

lemma prepareAggregate_ok:
  assumes wf: "world_wf (ag_before ge (q_world s))"
    and body: "\<forall>b. bodySource = Some b \<longrightarrow> (\<exists>allow. prepareRequestBody std req allow = Inr b)"
    and run: "prepareAggregateRequest std ge req agg path exclude bodySource s = (r, s')"
  shows "opened s s' None \<and> prepared_ok std env req s' r \<and>
    (\<forall>pp b. r = Prepared pp \<longrightarrow> bodySource = Some b \<longrightarrow> pp_bodySource pp = b)"
proof -
  define w where "w = ag_before ge (q_world s)"
  define av where "av = aggregateChildAvailableForExecution (ag_now ge) req (q_exec s) w"
  obtain picked p where pick: "PickAvailable w (ag_choice ge) av exclude (w_aggs w (vg_id agg)) = (picked, p)" by fastforce
  have inv: "agg_inv (w_aggs w (vg_id agg))" using wf by (simp add: world_wf_def w_def)
  note sp = PickAvailable_spec [OF inv pick]
  define s1 where "s1 = s\<lparr>q_world := w\<lparr>w_aggs := (w_aggs w)(vg_id agg := p)\<rparr>\<rparr>"
  have o: "opened s s1 None" "q_exec s1 = q_exec s" using wf sp by (simp_all add: opened_def s1_def w_def world_wf_updates)
  note run1 = run [unfolded prepareAggregateRequest_def Let_def w_def [symmetric] av_def [symmetric] pick prod.case s1_def [symmetric]]
  show ?thesis
  proof (cases picked)
    case None
    with run1 o show ?thesis by (auto simp: prepared_ok_def prepare_texts_def)
  next
    case (Some i)
    let ?c = "ap_entries p ! i"
    have "av ?c" using sp Some by simp
    then have fresh: "usesManagedUpstreamKeys (the (ce_vendor ?c)) \<or>
        \<not> hasTried (the (ce_vendor ?c)) (passthroughUpstreamKey (the (ce_vendor ?c)) (hr_Header req)) (q_exec s)"
      by (auto simp: av_def aggregateChildAvailableForExecution_def split: option.splits if_splits)
    show ?thesis
    proof (cases bodySource)
      case None
      with run1 Some o fresh show ?thesis
        by (auto simp: prepared_ok_def prepare_texts_def dest: body_disconnect split: sum.splits)
    next
      case (Some b)
      with run1 \<open>picked = Some i\<close> o fresh body show ?thesis by (auto simp: prepared_ok_def)
    qed
  qed
qed

section \<open>Whole requests\<close>

lemma ended_httpError:
  assumes "live std env req budget s" and "opened s s1 None" and "m \<in> prepare_texts"
  shows "ended std env req budget (writeHTTPError m c s1)"
  unfolding writeHTTPError_def
  by (rule ended_answer [OF assms(1,2)]) (use prepare_texts_fine [OF assms(3)] in \<open>simp_all add: is_head_def\<close>)

lemma live_opened:
  assumes "live std env req budget s" and "opened s s' None" shows "live std env req budget s'"
  using assms core_opened [OF _ assms(2)] by (auto simp: live_def opened_def)

lemma aggregate_loop_ended:
  assumes "live std env req budget s" and ok: "env_ok env genv"
    and "\<forall>b. bodySource = Some b \<longrightarrow> (\<exists>allow. prepareRequestBody std req allow = Inr b)" and "0 < n"
  shows "ended std env req budget (aggregate_loop std env genv req agg path n exclude bodySource s)"
  using assms(1,3,4)
proof (induction n arbitrary: s exclude bodySource)
  case (Suc n)
  obtain r s1 where prep: "prepareAggregateRequest std (genv n) req agg path exclude bodySource s = (r, s1)" by fastforce
  have "world_wf (ag_before (genv n) (q_world s))" using Suc.prems(1) ok by (simp add: live_def core_def env_ok_def)
  note po = prepareAggregate_ok [OF this Suc.prems(2) prep, of env]
  have l1: "live std env req budget s1" using live_opened [OF Suc.prems(1)] po by blast
  show ?case
  proof (cases r)
    case (PrepError m c)
    with po ended_httpError [OF Suc.prems(1)] prep show ?thesis by (simp add: prepared_ok_def)
  next
    case PrepGone
    with po ended_gone [OF Suc.prems(1)] prep show ?thesis by (simp add: prepared_ok_def)
  next
    case (Prepared pp)
    let ?hook = "shouldRetryAggregate (genv n) req agg (n = 0) exclude pp"
    obtain again s2 where sv: "serveVendorRequestWithAggregateHook std env req pp (Some ?hook) s1 = (again, s2)" by fastforce
    obtain allow where body: "prepareRequestBody std req allow = Inr (pp_bodySource pp)" and fresh: "usesManagedUpstreamKeys (pp_vendor pp) \<or>
        \<not> hasTried (pp_vendor pp) (passthroughUpstreamKey (pp_vendor pp) (hr_Header req)) (q_exec s1)"
      using po Prepared by (auto simp: prepared_ok_def)
    note res = child.vendor_result [OF l1 ok refl body fresh sv]
    show ?thesis
    proof (cases again)
      case False
      with res prep Prepared sv show ?thesis by simp
    next
      case True
      have "0 < n" using res True by (auto simp: call_hook_def shouldRetryAggregate_def split: if_splits)
      moreover have "\<exists>allow. prepareRequestBody std req allow =
          Inr (case bodySource of None \<Rightarrow> pp_bodySource pp | Some b \<Rightarrow> b)"
        using body po Prepared by (auto split: option.split)
      ultimately have "ended std env req budget (aggregate_loop std env genv req agg path n (insert (pp_aggregateChildID pp) exclude)
          (Some (case bodySource of None \<Rightarrow> pp_bodySource pp | Some b \<Rightarrow> b)) s2)"
        using res True by (intro Suc.IH) auto
      then show ?thesis using prep Prepared sv True by simp
    qed
  qed
qed simp

definition request_budget :: "vendorGateway \<Rightarrow> int" where
  "request_budget v = ex_maxAttempts (newRequestExecution (maxUpstreamAttempts v))"

lemma aggregate_ended:
  assumes "world_wf w" and ok: "env_ok env genv"
  shows "ended std env req (request_budget agg) (serveAggregateRequest std env genv req agg path w)"
proof -
  let ?s = "initial_state agg w"
  have l: "live std env req (request_budget agg) ?s" unfolding request_budget_def by (rule initial_live [OF assms(1)])
  have wf: "world_wf (q_world ?s)" using assms(1) by (simp add: initial_state_def)
  show ?thesis
  proof (cases "authorizeClient agg (hr_Header req)")
    case (Some e)
    with ended_httpError [OF l opened_refl [OF wf], of "auth_error_text e"] show ?thesis
      by (simp add: serveAggregateRequest_def Let_def prepare_texts_def)
  next
    case None
    show ?thesis
    proof (cases "boolOrDefault (rc_Enabled (vg_aggRetry agg)) True")
      case True
      with None aggregate_loop_ended [OF l ok, of None] show ?thesis by (simp add: serveAggregateRequest_def Let_def)
    next
      case False
      obtain r s1 where prep: "prepareAggregateRequest std (genv 0) req agg path {} None ?s = (r, s1)" by fastforce
      have "world_wf (ag_before (genv 0) (q_world ?s))" using wf ok by (simp add: env_ok_def)
      note po = prepareAggregate_ok [OF this _ prep, of env, simplified]
      have l1: "live std env req (request_budget agg) s1" using live_opened [OF l] po by blast
      have run: "serveAggregateRequest std env genv req agg path w = (case r of
          PrepError message code \<Rightarrow> writeHTTPError message code s1 | PrepGone \<Rightarrow> s1
        | Prepared pp \<Rightarrow> snd (serveVendorRequestWithAggregateHook std env req pp None s1))"
        using None False prep by (simp add: serveAggregateRequest_def Let_def)
      show ?thesis
      proof (cases r)
        case (Prepared pp)
        obtain again s2 where sv: "serveVendorRequestWithAggregateHook std env req pp None s1 = (again, s2)" by fastforce
        obtain allow where "prepareRequestBody std req allow = Inr (pp_bodySource pp)" "usesManagedUpstreamKeys (pp_vendor pp) \<or>
            \<not> hasTried (pp_vendor pp) (passthroughUpstreamKey (pp_vendor pp) (hr_Header req)) (q_exec s1)"
          using po Prepared by (auto simp: prepared_ok_def)
        from plain.vendor_result [OF l1 ok refl this sv] sv Prepared run show ?thesis by (auto simp: call_hook_def)
      qed (use po run ended_httpError [OF l] ended_gone [OF l] in \<open>auto simp: prepared_ok_def\<close>)
    qed
  qed
qed

lemma vendor_ended:
  assumes "world_wf w" and ok: "env_ok env genv" and "\<not> vg_isAggregate v"
  shows "ended std env req (request_budget v) (serve_vendor std env genv req v path w) \<and>
    int (length (sends (q_log (serve_vendor std env genv req v path w)))) \<le> failover_limit v"
proof -
  let ?s = "initial_state v w"
  have l: "live std env req (request_budget v) ?s" unfolding request_budget_def by (rule initial_live [OF assms(1)])
  have wf: "world_wf (q_world ?s)" using assms(1) by (simp add: initial_state_def)
  have fl: "0 < failover_limit v" by (simp add: failover_limit_def Let_def)
  have log: "q_log ?s = []" by (simp add: initial_state_def)
  obtain r where prep: "prepareNonAggregateRequest std req v path = r" by blast
  have po: "prepared_ok std env req ?s r" unfolding prep [symmetric] by (rule prepareNonAggregate_ok) (simp add: initial_state_def)
  have run: "serve_vendor std env genv req v path w = (case r of
      PrepError message code \<Rightarrow> writeHTTPError message code ?s | PrepGone \<Rightarrow> ?s
    | Prepared pp \<Rightarrow> serveVendorRequest std env req pp w)"
    using assms(3) prep by (simp add: serve_vendor_def)
  show ?thesis
  proof (cases r)
    case (PrepError m c)
    with po run ended_httpError [OF l opened_refl [OF wf]] fl log show ?thesis
      by (simp add: prepared_ok_def writeHTTPError_def logs_def send_of_def)
  next
    case PrepGone
    with po run ended_gone [OF l opened_refl [OF wf]] fl log show ?thesis by (simp add: prepared_ok_def)
  next
    case (Prepared pp)
    have v: "pp_vendor pp = v"
      using prep Prepared by (auto simp: prepareNonAggregateRequest_def split: option.splits sum.splits if_splits)
    obtain again s2 where sv: "serveVendorRequestWithAggregateHook std env req pp None ?s = (again, s2)" by fastforce
    obtain allow where "prepareRequestBody std req allow = Inr (pp_bodySource pp)" "usesManagedUpstreamKeys (pp_vendor pp) \<or>
        \<not> hasTried (pp_vendor pp) (passthroughUpstreamKey (pp_vendor pp) (hr_Header req)) (q_exec ?s)"
      using po Prepared by (auto simp: prepared_ok_def)
    from plain.vendor_result [OF l ok refl this sv] sv Prepared run log v show ?thesis
      by (auto simp: call_hook_def serveVendorRequest_def)
  qed
qed

lemma serve_vendor_ended:
  assumes "world_wf w" and "env_ok env genv"
  shows "ended std env req (request_budget v) (serve_vendor std env genv req v path w)"
  using vendor_ended [OF assms, of v std req path] aggregate_ended [OF assms, of std req v path]
  by (cases "vg_isAggregate v") (simp_all add: serve_vendor_def)

section \<open>Properties\<close>

text \<open>A gateway with one vendor of three keys whose upstream answers every request with status 500.\<close>

definition sample_world :: world where
  "sample_world = \<lparr>w_pools = (\<lambda>_. sample_pool ''round_robin''), w_heap = sample_heap, w_aggs = (\<lambda>_. sample_agg)\<rparr>"

definition failing_env :: "nat \<Rightarrow> attempt_env" where
  "failing_env n = \<lparr>av_before = (\<lambda>w. w), av_choice = 0, av_acquireNow = 5, av_targetURL = None, av_build = BuildOk,
     av_during = (\<lambda>w. w), av_reply = Reply (broken_response\<lparr>ur_StatusCode := 500\<rparr>) (Preview ''overloaded'') 3, av_policyNow = 6,
     av_settleNow = (7, 7), av_checkNow = 8, av_streamParam = []\<rparr>"

definition sample_genv :: "nat \<Rightarrow> aggregate_env" where
  "sample_genv n = \<lparr>ag_before = (\<lambda>w. w), ag_choice = 0, ag_now = (\<lambda>_. 5), ag_hookNow = (\<lambda>_. 5)\<rparr>"

abbreviation sample_run :: rq_state where
  "sample_run \<equiv> serve_vendor plain_lib failing_env sample_genv sample_request sample_vendor (\<lambda>_. ''/v1/messages'') sample_world"

lemma sample_ok: "world_wf sample_world" "env_ok failing_env sample_genv" "urls_ok failing_env" "client_stays failing_env sample_request"
  by (simp_all add: world_wf_def sample_world_def newAggregatePool_inv env_ok_def failing_env_def sample_genv_def urls_ok_def
      client_stays_def client_alive_def broken_response_def sample_request_def)

text \<open>C4: A request ends after a bounded number of upstream requests, whatever the upstreams answer and
  whatever other requests do to the pools meanwhile: never more than the budget of the request, for a
  plain vendor never more than its failover limit, and never twice with the same key (a managed key is
  identified by its index, a passed-through one by its text), also across the children of an aggregate.\<close>

theorem request_attempts_bounded:
  assumes "world_wf w" and "env_ok env genv"
  shows "let xs = sends (q_log (serve_vendor std env genv req v path w)) in
    int (length xs) \<le> maxUpstreamAttempts v \<and>
    (\<not> vg_isAggregate v \<longrightarrow> int (length xs) \<le> failover_limit v) \<and> distinct (map target xs)"
  using serve_vendor_ended [OF assms, of std req v path] vendor_ended [OF assms, of v std req path]
  by (auto simp: Let_def ended_def core_def request_budget_def newRequestExecution_def maxUpstreamAttempts_def split: if_splits)

theorem request_attempts_bounded_witness:
  "length (sends (q_log sample_run)) \<le> 10 \<and> distinct (map target (sends (q_log sample_run)))"
  using request_attempts_bounded [OF sample_ok(1,2), of plain_lib sample_request sample_vendor "\<lambda>_. ''/v1/messages''"]
  by (simp add: Let_def maxUpstreamAttempts_def sample_vendor_def)

text \<open>C2: Every key that a request takes is given back exactly once, on every path: for each key of each
  vendor the acquisitions in the log of a finished request are matched by its settlements and plain
  releases.\<close>

theorem keys_given_back:
  assumes "world_wf w" and "env_ok env genv"
  shows "open_count (q_log (serve_vendor std env genv req v path w)) vendor idx = 0"
  using serve_vendor_ended [OF assms, of std req v path] by (simp add: ended_def core_def)

theorem keys_given_back_witness: "open_count (q_log sample_run) ''v1'' 2 = 0"
  by (rule keys_given_back [OF sample_ok(1,2)])



text \<open>C5: The client is answered: it never sees two response heads, and as long as it neither disconnects
  nor cancels it sees exactly one, for every outcome of authorisation, body, key selection and
  upstream.\<close>

theorem client_answered:
  assumes "world_wf w" and "env_ok env genv"
  shows "heads (q_log (serve_vendor std env genv req v path w)) \<le> 1 \<and>
    (client_stays env req \<longrightarrow> heads (q_log (serve_vendor std env genv req v path w)) = 1)"
  using serve_vendor_ended [OF assms, of std req v path] by (simp add: ended_def)

theorem client_answered_witness: "heads (q_log sample_run) = 1"
  using client_answered [OF sample_ok(1,2)] sample_ok(4) by blast

text \<open>The two guards of the failover loop are unreachable, as the comments in the code say: no request
  is answered with their messages, given that no failure to build a target URL carries the same text.\<close>

theorem failover_guards_unreachable:
  assumes "world_wf w" and "env_ok env genv" and "urls_ok env"
  shows "EvClient (ClientError ''exceeded maximum failover attempts'' 502) \<notin> set (q_log (serve_vendor std env genv req v path w)) \<and>
    EvClient (ClientError ''exceeded maximum upstream attempts'' 502) \<notin> set (q_log (serve_vendor std env genv req v path w))"
  using serve_vendor_ended [OF assms(1,2), of std req v path] assms(3) by (auto simp: ended_def core_def guard_events_def)

theorem failover_guards_unreachable_witness:
  "EvClient (ClientError ''exceeded maximum failover attempts'' 502) \<notin> set (q_log sample_run)"
  using failover_guards_unreachable [OF sample_ok(1,2,3)] by blast

end
