(* ===== verification/UrlPath.thy ===== *)
theory UrlPath
  imports RequestExec
begin

text \<open>
  Routing by path and the URL of an upstream request, from \<open>internal/gateway/url_path.go\<close>, the URL part
  of \<open>vendor_proxy.go\<close>, \<open>router.go\<close> and \<open>internal/resin/resin.go\<close>.  A path is carried in two forms, decoded
  and escaped, so that an escaped slash never becomes a separator; the theorems say that the two forms
  stay in step from the client's request line to the upstream URL, that the fast path for plain paths
  agrees with the general one on all but five characters, and that rewriting does not depend on the
  iteration order of Go maps.
\<close>

section \<open>Percent encoding\<close>

text \<open>\<open>net/url\<close> in the mode for paths.\<close>

definition alnum :: "char \<Rightarrow> bool" where
  "alnum c \<longleftrightarrow> (let n = (of_char c :: nat) in 97 \<le> n \<and> n \<le> 122 \<or> 65 \<le> n \<and> n \<le> 90 \<or> 48 \<le> n \<and> n \<le> 57)"

definition shouldEscape :: "char \<Rightarrow> bool" where
  "shouldEscape c \<longleftrightarrow> \<not> (alnum c \<or> c \<in> set ''-_.~$&+,/:;=@'')"

definition upper_hex :: "nat \<Rightarrow> char" where
  "upper_hex n = (if n < 10 then char_of (48 + n) else char_of (55 + n))"

definition percent :: "char \<Rightarrow> string" where
  "percent c = [CHR ''%'', upper_hex (of_char c div 16), upper_hex (of_char c mod 16)]"

definition escape_with :: "(char \<Rightarrow> bool) \<Rightarrow> string \<Rightarrow> string" where
  "escape_with esc s = concat (map (\<lambda>c. if esc c then percent c else [c]) s)"

definition escape :: "string \<Rightarrow> string" where
  "escape s = escape_with shouldEscape s"

text \<open>\<open>url.PathEscape\<close> escapes the separators of a path, too.\<close>

definition PathEscape :: "string \<Rightarrow> string" where
  "PathEscape s = escape_with (\<lambda>c. shouldEscape c \<or> c \<in> set ''/;,'') s"

definition unhex :: "char \<Rightarrow> nat option" where
  "unhex c = (let n = (of_char c :: nat) in
     if 48 \<le> n \<and> n \<le> 57 then Some (n - 48)
     else if 97 \<le> n \<and> n \<le> 102 then Some (n - 87)
     else if 65 \<le> n \<and> n \<le> 70 then Some (n - 55) else None)"

fun unescape :: "string \<Rightarrow> string option" where
  "unescape [] = Some []"
| "unescape (c # s) =
     (if c \<noteq> CHR ''%'' then map_option ((#) c) (unescape s)
      else case s of
        a # b # r \<Rightarrow>
          (case (unhex a, unhex b) of
             (Some x, Some y) \<Rightarrow> map_option ((#) (char_of (16 * x + y))) (unescape r)
           | _ \<Rightarrow> None)
      | _ \<Rightarrow> None)"

definition validEncoded :: "string \<Rightarrow> bool" where
  "validEncoded s = list_all (\<lambda>c. c \<in> set ''!$&()*+,;=:@[]%'' \<or> c = CHR 0x27 \<or> \<not> shouldEscape c) s"

text \<open>A URL with a host and without a fragment, as the base URL of a vendor is checked to be: \<open>u_Origin\<close> is the
  text of the scheme, the user information and the host.\<close>

record go_url =
  u_Origin :: string
  u_Path :: string
  u_RawPath :: string
  u_ForceQuery :: bool
  u_RawQuery :: string

definition EscapedPath :: "go_url \<Rightarrow> string" where
  "EscapedPath u =
     (if u_RawPath u \<noteq> [] \<and> validEncoded (u_RawPath u) \<and> unescape (u_RawPath u) = Some (u_Path u) then u_RawPath u
      else if u_Path u = ''*'' then ''*''
      else escape (u_Path u))"

definition url_String :: "go_url \<Rightarrow> string" where
  "url_String u =
     (let p = EscapedPath u
      in u_Origin u @ (if p \<noteq> [] \<and> hd p \<noteq> CHR ''/'' then ''/'' else []) @ p @
         (if u_ForceQuery u \<or> u_RawQuery u \<noteq> [] then CHR ''?'' # u_RawQuery u else []))"

section \<open>Joining and rewriting paths\<close>

record routedPath =
  rp_path :: string
  rp_rawPath :: string

definition singleJoiningSlash :: "string \<Rightarrow> string \<Rightarrow> string" where
  "singleJoiningSlash a b =
     (let aslash = has_suffix a ''/''; bslash = has_prefix b ''/'' in
      if aslash \<and> bslash then a @ tl b else if \<not> aslash \<and> \<not> bslash then a @ ''/'' @ b else a @ b)"

definition joinURLPath :: "go_url \<Rightarrow> go_url \<Rightarrow> string \<times> string" where
  "joinURLPath base request =
     (if u_RawPath base = [] \<and> u_RawPath request = [] then (singleJoiningSlash (u_Path base) (u_Path request), [])
      else
        let basePath = EscapedPath base; requestPath = EscapedPath request;
            baseSlash = has_suffix basePath ''/''; requestSlash = has_prefix requestPath ''/''
        in if baseSlash \<and> requestSlash then (u_Path base @ tl (u_Path request), basePath @ tl requestPath)
           else if \<not> baseSlash \<and> \<not> requestSlash
           then (u_Path base @ ''/'' @ u_Path request, basePath @ ''/'' @ requestPath)
           else (u_Path base @ u_Path request, basePath @ requestPath))"

definition splitVendorPath :: "string \<Rightarrow> (string \<times> string) option" where
  "splitVendorPath path =
     (let clean = trim_prefix path ''/'' in
      if clean = [] then None
      else let (vendor, rest) = cut (CHR ''/'') clean in
        if vendor = [] then None
        else case rest of None \<Rightarrow> Some (vendor, ''/'') | Some r \<Rightarrow> Some (vendor, ''/'' @ r))"

definition splitVendorRequestPath :: "go_url \<Rightarrow> (string \<times> routedPath) option" where
  "splitVendorRequestPath u =
     (case splitVendorPath (EscapedPath u) of
        None \<Rightarrow> None
      | Some (vendor, escaped) \<Rightarrow>
          (case unescape vendor of
             None \<Rightarrow> None
           | Some vendor \<Rightarrow>
               if contains vendor ''/'' then None
               else case unescape escaped of
                 None \<Rightarrow> None
               | Some path \<Rightarrow> Some (vendor, \<lparr>rp_path = path, rp_rawPath = (if escaped \<noteq> path then escaped else [])\<rparr>)))"

definition NormalizePath :: "string \<Rightarrow> string" where
  "NormalizePath path = (if path = [] then ''/'' else if \<not> has_prefix path ''/'' then ''/'' @ path else path)"

record rewriteRule =
  rw_from :: string
  rw_to :: string

record rewriteMatcher =
  rm_exact :: "string \<rightharpoonup> string"
  rm_prefixes :: "rewriteRule list"

definition is_prefix_rule :: "string \<times> string \<Rightarrow> bool" where
  "is_prefix_rule r = has_suffix (NormalizePath (fst r)) ''*''"

definition prefix_rule :: "string \<times> string \<Rightarrow> rewriteRule" where
  "prefix_rule r = \<lparr>rw_from = trim_suffix (NormalizePath (fst r)) ''*'', rw_to = trim_suffix (NormalizePath (snd r)) ''*''\<rparr>"

text \<open>The rules in the order in which the Go map yields them.  Since that order is arbitrary, a stable sort
  covers every result of the unstable one.\<close>

definition newRewriteMatcher :: "(string \<times> string) list \<Rightarrow> rewriteMatcher" where
  "newRewriteMatcher m =
     \<lparr>rm_exact = fold (\<lambda>(from, to) e. e(NormalizePath from \<mapsto> NormalizePath to)) (filter (Not \<circ> is_prefix_rule) m) Map.empty,
      rm_prefixes = sort_key (\<lambda>r. - int (length (rw_from r))) (map prefix_rule (filter is_prefix_rule m))\<rparr>"

text \<open>The first rule of the sorted list whose prefix matches.\<close>

definition matching_rule :: "rewriteMatcher \<Rightarrow> string \<Rightarrow> rewriteRule option" where
  "matching_rule r path = find (\<lambda>rule. has_prefix path (rw_from rule)) (rm_prefixes r)"

definition rw_Apply :: "rewriteMatcher \<Rightarrow> string \<Rightarrow> string" where
  "rw_Apply r path =
     (case rm_exact r path of
        Some to \<Rightarrow> to
      | None \<Rightarrow>
          (case matching_rule r path of
             None \<Rightarrow> path
           | Some rule \<Rightarrow>
               let tail = trim_prefix path (rw_from rule);
                   tail = (if \<not> has_prefix tail ''/'' \<and> tail \<noteq> [] then ''/'' @ tail else tail)
               in trim_right_slash (rw_to rule) @ tail))"

text \<open>The escaped path is well formed, so that three bytes follow from each percent sign on.\<close>

fun escapedSuffix :: "string \<Rightarrow> nat \<Rightarrow> string" where
  "escapedSuffix raw 0 = raw"
| "escapedSuffix [] (Suc n) = []"
| "escapedSuffix (c # s) (Suc n) = escapedSuffix (if c = CHR ''%'' then drop 2 s else s) n"

definition applyPath :: "rewriteMatcher \<Rightarrow> routedPath \<Rightarrow> routedPath" where
  "applyPath r path =
     (if rp_rawPath path = [] then \<lparr>rp_path = rw_Apply r (rp_path path), rp_rawPath = []\<rparr>
      else case rm_exact r (rp_path path) of
        Some to \<Rightarrow> \<lparr>rp_path = to, rp_rawPath = []\<rparr>
      | None \<Rightarrow>
          (case matching_rule r (rp_path path) of
             None \<Rightarrow> path
           | Some rule \<Rightarrow>
               let tail = trim_prefix (rp_path path) (rw_from rule);
                   rawTail = escapedSuffix (rp_rawPath path) (length (rw_from rule));
                   (tail, rawTail) = (if tail \<noteq> [] \<and> \<not> has_prefix tail ''/'' then (''/'' @ tail, ''/'' @ rawTail) else (tail, rawTail));
                   prefix = trim_right_slash (rw_to rule);
                   prefixURL = \<lparr>u_Origin = [], u_Path = prefix, u_RawPath = [], u_ForceQuery = False, u_RawQuery = []\<rparr>
               in \<lparr>rp_path = prefix @ tail, rp_rawPath = EscapedPath prefixURL @ rawTail\<rparr>))"

section \<open>The target URL\<close>

text \<open>\<open>url.Parse\<close> as \<open>BuildReverseURL\<close> and \<open>ParseRuntime\<close> use it is the argument \<open>parse\<close>.\<close>

record parsed_url =
  pu_Scheme :: string
  pu_Host :: string
  pu_EscapedPath :: string
  pu_RawQuery :: string

record RuntimeConfig =
  rt_ResinURL :: string
  rt_Platform :: string
  rt_ProxyOrigin :: string
  rt_Token :: string

definition BuildReverseURL :: "(string \<Rightarrow> string + parsed_url) \<Rightarrow> string \<Rightarrow> RuntimeConfig \<Rightarrow> string + string" where
  "BuildReverseURL parse target cfg =
     (case parse target of
        Inl e \<Rightarrow> Inl (''parse target: '' @ e)
      | Inr u \<Rightarrow>
          if pu_Scheme u \<noteq> ''http'' \<and> pu_Scheme u \<noteq> ''https'' then Inl ''target must be http/https''
          else if pu_Host u = [] then Inl ''target host required''
          else
            let path = (if pu_EscapedPath u = [] then ''/'' else pu_EscapedPath u);
                res = rt_ResinURL cfg @ ''/'' @ PathEscape (rt_Platform cfg) @ ''/'' @ pu_Scheme u @ ''/'' @ pu_Host u @ path
            in Inr (if pu_RawQuery u \<noteq> [] then res @ ''?'' @ pu_RawQuery u else res))"

definition ParseRuntime :: "(string \<Rightarrow> string + parsed_url) \<Rightarrow> string \<Rightarrow> string \<Rightarrow> string + RuntimeConfig option" where
  "ParseRuntime parse URL Platform =
     (let urlText = trim_space (trim_right_slash URL) in
      if urlText = [] then Inr None
      else if trim_space Platform = [] then Inl ''resin platform required''
      else if contains Platform ''/'' then Inl ''resin platform must be single path segment''
      else case parse urlText of
        Inl e \<Rightarrow> Inl (''invalid resin url: '' @ e)
      | Inr u \<Rightarrow>
          if pu_Scheme u \<noteq> ''http'' \<and> pu_Scheme u \<noteq> ''https'' then Inl ''resin url scheme must be http/https''
          else if pu_Host u = [] then Inl ''resin url host is empty''
          else let token = trim_prefix (pu_EscapedPath u) ''/'' in
            if token = [] then Inl ''resin url must include token path''
            else Inr (Some \<lparr>rt_ResinURL = urlText, rt_Platform = Platform,
                   rt_ProxyOrigin = pu_Scheme u @ ''://'' @ pu_Host u, rt_Token = token\<rparr>))"

definition buildTargetURLFromBase ::
  "(string \<Rightarrow> string + parsed_url) \<Rightarrow> go_url option \<Rightarrow> string \<Rightarrow> string \<Rightarrow> RuntimeConfig option \<Rightarrow> string \<Rightarrow> string + string" where
  "buildTargetURLFromBase parse baseURL path rawQuery resinRuntime rawPath =
     (case baseURL of
        None \<Rightarrow> Inl ''upstream base_url is empty''
      | Some base \<Rightarrow>
          let requestURL = \<lparr>u_Origin = [], u_Path = path, u_RawPath = rawPath, u_ForceQuery = False, u_RawQuery = []\<rparr>;
              (p, rp) = joinURLPath base requestURL;
              query = u_RawQuery base @ (if rawQuery \<noteq> [] then (if u_RawQuery base \<noteq> [] then ''&'' else []) @ rawQuery else []);
              resolved = url_String (base\<lparr>u_Path := p, u_RawPath := rp, u_RawQuery := query\<rparr>)
          in case resinRuntime of None \<Rightarrow> Inr resolved | Some cfg \<Rightarrow> BuildReverseURL parse resolved cfg)"

definition joinTargetURL :: "string \<Rightarrow> string \<Rightarrow> string \<Rightarrow> string" where
  "joinTargetURL prefix path rawQuery =
     (let hasPrefixSlash = has_suffix prefix ''/''; hasPathSlash = has_prefix path ''/''
      in prefix @
         (if hasPrefixSlash \<and> hasPathSlash then tl path
          else if \<not> hasPrefixSlash \<and> \<not> hasPathSlash then ''/'' @ path else path) @
         (if rawQuery \<noteq> [] then ''?'' @ rawQuery else []))"

definition pathIsURLSafe :: "string \<Rightarrow> bool" where
  "pathIsURLSafe path = list_all (\<lambda>c. alnum c \<or> c \<in> set ''-_.~/:@!$&()*+,;='' \<or> c = CHR 0x27) path"

definition buildTargetURL ::
  "(string \<Rightarrow> string + parsed_url) \<Rightarrow> go_url \<Rightarrow> string \<Rightarrow> RuntimeConfig option \<Rightarrow> string \<Rightarrow> string \<Rightarrow> string \<Rightarrow> string + string" where
  "buildTargetURL parse baseURL baseURLPrefix resinRuntime path rawQuery rawPath =
     (if resinRuntime = None \<and> baseURLPrefix \<noteq> [] \<and> u_RawQuery baseURL = [] \<and> \<not> u_ForceQuery baseURL \<and>
         rawPath = [] \<and> pathIsURLSafe path
      then Inr (joinTargetURL baseURLPrefix path rawQuery)
      else buildTargetURLFromBase parse (Some baseURL) path rawQuery resinRuntime rawPath)"

section \<open>Routing a request\<close>

text \<open>\<open>ServeHTTP\<close> after the internal routes: the vendors by name, and the base URL and the rewriting rules of
  each vendor by its id.\<close>

definition request_url :: "routedPath \<Rightarrow> go_url" where
  "request_url rp = \<lparr>u_Origin = [], u_Path = rp_path rp, u_RawPath = rp_rawPath rp, u_ForceQuery = False, u_RawQuery = []\<rparr>"

definition ServeHTTP ::
  "std_lib \<Rightarrow> (nat \<Rightarrow> attempt_env) \<Rightarrow> (nat \<Rightarrow> aggregate_env) \<Rightarrow> client_request \<Rightarrow> go_url \<Rightarrow> (string \<rightharpoonup> vendorGateway) \<Rightarrow>
     (string \<Rightarrow> go_url \<times> rewriteMatcher) \<Rightarrow> world \<Rightarrow> rq_state" where
  "ServeHTTP std env genv req url vendors targets w =
     (let s = \<lparr>q_exec = newRequestExecution 0, q_world = w, q_log = []\<rparr> in
      case splitVendorRequestPath url of
        None \<Rightarrow> writeHTTPError ''not found'' 404 s
      | Some (vendorName, upstreamPath) \<Rightarrow>
          (case vendors vendorName of
             None \<Rightarrow> writeHTTPError ''unknown vendor'' 404 s
           | Some vg \<Rightarrow>
               serve_vendor std env genv req vg
                 (\<lambda>vendorID. let (base, rewrites) = targets vendorID
                             in fst (joinURLPath base (request_url (applyPath rewrites upstreamPath)))) w))"

section \<open>Encoding and decoding\<close>

lemma of_char_less_256: "(of_char c :: nat) < 256"
  by (metis nat_of_char_less_256)

lemma hex_halves: "(of_char c :: nat) div 16 < 16" "(of_char c :: nat) mod 16 < 16"
  using of_char_less_256 [of c] by (simp_all add: less_mult_imp_div_less)

lemma unhex_upper_hex: "n < 16 \<Longrightarrow> unhex (upper_hex n) = Some n"
  by (auto simp: unhex_def upper_hex_def Let_def of_char_of)

lemma unescape_percent: "unescape (percent c @ s) = map_option ((#) c) (unescape s)"
  by (simp add: percent_def unhex_upper_hex hex_halves)

lemma shouldEscape_percent: "shouldEscape (CHR ''%'')"
  by (simp add: shouldEscape_def alnum_def)

lemma unescape_escape: "unescape (escape s @ t) = map_option ((@) s) (unescape t)"
proof (induction s)
  case Nil
  then show ?case by (simp add: escape_def escape_with_def option.map_ident)
next
  case (Cons c s)
  show ?case
  proof (cases "shouldEscape c")
    case True
    then have "escape (c # s) @ t = percent c @ escape s @ t" by (simp add: escape_def escape_with_def)
    then show ?thesis using Cons by (simp add: unescape_percent option.map_comp comp_def)
  next
    case False
    with shouldEscape_percent have "c \<noteq> CHR ''%''" by auto
    with False show ?thesis using Cons by (simp add: escape_def escape_with_def option.map_comp comp_def)
  qed
qed

lemma unescape_append: "unescape a = Some x \<Longrightarrow> unescape (a @ b) = map_option ((@) x) (unescape b)"
proof (induction a arbitrary: x rule: unescape.induct)
  case 1
  then show ?case by (simp add: option.map_ident)
next
  case (2 c s)
  show ?case
  proof (cases "c = CHR ''%''")
    case True
    with "2.prems" obtain p q r y z w where s: "s = p # q # r" "unhex p = Some y" "unhex q = Some z" "unescape r = Some w"
      "x = char_of (16 * y + z) # w"
      by (auto split: list.splits option.splits prod.splits)
    have "unescape (r @ b) = map_option ((@) w) (unescape b)" using "2.IH"(2) True s by auto
    with True s show ?thesis by (simp add: option.map_comp comp_def)
  next
    case False
    with 2 show ?thesis by (cases "unescape b") auto
  qed
qed

lemma upper_hex_alnum: "n < 16 \<Longrightarrow> alnum (upper_hex n)"
  by (auto simp: alnum_def upper_hex_def Let_def of_char_of)

lemma validEncoded_append [simp]: "validEncoded (a @ b) \<longleftrightarrow> validEncoded a \<and> validEncoded b"
  by (simp add: validEncoded_def)

lemma validEncoded_escape: "validEncoded (escape s)"
proof (induction s)
  case Nil
  then show ?case by (simp add: escape_def escape_with_def validEncoded_def)
next
  case (Cons c s)
  have "validEncoded (percent c)" by (simp add: validEncoded_def percent_def shouldEscape_def upper_hex_alnum hex_halves)
  moreover have "escape (c # s) = (if shouldEscape c then percent c else [c]) @ escape s"
    by (simp add: escape_def escape_with_def)
  ultimately show ?case using Cons by (simp add: validEncoded_def)
qed

lemma EscapedPath_valid: "validEncoded (EscapedPath u)"
  by (simp add: EscapedPath_def validEncoded_escape) (simp add: validEncoded_def)

lemma unescape_EscapedPath: "unescape (EscapedPath u) = Some (u_Path u)"
  using unescape_escape [of "u_Path u" "[]"] by (simp add: EscapedPath_def)

section \<open>Slashes\<close>

lemma prefix_slash: "has_prefix s ''/'' \<longleftrightarrow> s \<noteq> [] \<and> hd s = CHR ''/''"
  by (cases s) (auto simp: has_prefix_iff)

lemma suffix_slash: "has_suffix s ''/'' \<longleftrightarrow> s \<noteq> [] \<and> last s = CHR ''/''"
  by (cases s rule: rev_cases) (auto simp: has_suffix_iff)

lemma plain_slash: "\<not> shouldEscape (CHR ''/'')"
  by (simp add: shouldEscape_def)

lemma percent_ends: "hd (percent c) = CHR ''%''" "last (percent c) \<noteq> CHR ''/''" "percent c \<noteq> []"
proof -
  have "alnum (last (percent c))" by (simp add: percent_def upper_hex_alnum hex_halves)
  moreover have "\<not> alnum (CHR ''/'')" by (simp add: alnum_def)
  ultimately show "last (percent c) \<noteq> CHR ''/''" by auto
qed (simp_all add: percent_def)

lemma escape_append [simp]: "escape (a @ b) = escape a @ escape b"
  by (simp add: escape_def escape_with_def)

lemma escape_Nil [simp]: "escape [] = []"
  by (simp add: escape_def escape_with_def)

lemma escape_single: "escape [c] = (if shouldEscape c then percent c else [c])"
  by (simp add: escape_def escape_with_def)

lemma escape_Nil_iff: "escape s = [] \<longleftrightarrow> s = []"
  by (cases s) (auto simp: escape_def escape_with_def percent_def)

lemma escape_prefix_slash: "has_prefix (escape s) ''/'' \<longleftrightarrow> has_prefix s ''/''"
proof (cases s)
  case (Cons c r)
  have "escape s = escape [c] @ escape r" using escape_append [of "[c]" r] by (simp add: Cons)
  then show ?thesis using percent_ends plain_slash by (auto simp: prefix_slash Cons escape_single)
qed (simp add: prefix_slash)

lemma escape_suffix_slash: "has_suffix (escape s) ''/'' \<longleftrightarrow> has_suffix s ''/''"
proof (cases s rule: rev_cases)
  case (snoc r c)
  have "escape s = escape r @ escape [c]" using escape_append [of r "[c]"] by (simp add: snoc)
  then show ?thesis using percent_ends plain_slash by (auto simp: suffix_slash snoc escape_single)
qed (simp add: suffix_slash)

lemma escape_tl: "has_prefix s ''/'' \<Longrightarrow> escape (tl s) = tl (escape s)"
proof -
  assume "has_prefix s ''/''"
  then obtain r where s: "s = [CHR ''/''] @ r" by (auto simp: has_prefix_iff)
  show ?thesis unfolding s escape_append by (simp add: escape_single plain_slash)
qed

lemma escape_join: "escape (singleJoiningSlash a b) = singleJoiningSlash (escape a) (escape b)"
proof -
  have "escape (CHR ''/'' # b) = CHR ''/'' # escape b"
    using escape_append [of "''/''" b] by (simp add: escape_single plain_slash)
  then show ?thesis
    unfolding singleJoiningSlash_def Let_def escape_suffix_slash escape_prefix_slash by (simp add: escape_tl)
qed

lemma join_slash: "CHR ''/'' \<in> set (singleJoiningSlash a b)"
  by (cases b; cases a rule: rev_cases) (auto simp: singleJoiningSlash_def Let_def suffix_slash prefix_slash)

lemma join_valid: "validEncoded a \<Longrightarrow> validEncoded b \<Longrightarrow> validEncoded (singleJoiningSlash a b)"
  by (cases b) (auto simp: singleJoiningSlash_def Let_def validEncoded_def plain_slash)

lemma unescape_slash: "unescape (CHR ''/'' # s) = map_option ((#) (CHR ''/'')) (unescape s)"
  by simp

lemma unescape_tl:
  assumes "unescape r = Some p" and "has_prefix r ''/''" shows "unescape (tl r) = Some (tl p) \<and> has_prefix p ''/''"
proof -
  obtain t where r: "r = CHR ''/'' # t" using assms(2) by (auto simp: has_prefix_iff)
  then obtain q where "unescape t = Some q" "p = CHR ''/'' # q" using assms(1) by auto
  with r show ?thesis by (simp add: prefix_slash)
qed

lemma unescape_Nil: "unescape s = Some [] \<Longrightarrow> s = []"
  by (cases s) (auto split: if_splits list.splits option.splits)

text \<open>Joining URLs joins their escaped paths at one slash.\<close>

definition base_ok :: "go_url \<Rightarrow> bool" where
  "base_ok base \<longleftrightarrow> u_Origin base \<noteq> [] \<and> last (u_Origin base) \<noteq> CHR ''/'' \<and>
     (u_Path base = [] \<or> has_prefix (EscapedPath base) ''/'')"

lemma joined_escaped:
  assumes ok: "base_ok base" and star: "u_RawPath base \<noteq> [] \<or> u_RawPath req \<noteq> [] \<or> u_Path req \<noteq> ''*''"
    and j: "joinURLPath base req = (p, rp)"
  shows "EscapedPath (base\<lparr>u_Path := p, u_RawPath := rp, u_RawQuery := q\<rparr>) = singleJoiningSlash (EscapedPath base) (EscapedPath req)"
proof (cases "u_RawPath base = [] \<and> u_RawPath req = []")
  case True
  then have p: "p = singleJoiningSlash (u_Path base) (u_Path req)" "rp = []" using j by (simp_all add: joinURLPath_def)
  have "u_Path base \<noteq> ''*''" using ok True by (auto simp: base_ok_def EscapedPath_def prefix_slash)
  then have "EscapedPath base = escape (u_Path base)" "EscapedPath req = escape (u_Path req)"
    using True star by (simp_all add: EscapedPath_def)
  moreover have "p \<noteq> ''*''" using join_slash [of "u_Path base" "u_Path req"] unfolding p(1) [symmetric] by auto
  ultimately show ?thesis using p by (simp add: EscapedPath_def escape_join)
next
  case False
  let ?b = "EscapedPath base" and ?r = "EscapedPath req"
  have rp: "rp = singleJoiningSlash ?b ?r"
    using j False unfolding joinURLPath_def singleJoiningSlash_def Let_def by (auto split: if_splits)
  have un: "unescape ?b = Some (u_Path base)" "unescape ?r = Some (u_Path req)" by (rule unescape_EscapedPath)+
  have "unescape rp = Some p"
    using j False unescape_append [OF un(1)] un(2) unescape_tl [OF un(2)]
    unfolding joinURLPath_def Let_def by (auto split: if_splits)
  moreover have "validEncoded rp" unfolding rp by (intro join_valid EscapedPath_valid)
  moreover have "rp \<noteq> []" using join_slash [of ?b ?r] unfolding rp by auto
  ultimately show ?thesis by (simp add: EscapedPath_def rp)
qed

text \<open>The URL that the general path builds.\<close>

definition target_query :: "go_url \<Rightarrow> string \<Rightarrow> string" where
  "target_query base rawQuery =
     (let q = u_RawQuery base @ (if rawQuery \<noteq> [] then (if u_RawQuery base \<noteq> [] then ''&'' else []) @ rawQuery else [])
      in if u_ForceQuery base \<or> q \<noteq> [] then CHR ''?'' # q else [])"

lemma slow_path:
  assumes ok: "base_ok base" and star: "u_RawPath base \<noteq> [] \<or> rawPath \<noteq> [] \<or> path \<noteq> ''*''"
  shows "buildTargetURLFromBase parse (Some base) path rawQuery None rawPath =
    Inr (u_Origin base @ singleJoiningSlash (EscapedPath base) (EscapedPath (request_url \<lparr>rp_path = path, rp_rawPath = rawPath\<rparr>)) @
      target_query base rawQuery)"
proof -
  let ?req = "request_url \<lparr>rp_path = path, rp_rawPath = rawPath\<rparr>"
  obtain p rp where j: "joinURLPath base ?req = (p, rp)" by fastforce
  let ?x = "singleJoiningSlash (EscapedPath base) (EscapedPath ?req)"
  have e: "EscapedPath (base\<lparr>u_Path := p, u_RawPath := rp, u_RawQuery := q\<rparr>) = ?x" for q
    using joined_escaped [OF ok _ j] star by (simp add: request_url_def)
  have "EscapedPath base = [] \<or> has_prefix (EscapedPath base) ''/''"
  proof (cases "u_Path base = []")
    case True
    then show ?thesis using unescape_EscapedPath [of base] unescape_Nil by auto
  qed (use ok in \<open>simp add: base_ok_def\<close>)
  then have h: "?x \<noteq> [] \<and> hd ?x = CHR ''/''"
    by (auto simp: singleJoiningSlash_def Let_def prefix_slash suffix_slash)
  show ?thesis
    using j h unfolding buildTargetURLFromBase_def Let_def option.case request_url_def [symmetric]
    by (simp add: url_String_def e target_query_def Let_def request_url_def)
qed

lemma length_escape: "length (escape s) = length s + 2 * length (filter shouldEscape s)"
  by (induction s) (auto simp: escape_def escape_with_def percent_def)

lemma escape_id_iff: "escape s = s \<longleftrightarrow> (\<forall>c \<in> set s. \<not> shouldEscape c)"
proof
  assume "escape s = s"
  then have "filter shouldEscape s = []" using length_escape [of s] by simp
  then show "\<forall>c \<in> set s. \<not> shouldEscape c" by (simp add: filter_empty_conv)
next
  assume "\<forall>c \<in> set s. \<not> shouldEscape c"
  then show "escape s = s" by (induction s) (auto simp: escape_def escape_with_def)
qed

lemma join_cancel:
  "has_prefix b ''/'' = has_prefix c ''/'' \<Longrightarrow> singleJoiningSlash a b = singleJoiningSlash a c \<longleftrightarrow> b = c"
proof -
  assume e: "has_prefix b ''/'' = has_prefix c ''/''"
  have "tl b = tl c \<longleftrightarrow> b = c" if "has_prefix b ''/''" "has_prefix c ''/''"
    using that by (cases b; cases c) (auto simp: prefix_slash)
  with e show ?thesis unfolding singleJoiningSlash_def Let_def by simp
qed

lemma safe_escaped:
  assumes "alnum c \<or> c \<in> set ''-_.~/:@!$&()*+,;='' \<or> c = CHR 0x27"
  shows "shouldEscape c \<longleftrightarrow> c \<in> set ''!()*'' \<or> c = CHR 0x27"
proof (cases "alnum c")
  case True
  have "\<not> alnum d" if "d \<in> set ''!()*'' \<or> d = CHR 0x27" for d using that by (auto simp: alnum_def)
  with True show ?thesis by (auto simp: shouldEscape_def)
next
  case False
  with assms consider "c \<in> set ''!()*'' \<or> c = CHR 0x27" | "c \<in> set ''-_.~/:@$&+,;=''" by fastforce
  then show ?thesis using False by cases (auto simp: shouldEscape_def)
qed

section \<open>Both forms of a path\<close>

definition routed_ok :: "routedPath \<Rightarrow> bool" where
  "routed_ok rp \<longleftrightarrow> rp_rawPath rp = [] \<or> validEncoded (rp_rawPath rp) \<and> unescape (rp_rawPath rp) = Some (rp_path rp)"

lemma EscapedPath_routed: "routed_ok rp \<Longrightarrow> rp_rawPath rp \<noteq> [] \<Longrightarrow> EscapedPath (request_url rp) = rp_rawPath rp"
  by (simp add: EscapedPath_def routed_ok_def request_url_def)

lemma split_routed:
  assumes "splitVendorRequestPath u = Some (vendor, rp)"
  shows "routed_ok rp \<and> has_prefix (rp_path rp) ''/''"
proof -
  obtain v escaped where sp: "splitVendorPath (EscapedPath u) = Some (v, escaped)" and path: "unescape escaped = Some (rp_path rp)"
    "rp_rawPath rp = (if escaped \<noteq> rp_path rp then escaped else [])"
    using assms by (auto simp: splitVendorRequestPath_def split: option.splits prod.splits if_splits)
  obtain a r where c: "cut (CHR ''/'') (trim_prefix (EscapedPath u) ''/'') = (a, r)" by fastforce
  have esc: "escaped = (case r of None \<Rightarrow> ''/'' | Some b \<Rightarrow> ''/'' @ b)"
    using sp c by (auto simp: splitVendorPath_def Let_def split: if_splits option.splits)
  have "validEncoded (trim_prefix (EscapedPath u) ''/'')"
    using EscapedPath_valid [of u] by (auto simp: trim_prefix_def strip_prefix_Some_iff validEncoded_def split: option.splits)
  then have "validEncoded escaped"
    using esc c cut_Some [of "CHR ''/''" "trim_prefix (EscapedPath u) ''/''" a]
    by (auto simp: validEncoded_def plain_slash split: option.splits)
  moreover have "has_prefix escaped ''/''" using esc by (auto simp: has_prefix_iff split: option.splits)
  ultimately show ?thesis using path unescape_tl [OF path(1)] by (simp add: routed_ok_def)
qed

lemma split_suffix:
  assumes "splitVendorRequestPath u = Some (vendor, rp)" and "rp_rawPath rp \<noteq> []"
  shows "\<exists>a. EscapedPath u = a @ rp_rawPath rp"
proof -
  obtain v where sp: "splitVendorPath (EscapedPath u) = Some (v, rp_rawPath rp)" and "rp_rawPath rp \<noteq> rp_path rp"
    "unescape (rp_rawPath rp) = Some (rp_path rp)"
    using assms by (auto simp: splitVendorRequestPath_def split: option.splits prod.splits if_splits)
  then have ne: "rp_rawPath rp \<noteq> ''/''" by auto
  obtain a r where c: "cut (CHR ''/'') (trim_prefix (EscapedPath u) ''/'') = (a, r)" by fastforce
  have "r \<noteq> None" "rp_rawPath rp = ''/'' @ the r"
    using sp c ne by (auto simp: splitVendorPath_def Let_def split: if_splits option.splits)
  with cut_Some [of "CHR ''/''" "trim_prefix (EscapedPath u) ''/''" a "the r"] c
  have "trim_prefix (EscapedPath u) ''/'' = a @ rp_rawPath rp" by auto
  moreover have "\<exists>b. EscapedPath u = b @ trim_prefix (EscapedPath u) ''/''"
    by (auto simp: trim_prefix_def strip_prefix_Some_iff split: option.splits intro: exI [of _ "[]"])
  ultimately show ?thesis by (metis append.assoc)
qed

lemma unescape_suffix:
  "unescape raw = Some p \<Longrightarrow> n \<le> length p \<Longrightarrow> validEncoded raw \<Longrightarrow>
     unescape (escapedSuffix raw n) = Some (drop n p) \<and> validEncoded (escapedSuffix raw n)"
proof (induction raw n arbitrary: p rule: escapedSuffix.induct)
  case (3 c s n)
  show ?case
  proof (cases "c = CHR ''%''")
    case True
    with "3.prems" obtain a b r q x where s: "s = a # b # r" "unescape r = Some q" "p = x # q"
      by (auto split: list.splits option.splits prod.splits)
    with 3 True show ?thesis by (simp add: validEncoded_def)
  next
    case False
    then obtain q where "unescape s = Some q" "p = c # q" using "3.prems" by auto
    with 3 False show ?thesis by (simp add: validEncoded_def)
  qed
qed auto

lemma has_prefix_drop: "has_prefix s p \<Longrightarrow> trim_prefix s p = drop (length p) s \<and> length p \<le> length s"
  by (auto simp: has_prefix_iff trim_prefix_def)

lemma applyPath_routed:
  assumes ok: "routed_ok rp" shows "routed_ok (applyPath rw rp)"
proof (cases "rp_rawPath rp = [] \<or> rm_exact rw (rp_path rp) \<noteq> None \<or> matching_rule rw (rp_path rp) = None")
  case True
  with ok show ?thesis by (auto simp: applyPath_def routed_ok_def split: option.splits)
next
  case False
  then obtain rule where rule: "matching_rule rw (rp_path rp) = Some rule" by auto
  have raw: "unescape (rp_rawPath rp) = Some (rp_path rp)" "validEncoded (rp_rawPath rp)"
    using ok False by (auto simp: routed_ok_def)
  define tail where "tail = trim_prefix (rp_path rp) (rw_from rule)"
  define rawTail where "rawTail = escapedSuffix (rp_rawPath rp) (length (rw_from rule))"
  have "has_prefix (rp_path rp) (rw_from rule)" using rule by (auto simp: matching_rule_def find_Some_iff)
  from has_prefix_drop [OF this] unescape_suffix [OF raw(1) _ raw(2), of "length (rw_from rule)"]
  have t: "unescape rawTail = Some tail" "validEncoded rawTail" by (simp_all add: tail_def rawTail_def)
  define pre where "pre = trim_right_slash (rw_to rule)"
  define pu where "pu = \<lparr>u_Origin = [], u_Path = pre, u_RawPath = [], u_ForceQuery = False, u_RawQuery = []\<rparr>"
  have pu: "unescape (EscapedPath pu) = Some pre" "validEncoded (EscapedPath pu)"
    using unescape_EscapedPath [of pu] EscapedPath_valid by (simp_all add: pu_def)
  have "applyPath rw rp = (let (t, r) = (if tail \<noteq> [] \<and> \<not> has_prefix tail ''/'' then (''/'' @ tail, ''/'' @ rawTail) else (tail, rawTail))
      in \<lparr>rp_path = pre @ t, rp_rawPath = EscapedPath pu @ r\<rparr>)"
    using False rule by (simp add: applyPath_def Let_def tail_def rawTail_def pre_def pu_def)
  then show ?thesis
    using t pu unescape_append [OF pu(1)] by (auto simp: routed_ok_def validEncoded_def plain_slash)
qed

section \<open>Rewriting rules\<close>

lemma exact_iff:
  assumes d: "distinct (map (NormalizePath \<circ> fst) m)"
  shows "rm_exact (newRewriteMatcher m) p = Some t \<longleftrightarrow>
    (\<exists>x \<in> set m. \<not> is_prefix_rule x \<and> NormalizePath (fst x) = p \<and> NormalizePath (snd x) = t)"
proof -
  let ?xs = "filter (Not \<circ> is_prefix_rule) m" and ?f = "\<lambda>x. (NormalizePath (fst x), NormalizePath (snd x))"
  have "fold (\<lambda>(from, to) e. e(NormalizePath from \<mapsto> NormalizePath to)) ys e = e ++ map_of (rev (map ?f ys))" for ys e
  proof (induction ys arbitrary: e)
    case (Cons y ys)
    show ?case by (cases y) (simp add: Cons map_add_upd_left [symmetric] del: fun_upd_apply)
  qed simp
  then have "rm_exact (newRewriteMatcher m) = map_of (rev (map ?f ?xs))" by (simp add: newRewriteMatcher_def)
  moreover have "distinct (map fst (rev (map ?f ?xs)))"
    using distinct_map_filter_keep [OF d, of "Not \<circ> is_prefix_rule"] by (simp add: rev_map [symmetric] comp_def)
  ultimately show ?thesis by (auto simp: map_of_eq_Some_iff)
qed

lemma find_sorted:
  fixes key :: "'a \<Rightarrow> 'b :: linorder"
  assumes "find P (sort_key key xs) = Some r"
  shows "r \<in> set xs \<and> P r \<and> (\<forall>x \<in> set xs. P x \<longrightarrow> key r \<le> key x)"
proof -
  let ?ys = "sort_key key xs"
  obtain i where i: "i < length ?ys" "P (?ys ! i)" "r = ?ys ! i" "\<forall>j < i. \<not> P (?ys ! j)"
    using assms by (auto simp: find_Some_iff)
  have "key r \<le> key x" if "x \<in> set xs" "P x" for x
  proof -
    have "x \<in> set ?ys" using that(1) by simp
    then obtain k where k: "k < length ?ys" "?ys ! k = x" unfolding in_set_conv_nth by blast
    have "i \<le> k" using i(4) k(2) that(2) not_le by blast
    with k i(3) sorted_nth_mono [OF sorted_sort_key [of key xs], of i k] show ?thesis by simp
  qed
  moreover have "r \<in> set xs" using nth_mem [OF i(1)] i(3) by simp
  ultimately show ?thesis using i(2,3) by blast
qed

text \<open>The rule that is used is the longest one that matches.\<close>

lemma matching_rule_longest:
  assumes "matching_rule (newRewriteMatcher m) path = Some r"
  shows "(\<exists>x \<in> set m. is_prefix_rule x \<and> r = prefix_rule x) \<and> has_prefix path (rw_from r) \<and>
    (\<forall>x \<in> set m. is_prefix_rule x \<longrightarrow> has_prefix path (rw_from (prefix_rule x)) \<longrightarrow>
       length (rw_from (prefix_rule x)) \<le> length (rw_from r))"
  using find_sorted [OF assms [unfolded matching_rule_def newRewriteMatcher_def rewriteMatcher.simps]] by auto

lemma matching_rule_none:
  "matching_rule (newRewriteMatcher m) path = None \<longleftrightarrow>
     (\<forall>x \<in> set m. is_prefix_rule x \<longrightarrow> \<not> has_prefix path (rw_from (prefix_rule x)))"
  by (auto simp: matching_rule_def newRewriteMatcher_def find_None_iff)

lemma matching_rule_unique:
  assumes d: "distinct (map (NormalizePath \<circ> fst) m)" and s: "set m' = set m"
    and r: "matching_rule (newRewriteMatcher m) path = Some r" "matching_rule (newRewriteMatcher m') path = Some r'"
  shows "r' = r"
proof -
  obtain x y where x: "x \<in> set m" "is_prefix_rule x" "r = prefix_rule x" and y: "y \<in> set m" "is_prefix_rule y" "r' = prefix_rule y"
    using matching_rule_longest [OF r(1)] matching_rule_longest [OF r(2)] s by blast
  have p: "has_prefix path (rw_from r)" "has_prefix path (rw_from r')"
    using matching_rule_longest [OF r(1)] matching_rule_longest [OF r(2)] by blast+
  have "length (rw_from r) = length (rw_from r')"
    using matching_rule_longest [OF r(1)] matching_rule_longest [OF r(2)] x y p s by (metis le_antisym)
  with p have "rw_from r = rw_from r'" by (auto simp: has_prefix_iff append_eq_append_conv)
  moreover have "NormalizePath (fst z) = rw_from (prefix_rule z) @ ''*''" if "is_prefix_rule z" for z
    using that by (auto simp: is_prefix_rule_def prefix_rule_def has_suffix_iff trim_suffix_def trim_prefix_def)
  ultimately have "NormalizePath (fst x) = NormalizePath (fst y)" using x y by simp
  with d x(1) y(1) have "x = y" by (auto simp: distinct_map inj_on_def)
  with x y show ?thesis by simp
qed

section \<open>Properties\<close>

text \<open>C36: The fast path for the target URL is exact up to five characters: for a base URL without a query and
  a path that passes \<open>pathIsURLSafe\<close>, concatenation gives the URL that the general path builds if and
  only if the path contains none of the characters exclamation mark, apostrophe, parentheses and
  asterisk, which \<open>EscapedPath\<close> escapes although \<open>pathIsURLSafe\<close> accepts them.\<close>

theorem url_fast_path_exact:
  assumes "base_ok base" and "u_RawQuery base = []" and "\<not> u_ForceQuery base" and "pathIsURLSafe path" and "path \<noteq> ''*''"
  shows "buildTargetURL parse base (url_String base) None path rawQuery [] =
      buildTargetURLFromBase parse (Some base) path rawQuery None [] \<longleftrightarrow>
    (\<forall>c \<in> set path. c \<notin> set ''!()*'' \<and> c \<noteq> CHR 0x27)"
proof -
  let ?E = "EscapedPath base" and ?q = "if rawQuery \<noteq> [] then CHR ''?'' # rawQuery else []"
  have E: "?E = [] \<or> has_prefix ?E ''/''"
    using assms(1) unescape_EscapedPath [of base] unescape_Nil by (auto simp: base_ok_def)
  then have pre: "url_String base = u_Origin base @ ?E" using assms(2,3) by (auto simp: url_String_def Let_def prefix_slash)
  have suf: "has_suffix (u_Origin base @ ?E) ''/'' = has_suffix ?E ''/''" and ne: "url_String base \<noteq> []"
    using assms(1) pre by (auto simp: base_ok_def suffix_slash last_append)
  have fast: "buildTargetURL parse base (url_String base) None path rawQuery [] =
      Inr (u_Origin base @ singleJoiningSlash ?E path @ ?q)"
    using assms ne unfolding buildTargetURL_def joinTargetURL_def singleJoiningSlash_def pre suf by (simp add: Let_def)
  have r: "EscapedPath (request_url \<lparr>rp_path = path, rp_rawPath = []\<rparr>) = escape path"
    using assms(5) by (simp add: EscapedPath_def request_url_def)
  have slow: "buildTargetURLFromBase parse (Some base) path rawQuery None [] =
      Inr (u_Origin base @ singleJoiningSlash ?E (escape path) @ ?q)"
    using slow_path [OF assms(1), of "[]" path parse rawQuery] assms(2,3,5) r by (simp add: target_query_def)
  have "shouldEscape c \<longleftrightarrow> c \<in> set ''!()*'' \<or> c = CHR 0x27" if "c \<in> set path" for c
    by (rule safe_escaped) (rule bspec [OF assms(4) [unfolded pathIsURLSafe_def list_all_iff] that])
  then have "escape path = path \<longleftrightarrow> (\<forall>c \<in> set path. c \<notin> set ''!()*'' \<and> c \<noteq> CHR 0x27)"
    unfolding escape_id_iff by blast
  moreover have "singleJoiningSlash ?E path = singleJoiningSlash ?E (escape path) \<longleftrightarrow> escape path = path"
    using join_cancel [of path "escape path" ?E] escape_prefix_slash [of path] by metis
  ultimately show ?thesis unfolding fast slow sum.inject same_append_eq append_same_eq by (rule trans [rotated])
qed

definition sample_base :: go_url where
  "sample_base = \<lparr>u_Origin = ''https://h'', u_Path = ''/v1'', u_RawPath = [], u_ForceQuery = False, u_RawQuery = []\<rparr>"

lemma sample_base_ok: "base_ok sample_base"
  by code_simp

theorem url_fast_path_exact_witness:
  "buildTargetURL (\<lambda>_. Inl []) sample_base (url_String sample_base) None ''/models'' ''a=1'' [] =
     buildTargetURLFromBase (\<lambda>_. Inl []) (Some sample_base) ''/models'' ''a=1'' None [] \<and>
   buildTargetURL (\<lambda>_. Inl []) sample_base (url_String sample_base) None ''/a!'' ''a=1'' [] \<noteq>
     buildTargetURLFromBase (\<lambda>_. Inl []) (Some sample_base) ''/a!'' ''a=1'' None []"
proof -
  have s: "pathIsURLSafe ''/models''" "pathIsURLSafe ''/a!''" by code_simp+
  have q: "u_RawQuery sample_base = []" "\<not> u_ForceQuery sample_base" by (simp_all add: sample_base_def)
  show ?thesis
    using url_fast_path_exact [OF sample_base_ok q s(1), of "\<lambda>_. Inl []" "''a=1''"]
      url_fast_path_exact [OF sample_base_ok q s(2), of "\<lambda>_. Inl []" "''a=1''"] by simp
qed

text \<open>C37: The escaped form of a path reaches the upstream.  From the request line through the split at the
  vendor and the rewriting rules the escaped and the decoded form stay in step; the upstream URL is the
  origin of the vendor, the escaped base path and the escaped request path joined at exactly one slash,
  and the query; and where no rule applies, the escaped path is literally the tail of what the client
  sent, so that an escaped slash never turns into a separator.\<close>

theorem escaped_path_preserved:
  assumes "splitVendorRequestPath u = Some (vendor, rp)" and "base_ok base" and "rp' = applyPath rw rp" and "rp_rawPath rp' \<noteq> []"
  shows "unescape (rp_rawPath rp') = Some (rp_path rp') \<and>
    buildTargetURLFromBase parse (Some base) (rp_path rp') rawQuery None (rp_rawPath rp') =
      Inr (u_Origin base @ singleJoiningSlash (EscapedPath base) (rp_rawPath rp') @ target_query base rawQuery) \<and>
    (rm_exact rw (rp_path rp) = None \<and> matching_rule rw (rp_path rp) = None \<longrightarrow> (\<exists>a. EscapedPath u = a @ rp_rawPath rp'))"
proof -
  have ok: "routed_ok rp'" using split_routed [OF assms(1)] applyPath_routed assms(3) by simp
  have e: "EscapedPath (request_url \<lparr>rp_path = rp_path rp', rp_rawPath = rp_rawPath rp'\<rparr>) = rp_rawPath rp'"
    using EscapedPath_routed [OF ok assms(4)] by (simp add: request_url_def)
  have "rp_rawPath rp \<noteq> []" using assms(3,4) by (auto simp: applyPath_def)
  moreover from this have "\<exists>a. EscapedPath u = a @ rp_rawPath rp" using split_suffix [OF assms(1)] by blast
  ultimately show ?thesis
    using ok assms(3,4) slow_path [OF assms(2), of "rp_rawPath rp'" "rp_path rp'" parse rawQuery] e
    by (auto simp: routed_ok_def applyPath_def)
qed

theorem escaped_path_preserved_witness:
  "buildTargetURLFromBase (\<lambda>_. Inl []) (Some sample_base) ''/f/a/b'' [] None ''/f/a%2Fb'' = Inr ''https://h/v1/f/a%2Fb''"
proof -
  have "splitVendorRequestPath \<lparr>u_Origin = [], u_Path = ''/x/f/a/b'', u_RawPath = ''/x/f/a%2Fb'', u_ForceQuery = False, u_RawQuery = []\<rparr> =
      Some (''x'', \<lparr>rp_path = ''/f/a/b'', rp_rawPath = ''/f/a%2Fb''\<rparr>)" by code_simp
  from escaped_path_preserved [OF this sample_base_ok, of _ "newRewriteMatcher []" "\<lambda>_. Inl []" "[]"]
  have "buildTargetURLFromBase (\<lambda>_. Inl []) (Some sample_base) ''/f/a/b'' [] None ''/f/a%2Fb'' =
      Inr (u_Origin sample_base @ singleJoiningSlash (EscapedPath sample_base) ''/f/a%2Fb'' @ target_query sample_base [])"
    by (simp add: applyPath_def newRewriteMatcher_def matching_rule_def)
  moreover have "u_Origin sample_base @ singleJoiningSlash (EscapedPath sample_base) ''/f/a%2Fb'' @ target_query sample_base [] =
      ''https://h/v1/f/a%2Fb''" by code_simp
  ultimately show ?thesis by simp
qed

text \<open>Path rewriting is deterministic although the rules come from a Go map with arbitrary iteration order
  and are sorted unstably: when no two patterns normalise to the same one, every order of the rules
  rewrites every path alike, an exact rule wins, and otherwise the longest matching prefix is used.\<close>

theorem rewrite_deterministic:
  assumes d: "distinct (map (NormalizePath \<circ> fst) m)" and p: "mset m' = mset m"
  shows "rw_Apply (newRewriteMatcher m') path = rw_Apply (newRewriteMatcher m) path \<and>
    (\<forall>x \<in> set m. \<not> is_prefix_rule x \<and> NormalizePath (fst x) = path \<longrightarrow>
       rw_Apply (newRewriteMatcher m) path = NormalizePath (snd x)) \<and>
    (\<forall>r. matching_rule (newRewriteMatcher m) path = Some r \<longrightarrow>
       (\<forall>x \<in> set m. is_prefix_rule x \<and> has_prefix path (rw_from (prefix_rule x)) \<longrightarrow>
          length (rw_from (prefix_rule x)) \<le> length (rw_from r)))"
proof -
  have s: "set m' = set m" using p by (metis set_mset_mset)
  have d': "distinct (map (NormalizePath \<circ> fst) m')" using d p by (metis mset_eq_imp_distinct_iff mset_map)
  have "rm_exact (newRewriteMatcher m') path = rm_exact (newRewriteMatcher m) path"
    using exact_iff [OF d, of path] exact_iff [OF d', of path] s by (metis option.exhaust)
  moreover have "matching_rule (newRewriteMatcher m') path = matching_rule (newRewriteMatcher m) path"
    using matching_rule_none [of m path] matching_rule_none [of m' path] matching_rule_unique [OF d s] s
    by (metis option.exhaust)
  ultimately have "rw_Apply (newRewriteMatcher m') path = rw_Apply (newRewriteMatcher m) path" unfolding rw_Apply_def by (simp only:)
  moreover have "rw_Apply (newRewriteMatcher m) path = NormalizePath (snd x)"
    if "x \<in> set m" "\<not> is_prefix_rule x" "NormalizePath (fst x) = path" for x
    using exact_iff [OF d, of path "NormalizePath (snd x)"] that by (auto simp: rw_Apply_def)
  ultimately show ?thesis using matching_rule_longest by blast
qed

theorem rewrite_deterministic_witness:
  "rw_Apply (newRewriteMatcher [(''/v1/*'', ''/a/*''), (''/v1/chat/*'', ''/b/*'')]) ''/v1/chat/x'' = ''/b/x'' \<and>
   rw_Apply (newRewriteMatcher [(''/v1/chat/*'', ''/b/*''), (''/v1/*'', ''/a/*'')]) ''/v1/chat/x'' = ''/b/x''"
proof -
  have a: "rw_Apply (newRewriteMatcher [(''/v1/*'', ''/a/*''), (''/v1/chat/*'', ''/b/*'')]) ''/v1/chat/x'' = ''/b/x''" by code_simp
  have d: "distinct (map (NormalizePath \<circ> fst) [(''/v1/*'', ''/a/*''), (''/v1/chat/*'', ''/b/*'')])" by code_simp
  have p: "mset [(''/v1/chat/*'', ''/b/*''), (''/v1/*'', ''/a/*'')] = mset [(''/v1/*'', ''/a/*''), (''/v1/chat/*'', ''/b/*'')]" by simp
  from a rewrite_deterministic [OF d p, of "''/v1/chat/x''"] show ?thesis by (metis (no_types, lifting))
qed

end
