(* ===== verification/StatsPersist.thy ===== *)
theory StatsPersist
  imports FileStore Pool
begin

text \<open>
  The persistence of run-time statistics: the registry of statistics handles
  (\<open>internal/gateway/runtime_stats_registry.go\<close>) and the persister that ships what they counted to the key
  store (\<open>internal/gateway/stats_persister.go\<close>).  A Go map of maps is an association list of association
  lists, in the order in which the iteration visits it; the theorems hold for every order.
\<close>

section \<open>Registry of handles\<close>

type_synonym registry = "(string \<times> (string \<times> nat) list) list"
type_synonym stats_table = "(string \<times> (string \<times> runtime_stats) list) list"

definition inner :: "(string \<times> (string \<times> 'a) list) list \<Rightarrow> string \<Rightarrow> (string \<times> 'a) list" where
  "inner t v = (case map_of t v of None \<Rightarrow> [] | Some ks \<Rightarrow> ks)"

definition tbl_get :: "(string \<times> (string \<times> 'a) list) list \<Rightarrow> string \<Rightarrow> string \<Rightarrow> 'a option" where
  "tbl_get t v k = map_of (inner t v) k"

definition reg_Handle :: "string \<Rightarrow> string \<Rightarrow> runtime_stats \<Rightarrow> registry \<times> heap \<Rightarrow> nat \<times> registry \<times> heap" where
  "reg_Handle vendorID key baseline st =
     (let (r, hp) = st; v = trim_space vendorID; k = trim_space key; a = hp_next hp;
          hp' = hp\<lparr>hp_handles := (hp_handles hp)(a := NewRuntimeStatsHandle baseline), hp_next := a + 1\<rparr>
      in if v = [] \<or> k = [] then (a, r, hp')
         else case tbl_get r v k of
           Some b \<Rightarrow> (b, r, hp)
         | None \<Rightarrow> (a, AList.update v (AList.update k a (inner r v)) r, hp'))"

definition reg_handles :: "string \<Rightarrow> registry \<Rightarrow> nat option list" where
  "reg_handles vendorID r =
     concat (map (\<lambda>(v, ks). if vendorID \<noteq> [] \<and> v \<noteq> vendorID then [] else map (\<lambda>(k, a). Some a) ks) r)"

definition reg_Reset :: "string \<Rightarrow> 'e option \<Rightarrow> registry \<times> heap \<Rightarrow> 'e option \<times> heap" where
  "reg_Reset vendorID persist_err st =
     (let (r, hp) = st; (e, hs) = ResetRuntimeStats (reg_handles vendorID r) persist_err (hp_handles hp)
      in (e, hp\<lparr>hp_handles := hs\<rparr>))"

section \<open>Persister\<close>

definition capture_keys :: "KeyState list \<Rightarrow> (string \<times> runtime_stats) list" where
  "capture_keys states = fold (\<lambda>st m. let key = trim_space (ks_Key st) in
     if key = [] then m else AList.update key (ks_RuntimeStats st) m) states []"

text \<open>The argument is the result of \<open>VendorStateSnapshots\<close>.\<close>

definition captureRuntimeStats :: "(string \<times> KeyState list) list \<Rightarrow> stats_table" where
  "captureRuntimeStats snapshots =
     filter (\<lambda>(v, ks). ks \<noteq> []) (map (\<lambda>(v, states). (v, capture_keys states)) snapshots)"

definition key_delta :: "runtime_stats option \<Rightarrow> runtime_stats \<Rightarrow> runtime_stats option" where
  "key_delta prev current = (case prev of
      None \<Rightarrow> if stats_IsZero current then None else Some current
    | Some prev \<Rightarrow>
        let (delta, monotonic) = DeltaSince current prev in
        if \<not> monotonic then (if stats_IsZero current then None else Some current)
        else if stats_IsZero delta then None else Some delta)"

definition merge_keys :: "(string \<times> runtime_stats) list \<Rightarrow> (string \<times> runtime_stats) list \<Rightarrow> (string \<times> runtime_stats) list" where
  "merge_keys prevKeys nextKeys =
     fold (\<lambda>(k, s) ks. if map_of ks k \<noteq> None then ks else AList.update k s ks) prevKeys nextKeys"

definition buildRuntimeStatsDeltas :: "stats_table \<Rightarrow> stats_table \<Rightarrow> stats_table \<times> stats_table" where
  "buildRuntimeStatsDeltas current previous =
     (filter (\<lambda>(v, ds). ds \<noteq> [])
        (map (\<lambda>(v, ks). (v, List.map_filter (\<lambda>(k, s). map_option (Pair k) (key_delta (tbl_get previous v k) s)) ks)) current),
      fold (\<lambda>(v, prevKeys) cur. if prevKeys = [] then cur else AList.update v (merge_keys prevKeys (inner cur v)) cur)
        previous current)"

definition flushLocked ::
  "(stats_table \<Rightarrow> 's \<Rightarrow> 'e option \<times> 's) \<Rightarrow> stats_table \<Rightarrow> stats_table \<times> 's \<Rightarrow> 'e option \<times> stats_table \<times> 's" where
  "flushLocked apply_deltas current st =
     (let (base, s) = st; (deltas, nextBaseline) = buildRuntimeStatsDeltas current base in
      if deltas = [] then (None, nextBaseline, s)
      else case apply_deltas deltas s of
        (Some e, s) \<Rightarrow> (Some e, base, s)
      | (None, s) \<Rightarrow> (None, nextBaseline, s))"

record 's stats_sys =
  ss_registry :: registry
  ss_heap :: heap
  ss_last :: stats_table
  ss_stopped :: bool
  ss_store :: 's

datatype 'e reset_error = PersisterClosed | StoreError 'e

definition ps_Reset ::
  "(string \<Rightarrow> 's \<Rightarrow> ('e + int) \<times> 's) \<Rightarrow> string \<Rightarrow> 's stats_sys \<Rightarrow> ('e reset_error + int) \<times> 's stats_sys" where
  "ps_Reset store_reset vendorID sy =
     (let vendorID = trim_space vendorID in
      if ss_stopped sy then (Inl PersisterClosed, sy)
      else
        let (r, s) = store_reset vendorID (ss_store sy);
            (e, hp) = reg_Reset vendorID (case r of Inl e \<Rightarrow> Some e | Inr _ \<Rightarrow> None) (ss_registry sy, ss_heap sy);
            sy = sy\<lparr>ss_heap := hp, ss_store := s\<rparr>
        in case r of
          Inl e \<Rightarrow> (Inl (StoreError e), sy)
        | Inr n \<Rightarrow>
            (Inr n, sy\<lparr>ss_last := filter (\<lambda>(v, ks). \<not> (vendorID = [] \<or> v = vendorID)) (ss_last sy)\<rparr>))"

definition ps_Flush ::
  "(stats_table \<Rightarrow> 's \<Rightarrow> 'e option \<times> 's) \<Rightarrow> (string \<times> KeyState list) list \<Rightarrow> 's stats_sys \<Rightarrow> 'e option \<times> 's stats_sys" where
  "ps_Flush apply_deltas snapshots sy =
     (case flushLocked apply_deltas (captureRuntimeStats snapshots) (ss_last sy, ss_store sy) of
        (e, base, s) \<Rightarrow> (e, sy\<lparr>ss_last := base, ss_store := s\<rparr>))"

text \<open>\<open>Close\<close> flushes once more.\<close>

definition ps_Close ::
  "(stats_table \<Rightarrow> 's \<Rightarrow> 'e option \<times> 's) \<Rightarrow> (string \<times> KeyState list) list \<Rightarrow> 's stats_sys \<Rightarrow> 'e option \<times> 's stats_sys" where
  "ps_Close apply_deltas snapshots sy =
     (if ss_stopped sy then (None, sy) else ps_Flush apply_deltas snapshots (sy\<lparr>ss_stopped := True\<rparr>))"

section \<open>Tables\<close>

definition table_ok :: "(string \<times> (string \<times> 'a) list) list \<Rightarrow> bool" where
  "table_ok t = (distinct (map fst t) \<and> list_all (\<lambda>(v, ks). distinct (map fst ks)) t)"

lemma inner_distinct: "table_ok t \<Longrightarrow> distinct (map fst (inner t v))"
  by (auto simp: table_ok_def inner_def list_all_iff dest: map_of_SomeD split: option.splits)

lemma inner_mem: "table_ok t \<Longrightarrow> (v, ks) \<in> set t \<Longrightarrow> inner t v = ks"
  by (simp add: table_ok_def inner_def)

lemma table_ok_update:
  assumes "table_ok t" "distinct (map fst ks)"
  shows "table_ok (AList.update v ks t)"
proof -
  have "distinct (map fst (AList.update v ks t))" using assms by (simp add: table_ok_def distinct_update)
  moreover have "set (AList.update v ks t) \<subseteq> insert (v, ks) (set t)" by (induction t) auto
  ultimately show ?thesis using assms by (auto simp: table_ok_def list_all_iff)
qed

lemma inner_update [simp]: "inner (AList.update v ks t) w = (if w = v then ks else inner t w)"
  by (simp add: inner_def update_conv')

lemma merge_keys_get: "map_of (merge_keys ps ks) k = (case map_of ks k of Some s \<Rightarrow> Some s | None \<Rightarrow> map_of ps k)"
proof (induction ps arbitrary: ks)
  case (Cons e ps)
  obtain k' s where e: "e = (k', s)" by (cases e)
  let ?ks = "if map_of ks k' \<noteq> None then ks else AList.update k' s ks"
  have "map_of ?ks k = (case map_of ks k of Some s \<Rightarrow> Some s | None \<Rightarrow> if k = k' then Some s else None)"
    by (auto simp: update_conv' split: option.splits)
  with Cons.IH [of ?ks] show ?case by (auto simp: e merge_keys_def split: option.splits)
qed (simp add: merge_keys_def split: option.splits)

lemma merge_keys_distinct: "distinct (map fst ks) \<Longrightarrow> distinct (map fst (merge_keys ps ks))"
  unfolding merge_keys_def by (induction ps arbitrary: ks) (auto simp: distinct_update)

lemma merged_tables:
  assumes "table_ok cur" "table_ok prev"
  defines "merged \<equiv> fold (\<lambda>(v, ps) cur. if ps = [] then cur else AList.update v (merge_keys ps (inner cur v)) cur) prev cur"
  shows "table_ok merged \<and> tbl_get merged v k = (case tbl_get cur v k of Some s \<Rightarrow> Some s | None \<Rightarrow> tbl_get prev v k)"
  unfolding merged_def using assms(1,2)
proof (induction prev arbitrary: cur)
  case Nil
  thus ?case by (simp add: tbl_get_def inner_def split: option.splits)
next
  case (Cons e prev)
  obtain w ps where e: "e = (w, ps)" by (cases e)
  let ?cur = "if ps = [] then cur else AList.update w (merge_keys ps (inner cur w)) cur"
  have fresh: "map_of prev w = None" and ok: "table_ok prev"
    using Cons.prems(2) e by (auto simp: table_ok_def map_of_eq_None_iff)
  have cur: "table_ok ?cur"
    using Cons.prems(1) by (simp add: table_ok_update merge_keys_distinct inner_distinct)
  have get: "tbl_get ?cur v k = (if v = w then (case tbl_get cur v k of Some s \<Rightarrow> Some s | None \<Rightarrow> map_of ps k) else tbl_get cur v k)"
    by (auto simp: tbl_get_def merge_keys_get split: option.splits)
  have head: "tbl_get ((w, ps) # prev) v k = (if v = w then map_of ps k else tbl_get prev v k)"
    and none: "tbl_get prev w k = None" using fresh by (auto simp: tbl_get_def inner_def)
  have "fold (\<lambda>(v, ps) cur. if ps = [] then cur else AList.update v (merge_keys ps (inner cur v)) cur) (e # prev) cur =
    fold (\<lambda>(v, ps) cur. if ps = [] then cur else AList.update v (merge_keys ps (inner cur v)) cur) prev ?cur" by (simp add: e)
  with Cons.IH [OF cur ok] show ?case
    unfolding e head get using none by (cases "v = w"; cases "tbl_get cur v k"; cases "map_of ps k") simp_all
qed

lemma map_of_filter_table:
  "distinct (map fst t) \<Longrightarrow> inner (filter (\<lambda>(v, ds). ds \<noteq> []) t) v = inner t v"
proof (induction t)
  case (Cons e t)
  moreover have "e \<notin> set t" and "map_of (filter P t) (fst e) = None" for P
    using Cons.prems by (auto simp: map_of_eq_None_iff)
  ultimately show ?case by (cases e) (auto simp: inner_def)
qed (simp add: inner_def)

lemma map_of_map_filter:
  assumes "distinct (map fst ks)"
  shows "map_of (List.map_filter (\<lambda>(k, s). map_option (Pair k) (f k s)) ks) k = (case map_of ks k of None \<Rightarrow> None | Some s \<Rightarrow> f k s)"
  using assms
proof (induction ks)
  case (Cons e ks)
  obtain k' s where e: "e = (k', s)" by (cases e)
  have "map_of ks k' = None" using Cons.prems e by (simp add: map_of_eq_None_iff)
  thus ?case using Cons by (auto simp: e List.map_filter_simps split: option.splits)
qed (simp add: List.map_filter_simps)

lemma map_filter_distinct:
  "distinct (map fst ks) \<Longrightarrow> distinct (map fst (List.map_filter (\<lambda>(k, s). map_option (Pair k) (f k s)) ks))"
proof (induction ks)
  case (Cons e ks)
  moreover have "fst ` set (List.map_filter (\<lambda>(k, s). map_option (Pair k) (f k s)) ks) \<subseteq> fst ` set ks"
    by (induction ks) (auto simp: List.map_filter_simps split: option.splits)
  ultimately show ?case by (cases e) (auto simp: List.map_filter_simps split: option.splits)
qed (simp add: List.map_filter_simps)

lemma map_values_get:
  "inner (map (\<lambda>(v, ks). (v, f v ks)) t) v = (case map_of t v of None \<Rightarrow> [] | Some ks \<Rightarrow> f v ks)"
  by (induction t) (auto simp: inner_def)

lemma build_deltas:
  assumes "table_ok cur" "table_ok prev"
  shows "table_ok (fst (buildRuntimeStatsDeltas cur prev))"
    and "tbl_get (fst (buildRuntimeStatsDeltas cur prev)) v k =
      (case tbl_get cur v k of None \<Rightarrow> None | Some s \<Rightarrow> key_delta (tbl_get prev v k) s)"
proof -
  let ?f = "\<lambda>v ks. List.map_filter (\<lambda>(k, s). map_option (Pair k) (key_delta (tbl_get prev v k) s)) ks"
  let ?t = "map (\<lambda>(v, ks). (v, ?f v ks)) cur"
  have fsts: "map fst ?t = map fst cur" by (simp add: comp_def case_prod_beta)
  have dist: "distinct (map fst ?t)" using assms(1) unfolding fsts by (simp add: table_ok_def)
  show "table_ok (fst (buildRuntimeStatsDeltas cur prev))"
    unfolding buildRuntimeStatsDeltas_def table_ok_def fst_conv
    using assms(1) distinct_map_filter [OF dist, of "\<lambda>(v, ds). ds \<noteq> []"]
    by (auto simp: table_ok_def list_all_iff map_filter_distinct)
  have "tbl_get (fst (buildRuntimeStatsDeltas cur prev)) v k = map_of (inner ?t v) k"
    using map_of_filter_table [OF dist, of v] by (simp add: buildRuntimeStatsDeltas_def tbl_get_def)
  also have "\<dots> = (case tbl_get cur v k of None \<Rightarrow> None | Some s \<Rightarrow> key_delta (tbl_get prev v k) s)"
  proof -
    have "inner ?t v = ?f v (inner cur v)"
      unfolding map_values_get by (cases "map_of cur v") (simp_all add: inner_def List.map_filter_simps)
    thus ?thesis
      using map_of_map_filter [OF inner_distinct [OF assms(1), of v], of "\<lambda>k s. key_delta (tbl_get prev v k) s" k]
      by (simp add: tbl_get_def)
  qed
  finally show "tbl_get (fst (buildRuntimeStatsDeltas cur prev)) v k =
      (case tbl_get cur v k of None \<Rightarrow> None | Some s \<Rightarrow> key_delta (tbl_get prev v k) s)" .
qed

lemma build_baseline:
  assumes "table_ok cur" "table_ok prev"
  shows "table_ok (snd (buildRuntimeStatsDeltas cur prev))"
    and "tbl_get (snd (buildRuntimeStatsDeltas cur prev)) v k = (case tbl_get cur v k of Some s \<Rightarrow> Some s | None \<Rightarrow> tbl_get prev v k)"
  using merged_tables [OF assms] by (simp_all add: buildRuntimeStatsDeltas_def)

section \<open>The store's side\<close>

text \<open>What the persister relies on, and the file store provides: a successful call adds every shipped delta to its
  record once and touches nothing else, a failed call changes nothing, and a reset zeroes exactly the
  records it names.\<close>

definition trimmed :: "(string \<times> (string \<times> 'a) list) list \<Rightarrow> bool" where
  "trimmed t = list_all (\<lambda>(v, ks). trim_space v = v \<and> list_all (\<lambda>(k, _). trim_space k = k \<and> k \<noteq> []) ks) t"

definition add_delta :: "runtime_stats option \<Rightarrow> runtime_stats \<Rightarrow> runtime_stats" where
  "add_delta d s = (case d of None \<Rightarrow> s | Some d \<Rightarrow> if stats_IsZero d then s else ApplyDelta s d)"

locale stats_store =
  fixes inv :: "'s \<Rightarrow> bool"
    and stored :: "'s \<Rightarrow> string \<Rightarrow> string \<Rightarrow> runtime_stats option"
    and apply_deltas :: "time \<Rightarrow> bool \<Rightarrow> stats_table \<Rightarrow> 's \<Rightarrow> 'e option \<times> 's"
    and store_reset :: "time \<Rightarrow> bool \<Rightarrow> string \<Rightarrow> 's \<Rightarrow> ('e + int) \<times> 's"
  assumes apply_ok: "inv s \<Longrightarrow> table_ok ds \<Longrightarrow> trimmed ds \<Longrightarrow> apply_deltas now io ds s = (None, s') \<Longrightarrow>
      inv s' \<and> stored s' v k = map_option (add_delta (tbl_get ds v k)) (stored s v k)"
    and apply_failed: "apply_deltas now io ds s = (Some e, s') \<Longrightarrow> s' = s"
    and reset_ok: "inv s \<Longrightarrow> trim_space v = v \<Longrightarrow> store_reset now io v s = (Inr n, s') \<Longrightarrow>
      inv s' \<and> stored s' w k = map_option (\<lambda>st. if v = [] \<or> w = v then zero_stats else st) (stored s w k)"
    and reset_failed: "store_reset now io v s = (Inl e, s') \<Longrightarrow> s' = s"

definition fs_stored :: "file_store \<Rightarrow> string \<Rightarrow> string \<Rightarrow> runtime_stats option" where
  "fs_stored s v k = map_option rec_Stats (fs_lookup s v k)"

abbreviation find_key :: "string \<Rightarrow> key_record list \<Rightarrow> key_record option" where
  "find_key k rs \<equiv> find (\<lambda>r. rec_Key r = k) rs"

lemma find_key_update:
  "distinct (map rec_Key rs) \<Longrightarrow> i < length rs \<Longrightarrow> rec_Key r' = rec_Key (rs ! i) \<Longrightarrow>
   find_key k (rs[i := r']) = (if k = rec_Key r' then Some r' else find_key k rs)"
proof (induction rs arbitrary: i)
  case (Cons r rs)
  show ?case
  proof (cases i)
    case (Suc j)
    have "rec_Key r \<noteq> rec_Key r'" using Cons.prems Suc by auto
    thus ?thesis using Cons Suc by auto
  qed (use Cons.prems in auto)
qed simp

lemma find_key_nth: "distinct (map rec_Key rs) \<Longrightarrow> i < length rs \<Longrightarrow> find_key (rec_Key (rs ! i)) rs = Some (rs ! i)"
  by (induction rs arbitrary: i) (auto simp: nth_Cons split: nat.splits)

lemma last_index_None: "last_index k rs = None \<longleftrightarrow> find_key k rs = None"
  by (induction rs) (auto split: option.splits)

lemma apply_key_deltas_find:
  assumes "records_inv current" "idx = (\<lambda>k. last_index k current)" "distinct (map fst ds)"
    "list_all (\<lambda>(k, _). trim_space k = k \<and> k \<noteq> []) ds"
  shows "map_option rec_Stats (find_key k (fst (apply_key_deltas now idx ds (current, changed)))) =
    map_option (add_delta (map_of ds k)) (map_option rec_Stats (find_key k current))"
  using assms
proof (induction now idx ds "(current, changed)" arbitrary: current changed rule: apply_key_deltas.induct)
  case (1 now idx current changed)
  show ?case by (cases "find_key k current") (simp_all add: add_delta_def)
next
  case (2 now idx key delta ds current changed)
  have key: "trim_space key = key" "key \<noteq> []" and rest: "distinct (map fst ds)" "list_all (\<lambda>(k, _). trim_space k = k \<and> k \<noteq> []) ds"
    and fresh: "map_of ds key = None" using "2.prems" by (auto simp: map_of_eq_None_iff)
  show ?case
  proof (cases "stats_IsZero delta \<or> idx key = None")
    case True
    hence step: "apply_key_deltas now idx ((key, delta) # ds) (current, changed) = apply_key_deltas now idx ds (current, changed)"
      using key by (auto simp: Let_def)
    have "map_option rec_Stats (find_key k (fst (apply_key_deltas now idx ds (current, changed)))) =
        map_option (add_delta (map_of ds k)) (map_option rec_Stats (find_key k current))"
      using "2.hyps"(1,2) True key rest "2.prems"(1,2) by (cases "stats_IsZero delta") auto
    moreover have "find_key key current = None \<or> stats_IsZero delta" using True "2.prems"(2) by (auto simp: last_index_None)
    ultimately show ?thesis
      unfolding step using fresh by (cases "find_key k current"; cases "k = key") (auto simp: add_delta_def)
  next
    case False
    then obtain i where i: "idx key = Some i" by auto
    define r' where "r' = NormalizeRecord ((current ! i)\<lparr>rec_Stats := ApplyDelta (rec_Stats (current ! i)) delta, rec_UpdatedAt := now\<rparr>)"
    have ilt: "i < length current" and ikey: "rec_Key (current ! i) = key"
      using i "2.prems"(2) by (auto dest: last_index_SomeD)
    have rkey: "rec_Key r' = rec_Key (current ! i)" by (simp add: r'_def ikey key)
    hence keys: "map rec_Key (current[i := r']) = map rec_Key current" using ilt by (metis list_update_id map_update)
    have dist: "distinct (map rec_Key current)" using "2.prems"(1) by (simp add: records_inv_def)
    have "list_all normal_record (current[i := r'])"
      using "2.prems"(1) unfolding records_inv_def list_all_iff
      by (auto simp: r'_def dest!: set_update_subset_insert [THEN subsetD])
    with keys "2.prems"(1) have inv: "records_inv (current[i := r'])" by (simp add: records_inv_def)
    have idx: "idx = (\<lambda>k. last_index k (current[i := r']))" using "2.prems"(2) last_index_map_key [OF keys] by simp
    have step: "apply_key_deltas now idx ((key, delta) # ds) (current, changed) = apply_key_deltas now idx ds (current[i := r'], True)"
      using False i key by (simp add: Let_def r'_def)
    have "map_option rec_Stats (find_key k (fst (apply_key_deltas now idx ds (current[i := r'], True)))) =
        map_option (add_delta (map_of ds k)) (map_option rec_Stats (find_key k (current[i := r'])))"
      using "2.hyps"(3) [of "trim_space key" i "current ! i" r'] False i key inv idx rest by (simp add: r'_def)
    moreover have "find_key key current = Some (current ! i)" using find_key_nth [OF dist ilt] ikey by simp
    ultimately show ?thesis
      unfolding step using find_key_update [OF dist ilt rkey, of k] False fresh ikey rkey
      by (cases "k = key") (simp_all add: add_delta_def r'_def)
  qed
qed

lemma apply_key_deltas_True: "snd (apply_key_deltas now idx ds (current, True))"
  by (induction now idx ds "(current, True)" arbitrary: current rule: apply_key_deltas.induct)
     (simp_all add: Let_def split: option.split)

lemma apply_key_deltas_changed:
  "\<not> snd (apply_key_deltas now idx ds (current, changed)) \<Longrightarrow> fst (apply_key_deltas now idx ds (current, changed)) = current \<and> \<not> changed"
proof (induction ds)
  case (Cons e ds)
  obtain key delta where e: "e = (key, delta)" by (cases e)
  have "apply_key_deltas now idx (e # ds) (current, changed) = apply_key_deltas now idx ds (current, changed)"
    using Cons.prems by (auto simp: e Let_def apply_key_deltas_True split: option.splits if_splits)
  thus ?case using Cons by (cases changed) simp_all
qed simp

lemma apply_vendor_deltas_get:
  assumes "store_inv next" "table_ok ds" "trimmed ds"
  shows "map_option rec_Stats (find_key k (vendor_records (fst (apply_vendor_deltas now ds (next, changed))) v)) =
    map_option (add_delta (tbl_get ds v k)) (map_option rec_Stats (find_key k (vendor_records next v)))"
  using assms
proof (induction now ds "(next, changed)" arbitrary: "next" changed rule: apply_vendor_deltas.induct)
  case (1 now "next" changed)
  show ?case by (cases "find_key k (vendor_records next v)") (simp_all add: add_delta_def tbl_get_def inner_def)
next
  case (2 now vendorID ds rest "next" changed)
  have w: "normalizeVendor vendorID = vendorID" and keys: "distinct (map fst ds)" "list_all (\<lambda>(k, _). trim_space k = k \<and> k \<noteq> []) ds"
    and rest: "table_ok rest" "trimmed rest" and "vendorID \<notin> fst ` set rest"
    using "2.prems" by (auto simp: table_ok_def trimmed_def normalizeVendor_def)
  hence fresh: "tbl_get rest vendorID k = None" by (simp add: tbl_get_def inner_def map_of_eq_None_iff [THEN iffD2])
  have get: "tbl_get ((vendorID, ds) # rest) v k = (if v = vendorID then map_of ds k else tbl_get rest v k)" for v
    by (simp add: tbl_get_def inner_def)
  let ?cur = "vendor_records next vendorID"
  let ?st = "apply_key_deltas now (\<lambda>k. last_index k ?cur) ds (?cur, changed)"
  show ?case
  proof (cases "?cur = []")
    case True
    thus ?thesis
      using "2.hyps"(1) "2.prems"(1) rest w fresh True by (cases "v = vendorID") (simp_all add: get)
  next
    case False
    obtain c' ch' where st: "?st = (c', ch')" by (cases ?st)
    have ri: "records_inv ?cur" by (rule store_inv_vendor [OF "2.prems"(1)])
    have "records_inv c'" using apply_key_deltas_inv [OF ri refl, of now ds changed] st by simp
    hence inv: "store_inv (AList.update vendorID c' next)" using "2.prems"(1) by (simp add: store_inv_update)
    have c': "map_option rec_Stats (find_key k c') = map_option (add_delta (map_of ds k)) (map_option rec_Stats (find_key k ?cur))"
      using apply_key_deltas_find [OF ri refl keys, of k now changed] st by simp
    have "map_option rec_Stats (find_key k (vendor_records (fst (apply_vendor_deltas now rest (AList.update vendorID c' next, ch'))) v)) =
        map_option (add_delta (tbl_get rest v k)) (map_option rec_Stats (find_key k (vendor_records (AList.update vendorID c' next) v)))"
      by (rule "2.hyps"(2) [OF w [symmetric] refl False st [symmetric] refl inv rest])
    moreover have "map_option (add_delta None) x = x" for x by (cases x) (simp_all add: add_delta_def)
    ultimately show ?thesis
      using False w st c' fresh by (cases "v = vendorID") (simp_all add: get Let_def)
  qed
qed

lemma apply_vendor_deltas_unchanged:
  "\<not> snd (apply_vendor_deltas now ds (next, changed)) \<Longrightarrow>
   vendor_records (fst (apply_vendor_deltas now ds (next, changed))) = vendor_records next \<and> \<not> changed"
proof (induction now ds "(next, changed)" arbitrary: "next" changed rule: apply_vendor_deltas.induct)
  case (2 now vendorID ds rest "next" changed)
  let ?v = "normalizeVendor vendorID"
  let ?cur = "vendor_records next ?v"
  obtain c' ch' where st: "apply_key_deltas now (\<lambda>k. last_index k ?cur) ds (?cur, changed) = (c', ch')"
    by (cases "apply_key_deltas now (\<lambda>k. last_index k ?cur) ds (?cur, changed)")
  show ?case
  proof (cases "?cur = []")
    case True
    thus ?thesis using "2.hyps"(1) [OF refl refl True] "2.prems" by (cases changed) (simp_all add: Let_def)
  next
    case False
    hence "\<not> snd (apply_vendor_deltas now rest (AList.update ?v c' next, ch'))" using "2.prems" st by (simp add: Let_def)
    from "2.hyps"(2) [OF refl refl False st [symmetric] refl this]
    have "vendor_records (fst (apply_vendor_deltas now rest (AList.update ?v c' next, ch'))) = vendor_records (AList.update ?v c' next)" "\<not> ch'"
      by auto
    moreover from \<open>\<not> ch'\<close> have "c' = ?cur \<and> \<not> changed"
      using apply_key_deltas_changed [of now "\<lambda>k. last_index k ?cur" ds ?cur changed] st by simp
    ultimately show ?thesis using False st by (auto simp: Let_def fun_eq_iff)
  qed
qed simp

lemma fs_apply_ok:
  assumes "fs_inv s" "table_ok ds" "trimmed ds" "fs_ApplyRuntimeStatsDeltas now io ds s = (None, s')"
  shows "fs_inv s' \<and> fs_stored s' v k = map_option (add_delta (tbl_get ds v k)) (fs_stored s v k)"
proof
  show "fs_inv s'" using fs_ApplyRuntimeStatsDeltas_inv [OF assms(1), of now io ds] assms(4) by simp
  have id: "cloneRecordMap (fs_data s) = fs_data s" and si: "store_inv (fs_data s)"
    using assms(1) by (auto simp: fs_inv_def cloneRecordMap_id)
  obtain "next" ch where n: "apply_vendor_deltas now ds (fs_data s, False) = (next, ch)"
    by (cases "apply_vendor_deltas now ds (fs_data s, False)")
  note get = apply_vendor_deltas_get [OF si assms(2,3), of k now False v, unfolded n fst_conv]
  have none: "map_option (add_delta None) x = x" for x by (cases x) (simp_all add: add_delta_def)
  show "fs_stored s' v k = map_option (add_delta (tbl_get ds v k)) (fs_stored s v k)"
  proof (cases "ds = [] \<or> \<not> ch")
    case True
    hence "s' = s" using assms(4) n id by (auto simp: fs_ApplyRuntimeStatsDeltas_def split: if_splits)
    moreover have "vendor_records next = vendor_records (fs_data s)" if "\<not> ch"
      using apply_vendor_deltas_unchanged [of now ds "fs_data s" False] n that by simp
    ultimately show ?thesis
      using True get none by (cases "ds = []") (auto simp: fs_stored_def fs_lookup_def tbl_get_def inner_def)
  next
    case False
    hence "fs_data s' = next"
      using assms(4) n id by (auto simp: fs_ApplyRuntimeStatsDeltas_def split: option.splits prod.splits)
    thus ?thesis using get by (simp add: fs_stored_def fs_lookup_def)
  qed
qed

lemma find_key_map: "(\<And>r. rec_Key (f r) = rec_Key r) \<Longrightarrow> find_key k (map f rs) = map_option f (find_key k rs)"
  by (induction rs) auto

lemma vendor_records_map:
  "vendor_records (map (\<lambda>(w, rs). (w, if hit w then map f rs else rs)) d) w =
   (if hit w then map f (vendor_records d w) else vendor_records d w)"
  by (induction d) (auto simp: vendor_records_def)

lemma fs_reset_ok:
  assumes "fs_inv s" "trim_space v = v" "fs_ResetRuntimeStats now io v s = (Inr n, s')"
  shows "fs_inv s' \<and> fs_stored s' w k = map_option (\<lambda>st. if v = [] \<or> w = v then zero_stats else st) (fs_stored s w k)"
proof
  show "fs_inv s'" using fs_ResetRuntimeStats_inv [OF assms(1), of now io v] assms(3) by simp
  have id: "cloneRecordMap (fs_data s) = fs_data s" using assms(1) by (auto simp: fs_inv_def cloneRecordMap_id)
  have v: "normalizeVendor v = v" using assms(2) by (simp add: normalizeVendor_def)
  let ?hit = "\<lambda>w. v = [] \<or> w = v"
  let ?f = "\<lambda>r. r\<lparr>rec_Stats := zero_stats, rec_UpdatedAt := now\<rparr>"
  let ?next = "map (\<lambda>(w, rs). (w, if ?hit w then map ?f rs else rs)) (fs_data s)"
  let ?count = "\<Sum>(w, rs) \<leftarrow> fs_data s. if ?hit w then int (length rs) else 0"
  note rec = vendor_records_map [of ?hit ?f "fs_data s" w]
  show "fs_stored s' w k = map_option (\<lambda>st. if ?hit w then zero_stats else st) (fs_stored s w k)"
  proof (cases "?count = 0")
    case True
    hence "s' = s" using assms(3) id v by (simp add: fs_ResetRuntimeStats_def Let_def)
    moreover have "vendor_records (fs_data s) w = []" if "?hit w"
    proof (cases "map_of (fs_data s) w")
      case (Some rs)
      have "\<forall>x \<in> set (map (\<lambda>(w, rs). if ?hit w then int (length rs) else 0) (fs_data s)). x = 0"
        using True by (subst (asm) sum_list_nonneg_eq_0_iff) auto
      thus ?thesis using map_of_SomeD [OF Some] that Some by (auto simp: vendor_records_def)
    qed (simp add: vendor_records_def)
    ultimately show ?thesis
      by (cases "?hit w"; cases "find_key k (vendor_records (fs_data s) w)") (simp_all add: fs_stored_def fs_lookup_def)
  next
    case False
    hence "fs_data s' = ?next"
      using assms(3) id v by (auto simp: fs_ResetRuntimeStats_def Let_def split: option.splits prod.splits)
    thus ?thesis
      using rec by (simp add: fs_stored_def fs_lookup_def find_key_map option.map_comp comp_def option.map_ident)
  qed
qed

interpretation file_stats: stats_store fs_inv fs_stored fs_ApplyRuntimeStatsDeltas fs_ResetRuntimeStats
proof
  show "fs_ApplyRuntimeStatsDeltas now io ds s = (Some e, s') \<Longrightarrow> s' = s" for now io ds s e s'
    by (auto simp: fs_ApplyRuntimeStatsDeltas_def dest: saveDataLocked_error split: if_splits prod.splits option.splits)
  show "fs_ResetRuntimeStats now io v s = (Inl e, s') \<Longrightarrow> s' = s" for now io v s e s'
    by (auto simp: fs_ResetRuntimeStats_def Let_def dest: saveDataLocked_error split: if_splits prod.splits option.splits)
qed (use fs_apply_ok fs_reset_ok in blast)+

end
