(* ===== verification/StatsLedger.thy ===== *)
theory StatsLedger
  imports StatsPersist
begin

text \<open>
  The bookkeeping of run-time statistics over a whole run of the gateway: keys come and go, attempts are
  counted, the persister flushes, fails, resets and closes, in any order.  What the store holds together
  with what is still to be shipped is always exactly what was counted.
\<close>

section \<open>Accounting\<close>

definition cnt :: "nat \<Rightarrow> runtime_stats \<Rightarrow> int" where
  "cnt i s = (if i < 6 then counters s ! i else 0)"

definition cnt0 :: "nat \<Rightarrow> runtime_stats option \<Rightarrow> int" where
  "cnt0 i x = (case x of None \<Rightarrow> 0 | Some s \<Rightarrow> cnt i s)"

lemma six_cases: "(i :: nat) < 6 \<Longrightarrow> i = 0 \<or> i = 1 \<or> i = 2 \<or> i = 3 \<or> i = 4 \<or> i = 5"
  by linarith

lemma cnt_ApplyDelta: "cnt i (ApplyDelta s d) = cnt i s + cnt i d"
proof (cases "i < 6")
  case True
  from six_cases [OF this] show ?thesis
    by (elim disjE) (simp_all add: cnt_def counters_def ApplyDelta_def Let_def)
qed (simp add: cnt_def)

lemma cnt_zero [simp]: "cnt i zero_stats = 0"
proof (cases "i < 6")
  case True
  from six_cases [OF this] show ?thesis by (elim disjE) (simp_all add: cnt_def counters_def zero_stats_def)
qed (simp add: cnt_def)

lemma cnt_IsZero: "stats_IsZero s \<Longrightarrow> cnt i s = 0"
proof (cases "i < 6")
  case True
  from six_cases [OF this] show "stats_IsZero s \<Longrightarrow> ?thesis" by (elim disjE) (simp_all add: cnt_def counters_def stats_IsZero_def)
qed (simp add: cnt_def)

lemma cnt_add_delta: "cnt i (add_delta d s) = cnt i s + cnt0 i d"
  by (auto simp: add_delta_def cnt0_def cnt_ApplyDelta cnt_IsZero split: option.splits)

lemma counters_le: "list_all2 (\<le>) (counters a) (counters b) \<longleftrightarrow> (\<forall>i. cnt i a \<le> cnt i b)"
proof
  assume *: "list_all2 (\<le>) (counters a) (counters b)"
  show "\<forall>i. cnt i a \<le> cnt i b" using list_all2_nthD [OF *] by (simp add: cnt_def counters_def)
next
  assume *: "\<forall>i. cnt i a \<le> cnt i b"
  have "counters a ! i \<le> counters b ! i" if "i < 6" for i using *[rule_format, of i] that by (simp add: cnt_def)
  thus "list_all2 (\<le>) (counters a) (counters b)" by (simp add: list_all2_conv_all_nth counters_def)
qed

lemma cnt_DeltaSince: "DeltaSince s prev = (d, True) \<Longrightarrow> cnt i d = cnt i s - cnt i prev"
proof -
  assume d: "DeltaSince s prev = (d, True)"
  have "cnt i (ApplyDelta prev d) = cnt i s" using ApplyDelta_DeltaSince_counters [OF d] by (simp add: cnt_def)
  thus ?thesis by (simp add: cnt_ApplyDelta)
qed

text \<open>The delta of a key is exactly what was counted since its baseline.\<close>

lemma cnt_key_delta:
  assumes "\<And>p. prev = Some p \<Longrightarrow> \<forall>i. cnt i p \<le> cnt i s"
  shows "cnt0 i (key_delta prev s) = cnt i s - cnt0 i prev"
proof (cases prev)
  case None
  thus ?thesis by (simp add: key_delta_def cnt0_def cnt_IsZero)
next
  case (Some p)
  obtain d where d: "DeltaSince s p = (d, True)"
    using assms [OF Some] DeltaSince_True_iff [of s p] counters_le [of p s] by (cases "DeltaSince s p") auto
  show ?thesis
    using cnt_DeltaSince [OF d, of i] cnt_IsZero [of d i] by (auto simp: Some key_delta_def d cnt0_def)
qed

definition live :: "'s stats_sys \<Rightarrow> string \<Rightarrow> string \<Rightarrow> runtime_stats option" where
  "live sy v k = map_option (\<lambda>a. h_stats (hp_handles (ss_heap sy) a)) (tbl_get (ss_registry sy) v k)"

text \<open>What the store holds and what is still to be shipped.\<close>

definition pending :: "nat \<Rightarrow> 's stats_sys \<Rightarrow> string \<Rightarrow> string \<Rightarrow> int" where
  "pending i sy v k = cnt0 i (live sy v k) - cnt0 i (tbl_get (ss_last sy) v k)"

definition counted_total :: "('s \<Rightarrow> string \<Rightarrow> string \<Rightarrow> runtime_stats option) \<Rightarrow> nat \<Rightarrow> 's stats_sys \<Rightarrow> string \<Rightarrow> string \<Rightarrow> int" where
  "counted_total stored i sy v k = cnt0 i (stored (ss_store sy) v k) + pending i sy v k"

text \<open>The steps of the system: a router is built with a key (\<open>buildVendorGateway\<close> takes the key's handle from the
  registry), an attempt is counted on a key's handle, and the persister flushes, resets or closes.\<close>

datatype stats_op =
    Publish string string
  | Counted string string "stats_handle \<Rightarrow> stats_handle"
  | Flush time bool "(string \<times> KeyState list) list"
  | ResetStats time bool string
  | Close time bool "(string \<times> KeyState list) list"

definition count_on :: "string \<Rightarrow> string \<Rightarrow> (stats_handle \<Rightarrow> stats_handle) \<Rightarrow> 's stats_sys \<Rightarrow> 's stats_sys" where
  "count_on v k f sy = (case tbl_get (ss_registry sy) v k of
      None \<Rightarrow> sy
    | Some a \<Rightarrow> sy\<lparr>ss_heap := (ss_heap sy)\<lparr>hp_handles := (hp_handles (ss_heap sy))(a := f (hp_handles (ss_heap sy) a))\<rparr>\<rparr>)"

definition publish :: "('s \<Rightarrow> string \<Rightarrow> string \<Rightarrow> runtime_stats option) \<Rightarrow> string \<Rightarrow> string \<Rightarrow> 's stats_sys \<Rightarrow> 's stats_sys" where
  "publish stored v k sy = (case stored (ss_store sy) v k of
      None \<Rightarrow> sy
    | Some s \<Rightarrow> (case reg_Handle v k s (ss_registry sy, ss_heap sy) of (a, r, hp) \<Rightarrow> sy\<lparr>ss_registry := r, ss_heap := hp\<rparr>))"

fun sys_step ::
  "('s \<Rightarrow> string \<Rightarrow> string \<Rightarrow> runtime_stats option) \<Rightarrow> (time \<Rightarrow> bool \<Rightarrow> stats_table \<Rightarrow> 's \<Rightarrow> 'e option \<times> 's) \<Rightarrow>
   (time \<Rightarrow> bool \<Rightarrow> string \<Rightarrow> 's \<Rightarrow> ('e + int) \<times> 's) \<Rightarrow> stats_op \<Rightarrow> 's stats_sys \<Rightarrow> bool \<times> 's stats_sys" where
  "sys_step stored ap re (Publish v k) sy = (True, publish stored v k sy)"
| "sys_step stored ap re (Counted v k f) sy = (True, count_on v k f sy)"
| "sys_step stored ap re (Flush now io snap) sy = (case ps_Flush (ap now io) snap sy of (e, sy) \<Rightarrow> (e = None, sy))"
| "sys_step stored ap re (ResetStats now io v) sy = (case ps_Reset (re now io) v sy of (r, sy) \<Rightarrow> (isl r = False, sy))"
| "sys_step stored ap re (Close now io snap) sy = (case ps_Close (ap now io) snap sy of (e, sy) \<Rightarrow> (e = None, sy))"

text \<open>A snapshot shows handles of the registry; a key comes new into the registry only before it has counts in the store.\<close>

definition snapshot_ok :: "(string \<times> KeyState list) list \<Rightarrow> 's stats_sys \<Rightarrow> bool" where
  "snapshot_ok snap sy = (let t = captureRuntimeStats snap in
     table_ok t \<and> trimmed t \<and> list_all (\<lambda>(v, ks). list_all (\<lambda>(k, s). live sy v k = Some s) ks) t)"

definition never_lowers :: "(stats_handle \<Rightarrow> stats_handle) \<Rightarrow> bool" where
  "never_lowers f = (\<forall>h i. cnt i (h_stats h) \<le> cnt i (h_stats (f h)))"

fun op_ok :: "('s \<Rightarrow> string \<Rightarrow> string \<Rightarrow> runtime_stats option) \<Rightarrow> stats_op \<Rightarrow> 's stats_sys \<Rightarrow> bool" where
  "op_ok stored (Publish v k) sy = (trim_space v = v \<and> trim_space k = k \<and> v \<noteq> [] \<and> k \<noteq> [] \<and>
     (tbl_get (ss_registry sy) v k \<noteq> None \<or> (case stored (ss_store sy) v k of None \<Rightarrow> True | Some s \<Rightarrow> counters s = replicate 6 0)))"
| "op_ok stored (Counted v k f) sy = never_lowers f"
| "op_ok stored (Flush now io snap) sy = snapshot_ok snap sy"
| "op_ok stored (ResetStats now io v) sy = True"
| "op_ok stored (Close now io snap) sy = snapshot_ok snap sy"

text \<open>What the counter of a key should have become.\<close>

definition matches :: "string \<Rightarrow> string \<Rightarrow> bool" where
  "matches vendorID v = (trim_space vendorID = [] \<or> trim_space vendorID = v)"

fun expected_count :: "nat \<Rightarrow> string \<Rightarrow> string \<Rightarrow> stats_op \<Rightarrow> 's stats_sys \<Rightarrow> bool \<Rightarrow> int \<Rightarrow> int" where
  "expected_count i v k (Counted v' k' f) sy ok x =
     (case tbl_get (ss_registry sy) v k of
        None \<Rightarrow> x
      | Some a \<Rightarrow> if v' = v \<and> k' = k then x + (cnt i (h_stats (f (hp_handles (ss_heap sy) a))) - cnt i (h_stats (hp_handles (ss_heap sy) a))) else x)"
| "expected_count i v k (ResetStats now io v') sy ok x = (if ok \<and> matches v' v then 0 else x)"
| "expected_count i v k (Publish v' k') sy ok x = x"
| "expected_count i v k (Flush now io snap) sy ok x = x"
| "expected_count i v k (Close now io snap) sy ok x = x"

section \<open>The ledger balances\<close>

definition sys_inv :: "('s \<Rightarrow> bool) \<Rightarrow> 's stats_sys \<Rightarrow> bool" where
  "sys_inv I sy = (I (ss_store sy) \<and> table_ok (ss_registry sy) \<and> table_ok (ss_last sy) \<and>
     (\<forall>v k v' k' a. tbl_get (ss_registry sy) v k = Some a \<longrightarrow> a < hp_next (ss_heap sy) \<and>
        (tbl_get (ss_registry sy) v' k' = Some a \<longrightarrow> v' = v \<and> k' = k)) \<and>
     (\<forall>v k b. tbl_get (ss_last sy) v k = Some b \<longrightarrow> (\<exists>s. live sy v k = Some s \<and> (\<forall>i. cnt i b \<le> cnt i s))))"

lemma sys_invD:
  assumes "sys_inv I sy"
  shows "I (ss_store sy)" "table_ok (ss_registry sy)" "table_ok (ss_last sy)"
    and "tbl_get (ss_registry sy) v k = Some a \<Longrightarrow> a < hp_next (ss_heap sy)"
    and "tbl_get (ss_registry sy) v k = Some a \<Longrightarrow> tbl_get (ss_registry sy) v' k' = Some a \<Longrightarrow> v' = v \<and> k' = k"
    and "tbl_get (ss_last sy) v k = Some b \<Longrightarrow> \<exists>s. live sy v k = Some s \<and> (\<forall>i. cnt i b \<le> cnt i s)"
  using assms unfolding sys_inv_def by blast+

text \<open>Counting.\<close>

lemma live_count_on:
  assumes "sys_inv I sy"
  shows "live (count_on v' k' f sy) v k =
    (case tbl_get (ss_registry sy) v k of None \<Rightarrow> None
     | Some a \<Rightarrow> Some (h_stats (if v' = v \<and> k' = k then f (hp_handles (ss_heap sy) a) else hp_handles (ss_heap sy) a)))"
  using sys_invD(5) [OF assms]
  by (fastforce simp: live_def count_on_def split: option.splits)

lemma count_on_inv:
  assumes "sys_inv I sy" "never_lowers f"
  shows "sys_inv I (count_on v' k' f sy)"
proof -
  have same: "ss_store (count_on v' k' f sy) = ss_store sy" "ss_registry (count_on v' k' f sy) = ss_registry sy"
    "ss_last (count_on v' k' f sy) = ss_last sy" "hp_next (ss_heap (count_on v' k' f sy)) = hp_next (ss_heap sy)"
    by (simp_all add: count_on_def split: option.split)
  have "\<exists>s. live (count_on v' k' f sy) v k = Some s \<and> (\<forall>i. cnt i b \<le> cnt i s)" if b: "tbl_get (ss_last sy) v k = Some b" for v k b
  proof -
    obtain s where s: "live sy v k = Some s" "\<forall>i. cnt i b \<le> cnt i s" using sys_invD(6) [OF assms(1) b] by blast
    then obtain a where a: "tbl_get (ss_registry sy) v k = Some a" "s = h_stats (hp_handles (ss_heap sy) a)"
      by (auto simp: live_def)
    have "\<forall>i. cnt i s \<le> cnt i (h_stats (f (hp_handles (ss_heap sy) a)))" using assms(2) a(2) by (simp add: never_lowers_def)
    thus ?thesis using s(2) a by (auto simp: live_count_on [OF assms(1)] intro: order_trans)
  qed
  thus ?thesis using assms(1) unfolding sys_inv_def same by blast
qed

lemma total_count_on:
  assumes "sys_inv I sy"
  shows "counted_total stored i (count_on v' k' f sy) v k = expected_count i v k (Counted v' k' f) sy ok (counted_total stored i sy v k)"
proof -
  have same: "ss_store (count_on v' k' f sy) = ss_store sy" "ss_last (count_on v' k' f sy) = ss_last sy"
    by (simp_all add: count_on_def split: option.split)
  show ?thesis
    using live_count_on [OF assms, of v' k' f v k]
    by (cases "tbl_get (ss_registry sy) v k") (auto simp: counted_total_def pending_def same cnt0_def live_def)
qed

text \<open>Publishing.\<close>

lemma cnt_new_handle: "counters s = replicate 6 0 \<Longrightarrow> cnt i (h_stats (NewRuntimeStatsHandle s)) = 0"
proof (cases "i < 6")
  case True
  assume "counters s = replicate 6 0"
  hence "TotalRequests s = 0" "SuccessCount s = 0" "UnauthorizedCount s = 0" "ForbiddenCount s = 0" "RateLimitCount s = 0" "OtherErrorCount s = 0"
    by (simp_all add: counters_def numeral_eq_Suc)
  with six_cases [OF True] show ?thesis
    by (elim disjE) (simp_all add: cnt_def counters_def NewRuntimeStatsHandle_def MergeBaseline_def zero_handle_def zero_stats_def
        updateCostsLocked_def Let_def split: prod.splits)
qed (simp add: cnt_def)

lemma publish_cases:
  assumes "op_ok stored (Publish v k) sy"
  obtains "publish stored v k sy = sy"
  | s where "stored (ss_store sy) v k = Some s" "tbl_get (ss_registry sy) v k = None" "counters s = replicate 6 0"
      "publish stored v k sy = sy\<lparr>ss_registry := AList.update v (AList.update k (hp_next (ss_heap sy)) (inner (ss_registry sy) v)) (ss_registry sy),
         ss_heap := (ss_heap sy)\<lparr>hp_handles := (hp_handles (ss_heap sy))(hp_next (ss_heap sy) := NewRuntimeStatsHandle s),
           hp_next := hp_next (ss_heap sy) + 1\<rparr>\<rparr>"
  using assms by (cases "stored (ss_store sy) v k"; cases "tbl_get (ss_registry sy) v k")
    (auto simp: publish_def reg_Handle_def Let_def)

lemma publish_facts:
  assumes "sys_inv I sy" "op_ok stored (Publish v' k') sy"
  shows "sys_inv I (publish stored v' k' sy) \<and>
    counted_total stored i (publish stored v' k' sy) v k = counted_total stored i sy v k"
proof (cases rule: publish_cases [OF assms(2)])
  case 1
  thus ?thesis using assms(1) by simp
next
  case (2 s)
  let ?sy = "publish stored v' k' sy"
  let ?a = "hp_next (ss_heap sy)"
  have same: "ss_store ?sy = ss_store sy" "ss_last ?sy = ss_last sy" "hp_next (ss_heap ?sy) = ?a + 1" using 2 by simp_all
  have reg: "tbl_get (ss_registry ?sy) v k = (if v = v' \<and> k = k' then Some ?a else tbl_get (ss_registry sy) v k)" for v k
    using 2 by (auto simp: tbl_get_def update_conv')
  have lv: "live ?sy v k = (if v = v' \<and> k = k' then Some (h_stats (NewRuntimeStatsHandle s)) else live sy v k)" for v k
    using 2(4) reg [of v k] sys_invD(4) [OF assms(1), of v k] by (cases "tbl_get (ss_registry sy) v k") (auto simp: live_def)
  have old: "live sy v' k' = None" using 2(2) by (simp add: live_def)
  hence nobase: "tbl_get (ss_last sy) v' k' = None" using sys_invD(6) [OF assms(1), of v' k'] by (cases "tbl_get (ss_last sy) v' k'") auto
  have "table_ok (ss_registry ?sy)"
    using 2(4) sys_invD(2) [OF assms(1)] by (simp add: table_ok_update distinct_update inner_distinct)
  moreover have "\<exists>s. live ?sy v k = Some s \<and> (\<forall>i. cnt i b \<le> cnt i s)" if "tbl_get (ss_last sy) v k = Some b" for v k b
    using sys_invD(6) [OF assms(1) that] nobase that by (auto simp: lv)
  moreover have "a < ?a + 1 \<and> (tbl_get (ss_registry ?sy) w l = Some a \<longrightarrow> w = v \<and> l = k)" if "tbl_get (ss_registry ?sy) v k = Some a" for v k w l a
    using that sys_invD(4,5) [OF assms(1)] by (fastforce simp: reg split: if_splits)
  ultimately have "sys_inv I ?sy"
    unfolding sys_inv_def same using sys_invD(1,3) [OF assms(1)] by blast
  moreover have "counted_total stored i ?sy v k = counted_total stored i sy v k"
    using cnt_new_handle [OF 2(3), of i] old nobase by (auto simp: counted_total_def pending_def same lv cnt0_def)
  ultimately show ?thesis by blast
qed

text \<open>Flushing.\<close>

lemma snapshot_get:
  assumes "snapshot_ok snap sy" "tbl_get (captureRuntimeStats snap) v k = Some s"
  shows "live sy v k = Some s"
proof -
  obtain ks where "map_of (captureRuntimeStats snap) v = Some ks" "map_of ks k = Some s"
    using assms(2) by (auto simp: tbl_get_def inner_def split: option.splits)
  thus ?thesis using assms(1) by (fastforce simp: snapshot_ok_def Let_def list_all_iff dest!: map_of_SomeD)
qed

lemma build_deltas_trimmed: "trimmed cur \<Longrightarrow> trimmed (fst (buildRuntimeStatsDeltas cur prev))"
  by (fastforce simp: trimmed_def buildRuntimeStatsDeltas_def list_all_iff List.map_filter_def split: prod.splits)

lemma tbl_get_mem:
  assumes "table_ok t"
  shows "tbl_get t v k = Some x \<longleftrightarrow> (\<exists>ks. (v, ks) \<in> set t \<and> (k, x) \<in> set ks)"
proof
  assume "tbl_get t v k = Some x"
  thus "\<exists>ks. (v, ks) \<in> set t \<and> (k, x) \<in> set ks"
    by (auto simp: tbl_get_def inner_def split: option.splits dest!: map_of_SomeD)
next
  assume "\<exists>ks. (v, ks) \<in> set t \<and> (k, x) \<in> set ks"
  then obtain ks where ks: "(v, ks) \<in> set t" "(k, x) \<in> set ks" by blast
  hence "inner t v = ks" "distinct (map fst ks)" using inner_mem [OF assms] inner_distinct [OF assms, of v] by auto
  thus "tbl_get t v k = Some x" using ks(2) by (simp add: tbl_get_def)
qed

lemma reg_handles_iff:
  assumes "table_ok r"
  shows "Some a \<in> set (reg_handles vid r) \<longleftrightarrow> (\<exists>v k. tbl_get r v k = Some a \<and> (vid = [] \<or> v = vid))"
proof -
  have m: "Some a \<in> set (map (\<lambda>(k, a). Some a) ks) \<longleftrightarrow> (\<exists>k. (k, a) \<in> set ks)" for ks :: "(string \<times> nat) list" by force
  have "Some a \<in> set (if vid \<noteq> [] \<and> v \<noteq> vid then [] else map (\<lambda>(k, a). Some a) ks) \<longleftrightarrow> (vid = [] \<or> v = vid) \<and> (\<exists>k. (k, a) \<in> set ks)"
    for v and ks :: "(string \<times> nat) list"
    using m [of ks] by (cases "vid = [] \<or> v = vid") (auto simp del: set_map)
  hence "Some a \<in> set (reg_handles vid r) \<longleftrightarrow> (\<exists>v ks. (v, ks) \<in> set r \<and> (vid = [] \<or> v = vid) \<and> (\<exists>k. (k, a) \<in> set ks))"
    by (auto simp: reg_handles_def)
  thus ?thesis unfolding tbl_get_mem [OF assms] by blast
qed

lemma tbl_get_filter: "tbl_get (filter (\<lambda>(v, ks). P v) t) v k = (if P v then tbl_get t v k else None)"
  by (induction t) (auto simp: tbl_get_def inner_def split: option.splits)

context stats_store
begin

lemma flush_outcome:
  assumes "sys_inv inv sy" "snapshot_ok snap sy" "ps_Flush (apply_deltas now io) snap sy = (e, sy')"
  shows "e \<noteq> None \<Longrightarrow> sy' = sy"
    and "e = None \<Longrightarrow> inv (ss_store sy') \<and>
      stored (ss_store sy') v k = map_option (add_delta (tbl_get (fst (buildRuntimeStatsDeltas (captureRuntimeStats snap) (ss_last sy))) v k))
        (stored (ss_store sy) v k) \<and>
      ss_last sy' = snd (buildRuntimeStatsDeltas (captureRuntimeStats snap) (ss_last sy)) \<and>
      ss_registry sy' = ss_registry sy \<and> ss_heap sy' = ss_heap sy"
proof -
  let ?cur = "captureRuntimeStats snap"
  obtain deltas nb where b: "buildRuntimeStatsDeltas ?cur (ss_last sy) = (deltas, nb)"
    by (cases "buildRuntimeStatsDeltas ?cur (ss_last sy)")
  have ok: "table_ok deltas" "trimmed deltas"
    using build_deltas(1) [of ?cur "ss_last sy"] build_deltas_trimmed [of ?cur "ss_last sy"] b assms(1,2) sys_invD(3)
    by (auto simp: snapshot_ok_def Let_def)
  have none: "map_option (add_delta None) x = x" for x by (cases x) (simp_all add: add_delta_def)
  have inv: "inv (ss_store sy)" by (rule sys_invD(1) [OF assms(1)])
  obtain e' s' where ap: "apply_deltas now io deltas (ss_store sy) = (e', s')" by (cases "apply_deltas now io deltas (ss_store sy)")
  show "e \<noteq> None \<Longrightarrow> sy' = sy"
    using assms(3) apply_failed [of now io deltas "ss_store sy" _ s'] ap
    by (cases e') (auto simp: ps_Flush_def flushLocked_def b split: if_splits)
  show "e = None \<Longrightarrow> inv (ss_store sy') \<and>
      stored (ss_store sy') v k = map_option (add_delta (tbl_get (fst (buildRuntimeStatsDeltas ?cur (ss_last sy))) v k)) (stored (ss_store sy) v k) \<and>
      ss_last sy' = snd (buildRuntimeStatsDeltas ?cur (ss_last sy)) \<and> ss_registry sy' = ss_registry sy \<and> ss_heap sy' = ss_heap sy"
    using assms(3) apply_ok [OF inv ok, of now io s' v k] ap inv none
    by (cases "deltas = []") (auto simp: ps_Flush_def flushLocked_def b tbl_get_def inner_def split: option.splits)
qed

lemma flush_facts:
  assumes "sys_inv inv sy" "snapshot_ok snap sy" "ps_Flush (apply_deltas now io) snap sy = (e, sy')"
  shows "sys_inv inv sy'"
    and "stored (ss_store sy) v k \<noteq> None \<Longrightarrow>
      stored (ss_store sy') v k \<noteq> None \<and> counted_total stored i sy' v k = counted_total stored i sy v k"
    and "e = None \<Longrightarrow> tbl_get (captureRuntimeStats snap) v k \<noteq> None \<Longrightarrow> pending i sy' v k = 0"
proof -
  let ?cur = "captureRuntimeStats snap"
  note out = flush_outcome [OF assms]
  have cur: "table_ok ?cur" using assms(2) by (simp add: snapshot_ok_def Let_def)
  note tables = cur sys_invD(3) [OF assms(1)]
  have lv: "e = None \<Longrightarrow> live sy' v k = live sy v k" for v k using out(2) by (simp add: live_def)
  have base: "e = None \<Longrightarrow> tbl_get (ss_last sy') v k = (case tbl_get ?cur v k of Some s \<Rightarrow> Some s | None \<Rightarrow> tbl_get (ss_last sy) v k)" for v k
    using out(2) build_baseline(2) [OF tables] by simp
  show "sys_inv inv sy'"
  proof (cases e)
    case None
    have "\<exists>s. live sy' v k = Some s \<and> (\<forall>i. cnt i b \<le> cnt i s)" if "tbl_get (ss_last sy') v k = Some b" for v k b
      using that base [OF None, of v k] lv [OF None, of v k] snapshot_get [OF assms(2), of v k] sys_invD(6) [OF assms(1), of v k b]
      by (auto split: option.splits)
    thus ?thesis
      using out(2) [OF None] build_baseline(1) [OF tables] assms(1) unfolding sys_inv_def by (simp add: None)
  qed (use out(1) assms(1) in simp)
  show "stored (ss_store sy') v k \<noteq> None \<and> counted_total stored i sy' v k = counted_total stored i sy v k"
    if rec: "stored (ss_store sy) v k \<noteq> None"
  proof (cases e)
    case None
    obtain st where st: "stored (ss_store sy) v k = Some st" using rec by blast
    define d where "d = tbl_get (fst (buildRuntimeStatsDeltas ?cur (ss_last sy))) v k"
    have st': "stored (ss_store sy') v k = Some (add_delta d st)" using out(2) [OF None, of v k] st by (simp add: d_def)
    have "cnt0 i d = cnt0 i (tbl_get (ss_last sy') v k) - cnt0 i (tbl_get (ss_last sy) v k)"
    proof (cases "tbl_get ?cur v k")
      case None': None
      thus ?thesis using base [OF None, of v k] build_deltas(2) [OF tables, of v k] by (simp add: d_def cnt0_def)
    next
      case (Some s)
      have "\<And>p. tbl_get (ss_last sy) v k = Some p \<Longrightarrow> \<forall>i. cnt i p \<le> cnt i s"
        using sys_invD(6) [OF assms(1), of v k] snapshot_get [OF assms(2) Some] by fastforce
      from cnt_key_delta [where i = i, OF this] show ?thesis
        using base [OF None, of v k] Some build_deltas(2) [OF tables, of v k] by (simp add: d_def cnt0_def)
    qed
    thus ?thesis using st st' lv [OF None, of v k] by (simp add: counted_total_def pending_def cnt0_def cnt_add_delta)
  qed (use out(1) rec in simp)
  show "pending i sy' v k = 0" if "e = None" "tbl_get ?cur v k \<noteq> None"
    using that base [OF that(1), of v k] lv [OF that(1), of v k] snapshot_get [OF assms(2), of v k]
    by (auto simp: pending_def split: option.splits)
qed

text \<open>Resetting.\<close>

lemma reset_facts:
  assumes "sys_inv inv sy" "ps_Reset (store_reset now io) v' sy = (r, sy')"
  shows "sys_inv inv sy' \<and> (stored (ss_store sy) v k \<noteq> None \<longrightarrow>
    stored (ss_store sy') v k \<noteq> None \<and>
    counted_total stored i sy' v k = (if \<not> isl r \<and> matches v' v then 0 else counted_total stored i sy v k))"
proof -
  let ?v = "trim_space v'"
  obtain q s' where re: "store_reset now io ?v (ss_store sy) = (q, s')" by (cases "store_reset now io ?v (ss_store sy)")
  show ?thesis
  proof (cases "ss_stopped sy \<or> isl q")
    case True
    hence "sy' = sy \<and> isl r"
      using assms(2) re reset_failed [of now io ?v "ss_store sy"]
      by (cases q) (auto simp: ps_Reset_def reg_Reset_def ResetRuntimeStats_def Let_def split: if_splits)
    thus ?thesis using assms(1) by simp
  next
    case False
    then obtain n where n: "q = Inr n" by (cases q) auto
    have ok: "inv s'" "\<And>w k. stored s' w k = map_option (\<lambda>st. if ?v = [] \<or> w = ?v then zero_stats else st) (stored (ss_store sy) w k)"
      using reset_ok [OF sys_invD(1) [OF assms(1)], of ?v now io n s'] re n by auto
    define hs where "hs = hp_handles (ss_heap sy)"
    define hs' where "hs' = (\<lambda>a. if Some a \<in> set (reg_handles ?v (ss_registry sy)) then reset_handle (hs a) else hs a)"
    have rst: "ResetRuntimeStats (reg_handles ?v (ss_registry sy)) (None :: 'e option) hs = (None, hs')"
      using lock_handles_spec [of "[]" "[]" "reg_handles ?v (ss_registry sy)"] by (simp add: ResetRuntimeStats_def fold_upd_distinct hs'_def)
    have sy': "sy' = sy\<lparr>ss_heap := (ss_heap sy)\<lparr>hp_handles := hs'\<rparr>, ss_store := s',
        ss_last := filter (\<lambda>(v, ks). \<not> (?v = [] \<or> v = ?v)) (ss_last sy)\<rparr>" and r: "r = Inr n"
      using assms(2) False re n rst by (auto simp: ps_Reset_def reg_Reset_def Let_def hs_def)
    have mem: "Some a \<in> set (reg_handles ?v (ss_registry sy)) \<longleftrightarrow> ?v = [] \<or> v = ?v" if "tbl_get (ss_registry sy) v k = Some a" for v k a
      using reg_handles_iff [OF sys_invD(2) [OF assms(1)], of a ?v] sys_invD(5) [OF assms(1) that] that by blast
    have lv: "live sy' v k = (if ?v = [] \<or> v = ?v then map_option (\<lambda>_. zero_stats) (live sy v k) else live sy v k)" for v k
      using mem by (cases "tbl_get (ss_registry sy) v k") (auto simp: live_def sy' hs'_def hs_def reset_handle_def Let_def)
    have base: "tbl_get (ss_last sy') v k = (if ?v = [] \<or> v = ?v then None else tbl_get (ss_last sy) v k)" for v k
      using tbl_get_filter [of "\<lambda>v. \<not> (?v = [] \<or> v = ?v)" "ss_last sy" v k] by (simp add: sy' del: de_Morgan_disj)
    have same: "ss_registry sy' = ss_registry sy" "ss_store sy' = s'" "hp_next (ss_heap sy') = hp_next (ss_heap sy)" by (simp_all add: sy')
    have "table_ok (ss_last sy')"
      using sys_invD(3) [OF assms(1)] by (auto simp: sy' table_ok_def list_all_iff distinct_map_filter)
    moreover have "\<exists>s. live sy' v k = Some s \<and> (\<forall>i. cnt i b \<le> cnt i s)" if "tbl_get (ss_last sy') v k = Some b" for v k b
      using that sys_invD(6) [OF assms(1), of v k b] by (simp add: base lv split: if_splits)
    ultimately have "sys_inv inv sy'"
      using assms(1) ok(1) unfolding sys_inv_def same by blast
    moreover have "counted_total stored i sy' v k = 0" if "matches v' v" "stored (ss_store sy) v k \<noteq> None"
      using that by (cases "live sy v k") (auto simp: matches_def counted_total_def pending_def lv base same ok(2) cnt0_def)
    moreover have "counted_total stored i sy' v k = counted_total stored i sy v k" if "\<not> matches v' v"
      using that by (cases "stored (ss_store sy) v k") (auto simp: matches_def counted_total_def pending_def lv base same ok(2) cnt0_def)
    ultimately show ?thesis using r by (auto simp: same ok(2))
  qed
qed

lemma step_facts:
  assumes "sys_inv inv sy" "op_ok stored op sy" "sys_step stored apply_deltas store_reset op sy = (ok, sy')"
  shows "sys_inv inv sy' \<and> (stored (ss_store sy) v k \<noteq> None \<longrightarrow> stored (ss_store sy') v k \<noteq> None \<and>
    counted_total stored i sy' v k = expected_count i v k op sy ok (counted_total stored i sy v k))"
proof (cases op)
  case (Publish v' k')
  moreover have "ss_store (publish stored v' k' sy) = ss_store sy"
    by (simp add: publish_def split: option.split prod.split)
  ultimately show ?thesis using assms publish_facts [OF assms(1), of stored v' k' i v k] by auto
next
  case (Counted v' k' f)
  moreover have "ss_store (count_on v' k' f sy) = ss_store sy" by (simp add: count_on_def split: option.split)
  ultimately show ?thesis
    using assms count_on_inv [OF assms(1), of f v' k'] total_count_on [OF assms(1), of stored i v' k' f v k ok] by auto
next
  case (Flush now io snap)
  then obtain e where e: "ps_Flush (apply_deltas now io) snap sy = (e, sy')" and ok: "snapshot_ok snap sy"
    using assms(2,3) by (auto split: prod.splits)
  show ?thesis using flush_facts(1,2) [OF assms(1) ok e] Flush by simp
next
  case (ResetStats now io v')
  then obtain r where "ps_Reset (store_reset now io) v' sy = (r, sy')" "ok = (\<not> isl r)"
    using assms(3) by (auto split: prod.splits)
  thus ?thesis using reset_facts [OF assms(1), of now io v' r sy' v k i] ResetStats by simp
next
  case (Close now io snap)
  show ?thesis
  proof (cases "ss_stopped sy")
    case True
    thus ?thesis using Close assms by (auto simp: ps_Close_def)
  next
    case False
    let ?sy = "sy\<lparr>ss_stopped := True\<rparr>"
    have same: "live ?sy = live sy" "counted_total stored i ?sy v k = counted_total stored i sy v k"
      by (simp_all add: live_def [abs_def] counted_total_def pending_def)
    have inv: "sys_inv inv ?sy" using assms(1) by (simp add: sys_inv_def same)
    have ok: "snapshot_ok snap ?sy" using assms(2) Close by (simp add: snapshot_ok_def same)
    obtain e where e: "ps_Flush (apply_deltas now io) snap ?sy = (e, sy')"
      using assms(3) Close False by (auto simp: ps_Close_def split: prod.splits)
    show ?thesis using flush_facts(1,2) [OF inv ok e] Close same by simp
  qed
qed

end

fun stats_run ::
  "('s \<Rightarrow> string \<Rightarrow> string \<Rightarrow> runtime_stats option) \<Rightarrow> (time \<Rightarrow> bool \<Rightarrow> stats_table \<Rightarrow> 's \<Rightarrow> 'e option \<times> 's) \<Rightarrow>
   (time \<Rightarrow> bool \<Rightarrow> string \<Rightarrow> 's \<Rightarrow> ('e + int) \<times> 's) \<Rightarrow> stats_op list \<Rightarrow> 's stats_sys \<Rightarrow> 's stats_sys" where
  "stats_run stored ap re [] sy = sy"
| "stats_run stored ap re (op # ops) sy = stats_run stored ap re ops (snd (sys_step stored ap re op sy))"

fun run_ok ::
  "('s \<Rightarrow> string \<Rightarrow> string \<Rightarrow> runtime_stats option) \<Rightarrow> (time \<Rightarrow> bool \<Rightarrow> stats_table \<Rightarrow> 's \<Rightarrow> 'e option \<times> 's) \<Rightarrow>
   (time \<Rightarrow> bool \<Rightarrow> string \<Rightarrow> 's \<Rightarrow> ('e + int) \<times> 's) \<Rightarrow> stats_op list \<Rightarrow> 's stats_sys \<Rightarrow> bool" where
  "run_ok stored ap re [] sy = True"
| "run_ok stored ap re (op # ops) sy = (op_ok stored op sy \<and> run_ok stored ap re ops (snd (sys_step stored ap re op sy)))"

fun run_expected ::
  "('s \<Rightarrow> string \<Rightarrow> string \<Rightarrow> runtime_stats option) \<Rightarrow> (time \<Rightarrow> bool \<Rightarrow> stats_table \<Rightarrow> 's \<Rightarrow> 'e option \<times> 's) \<Rightarrow>
   (time \<Rightarrow> bool \<Rightarrow> string \<Rightarrow> 's \<Rightarrow> ('e + int) \<times> 's) \<Rightarrow> nat \<Rightarrow> string \<Rightarrow> string \<Rightarrow> stats_op list \<Rightarrow> 's stats_sys \<Rightarrow> int \<Rightarrow> int" where
  "run_expected stored ap re i v k [] sy x = x"
| "run_expected stored ap re i v k (op # ops) sy x =
     (case sys_step stored ap re op sy of
        (ok, sy') \<Rightarrow> run_expected stored ap re i v k ops sy' (expected_count i v k op sy ok x))"

context stats_store
begin

lemma run_balances:
  assumes "sys_inv inv sy" "run_ok stored apply_deltas store_reset ops sy" "stored (ss_store sy) v k \<noteq> None"
  shows "sys_inv inv (stats_run stored apply_deltas store_reset ops sy) \<and>
    stored (ss_store (stats_run stored apply_deltas store_reset ops sy)) v k \<noteq> None \<and>
    counted_total stored i (stats_run stored apply_deltas store_reset ops sy) v k =
      run_expected stored apply_deltas store_reset i v k ops sy (counted_total stored i sy v k)"
  using assms
proof (induction ops arbitrary: sy)
  case (Cons op ops)
  obtain ok sy' where st: "sys_step stored apply_deltas store_reset op sy = (ok, sy')"
    by (cases "sys_step stored apply_deltas store_reset op sy")
  have "op_ok stored op sy" using Cons.prems(2) by simp
  from step_facts [OF Cons.prems(1) this st, of v k i] Cons.prems(3)
  have "sys_inv inv sy'" "stored (ss_store sy') v k \<noteq> None"
    "counted_total stored i sy' v k = expected_count i v k op sy ok (counted_total stored i sy v k)" by auto
  with Cons.IH [of sy'] Cons.prems(2) st show ?case by simp
qed simp

end

section \<open>Properties\<close>





definition blank_key :: KeyState where
  "blank_key = \<lparr>ks_Key = [], ks_Status = KeyStatusActive, ks_DisableReason = [], ks_DisabledAt = None, ks_DisabledBy = [],
     ks_RuntimeStats = zero_stats, ks_Version = 0, ks_Inflight = 0, ks_Failures = 0, ks_CooldownUntil = 0, ks_CooldownLevel = 0,
     ks_stats = 0, ks_retired = False, ks_lastAttempt = 0, ks_sampleExpires = 0, ks_nextExplore = 0, ks_liveSamples = 0,
     ks_failedSamples = 0, ks_statsGeneration = 0\<rparr>"

definition ledger_heap :: "runtime_stats \<Rightarrow> heap" where
  "ledger_heap st = \<lparr>hp_keys = (\<lambda>_. blank_key), hp_handles = (\<lambda>_. zero_handle\<lparr>h_stats := st\<rparr>), hp_credit = (\<lambda>_. 0), hp_next = 1,
     hp_epoch = 0\<rparr>"


definition seen_stats :: "int \<Rightarrow> runtime_stats" where
  "seen_stats n = zero_stats\<lparr>TotalRequests := n, SuccessCount := n, LastStatus := 200\<rparr>"

definition ledger_snapshot :: "int \<Rightarrow> (string \<times> KeyState list) list" where
  "ledger_snapshot n = [(''v1'', [blank_key\<lparr>ks_Key := ''k1'', ks_RuntimeStats := seen_stats n\<rparr>])]"





text \<open>The condition on publishing is needed: a key that has counts in the store but no handle when it is published
  starts its handle from those counts with no baseline, and the next flush ships them a second time.\<close>

definition late_stats :: "runtime_stats" where
  "late_stats = seen_stats 3"

lemma late_key_counts_twice:
  assumes "fs_inv s" "fs_stored s ''v1'' ''k1'' = Some late_stats"
    "ps_Flush (fs_ApplyRuntimeStatsDeltas now io) (ledger_snapshot 3)
       \<lparr>ss_registry = [(''v1'', [(''k1'', 0)])], ss_heap = ledger_heap late_stats, ss_last = [], ss_stopped = False, ss_store = s\<rparr> = (None, sy')"
  shows "cnt0 0 (fs_stored (ss_store sy') ''v1'' ''k1'') = 6"
proof -
  let ?ds = "[(''v1'', [(''k1'', late_stats)])]"
  have b: "fst (buildRuntimeStatsDeltas (captureRuntimeStats (ledger_snapshot 3)) []) = ?ds" by code_simp
  have nonempty: "?ds \<noteq> []" by simp
  obtain e s' where ap: "fs_ApplyRuntimeStatsDeltas now io ?ds s = (e, s')" by (cases "fs_ApplyRuntimeStatsDeltas now io ?ds s")
  have res: "e = None" "ss_store sy' = s'"
    using assms(3) b ap by (auto simp: ps_Flush_def flushLocked_def split: prod.splits option.splits)
  have "trim_space ''v1'' = ''v1''" "trim_space ''k1'' = ''k1''" by code_simp+
  hence "table_ok ?ds" "trimmed ?ds" by (simp_all add: table_ok_def trimmed_def)
  from fs_apply_ok [OF assms(1) this ap [unfolded res], of "''v1''" "''k1''"]
  have "fs_stored s' ''v1'' ''k1'' = Some (add_delta (Some late_stats) late_stats)"
    using assms(2) by (simp add: tbl_get_def inner_def)
  moreover have "cnt 0 late_stats = 3" by code_simp
  ultimately show ?thesis using res by (simp add: cnt0_def cnt_add_delta)
qed

end
