(* ===== verification/AdminAccess.thy ===== *)
theory AdminAccess
  imports VendorGateway
begin

text \<open>
  Who may reach the administration interface, from \<open>internal/admin/login_guard.go\<close> and the address
  functions of \<open>internal/config/config.go\<close>: the lock-out after failed logins, and the resolution of the
  client's address behind trusted proxies.  The guard is shown to implement an abstract specification
  that only keeps the times of the current streak of failures.
\<close>

section \<open>Login guard\<close>

record loginAttempt =
  la_failures :: int
  la_lastFailure :: time
  la_lockedUntil :: time

record LoginGuard =
  lg_attempts :: "string \<rightharpoonup> loginAttempt"
  lg_window :: duration
  lg_limit :: int
  lg_baseDelay :: duration
  lg_maxDelay :: duration

abbreviation loginFailureWindow :: duration where
  "loginFailureWindow \<equiv> 30 * minute"

abbreviation loginGuardEntryGrace :: duration where
  "loginGuardEntryGrace \<equiv> hour"

abbreviation zero_attempt :: loginAttempt where
  "zero_attempt \<equiv> \<lparr>la_failures = 0, la_lastFailure = 0, la_lockedUntil = 0\<rparr>"

definition NewLoginGuard :: LoginGuard where
  "NewLoginGuard = \<lparr>lg_attempts = Map.empty, lg_window = loginFailureWindow, lg_limit = 5, lg_baseDelay = 15 * second,
     lg_maxDelay = 15 * minute\<rparr>"

definition normalizeEntry :: "LoginGuard \<Rightarrow> time \<Rightarrow> loginAttempt \<Rightarrow> loginAttempt" where
  "normalizeEntry g now entry =
     (if la_lastFailure entry = 0 then entry
      else if now - la_lastFailure entry > lg_window g then zero_attempt
      else if la_lockedUntil entry \<noteq> 0 \<and> \<not> la_lockedUntil entry > now then entry\<lparr>la_lockedUntil := 0\<rparr>
      else entry)"

fun lock_loop :: "duration \<Rightarrow> nat \<Rightarrow> duration \<Rightarrow> duration" where
  "lock_loop maxDelay 0 delay = (if delay > maxDelay then maxDelay else delay)"
| "lock_loop maxDelay (Suc n) delay = (if delay \<ge> maxDelay div 2 then maxDelay else lock_loop maxDelay n (delay * 2))"

definition lockDuration :: "LoginGuard \<Rightarrow> int \<Rightarrow> duration" where
  "lockDuration g step = lock_loop (lg_maxDelay g) (nat step) (lg_baseDelay g)"

definition pruneLocked :: "time \<Rightarrow> LoginGuard \<Rightarrow> LoginGuard" where
  "pruneLocked now g =
     g\<lparr>lg_attempts := (\<lambda>key. case lg_attempts g key of
         None \<Rightarrow> None
       | Some entry \<Rightarrow>
           if la_failures entry = 0 then None
           else
             let expiredLock = (la_lockedUntil entry = 0 \<or> \<not> la_lockedUntil entry > now);
                 staleFailure = (la_lastFailure entry \<noteq> 0 \<and> now - la_lastFailure entry > lg_window g + loginGuardEntryGrace)
             in if expiredLock \<and> staleFailure then None else Some entry)\<rparr>"

definition Blocked :: "time \<Rightarrow> string \<Rightarrow> LoginGuard \<Rightarrow> (duration \<times> bool) \<times> LoginGuard" where
  "Blocked now key g =
     (if key = [] then ((0, False), g)
      else case lg_attempts g key of
        None \<Rightarrow> ((0, False), g)
      | Some entry \<Rightarrow>
          let entry = normalizeEntry g now entry in
          if la_failures entry = 0 then ((0, False), g\<lparr>lg_attempts := (lg_attempts g)(key := None)\<rparr>)
          else
            (if la_lockedUntil entry > now then (la_lockedUntil entry - now, True) else (0, False),
             g\<lparr>lg_attempts := (lg_attempts g)(key \<mapsto> entry)\<rparr>))"

definition Failed :: "time \<Rightarrow> string \<Rightarrow> LoginGuard \<Rightarrow> duration \<times> LoginGuard" where
  "Failed now key g =
     (if key = [] then (0, g)
      else
        let entry = normalizeEntry g now (case lg_attempts g key of None \<Rightarrow> zero_attempt | Some e \<Rightarrow> e);
            entry = entry\<lparr>la_failures := la_failures entry + 1, la_lastFailure := now\<rparr>;
            entry = (if la_failures entry \<ge> lg_limit g
              then entry\<lparr>la_lockedUntil := now + lockDuration g (la_failures entry - lg_limit g)\<rparr> else entry);
            g = pruneLocked now (g\<lparr>lg_attempts := (lg_attempts g)(key \<mapsto> entry)\<rparr>)
        in (if la_lockedUntil entry > now then la_lockedUntil entry - now else 0, g))"

definition Succeeded :: "string \<Rightarrow> LoginGuard \<Rightarrow> LoginGuard" where
  "Succeeded key g = (if key = [] then g else g\<lparr>lg_attempts := (lg_attempts g)(key := None)\<rparr>)"

section \<open>The guard as its specification\<close>

text \<open>
  The abstract guard keeps, for every client, the times of its current streak of failures: a failure
  more than the window after the previous one begins a new streak.  From the fifth failure of a streak
  on, the client is locked for fifteen seconds after the failure, doubled with every further one, up to
  a quarter of an hour.
\<close>

datatype guard_op = GBlocked string | GFailed string | GSucceeded string

type_synonym streaks = "string \<Rightarrow> time list"

definition live_streak :: "time \<Rightarrow> time list \<Rightarrow> time list" where
  "live_streak now ts = (if ts \<noteq> [] \<and> now - last ts \<le> 30 * minute then ts else [])"

definition lock_length :: "nat \<Rightarrow> duration" where
  "lock_length n = (if n < 5 then 0 else min (15 * minute) (15 * second * 2 ^ (n - 5)))"

definition spec_remaining :: "time \<Rightarrow> time list \<Rightarrow> duration" where
  "spec_remaining now ts = (if ts = [] then 0 else max 0 (last ts + lock_length (length ts) - now))"

fun spec_guard :: "time \<Rightarrow> guard_op \<Rightarrow> streaks \<Rightarrow> (duration \<times> bool) \<times> streaks" where
  "spec_guard now (GBlocked key) s =
     (let left = spec_remaining now (live_streak now (s key)) in
      if key = [] then ((0, False), s) else ((left, left > 0), s))"
| "spec_guard now (GFailed key) s =
     (if key = [] then ((0, False), s)
      else let ts = live_streak now (s key) @ [now]; left = lock_length (length ts) in ((left, left > 0), s(key := ts)))"
| "spec_guard now (GSucceeded key) s = ((0, False), if key = [] then s else s(key := []))"

fun guard_step :: "time \<Rightarrow> guard_op \<Rightarrow> LoginGuard \<Rightarrow> (duration \<times> bool) \<times> LoginGuard" where
  "guard_step now (GBlocked key) g = Blocked now key g"
| "guard_step now (GFailed key) g = (case Failed now key g of (d, g) \<Rightarrow> ((d, d > 0), g))"
| "guard_step now (GSucceeded key) g = ((0, False), Succeeded key g)"

fun timed_run :: "(time \<Rightarrow> 'op \<Rightarrow> 's \<Rightarrow> 'out \<times> 's) \<Rightarrow> (time \<times> 'op) list \<Rightarrow> 's \<Rightarrow> 'out list" where
  "timed_run step [] s = []"
| "timed_run step ((t, op) # ops) s = (case step t op s of (r, s) \<Rightarrow> r # timed_run step ops s)"

fun clock_ok :: "time \<Rightarrow> (time \<times> 'op) list \<Rightarrow> bool" where
  "clock_ok t [] = True"
| "clock_ok t ((t', op) # ops) = (t \<le> t' \<and> clock_ok t' ops)"

locale timed_simulation =
  fixes cstep :: "time \<Rightarrow> 'op \<Rightarrow> 'c \<Rightarrow> 'out \<times> 'c"
    and astep :: "time \<Rightarrow> 'op \<Rightarrow> 'a \<Rightarrow> 'out \<times> 'a"
    and R :: "time \<Rightarrow> 'a \<Rightarrow> 'c \<Rightarrow> bool"
  assumes same_output: "R t a c \<Longrightarrow> 0 < t \<Longrightarrow> t \<le> t' \<Longrightarrow> fst (cstep t' op c) = fst (astep t' op a)"
    and related: "R t a c \<Longrightarrow> 0 < t \<Longrightarrow> t \<le> t' \<Longrightarrow> R t' (snd (astep t' op a)) (snd (cstep t' op c))"
begin

lemma runs_agree:
  assumes "R t a c" "0 < t" "clock_ok t ops"
  shows "timed_run cstep ops c = timed_run astep ops a"
  using assms
proof (induction ops arbitrary: t a c)
  case Nil
  show ?case by simp
next
  case (Cons e ops)
  obtain t' op where e: "e = (t', op)" by (cases e)
  have le: "t \<le> t'" and ok: "clock_ok t' ops" and pos: "0 < t'" using Cons.prems e by auto
  show ?case
    using same_output [OF Cons.prems(1,2) le, of op] related [OF Cons.prems(1,2) le, of op] Cons.IH [OF _ pos ok]
    by (auto simp: e split: prod.splits)
qed

end

definition lock_end :: "time list \<Rightarrow> time" where
  "lock_end ts = (if length ts < 5 then 0 else last ts + lock_length (length ts))"

definition entry_rel :: "time \<Rightarrow> time list \<Rightarrow> loginAttempt option \<Rightarrow> bool" where
  "entry_rel t ts m = (case m of
      None \<Rightarrow> live_streak t ts = []
    | Some e \<Rightarrow> ts \<noteq> [] \<and> 0 < last ts \<and> last ts \<le> t \<and> la_failures e = int (length ts) \<and> la_lastFailure e = last ts \<and>
        (la_lockedUntil e = lock_end ts \<or> la_lockedUntil e = 0 \<and> lock_end ts \<le> t))"

definition guard_config :: "LoginGuard \<Rightarrow> bool" where
  "guard_config g = (lg_window g = 30 * minute \<and> lg_limit g = 5 \<and> lg_baseDelay g = 15 * second \<and> lg_maxDelay g = 15 * minute)"

definition guard_rel :: "time \<Rightarrow> streaks \<Rightarrow> LoginGuard \<Rightarrow> bool" where
  "guard_rel t s g = (guard_config g \<and> (\<forall>key. key \<noteq> [] \<longrightarrow> entry_rel t (s key) (lg_attempts g key)))"

lemma lock_loop_min:
  assumes "even m" "0 < d"
  shows "lock_loop m n d = min m (d * 2 ^ n)"
  using assms
proof (induction n arbitrary: d)
  case 0
  then show ?case by (simp add: min_def)
next
  case (Suc n)
  have half: "d \<ge> m div 2 \<longleftrightarrow> d * 2 \<ge> m" using Suc.prems(1) by auto
  show ?case
  proof (cases "d * 2 \<ge> m")
    case True
    have "d * 2 * 1 \<le> d * 2 * 2 ^ n" using Suc.prems(2) by (intro mult_left_mono) simp_all
    hence "m \<le> d * 2 ^ Suc n" using True by (simp add: mult.assoc)
    thus ?thesis using True half by simp
  next
    case False
    thus ?thesis using half Suc.IH [of "d * 2"] Suc.prems by (simp add: mult.assoc)
  qed
qed

lemma lockDuration_length:
  assumes "guard_config g" "5 \<le> n"
  shows "lockDuration g (int n - lg_limit g) = lock_length n"
proof -
  have "nat (int n - 5) = n - 5" using assms(2) by linarith
  thus ?thesis using assms by (simp add: lockDuration_def guard_config_def lock_loop_min lock_length_def)
qed

lemma lock_length_pos: "0 < lock_length n \<longleftrightarrow> 5 \<le> n"
  by (simp add: lock_length_def)

lemma lock_length_nonneg: "0 \<le> lock_length n"
  by (simp add: lock_length_def)

lemma live_streak_mono: "live_streak t ts = [] \<Longrightarrow> t \<le> t' \<Longrightarrow> live_streak t' ts = []"
  by (auto simp: live_streak_def split: if_splits)

lemma live_streak_stale: "live_streak t ts = [] \<Longrightarrow> ts \<noteq> [] \<Longrightarrow> t - last ts > 30 * minute"
  by (simp add: live_streak_def split: if_splits)

lemma live_streak_cases: "live_streak t ts = [] \<or> live_streak t ts = ts"
  by (simp add: live_streak_def)

lemma entry_rel_mono: "entry_rel t ts m \<Longrightarrow> t \<le> t' \<Longrightarrow> entry_rel t' ts m"
  by (auto simp: entry_rel_def live_streak_mono split: option.splits)

text \<open>What \<open>normalizeEntry\<close> leaves of an entry: nothing of a streak that is over, and otherwise an entry of the same streak.\<close>

lemma normalize_dead:
  assumes "guard_config g" "entry_rel t ts (Some e)" "live_streak t ts = []"
  shows "normalizeEntry g t e = zero_attempt"
  using assms live_streak_stale [OF assms(3)] by (auto simp: normalizeEntry_def entry_rel_def guard_config_def)

lemma normalize_live:
  assumes "guard_config g" "entry_rel t ts (Some e)" "live_streak t ts \<noteq> []"
  shows "entry_rel t ts (Some (normalizeEntry g t e))"
    and "la_failures (normalizeEntry g t e) = int (length ts)"
    and "la_lockedUntil (normalizeEntry g t e) = (if lock_end ts > t then lock_end ts else 0)"
  using assms by (auto simp: normalizeEntry_def entry_rel_def guard_config_def live_streak_def split: if_splits)

lemma remaining_lock_end:
  assumes "ts \<noteq> []" "0 < t" "last ts \<le> t"
  shows "spec_remaining t ts = (if lock_end ts > t then lock_end ts - t else 0)"
  using assms by (auto simp: spec_remaining_def lock_end_def lock_length_def)

lemma guard_rel_update:
  assumes "guard_rel t s g" "entry_rel t ts m"
  shows "guard_rel t (s(key := ts)) (g\<lparr>lg_attempts := (lg_attempts g)(key := m)\<rparr>)"
  using assms by (auto simp: guard_rel_def guard_config_def)

lemma guard_rel_mono: "guard_rel t s g \<Longrightarrow> t \<le> t' \<Longrightarrow> guard_rel t' s g"
  by (auto simp: guard_rel_def entry_rel_mono)

lemma Blocked_refines:
  assumes "guard_rel t s g" "0 < t"
  shows "fst (Blocked t key g) = fst (spec_guard t (GBlocked key) s) \<and> guard_rel t s (snd (Blocked t key g))"
proof (cases "key = [] \<or> lg_attempts g key = None")
  case True
  have "key \<noteq> [] \<Longrightarrow> entry_rel t (s key) (lg_attempts g key)" using assms(1) by (simp add: guard_rel_def)
  with True have "key \<noteq> [] \<Longrightarrow> live_streak t (s key) = []" by (simp add: entry_rel_def)
  thus ?thesis using True assms(1) by (auto simp: Blocked_def spec_remaining_def Let_def)
next
  case False
  then obtain e where key: "key \<noteq> []" and e: "lg_attempts g key = Some e" by blast
  have cfg: "guard_config g" and er: "entry_rel t (s key) (Some e)"
    using assms(1) key unfolding guard_rel_def by (simp, metis e)
  note upd = guard_rel_update [OF assms(1), of "s key" _ key, simplified]
  show ?thesis
  proof (cases "live_streak t (s key) = []")
    case True
    have "entry_rel t (s key) None" using True by (simp add: entry_rel_def)
    from upd [OF this] show ?thesis
      using key e by (simp add: Blocked_def normalize_dead [OF cfg er True] spec_remaining_def True)
  next
    case dead: False
    hence "live_streak t (s key) = s key" and "s key \<noteq> []" using live_streak_cases [of t "s key"] by auto
    thus ?thesis
      using key e er normalize_live [OF cfg er dead] remaining_lock_end [of "s key" t] assms(2)
        upd [OF normalize_live(1) [OF cfg er dead]]
      by (auto simp: Blocked_def entry_rel_def Let_def)
  qed
qed

lemma pruneLocked_refines:
  assumes "guard_rel t s g"
  shows "guard_rel t s (pruneLocked t g)"
proof -
  have "entry_rel t (s key) (lg_attempts (pruneLocked t g) key)" if "key \<noteq> []" for key
    using that assms
    by (auto simp: pruneLocked_def guard_rel_def guard_config_def entry_rel_def live_streak_def Let_def
        dest!: spec [of _ key] split: option.splits if_splits)
  thus ?thesis using assms by (simp add: guard_rel_def guard_config_def pruneLocked_def)
qed

text \<open>The entry a failure starts from is the live part of the streak.\<close>

lemma failing_entry:
  assumes "guard_rel t s g" "key \<noteq> []" "0 < t"
  shows "la_failures (normalizeEntry g t (case lg_attempts g key of None \<Rightarrow> zero_attempt | Some e \<Rightarrow> e)) =
      int (length (live_streak t (s key)))" 
    and "length (live_streak t (s key)) < 4 \<Longrightarrow>
      la_lockedUntil (normalizeEntry g t (case lg_attempts g key of None \<Rightarrow> zero_attempt | Some e \<Rightarrow> e)) = 0"
proof -
  let ?n = "normalizeEntry g t (case lg_attempts g key of None \<Rightarrow> zero_attempt | Some e \<Rightarrow> e)"
  let ?short = "length (live_streak t (s key)) < 4"
  have cfg: "guard_config g" and er: "entry_rel t (s key) (lg_attempts g key)"
    using assms by (simp_all add: guard_rel_def)
  have "la_failures ?n = int (length (live_streak t (s key))) \<and> (?short \<longrightarrow> la_lockedUntil ?n = 0)"
  proof (cases "lg_attempts g key")
    case None
    thus ?thesis using er by (simp add: entry_rel_def normalizeEntry_def)
  next
    case (Some e)
    with er have er: "entry_rel t (s key) (Some e)" by simp
    hence "s key \<noteq> []" by (simp add: entry_rel_def)
    thus ?thesis
      using assms(3) Some normalize_dead [OF cfg er] normalize_live(2,3) [OF cfg er] live_streak_cases [of t "s key"]
      by (auto simp: lock_end_def)
  qed
  thus "la_failures ?n = int (length (live_streak t (s key)))" and "?short \<Longrightarrow> la_lockedUntil ?n = 0" by auto
qed

lemma Failed_refines:
  assumes "guard_rel t s g" "0 < t"
  shows "fst (guard_step t (GFailed key) g) = fst (spec_guard t (GFailed key) s) \<and>
    guard_rel t (snd (spec_guard t (GFailed key) s)) (snd (guard_step t (GFailed key) g))"
proof (cases "key = []")
  case True
  thus ?thesis using assms(1) by (simp add: Failed_def)
next
  case key: False
  define ts where "ts = live_streak t (s key) @ [t]"
  define n where "n = normalizeEntry g t (case lg_attempts g key of None \<Rightarrow> zero_attempt | Some e \<Rightarrow> e)"
  define e where "e = n\<lparr>la_failures := la_failures n + 1, la_lastFailure := t\<rparr>"
  define e' where "e' = (if la_failures e \<ge> lg_limit g
     then e\<lparr>la_lockedUntil := t + lockDuration g (la_failures e - lg_limit g)\<rparr> else e)"
  have cfg: "guard_config g" using assms(1) by (simp add: guard_rel_def)
  have fail: "la_failures e = int (length ts)"
    using failing_entry(1) [OF assms(1) key assms(2)] by (simp add: e_def n_def ts_def)
  have locked: "la_lockedUntil e' = lock_end ts"
  proof (cases "5 \<le> length ts")
    case True
    thus ?thesis using fail cfg lockDuration_length [OF cfg True] by (simp add: e'_def lock_end_def guard_config_def ts_def)
  next
    case False
    thus ?thesis using fail cfg failing_entry(2) [OF assms(1) key assms(2)]
      by (simp add: e'_def lock_end_def guard_config_def ts_def e_def n_def)
  qed
  have "entry_rel t ts (Some e')"
    using fail locked assms(2) by (simp add: entry_rel_def ts_def) (simp add: e'_def e_def)
  from pruneLocked_refines [OF guard_rel_update [OF assms(1) this]]
  have rel: "guard_rel t (s(key := ts)) (pruneLocked t (g\<lparr>lg_attempts := (lg_attempts g)(key \<mapsto> e')\<rparr>))" .
  have "(if lock_end ts > t then lock_end ts - t else 0) = lock_length (length ts)"
    using assms(2) by (simp add: lock_end_def ts_def lock_length_def)
  moreover have "Failed t key g = (if la_lockedUntil e' > t then la_lockedUntil e' - t else 0,
      pruneLocked t (g\<lparr>lg_attempts := (lg_attempts g)(key \<mapsto> e')\<rparr>))"
    unfolding Failed_def Let_def e'_def e_def n_def using key by simp
  ultimately have "Failed t key g = (lock_length (length ts), pruneLocked t (g\<lparr>lg_attempts := (lg_attempts g)(key \<mapsto> e')\<rparr>))"
    by (simp only: locked)
  thus ?thesis
    using rel key by (simp add: ts_def [symmetric] Let_def)
qed

interpretation login_guard: timed_simulation guard_step spec_guard guard_rel
proof
  fix t t' :: time and a c op
  assume rel: "guard_rel t a c" and "0 < t" "t \<le> t'"
  hence rel: "guard_rel t' a c" and pos: "0 < t'" using guard_rel_mono by auto
  have none: "entry_rel t' [] None" by (simp add: entry_rel_def live_streak_def)
  have "fst (guard_step t' op c) = fst (spec_guard t' op a) \<and> guard_rel t' (snd (spec_guard t' op a)) (snd (guard_step t' op c))"
  proof (cases op)
    case (GBlocked key)
    thus ?thesis using Blocked_refines [OF rel pos, of key] by (cases "key = []") (simp_all add: Let_def)
  next
    case (GFailed key)
    thus ?thesis using Failed_refines [OF rel pos, of key] by (simp only:)
  next
    case (GSucceeded key)
    thus ?thesis using guard_rel_update [OF rel none, of key] rel by (simp add: Succeeded_def)
  qed
  thus "fst (guard_step t' op c) = fst (spec_guard t' op a)" "guard_rel t' (snd (spec_guard t' op a)) (snd (guard_step t' op c))"
    by blast+
qed

lemma NewLoginGuard_rel: "guard_rel t (\<lambda>_. []) NewLoginGuard"
  by (simp add: guard_rel_def guard_config_def NewLoginGuard_def entry_rel_def live_streak_def)

text \<open>C17: Whatever clients do, in whatever order, and however often the guard forgets entries on the way,
  the waiting times and verdicts it gives are those of the specification that remembers every client's
  streak of failures: no client is locked before its fifth failure in a row, the lock lasts fifteen
  seconds doubled with every further failure up to a quarter of an hour, and neither another client's
  failures nor the clean-up of stale entries changes it.\<close>

theorem login_guard_refines:
  assumes "0 < t" "clock_ok t ops"
  shows "timed_run guard_step ops NewLoginGuard = timed_run spec_guard ops (\<lambda>_. [])"
  by (rule login_guard.runs_agree [OF NewLoginGuard_rel assms])

theorem login_guard_refines_witness:
  "clock_ok 1 [(1, GFailed ''a''), (2, GFailed ''a''), (3, GFailed ''a''), (4, GFailed ''a''), (5, GFailed ''a''),
      (6, GBlocked ''b''), (10 * second, GBlocked ''a''), (15 * second + 5, GBlocked ''a'')] \<and>
   timed_run guard_step [(1, GFailed ''a''), (2, GFailed ''a''), (3, GFailed ''a''), (4, GFailed ''a''), (5, GFailed ''a''),
      (6, GBlocked ''b''), (10 * second, GBlocked ''a''), (15 * second + 5, GBlocked ''a'')] NewLoginGuard =
   [(0, False), (0, False), (0, False), (0, False), (15 * second, True), (0, False), (5 * second + 5, True), (0, False)]"
proof -
  let ?ops = "[(1, GFailed ''a''), (2, GFailed ''a''), (3, GFailed ''a''), (4, GFailed ''a''), (5, GFailed ''a''),
      (6, GBlocked ''b''), (10 * second, GBlocked ''a''), (15 * second + 5, GBlocked ''a'')]"
  have ok: "clock_ok 1 ?ops" by simp
  have "timed_run spec_guard ?ops (\<lambda>_. []) =
      [(0, False), (0, False), (0, False), (0, False), (15 * second, True), (0, False), (5 * second + 5, True), (0, False)]"
    by code_simp
  with login_guard_refines [OF _ ok] ok show ?thesis by simp
qed

section \<open>Addresses\<close>

text \<open>\<open>netip.Addr\<close> as a number of its family, with the zone of an IPv6 address, and \<open>netip.Prefix\<close>.\<close>

datatype addr = Addr4 int | Addr6 int string

datatype prefix = Prefix addr nat

definition Contains :: "prefix \<Rightarrow> addr \<Rightarrow> bool" where
  "Contains p a = (case p of Prefix b bits \<Rightarrow>
     (case (b, a) of
        (Addr4 n, Addr4 m) \<Rightarrow> n div 2 ^ (32 - bits) = m div 2 ^ (32 - bits)
      | (Addr6 n _, Addr6 m zone) \<Rightarrow> zone = [] \<and> n div 2 ^ (128 - bits) = m div 2 ^ (128 - bits)
      | _ \<Rightarrow> False))"

definition Masked :: "prefix \<Rightarrow> prefix" where
  "Masked p = (case p of Prefix b bits \<Rightarrow>
     (case b of
        Addr4 n \<Rightarrow> Prefix (Addr4 (n div 2 ^ (32 - bits) * 2 ^ (32 - bits))) bits
      | Addr6 n zone \<Rightarrow> Prefix (Addr6 (n div 2 ^ (128 - bits) * 2 ^ (128 - bits)) []) bits))"

definition Unmap :: "addr \<Rightarrow> addr" where
  "Unmap a = (case a of
      Addr4 n \<Rightarrow> Addr4 n
    | Addr6 n zone \<Rightarrow> if n div 4294967296 = 65535 then Addr4 (n mod 4294967296) else Addr6 n zone)"

text \<open>The parsers of \<open>net\<close> and \<open>net/netip\<close>.\<close>

record net_lib =
  nl_ParseAddrPort :: "string \<Rightarrow> addr option"
  nl_SplitHostPort :: "string \<Rightarrow> string option"
  nl_ParseAddr :: "string \<Rightarrow> addr option"
  nl_ParsePrefix :: "string \<Rightarrow> prefix option"

definition trim_brackets :: "string \<Rightarrow> string" where
  "trim_brackets s = rev (dropWhile (\<lambda>c. c \<in> set ''[]'') (rev (dropWhile (\<lambda>c. c \<in> set ''[]'') s)))"

definition ParseRemoteAddr :: "net_lib \<Rightarrow> string \<Rightarrow> addr option" where
  "ParseRemoteAddr nl remoteAddr =
     (let raw = trim_space remoteAddr in
      if raw = [] then None
      else case nl_ParseAddrPort nl raw of
        Some a \<Rightarrow> Some (Unmap a)
      | None \<Rightarrow>
          let raw = (case nl_SplitHostPort nl raw of Some host \<Rightarrow> host | None \<Rightarrow> raw);
              raw = trim_brackets raw
          in map_option Unmap (nl_ParseAddr nl raw))"

fun parse_cidr_loop :: "net_lib \<Rightarrow> prefix list \<Rightarrow> string list \<Rightarrow> string + prefix list" where
  "parse_cidr_loop nl prefixes [] = Inr prefixes"
| "parse_cidr_loop nl prefixes (raw # values) =
     (let txt = trim_space raw in
      if txt = [] then parse_cidr_loop nl prefixes values
      else case nl_ParsePrefix nl txt of
        None \<Rightarrow> Inl txt
      | Some p \<Rightarrow> let p = Masked p in
          if p \<in> set prefixes then parse_cidr_loop nl prefixes values else parse_cidr_loop nl (prefixes @ [p]) values)"

definition parseCIDRs :: "net_lib \<Rightarrow> string list \<Rightarrow> string + prefix list" where
  "parseCIDRs nl values = parse_cidr_loop nl [] values"

definition AddrAllowed :: "addr \<Rightarrow> prefix list \<Rightarrow> bool" where
  "AddrAllowed a prefixes = (if prefixes = [] then True else list_ex (\<lambda>p. Contains p a) prefixes)"

definition RemoteAddrAllowed :: "net_lib \<Rightarrow> string \<Rightarrow> prefix list \<Rightarrow> bool" where
  "RemoteAddrAllowed nl remoteAddr prefixes =
     (case ParseRemoteAddr nl remoteAddr of None \<Rightarrow> False | Some a \<Rightarrow> AddrAllowed a prefixes)"

definition parseForwardedAddrs :: "net_lib \<Rightarrow> header \<Rightarrow> addr list" where
  "parseForwardedAddrs nl headers =
     (let values = header_values headers ''X-Forwarded-For'';
          values = (if values = [] then (let raw = trim_space (header_get headers ''X-Real-Ip'') in if raw \<noteq> [] then [raw] else [])
                    else values)
      in List.map_filter (\<lambda>part. ParseRemoteAddr nl (trim_space part)) (concat (map (split_byte (CHR '','')) values)))"

definition ResolveRequestAddr :: "net_lib \<Rightarrow> string \<Rightarrow> header \<Rightarrow> prefix list \<Rightarrow> addr option" where
  "ResolveRequestAddr nl remoteAddr headers trustedProxies =
     (case ParseRemoteAddr nl remoteAddr of
        None \<Rightarrow> None
      | Some peer \<Rightarrow>
          if trustedProxies = [] \<or> \<not> AddrAllowed peer trustedProxies then Some peer
          else
            let forwarded = parseForwardedAddrs nl headers in
            if forwarded = [] then Some peer
            else case find (\<lambda>a. \<not> AddrAllowed a trustedProxies) (rev forwarded) of
              Some a \<Rightarrow> Some a
            | None \<Rightarrow> Some (hd forwarded))"

definition RequestAddrAllowed :: "net_lib \<Rightarrow> string \<Rightarrow> header \<Rightarrow> prefix list \<Rightarrow> prefix list \<Rightarrow> bool" where
  "RequestAddrAllowed nl remoteAddr headers allowed trustedProxies =
     (case ResolveRequestAddr nl remoteAddr headers trustedProxies of None \<Rightarrow> False | Some a \<Rightarrow> AddrAllowed a allowed)"

section \<open>Whose address is believed\<close>

text \<open>
  A chain of proxies appends the address it received the request from, so that only the part of
  \<open>X-Forwarded-For\<close> to the right of the last untrusted address was written by trusted proxies.
\<close>

definition forwarded_by :: "net_lib \<Rightarrow> string list \<Rightarrow> addr list" where
  "forwarded_by nl values = List.map_filter (\<lambda>part. ParseRemoteAddr nl (trim_space part)) (concat (map (split_byte (CHR '','')) values))"

lemma map_filter_append: "List.map_filter f (xs @ ys) = List.map_filter f xs @ List.map_filter f ys"
  by (simp add: List.map_filter_def)

lemma forwarded_by_append: "forwarded_by nl (xs @ ys) = forwarded_by nl xs @ forwarded_by nl ys"
  by (simp add: forwarded_by_def map_filter_append)

lemma parseForwarded_values:
  "header_values headers ''X-Forwarded-For'' \<noteq> [] \<Longrightarrow>
   parseForwardedAddrs nl headers = forwarded_by nl (header_values headers ''X-Forwarded-For'')"
  by (simp add: parseForwardedAddrs_def forwarded_by_def Let_def)

lemma find_last_bad:
  "list_all P ys \<Longrightarrow> \<not> P x \<Longrightarrow> find (\<lambda>a. \<not> P a) (rev (xs @ x # ys)) = Some x"
proof -
  assume ys: "list_all P ys" and x: "\<not> P x"
  have "find (\<lambda>a. \<not> P a) (rev ys @ x # rev xs) = Some x"
    using ys x by (induction ys rule: rev_induct) auto
  thus ?thesis by simp
qed

text \<open>C19: A client cannot choose the address it is judged by.  From a peer that is no trusted proxy the
  forwarding headers are not read at all; behind trusted proxies the address is the last untrusted one
  of \<open>X-Forwarded-For\<close>, whatever values the client had put in front of it; and when the address found
  is not in the allowed networks the request is refused.\<close>

theorem forwarded_addr_not_spoofable:
  assumes peer: "ParseRemoteAddr nl remoteAddr = Some peer"
  shows "(trustedProxies = [] \<or> \<not> AddrAllowed peer trustedProxies \<longrightarrow>
      RequestAddrAllowed nl remoteAddr headers allowed trustedProxies = AddrAllowed peer allowed) \<and>
    (trustedProxies \<noteq> [] \<and> AddrAllowed peer trustedProxies \<and>
      header_values headers ''X-Forwarded-For'' = forged @ appended \<and>
      forwarded_by nl appended = before @ client # proxies \<and>
      \<not> AddrAllowed client trustedProxies \<and> list_all (\<lambda>a. AddrAllowed a trustedProxies) proxies \<longrightarrow>
      RequestAddrAllowed nl remoteAddr headers allowed trustedProxies = AddrAllowed client allowed)"
proof (intro conjI impI; (elim conjE)?)
  assume "trustedProxies = [] \<or> \<not> AddrAllowed peer trustedProxies"
  thus "RequestAddrAllowed nl remoteAddr headers allowed trustedProxies = AddrAllowed peer allowed"
    using peer by (auto simp: RequestAddrAllowed_def ResolveRequestAddr_def)
next
  assume trusted: "trustedProxies \<noteq> []" "AddrAllowed peer trustedProxies"
    and hv: "header_values headers ''X-Forwarded-For'' = forged @ appended"
    and fwd: "forwarded_by nl appended = before @ client # proxies"
    and client: "\<not> AddrAllowed client trustedProxies" and proxies: "list_all (\<lambda>a. AddrAllowed a trustedProxies) proxies"
  have "appended \<noteq> []" using fwd by (auto simp: forwarded_by_def List.map_filter_def)
  hence "parseForwardedAddrs nl headers = (forwarded_by nl forged @ before) @ client # proxies"
    using hv fwd by (simp add: parseForwarded_values forwarded_by_append)
  thus "RequestAddrAllowed nl remoteAddr headers allowed trustedProxies = AddrAllowed client allowed"
    using peer trusted find_last_bad [OF proxies client, of "forwarded_by nl forged @ before"]
    by (simp add: RequestAddrAllowed_def ResolveRequestAddr_def)
qed

text \<open>A parser of the four addresses the example uses.\<close>

definition toy_net :: net_lib where
  "toy_net = \<lparr>nl_ParseAddrPort = (\<lambda>_. None), nl_SplitHostPort = (\<lambda>_. None),
     nl_ParseAddr = (\<lambda>s. if s = ''10.0.0.1'' then Some (Addr4 167772161) else if s = ''10.0.0.2'' then Some (Addr4 167772162)
       else if s = ''1.2.3.4'' then Some (Addr4 16909060) else if s = ''127.0.0.1'' then Some (Addr4 2130706433) else None),
     nl_ParsePrefix = (\<lambda>_. None)\<rparr>"

theorem forwarded_addr_not_spoofable_witness:
  "ParseRemoteAddr toy_net ''10.0.0.1'' = Some (Addr4 167772161) \<and>
   AddrAllowed (Addr4 167772161) [Prefix (Addr4 167772160) 8] \<and>
   \<not> RequestAddrAllowed toy_net ''10.0.0.1'' [(''X-Forwarded-For'', [''127.0.0.1'', ''127.0.0.1, 1.2.3.4, 10.0.0.2''])]
      [Prefix (Addr4 2130706432) 8] [Prefix (Addr4 167772160) 8]"
proof -
  have peer: "ParseRemoteAddr toy_net ''10.0.0.1'' = Some (Addr4 167772161)" by code_simp
  have trusted: "AddrAllowed (Addr4 167772161) [Prefix (Addr4 167772160) 8]" by code_simp
  have hv: "header_values [(''X-Forwarded-For'', [''127.0.0.1'', ''127.0.0.1, 1.2.3.4, 10.0.0.2''])] ''X-Forwarded-For'' =
      [''127.0.0.1''] @ [''127.0.0.1, 1.2.3.4, 10.0.0.2'']" by code_simp
  have fwd: "forwarded_by toy_net [''127.0.0.1, 1.2.3.4, 10.0.0.2''] = [Addr4 2130706433] @ Addr4 16909060 # [Addr4 167772162]"
    by code_simp
  have client: "\<not> AddrAllowed (Addr4 16909060) [Prefix (Addr4 167772160) 8]"
    and proxies: "list_all (\<lambda>a. AddrAllowed a [Prefix (Addr4 167772160) 8]) [Addr4 167772162]"
    and verdict: "\<not> AddrAllowed (Addr4 16909060) [Prefix (Addr4 2130706432) 8]" by code_simp+
  from forwarded_addr_not_spoofable [OF peer] trusted hv fwd client proxies verdict peer
  show ?thesis by blast
qed

end
