(* ===== verification/ConfigModel.thy ===== *)
theory ConfigModel
  imports VendorGateway
begin

text \<open>
  The configuration of \<open>internal/config\<close>: its structures (\<open>config.go\<close>), the vendor list and its look-ups
  (\<open>vendors.go\<close>), the header presets (\<open>client_headers.go\<close>), and the defaults that preparation fills in.
  A Go pointer is an option.  A slice is a list; whether a slice is nil is kept only where the code asks
  for it, which is at the two slices of \<open>error_policy.auto_disable\<close>: \<open>vc_CodesNil\<close> and \<open>vc_KeywordsNil\<close>.  A map is an association list.
\<close>

section \<open>Structures\<close>

text \<open>An error is the format and the arguments of the \<open>fmt.Errorf\<close> that made it, around the error it wraps.\<close>

datatype cfg_error = Errorf string "string list" | Wrapf string "string list" cfg_error

record TLSConfig =
  tls_CertFile :: string
  tls_KeyFile :: string
  tls_MinVersion :: string

record ServerConfig =
  sv_Listen :: string
  sv_ReadTimeout :: duration
  sv_WriteTimeout :: duration
  sv_IdleTimeout :: duration
  sv_ShutdownTimeout :: duration
  sv_TLS :: TLSConfig

record AdminConfig =
  am_Enabled :: bool
  am_Username :: string
  am_Password :: string
  am_PasswordHash :: string
  am_SessionTTL :: duration
  am_AuditLogPath :: string
  am_AllowedCIDRs :: "string list"
  am_TrustedProxyCIDRs :: "string list"

record ConfigStorePGSQLConfig =
  cp_DSN :: string
  cp_Table :: string
  cp_RecordKey :: string
  cp_MaxOpenConns :: int
  cp_MaxIdleConns :: int
  cp_ConnMaxLifetime :: duration

record ConfigStoreConfig =
  cs_Driver :: string
  cs_PGSQL :: ConfigStorePGSQLConfig

record UpstreamKeyStorePGSQLConfig =
  kp_DSN :: string
  kp_Table :: string
  kp_MaxOpenConns :: int
  kp_MaxIdleConns :: int
  kp_ConnMaxLifetime :: duration

record UpstreamKeyStoreConfig =
  us_Driver :: string
  us_FilePath :: string
  us_PGSQL :: UpstreamKeyStorePGSQLConfig

record StorageConfig =
  st_Config :: ConfigStoreConfig
  st_UpstreamKeys :: UpstreamKeyStoreConfig

record UpstreamConfig =
  up_BaseURL :: string
  up_UploadTimeout :: "duration option"
  up_ResponseHeaderTimeout :: "duration option"
  up_BodyTimeout :: duration
  up_InterimResponseInterval :: "duration option"

record ClientAuthConfig =
  ca_Enabled :: bool
  ca_Keys :: "string list"

record ClientHeadersConfig =
  ch_Preset :: string
  ch_Allowlist :: "string list"
  ch_Drop :: "string list"

record ResinConfig =
  rs_Enabled :: bool
  rs_URL :: string
  rs_Platform :: string
  rs_Mode :: string

record AggregateChild =
  ac_VendorID :: string
  ac_Weight :: int
  ac_Priority :: int
  ac_KeyIDs :: "string list"

record AggregateConfig =
  gc_Children :: "AggregateChild list"
  gc_Retry :: AggregateRetryConfig

record VendorConfig =
  vc_Provider :: string
  vc_MaxUpstreamAttempts :: int
  vc_Upstream :: UpstreamConfig
  vc_Aggregate :: AggregateConfig
  vc_LoadBalance :: string
  vc_UpstreamAuth :: UpstreamAuthConfig
  vc_ClientAuth :: ClientAuthConfig
  vc_ClientHeaders :: ClientHeadersConfig
  vc_InjectedHeader :: "(string \<times> string) list"
  vc_PathRewrites :: "(string \<times> string) list"
  vc_ErrorPolicy :: ErrorPolicyConfig
  vc_CodesNil :: bool
  vc_KeywordsNil :: bool
  vc_Resin :: ResinConfig

record VendorEntry =
  ve_ID :: string
  ve_Name :: string
  ve_Config :: VendorConfig

record Config =
  cf_SchemaVersion :: int
  cf_Server :: ServerConfig
  cf_Admin :: AdminConfig
  cf_Storage :: StorageConfig
  cf_Vendors :: "VendorEntry list"
  cf_mintedVendorIDs :: bool

abbreviation CurrentSchemaVersion :: int where
  "CurrentSchemaVersion \<equiv> 3"

abbreviation UpgradeCommandHint :: string where
  "UpgradeCommandHint \<equiv> ''jc_proxy_upgrade -config <path>''"

definition NewSchemaVersionError :: "string \<Rightarrow> int \<Rightarrow> cfg_error" where
  "NewSchemaVersionError source found =
     (if found > CurrentSchemaVersion
      then Errorf ''%s schema version %d is newer than this binary supports (%d): upgrade jc_proxy''
        [source, itoa found, itoa CurrentSchemaVersion]
      else Errorf ''%s schema version %d is older than required (%d): run %q to migrate, then restart''
        [source, itoa found, itoa CurrentSchemaVersion, UpgradeCommandHint])"

abbreviation MaxUpstreamAttemptsLimit :: int where
  "MaxUpstreamAttemptsLimit \<equiv> 100"

abbreviation MaxFailoverAttempts :: int where
  "MaxFailoverAttempts \<equiv> 20"

section \<open>Vendors\<close>

definition reservedVendorNames :: "string list" where
  "reservedVendorNames = [''healthz'', ''console'', ''admin'']"

definition NewVendorID :: "nat list option \<Rightarrow> cfg_error + string" where
  "NewVendorID rand = (case rand of None \<Rightarrow> Inl (Errorf ''generate vendor id'' []) | Some buf \<Rightarrow> Inr (''v_'' @ hex_bytes buf))"

definition vendor_id_char :: "char \<Rightarrow> bool" where
  "vendor_id_char c = (let n = (of_char c :: nat) in
     (97 \<le> n \<and> n \<le> 122) \<or> (65 \<le> n \<and> n \<le> 90) \<or> (48 \<le> n \<and> n \<le> 57) \<or> c = CHR ''_'' \<or> c = CHR ''-'')"

definition ValidateVendorID :: "string \<Rightarrow> cfg_error option" where
  "ValidateVendorID ident =
     (let ident = trim_space ident in
      if ident = [] then Some (Errorf ''vendor id is required'' [])
      else if length ident > 64 then Some (Errorf ''vendor id must be at most 64 characters'' [])
      else if \<not> list_all vendor_id_char ident then Some (Errorf (''vendor id %q may only contain letters, digits, '_' and '-'' @ [CHR 0x27]) [ident])
      else None)"

definition contains_any :: "string \<Rightarrow> string \<Rightarrow> bool" where
  "contains_any s chars = list_ex (\<lambda>c. c \<in> set chars) s"

definition ValidateVendorName :: "string \<Rightarrow> cfg_error option" where
  "ValidateVendorName name =
     (let trimmed = trim_space name in
      if trimmed = [] then Some (Errorf ''vendor name is required'' [])
      else if trimmed \<noteq> name then Some (Errorf ''vendor name %q must not have leading or trailing whitespace'' [name])
      else if length name > 128 then Some (Errorf ''vendor name must be at most 128 characters'' [])
      else if contains_any name (''/?#%'' @ [CHR 0x5C]) then Some (Errorf (''vendor name %q must not contain any of / ? # %% '' @ [CHR 0x5C]) [name])
      else if contains_any name [CHR 0x20, CHR 0x09, CHR 0x0D, CHR 0x0A]
        then Some (Errorf ''vendor name %q must not contain whitespace'' [name])
      else if name = ''.'' \<or> name = ''..'' then Some (Errorf ''vendor name %q is not a valid path segment'' [name])
      else if to_lower name \<in> set reservedVendorNames
        then Some (Errorf ''vendor name %q is reserved by an internal route'' [name])
      else None)"

fun index_where :: "('a \<Rightarrow> bool) \<Rightarrow> 'a list \<Rightarrow> nat option" where
  "index_where p [] = None"
| "index_where p (x # xs) = (if p x then Some 0 else map_option Suc (index_where p xs))"

text \<open>The index \<open>-1\<close> of the code is \<^const>\<open>None\<close>.\<close>

definition VendorIndexByID :: "Config \<Rightarrow> string \<Rightarrow> nat option" where
  "VendorIndexByID c ident =
     (let ident = trim_space ident in if ident = [] then None else index_where (\<lambda>e. ve_ID e = ident) (cf_Vendors c))"

definition VendorIndexByName :: "Config \<Rightarrow> string \<Rightarrow> nat option" where
  "VendorIndexByName c name =
     (let name = trim_space name in if name = [] then None else index_where (\<lambda>e. ve_Name e = name) (cf_Vendors c))"

definition VendorByID :: "Config \<Rightarrow> string \<Rightarrow> VendorEntry option" where
  "VendorByID c ident = map_option (\<lambda>i. cf_Vendors c ! i) (VendorIndexByID c ident)"

definition VendorByName :: "Config \<Rightarrow> string \<Rightarrow> VendorEntry option" where
  "VendorByName c name = map_option (\<lambda>i. cf_Vendors c ! i) (VendorIndexByName c name)"

definition SetVendor :: "VendorEntry \<Rightarrow> Config \<Rightarrow> Config" where
  "SetVendor entry c = (case VendorIndexByID c (ve_ID entry) of
      Some i \<Rightarrow> c\<lparr>cf_Vendors := (cf_Vendors c)[i := entry]\<rparr>
    | None \<Rightarrow> c\<lparr>cf_Vendors := cf_Vendors c @ [entry]\<rparr>)"

definition DeleteVendorByID :: "string \<Rightarrow> Config \<Rightarrow> bool \<times> Config" where
  "DeleteVendorByID ident c = (case VendorIndexByID c ident of
      None \<Rightarrow> (False, c)
    | Some i \<Rightarrow> (True, c\<lparr>cf_Vendors := take i (cf_Vendors c) @ drop (Suc i) (cf_Vendors c)\<rparr>))"

definition VendorIDs :: "Config \<Rightarrow> string list" where
  "VendorIDs c = map ve_ID (cf_Vendors c)"

definition VendorNameByID :: "Config \<Rightarrow> string \<Rightarrow> string option" where
  "VendorNameByID c ident = map_option (\<lambda>i. ve_Name (cf_Vendors c ! i)) (VendorIndexByID c ident)"

section \<open>Client header lists\<close>

definition defaultClientHeaderDropList :: "string list" where
  "defaultClientHeaderDropList =
     [''Cdn-Loop'', ''Cf-Connecting-Ip'', ''Cf-Ipcountry'', ''Cf-Ray'', ''Cf-Visitor'', ''Fastly-Client-Ip'', ''Fly-Client-Ip'',
      ''Forwarded'', ''True-Client-Ip'', ''Via'', ''X-Amzn-Trace-Id'', ''X-Correlation-Id'', ''X-Envoy-Decorator-Operation'',
      ''X-Envoy-External-Address'', ''X-Forwarded-For'', ''X-Forwarded-Host'', ''X-Forwarded-Port'', ''X-Forwarded-Proto'',
      ''X-Forwarded-Scheme'', ''X-Forwarded-Server'', ''X-Original-Forwarded-For'', ''X-Original-Host'', ''X-Real-Ip'',
      ''X-Request-Id'', ''X-Request-Start'', ''X-Rewrite-Url'']"

definition clientHeaderAllowlistPresets :: "(string \<times> string list) list" where
  "clientHeaderAllowlistPresets =
     [(''anthropic'', [''Accept'', ''Accept-Encoding'', ''Anthropic-Beta'', ''Anthropic-Version'', ''Content-Type'', ''User-Agent'']),
      (''gemini'', [''Accept'', ''Accept-Encoding'', ''Content-Type'', ''User-Agent'', ''X-Goog-Api-Client'']),
      (''generic_ai'', [''Accept'', ''Accept-Encoding'', ''Cache-Control'', ''Content-Type'', ''Idempotency-Key'', ''User-Agent'']),
      (''openai'', [''Accept'', ''Accept-Encoding'', ''Cache-Control'', ''Content-Type'', ''Idempotency-Key'', ''Openai-Beta'',
         ''Openai-Organization'', ''Openai-Project'', ''User-Agent'']),
      (''openai_compatible'', [''Accept'', ''Accept-Encoding'', ''Cache-Control'', ''Content-Type'', ''Idempotency-Key'',
         ''Openai-Beta'', ''Openai-Organization'', ''Openai-Project'', ''User-Agent'', ''X-Title''])]"

definition ClientHeaderAllowlistPreset :: "string \<Rightarrow> string list option" where
  "ClientHeaderAllowlistPreset name = map_of clientHeaderAllowlistPresets (to_lower (trim_space name))"

fun canonical_loop :: "string list \<Rightarrow> string list \<Rightarrow> string list" where
  "canonical_loop out [] = out"
| "canonical_loop out (value # values) =
     (let canon = CanonicalMIMEHeaderKey (trim_space value) in
      if canon = [] \<or> canon \<in> set out then canonical_loop out values
      else canonical_loop (out @ [canon]) values)"

definition normalizeCanonicalHeaderNames :: "string list \<Rightarrow> string list" where
  "normalizeCanonicalHeaderNames values = sort (canonical_loop [] values)"

definition ResolveClientHeaderAllowlist :: "ClientHeadersConfig \<Rightarrow> string list" where
  "ResolveClientHeaderAllowlist cfg = normalizeCanonicalHeaderNames
     ((case ClientHeaderAllowlistPreset (ch_Preset cfg) of Some preset \<Rightarrow> preset | None \<Rightarrow> []) @ ch_Allowlist cfg)"

definition ResolveClientHeaderDropList :: "ClientHeadersConfig \<Rightarrow> string list" where
  "ResolveClientHeaderDropList cfg = normalizeCanonicalHeaderNames (defaultClientHeaderDropList @ ch_Drop cfg)"

section \<open>Defaults\<close>

definition HasCredentials :: "AdminConfig \<Rightarrow> bool" where
  "HasCredentials a = (trim_space (am_Password a) \<noteq> [] \<or> trim_space (am_PasswordHash a) \<noteq> [])"

definition NeedsBootstrapAdminPassword :: "Config \<Rightarrow> bool" where
  "NeedsBootstrapAdminPassword c = (am_Enabled (cf_Admin c) \<and> \<not> HasCredentials (cf_Admin c))"

definition NormalizeProvider :: "string \<Rightarrow> string \<Rightarrow> string" where
  "NormalizeProvider provider fallback =
     (let raw = to_lower (trim_space provider);
          raw = (if raw = [] then to_lower (trim_space fallback) else raw)
      in if raw = ''aggregate'' then ''aggregate''
         else if raw = ''azure_openai'' \<or> raw = ''azure-openai'' then ''azure_openai''
         else if contains raw ''openai'' then ''openai''
         else if contains raw ''anthropic'' \<or> contains raw ''claude'' then ''anthropic''
         else if contains raw ''gemini'' \<or> contains raw ''google'' then ''gemini''
         else if contains raw ''deepseek'' then ''deepseek''
         else if contains raw ''azure'' then ''azure_openai''
         else if raw = ''generic'' then ''generic''
         else ''generic'')"

fun string_list_loop :: "string list \<Rightarrow> string list \<Rightarrow> string list" where
  "string_list_loop out [] = out"
| "string_list_loop out (value # values) =
     (let value = trim_space value in
      if value = [] \<or> value \<in> set out then string_list_loop out values else string_list_loop (out @ [value]) values)"

definition normalizeStringList :: "string list \<Rightarrow> string list" where
  "normalizeStringList values = sort (string_list_loop [] values)"

text \<open>\<open>if p == nil { p = &d }\<close>, \<open>if s == "" { s = d }\<close> and \<open>if n <= 0 { n = d }\<close>.\<close>

definition or_ptr :: "'a option \<Rightarrow> 'a \<Rightarrow> 'a option" where
  "or_ptr p d = (if p = None then Some d else p)"

definition or_str :: "string \<Rightarrow> string \<Rightarrow> string" where
  "or_str s d = (if s = [] then d else s)"

definition or_pos :: "int \<Rightarrow> int \<Rightarrow> int" where
  "or_pos n d = (if n \<le> 0 then d else n)"

fun ensure_ids :: "(nat \<Rightarrow> nat list option) \<Rightarrow> nat \<Rightarrow> VendorEntry list \<Rightarrow> cfg_error + (VendorEntry list \<times> bool)" where
  "ensure_ids rand i [] = Inr ([], False)"
| "ensure_ids rand i (e # es) =
     (let e = e\<lparr>ve_ID := trim_space (ve_ID e)\<rparr> in
      if ve_ID e \<noteq> [] then map_sum (\<lambda>x. x) (\<lambda>(es, minted). (e # es, minted)) (ensure_ids rand (Suc i) es)
      else case NewVendorID (rand i) of
        Inl err \<Rightarrow> Inl (Wrapf ''vendor %q: %w'' [ve_Name e] err)
      | Inr generated \<Rightarrow> map_sum (\<lambda>x. x) (\<lambda>(es, _). (e\<lparr>ve_ID := generated\<rparr> # es, True)) (ensure_ids rand (Suc i) es))"

text \<open>\<open>rand i\<close> is the outcome of the \<open>rand.Read\<close> for the vendor at index \<open>i\<close>.\<close>

definition ensureVendorIDs :: "(nat \<Rightarrow> nat list option) \<Rightarrow> Config \<Rightarrow> cfg_error + Config" where
  "ensureVendorIDs rand c = map_sum (\<lambda>x. x)
     (\<lambda>(vs, minted). c\<lparr>cf_Vendors := vs, cf_mintedVendorIDs := cf_mintedVendorIDs c \<or> minted\<rparr>)
     (ensure_ids rand 0 (cf_Vendors c))"

definition applyStorageDefaults :: "StorageConfig \<Rightarrow> StorageConfig" where
  "applyStorageDefaults s =
     (let cs = st_Config s; cp = cs_PGSQL cs; us = st_UpstreamKeys s; kp = us_PGSQL us in
      \<lparr>st_Config = \<lparr>cs_Driver = or_str (cs_Driver cs) ''file'',
         cs_PGSQL = cp\<lparr>cp_Table := or_str (cp_Table cp) ''jc_proxy_configs'', cp_RecordKey := or_str (cp_RecordKey cp) ''default'',
           cp_MaxOpenConns := or_pos (cp_MaxOpenConns cp) 4, cp_MaxIdleConns := or_pos (cp_MaxIdleConns cp) 2,
           cp_ConnMaxLifetime := or_pos (cp_ConnMaxLifetime cp) (30 * minute)\<rparr>\<rparr>,
       st_UpstreamKeys = \<lparr>us_Driver = or_str (us_Driver us) ''file'',
         us_FilePath = or_str (us_FilePath us) ''./data/upstream_keys.json'',
         us_PGSQL = kp\<lparr>kp_Table := or_str (kp_Table kp) ''jc_proxy_upstream_keys'',
           kp_MaxOpenConns := or_pos (kp_MaxOpenConns kp) 4, kp_MaxIdleConns := or_pos (kp_MaxIdleConns kp) 2,
           kp_ConnMaxLifetime := or_pos (kp_ConnMaxLifetime kp) (30 * minute)\<rparr>\<rparr>\<rparr>)"

definition applyCooldownRuleDefaults :: "duration \<Rightarrow> ErrorCooldownRule \<Rightarrow> ErrorCooldownRule" where
  "applyCooldownRuleDefaults d rule = \<lparr>cr_Enabled = or_ptr (cr_Enabled rule) True, cr_Duration = or_pos (cr_Duration rule) d\<rparr>"

text \<open>The first argument says that both slices of \<open>auto_disable\<close> are nil.\<close>

definition auto_disable_defaults :: "bool \<Rightarrow> ErrorAutoDisableConfig \<Rightarrow> ErrorAutoDisableConfig" where
  "auto_disable_defaults nil a =
     (let a = a\<lparr>ad_Enabled := or_ptr (ad_Enabled a) True\<rparr> in
      if nil then a\<lparr>ad_StatusCodes := [401], ad_Keywords := [''incorrect_api_key'', ''invalid_api_key'']\<rparr> else a)"

definition cooldown_defaults :: "ErrorCooldownConfig \<Rightarrow> ErrorCooldownConfig" where
  "cooldown_defaults c =
     c\<lparr>cd_RequestError := applyCooldownRuleDefaults (2 * second) (cd_RequestError c),
       cd_Unauthorized := applyCooldownRuleDefaults (30 * minute) (cd_Unauthorized c),
       cd_PaymentRequired := applyCooldownRuleDefaults (3 * hour) (cd_PaymentRequired c),
       cd_Forbidden := applyCooldownRuleDefaults (30 * minute) (cd_Forbidden c),
       cd_RateLimit := applyCooldownRuleDefaults (5 * second) (cd_RateLimit c),
       cd_ServerError := applyCooldownRuleDefaults (2 * second) (cd_ServerError c),
       cd_OpenAISlowDown := applyCooldownRuleDefaults (15 * minute) (cd_OpenAISlowDown c)\<rparr>"

definition failover_defaults :: "ErrorFailoverConfig \<Rightarrow> ErrorFailoverConfig" where
  "failover_defaults f =
     f\<lparr>fo_RequestError := or_ptr (fo_RequestError f) True, fo_Unauthorized := or_ptr (fo_Unauthorized f) True,
       fo_PaymentRequired := or_ptr (fo_PaymentRequired f) True, fo_Forbidden := or_ptr (fo_Forbidden f) True,
       fo_RateLimit := or_ptr (fo_RateLimit f) True, fo_ServerError := or_ptr (fo_ServerError f) True,
       fo_MaxAttempts := or_pos (fo_MaxAttempts f) 5\<rparr>"

definition applyErrorPolicyDefaults :: "bool \<Rightarrow> ErrorPolicyConfig \<Rightarrow> ErrorPolicyConfig" where
  "applyErrorPolicyDefaults nil p =
     \<lparr>ep_AutoDisable = auto_disable_defaults nil (ep_AutoDisable p), ep_Cooldown = cooldown_defaults (ep_Cooldown p),
      ep_Failover = failover_defaults (ep_Failover p),
      ep_Masking = (ep_Masking p)\<lparr>mk_Enabled := or_ptr (mk_Enabled (ep_Masking p)) True\<rparr>\<rparr>"

definition applyAggregateRetryDefaults :: "AggregateRetryConfig \<Rightarrow> AggregateRetryConfig" where
  "applyAggregateRetryDefaults r =
     r\<lparr>rc_Enabled := or_ptr (rc_Enabled r) True, rc_MaxAttempts := or_pos (rc_MaxAttempts r) 2,
       rc_RateLimit := or_ptr (rc_RateLimit r) True, rc_ServerError := or_ptr (rc_ServerError r) True,
       rc_NetworkError := or_ptr (rc_NetworkError r) True\<rparr>"

definition child_defaults :: "AggregateChild \<Rightarrow> AggregateChild" where
  "child_defaults ch = ch\<lparr>ac_Weight := or_pos (ac_Weight ch) 1, ac_VendorID := trim_space (ac_VendorID ch),
     ac_KeyIDs := normalizeStringList (ac_KeyIDs ch)\<rparr>"

definition upstream_defaults :: "VendorConfig \<Rightarrow> VendorConfig" where
  "upstream_defaults v =
     (let a = vc_UpstreamAuth v;
          mode = or_str (ua_Mode a) ''bearer'';
          u = vc_Upstream v; r = vc_Resin v; nil = (vc_CodesNil v \<and> vc_KeywordsNil v)
      in v\<lparr>vc_UpstreamAuth := \<lparr>ua_Mode = mode, ua_Header = or_str (ua_Header a) ''Authorization'',
             ua_Prefix = (if ua_Prefix a = [] \<and> mode = ''bearer'' then ''Bearer '' else ua_Prefix a)\<rparr>,
           vc_Upstream := u\<lparr>up_BodyTimeout := (if up_BodyTimeout u = 0 then 5 * minute else up_BodyTimeout u),
             up_UploadTimeout := or_ptr (up_UploadTimeout u) (300 * second),
             up_ResponseHeaderTimeout := or_ptr (up_ResponseHeaderTimeout u) (300 * second),
             up_InterimResponseInterval := or_ptr (up_InterimResponseInterval u) (30 * second)\<rparr>,
           vc_ErrorPolicy := applyErrorPolicyDefaults nil (vc_ErrorPolicy v),
           vc_CodesNil := (vc_CodesNil v \<and> \<not> nil), vc_KeywordsNil := (vc_KeywordsNil v \<and> \<not> nil),
           vc_Resin := r\<lparr>rs_Mode := or_str (rs_Mode r) ''reverse'', rs_Platform := or_str (rs_Platform r) ''Default''\<rparr>\<rparr>)"

definition common_defaults :: "string \<Rightarrow> VendorConfig \<Rightarrow> VendorConfig" where
  "common_defaults name v =
     v\<lparr>vc_MaxUpstreamAttempts := or_pos (vc_MaxUpstreamAttempts v) DefaultMaxUpstreamAttempts,
       vc_Provider := NormalizeProvider (vc_Provider v) name, vc_LoadBalance := or_str (vc_LoadBalance v) ''round_robin''\<rparr>"

definition aggregate_defaults :: "VendorConfig \<Rightarrow> VendorConfig" where
  "aggregate_defaults v =
     v\<lparr>vc_Aggregate := \<lparr>gc_Children = map child_defaults (gc_Children (vc_Aggregate v)),
         gc_Retry = applyAggregateRetryDefaults (gc_Retry (vc_Aggregate v))\<rparr>\<rparr>"

definition vendor_defaults :: "VendorEntry \<Rightarrow> VendorEntry" where
  "vendor_defaults e =
     (let name = trim_space (ve_Name e); v = common_defaults name (ve_Config e) in
      e\<lparr>ve_ID := trim_space (ve_ID e), ve_Name := name,
        ve_Config := (if vc_Provider v = ''aggregate'' then aggregate_defaults v else upstream_defaults v)\<rparr>)"

definition applyDefaults :: "Config \<Rightarrow> Config" where
  "applyDefaults c =
     (let sv = cf_Server c; am = cf_Admin c in
      c\<lparr>cf_SchemaVersion := (if cf_SchemaVersion c = 0 then CurrentSchemaVersion else cf_SchemaVersion c),
        cf_Server := sv\<lparr>sv_Listen := or_str (sv_Listen sv) '':8092'', sv_ReadTimeout := or_pos (sv_ReadTimeout sv) (30 * second),
          sv_WriteTimeout := (if sv_WriteTimeout sv < 0 then 0 else sv_WriteTimeout sv),
          sv_IdleTimeout := or_pos (sv_IdleTimeout sv) (90 * second),
          sv_ShutdownTimeout := or_pos (sv_ShutdownTimeout sv) (10 * second)\<rparr>,
        cf_Admin := am\<lparr>am_Username := or_str (am_Username am) ''admin'',
          am_AuditLogPath := or_str (am_AuditLogPath am) ''./data/admin_audit.log'',
          am_SessionTTL := or_pos (am_SessionTTL am) (12 * hour)\<rparr>,
        cf_Storage := applyStorageDefaults (cf_Storage c),
        cf_Vendors := map vendor_defaults (cf_Vendors c)\<rparr>)"

end
