(* ===== verification/ConfigValidate.thy ===== *)
theory ConfigValidate
  imports AdminAccess ConfigModel
begin

text \<open>
  Validation of a configuration (\<open>internal/config/config.go\<close>): every check in the order of the code,
  each error with its format and arguments, and what an accepted configuration guarantees the gateway.
  A function that returns \<open>error\<close> returns an option here, \<^const>\<open>None\<close> for nil.
\<close>

section \<open>Checks\<close>

text \<open>A sequence of \<open>if bad { return err }\<close>: the first error counts.\<close>

definition check :: "bool \<Rightarrow> cfg_error \<Rightarrow> cfg_error option" where
  "check bad err = (if bad then Some err else None)"

fun first_err :: "cfg_error option list \<Rightarrow> cfg_error option" where
  "first_err [] = None"
| "first_err (r # rs) = (case r of Some e \<Rightarrow> Some e | None \<Rightarrow> first_err rs)"

text \<open>What validation asks of the outside: \<open>os.Stat\<close>, \<open>time.ParseDuration\<close>, and the address parsers.\<close>

record cfg_env =
  ce_Stat :: "string \<Rightarrow> cfg_error option"
  ce_ParseDuration :: "string \<Rightarrow> duration option"
  ce_net :: net_lib

definition tls_Enabled :: "TLSConfig \<Rightarrow> bool" where
  "tls_Enabled t = (trim_space (tls_CertFile t) \<noteq> [] \<and> trim_space (tls_KeyFile t) \<noteq> [])"

definition tls_validate :: "cfg_env \<Rightarrow> TLSConfig \<Rightarrow> cfg_error option" where
  "tls_validate env t =
     (let certSet = (trim_space (tls_CertFile t) \<noteq> []); keySet = (trim_space (tls_KeyFile t) \<noteq> []) in
      if certSet \<noteq> keySet then Some (Errorf ''server.tls requires both cert_file and key_file'' [])
      else if \<not> tls_Enabled t then None
      else first_err
        [map_option (Wrapf ''server.tls.cert_file: %w'' []) (ce_Stat env (tls_CertFile t)),
         map_option (Wrapf ''server.tls.key_file: %w'' []) (ce_Stat env (tls_KeyFile t)),
         check (trim_space (to_lower (tls_MinVersion t)) \<notin> set ['''', ''1.2'', ''tls1.2'', ''1.3'', ''tls1.3''])
           (Errorf ''server.tls.min_version invalid: %q (use 1.2, 1.3, tls1.2 or tls1.3)'' [tls_MinVersion t])])"

definition boolValue :: "bool option \<Rightarrow> bool \<Rightarrow> bool" where
  "boolValue v fallback = (case v of None \<Rightarrow> fallback | Some b \<Rightarrow> b)"

fun validateStatusCodes :: "string \<Rightarrow> int list \<Rightarrow> cfg_error option" where
  "validateStatusCodes name [] = None"
| "validateStatusCodes name (code # codes) =
     (if code < 100 \<or> code > 599 then Some (Errorf ''%s contains invalid status code %d'' [name, itoa code])
      else validateStatusCodes name codes)"

definition hasNonEmptyString :: "string list \<Rightarrow> bool" where
  "hasNonEmptyString items = list_ex (\<lambda>item. trim_space item \<noteq> []) items"

definition validateCooldownRule :: "string \<Rightarrow> ErrorCooldownRule \<Rightarrow> cfg_error option" where
  "validateCooldownRule name rule =
     (if boolValue (cr_Enabled rule) True \<and> cr_Duration rule \<le> 0
      then Some (Errorf ''cooldown.%s.duration must be > 0 when enabled'' [name])
      else if cr_Duration rule < 0 then Some (Errorf ''cooldown.%s.duration must be >= 0'' [name])
      else None)"

definition validateAggregateRetry :: "string \<Rightarrow> AggregateRetryConfig \<Rightarrow> cfg_error option" where
  "validateAggregateRetry vendorName retry =
     (if \<not> boolValue (rc_Enabled retry) True then None
      else first_err
        [check (rc_MaxAttempts retry < 1 \<or> rc_MaxAttempts retry > 5)
           (Errorf ''vendor %q aggregate.retry.max_attempts must be between 1 and 5'' [vendorName]),
         validateStatusCodes ''aggregate.retry.status_codes'' (rc_StatusCodes retry),
         map_option (\<lambda>code. Errorf ''vendor %q aggregate.retry.status_codes cannot retry non-error status %d'' [vendorName, itoa code])
           (find (\<lambda>code. code < 400) (rc_StatusCodes retry))])"

definition validate_response_rule :: "nat \<Rightarrow> ErrorResponseCooldownRule \<Rightarrow> cfg_error option" where
  "validate_response_rule i rule =
     (let name = ''cooldown.response_rules['' @ itoa (int i) @ '']'' in
      first_err
        [check (rr_StatusCodes rule = [] \<and> \<not> hasNonEmptyString (rr_Keywords rule))
           (Errorf ''%s must define status_codes or keywords'' [name]),
         validateStatusCodes (name @ ''.status_codes'') (rr_StatusCodes rule),
         check (rr_Duration rule \<le> 0) (Errorf ''%s.duration must be > 0'' [name]),
         check (to_lower (trim_space (rr_RetryAfter rule)) \<notin> set ['''', ''ignore'', ''override'', ''max''])
           (Errorf ''%s.retry_after must be one of ignore, override, max'' [name])])"

definition validateResponseCooldownRules :: "ErrorResponseCooldownRule list \<Rightarrow> cfg_error option" where
  "validateResponseCooldownRules rules = first_err (map (\<lambda>(i, rule). validate_response_rule i rule) (List.enumerate 0 rules))"

definition validateMaskingRetryAfter :: "cfg_env \<Rightarrow> string \<Rightarrow> string \<Rightarrow> cfg_error option" where
  "validateMaskingRetryAfter env name raw =
     (if to_lower (trim_space raw) \<in> set ['''', ''preserve'', ''ignore''] then None
      else case ce_ParseDuration env (trim_space raw) of
        None \<Rightarrow> Some (Errorf ''%s must be \"preserve\", \"ignore\", or a duration like \"30s\"'' [name])
      | Some d \<Rightarrow> check (d < second) (Errorf ''%s duration must be >= 1s'' [name]))"

definition validate_masking_rule :: "cfg_env \<Rightarrow> nat \<Rightarrow> ErrorMaskingRule \<Rightarrow> cfg_error option" where
  "validate_masking_rule env i rule =
     (let name = ''masking.rules['' @ itoa (int i) @ '']'' in
      first_err
        [check (mr_StatusCodes rule = [] \<and> \<not> hasNonEmptyString (mr_Keywords rule))
           (Errorf ''%s must define status_codes or keywords'' [name]),
         validateStatusCodes (name @ ''.status_codes'') (mr_StatusCodes rule),
         check (mr_StatusCode rule < 400 \<or> mr_StatusCode rule > 599)
           (Errorf ''%s.status_code must be an error status between 400 and 599'' [name]),
         check (mr_Cooldown rule < 0) (Errorf ''%s.cooldown must be >= 0'' [name]),
         validateMaskingRetryAfter env (name @ ''.retry_after'') (mr_RetryAfter rule)])"

definition validateErrorMaskingRules :: "cfg_env \<Rightarrow> ErrorMaskingConfig \<Rightarrow> cfg_error option" where
  "validateErrorMaskingRules env masking =
     (if \<not> boolValue (mk_Enabled masking) True then None
      else first_err (map (\<lambda>(i, rule). validate_masking_rule env i rule) (List.enumerate 0 (mk_Rules masking))))"

definition validateErrorPolicy :: "cfg_env \<Rightarrow> ErrorPolicyConfig \<Rightarrow> cfg_error option" where
  "validateErrorPolicy env policy =
     (let fo = ep_Failover policy; cd = ep_Cooldown policy in
      first_err
        [check (fo_MaxAttempts fo < 1 \<or> fo_MaxAttempts fo > MaxFailoverAttempts)
           (Errorf ''failover.max_attempts must be between 1 and %d'' [itoa MaxFailoverAttempts]),
         validateStatusCodes ''auto_disable.status_codes'' (ad_StatusCodes (ep_AutoDisable policy)),
         validateCooldownRule ''request_error'' (cd_RequestError cd),
         validateCooldownRule ''unauthorized'' (cd_Unauthorized cd),
         validateCooldownRule ''payment_required'' (cd_PaymentRequired cd),
         validateCooldownRule ''forbidden'' (cd_Forbidden cd),
         validateCooldownRule ''rate_limit'' (cd_RateLimit cd),
         validateCooldownRule ''server_error'' (cd_ServerError cd),
         validateCooldownRule ''openai_slow_down'' (cd_OpenAISlowDown cd),
         validateResponseCooldownRules (cd_ResponseRules cd),
         validateStatusCodes ''failover.response_status_codes'' (fo_ResponseStatusCodes fo),
         validateErrorMaskingRules env (ep_Masking policy)])"

section \<open>The whole configuration\<close>

fun validate_entries :: "nat \<Rightarrow> (string \<times> string) list \<Rightarrow> VendorEntry list \<Rightarrow> cfg_error option" where
  "validate_entries i seen [] = None"
| "validate_entries i seen (e # es) =
     (case ValidateVendorID (ve_ID e) of
        Some err \<Rightarrow> Some (Wrapf ''vendors[%d]: %w'' [itoa (int i)] err)
      | None \<Rightarrow>
          (case map_of seen (ve_ID e) of
             Some prev \<Rightarrow> Some (Errorf ''duplicate vendor id %q (already used by %q)'' [ve_ID e, prev])
           | None \<Rightarrow>
               (case ValidateVendorName (ve_Name e) of
                  Some err \<Rightarrow> Some (Wrapf ''vendor %s: %w'' [ve_ID e] err)
                | None \<Rightarrow>
                    if ve_Name e \<in> snd ` set seen
                    then Some (Errorf ''duplicate vendor name %q: names are request path segments and must be unique'' [ve_Name e])
                    else validate_entries (Suc i) ((ve_ID e, ve_Name e) # seen) es)))"

definition validate_child :: "Config \<Rightarrow> VendorEntry \<Rightarrow> AggregateChild \<Rightarrow> cfg_error option" where
  "validate_child c e child =
     (let vendorName = ve_Name e in
      if trim_space (ac_VendorID child) = [] then Some (Errorf ''vendor %q has empty aggregate child vendor_id'' [vendorName])
      else if ac_VendorID child = ve_ID e then Some (Errorf ''vendor %q aggregate child cannot reference itself'' [vendorName])
      else case VendorByID c (ac_VendorID child) of
        None \<Rightarrow> Some (Errorf ''vendor %q aggregate child %q not found'' [vendorName, ac_VendorID child])
      | Some childEntry \<Rightarrow>
          if NormalizeProvider (vc_Provider (ve_Config childEntry)) (ve_Name childEntry) = ''aggregate''
          then Some (Errorf ''vendor %q aggregate child %q cannot be aggregate (nesting not allowed)'' [vendorName, ve_Name childEntry])
          else check (ac_KeyIDs child \<noteq> [] \<and> ua_Mode (vc_UpstreamAuth (ve_Config childEntry)) = ''passthrough'')
            (Errorf ''vendor %q aggregate child %q cannot select keys in passthrough mode'' [vendorName, ve_Name childEntry]))"

definition managed_key_strategies :: "string list" where
  "managed_key_strategies = [''lowest_latency'', ''highest_success'', ''adaptive'']"

definition load_balance_names :: "string list" where
  "load_balance_names = [''round_robin'', ''random'', ''least_used'', ''least_requests''] @ managed_key_strategies"

definition validate_client_auth :: "string \<Rightarrow> ClientAuthConfig \<Rightarrow> cfg_error option" where
  "validate_client_auth vendorName ca =
     check (ca_Enabled ca \<and> ca_Keys ca = []) (Errorf ''vendor %q client_auth enabled but keys empty'' [vendorName])"

definition validate_aggregate :: "Config \<Rightarrow> VendorEntry \<Rightarrow> cfg_error option" where
  "validate_aggregate c e =
     (let v = ve_Config e; vendorName = ve_Name e in
      first_err
        [check (vc_LoadBalance v \<in> set managed_key_strategies)
           (Errorf ''vendor %q load_balance %s is a managed-key strategy; configure it on child vendors'' [vendorName, vc_LoadBalance v]),
         first_err (map (validate_child c e) (gc_Children (vc_Aggregate v))),
         validate_client_auth vendorName (vc_ClientAuth v),
         validateAggregateRetry vendorName (gc_Retry (vc_Aggregate v))])"

definition negative_ptr :: "duration option \<Rightarrow> bool" where
  "negative_ptr p = (case p of None \<Rightarrow> False | Some d \<Rightarrow> d < 0)"

definition validate_resin :: "string \<Rightarrow> ResinConfig \<Rightarrow> cfg_error option" where
  "validate_resin vendorName r =
     (if \<not> rs_Enabled r then None
      else first_err
        [check (trim_space (rs_URL r) = []) (Errorf ''vendor %q resin.url is required when resin enabled'' [vendorName]),
         check (contains (rs_Platform r) ''/'') (Errorf ''vendor %q resin.platform must be a single path segment'' [vendorName]),
         check (rs_Mode r \<noteq> ''reverse'') (Errorf ''vendor %q resin.mode currently supports reverse only'' [vendorName])])"

definition validate_upstream :: "cfg_env \<Rightarrow> VendorEntry \<Rightarrow> cfg_error option" where
  "validate_upstream env e =
     (let v = ve_Config e; vendorName = ve_Name e; u = vc_Upstream v; ch = vc_ClientHeaders v in
      first_err
        [check (trim_space (up_BaseURL u) = []) (Errorf ''vendor %q upstream.base_url is required'' [vendorName]),
         check (up_BodyTimeout u < 0) (Errorf ''vendor %q upstream.body_timeout must be >= 0'' [vendorName]),
         check (negative_ptr (up_UploadTimeout u)) (Errorf ''vendor %q upstream.upload_timeout must be >= 0'' [vendorName]),
         check (negative_ptr (up_ResponseHeaderTimeout u))
           (Errorf ''vendor %q upstream.response_header_timeout must be >= 0'' [vendorName]),
         check (negative_ptr (up_InterimResponseInterval u))
           (Errorf ''vendor %q upstream.interim_response_interval must be >= 0'' [vendorName]),
         check (ua_Mode (vc_UpstreamAuth v) \<notin> set [''bearer'', ''header'', ''passthrough''])
           (Errorf ''vendor %q invalid upstream_auth.mode: %s'' [vendorName, ua_Mode (vc_UpstreamAuth v)]),
         validate_client_auth vendorName (vc_ClientAuth v),
         check (ch_Preset ch \<noteq> [] \<and> ClientHeaderAllowlistPreset (ch_Preset ch) = None)
           (Errorf ''vendor %q invalid client_headers.preset: %s'' [vendorName, ch_Preset ch]),
         map_option (Wrapf ''vendor %q invalid error_policy: %w'' [vendorName]) (validateErrorPolicy env (vc_ErrorPolicy v)),
         validate_resin vendorName (vc_Resin v)])"

definition upstream_providers :: "string list" where
  "upstream_providers = [''openai'', ''anthropic'', ''gemini'', ''deepseek'', ''azure_openai'', ''generic'']"

definition validate_vendor :: "cfg_env \<Rightarrow> Config \<Rightarrow> VendorEntry \<Rightarrow> cfg_error option" where
  "validate_vendor env c e =
     (let v = ve_Config e; vendorName = ve_Name e; provider = NormalizeProvider (vc_Provider v) vendorName in
      first_err
        [check (vc_MaxUpstreamAttempts v < 1 \<or> vc_MaxUpstreamAttempts v > MaxUpstreamAttemptsLimit)
           (Errorf ''vendor %q max_upstream_attempts must be between 1 and %d'' [vendorName, itoa MaxUpstreamAttemptsLimit]),
         check (vc_LoadBalance v \<notin> set load_balance_names)
           (Errorf ''vendor %q invalid load_balance: %s'' [vendorName, vc_LoadBalance v]),
         (if provider \<in> set upstream_providers then validate_upstream env e
          else if provider = ''aggregate'' then validate_aggregate c e
          else Some (Errorf ''vendor %q invalid provider: %s'' [vendorName, vc_Provider v]))])"

definition validate_storage :: "StorageConfig \<Rightarrow> cfg_error option" where
  "validate_storage s =
     (let cs = st_Config s; us = st_UpstreamKeys s in
      first_err
        [check (cs_Driver cs \<notin> set [''file'', ''pgsql'']) (Errorf ''storage.config.driver invalid: %s'' [cs_Driver cs]),
         check (cs_Driver cs = ''pgsql'' \<and> trim_space (cp_DSN (cs_PGSQL cs)) = [])
           (Errorf ''storage.config.pgsql.dsn is required when storage.config.driver=pgsql'' []),
         check (us_Driver us \<notin> set [''file'', ''pgsql'']) (Errorf ''storage.upstream_keys.driver invalid: %s'' [us_Driver us]),
         check (us_Driver us = ''file'' \<and> trim_space (us_FilePath us) = [])
           (Errorf ''storage.upstream_keys.file_path is required when storage.upstream_keys.driver=file'' []),
         check (us_Driver us = ''pgsql'' \<and> trim_space (kp_DSN (us_PGSQL us)) = [])
           (Errorf ''storage.upstream_keys.pgsql.dsn is required when storage.upstream_keys.driver=pgsql'' [])])"

definition cidr_error :: "cfg_env \<Rightarrow> string \<Rightarrow> string list \<Rightarrow> cfg_error option" where
  "cidr_error env field values = (case parseCIDRs (ce_net env) values of
      Inl txt \<Rightarrow> Some (Wrapf field [] (Errorf ''parse %q: %w'' [txt])) | Inr _ \<Rightarrow> None)"

definition validate :: "cfg_env \<Rightarrow> bool \<Rightarrow> Config \<Rightarrow> cfg_error option" where
  "validate env requireVendors c =
     first_err
       [check (cf_SchemaVersion c \<noteq> CurrentSchemaVersion)
          (NewSchemaVersionError ''config'' (cf_SchemaVersion c)),
        check (requireVendors \<and> cf_Vendors c = []) (Errorf ''config vendors is empty'' []),
        tls_validate env (sv_TLS (cf_Server c)),
        check (am_Enabled (cf_Admin c) \<and> trim_space (am_Username (cf_Admin c)) = []) (Errorf ''admin.username is required'' []),
        cidr_error env ''admin.allowed_cidrs invalid: %w'' (am_AllowedCIDRs (cf_Admin c)),
        cidr_error env ''admin.trusted_proxy_cidrs invalid: %w'' (am_TrustedProxyCIDRs (cf_Admin c)),
        validate_storage (cf_Storage c),
        validate_entries 0 [] (cf_Vendors c),
        first_err (map (validate_vendor env c) (cf_Vendors c))]"

text \<open>\<open>PrepareAndValidate\<close> requires vendors, \<open>PrepareBootstrap\<close> does not.\<close>

definition prepare :: "cfg_env \<Rightarrow> (nat \<Rightarrow> nat list option) \<Rightarrow> bool \<Rightarrow> Config \<Rightarrow> cfg_error + Config" where
  "prepare env rand requireVendors c =
     (case ensureVendorIDs rand c of
        Inl err \<Rightarrow> Inl err
      | Inr c \<Rightarrow>
          let c = applyDefaults c in
          case validate env requireVendors c of Some err \<Rightarrow> Inl err | None \<Rightarrow> Inr c)"

abbreviation PrepareAndValidate :: "cfg_env \<Rightarrow> (nat \<Rightarrow> nat list option) \<Rightarrow> Config \<Rightarrow> cfg_error + Config" where
  "PrepareAndValidate env rand \<equiv> prepare env rand True"

abbreviation PrepareBootstrap :: "cfg_env \<Rightarrow> (nat \<Rightarrow> nat list option) \<Rightarrow> Config \<Rightarrow> cfg_error + Config" where
  "PrepareBootstrap env rand \<equiv> prepare env rand False"

end
