(* ===== verification/ConfigLoad.thy ===== *)
theory ConfigLoad
  imports ConfigSound
begin

text \<open>
  Loading of a configuration (\<open>internal/config/config.go\<close>, \<open>schema.go\<close>): the schema check, the overrides from
  the environment, preparation, and the copy through YAML.  The YAML package is a parameter: a decoder of
  payloads, a probe of the schema version, and the image of a configuration under marshalling and
  unmarshalling.
\<close>

section \<open>Environment\<close>

type_synonym envLookup = "string \<Rightarrow> string option"

fun lookupEnv :: "envLookup \<Rightarrow> string list \<Rightarrow> (string \<times> string) option" where
  "lookupEnv lookup [] = None"
| "lookupEnv lookup (key # keys) =
     (case lookup key of
        None \<Rightarrow> lookupEnv lookup keys
      | Some raw \<Rightarrow> let value = trim_space raw in if value = [] then lookupEnv lookup keys else Some (value, key))"

definition lookupEnvValue :: "envLookup \<Rightarrow> string list \<Rightarrow> string option" where
  "lookupEnvValue lookup keys = map_option fst (lookupEnv lookup keys)"

definition lookupEnvDuration :: "cfg_env \<Rightarrow> envLookup \<Rightarrow> string \<Rightarrow> cfg_error + duration option" where
  "lookupEnvDuration env lookup key = (case lookupEnvValue lookup [key] of
      None \<Rightarrow> Inr None
    | Some raw \<Rightarrow> (case ce_ParseDuration env raw of None \<Rightarrow> Inl (Errorf ''invalid env %s: %w'' [key]) | Some v \<Rightarrow> Inr (Some v)))"

definition lookupEnvInt :: "envLookup \<Rightarrow> string \<Rightarrow> cfg_error + int option" where
  "lookupEnvInt lookup key = (case lookupEnvValue lookup [key] of
      None \<Rightarrow> Inr None
    | Some raw \<Rightarrow> (case atoi raw of None \<Rightarrow> Inl (Errorf ''invalid env %s: %w'' [key]) | Some v \<Rightarrow> Inr (Some v)))"

text \<open>\<open>strconv.ParseBool\<close>.\<close>

definition ParseBool :: "string \<Rightarrow> bool option" where
  "ParseBool s = (if s \<in> set [''1'', ''t'', ''T'', ''true'', ''TRUE'', ''True''] then Some True
     else if s \<in> set [''0'', ''f'', ''F'', ''false'', ''FALSE'', ''False''] then Some False else None)"

definition lookupEnvBool :: "envLookup \<Rightarrow> string \<Rightarrow> cfg_error + bool option" where
  "lookupEnvBool lookup key = (case lookupEnvValue lookup [key] of
      None \<Rightarrow> Inr None
    | Some raw \<Rightarrow> (case ParseBool raw of None \<Rightarrow> Inl (Errorf ''invalid env %s: %w'' [key]) | Some v \<Rightarrow> Inr (Some v)))"

definition lookupListenOverride :: "envLookup \<Rightarrow> cfg_error + string option" where
  "lookupListenOverride lookup = (case lookupEnvValue lookup [''JC_PROXY_SERVER_LISTEN''] of
      Some listen \<Rightarrow> Inr (Some listen)
    | None \<Rightarrow>
        (case lookupEnv lookup [''JC_PROXY_SERVER_PORT'', ''PORT''] of
           None \<Rightarrow> Inr None
         | Some (raw, key) \<Rightarrow>
             let err = Errorf ''invalid env %s: %q'' [key, raw] in
             (case atoi (trim_space (trim_prefix raw '':'')) of
                None \<Rightarrow> Inl err
              | Some value \<Rightarrow> if value < 1 \<or> value > 65535 then Inl err else Inr (Some ('':'' @ itoa value)))))"

fun fields_func :: "(char \<Rightarrow> bool) \<Rightarrow> string \<Rightarrow> string \<Rightarrow> string list" where
  "fields_func p cur [] = (if cur = [] then [] else [cur])"
| "fields_func p cur (c # s) =
     (if p c then (if cur = [] then fields_func p [] s else cur # fields_func p [] s) else fields_func p (cur @ [c]) s)"

definition splitEnvList :: "string \<Rightarrow> string list" where
  "splitEnvList raw = fields_func (\<lambda>c. c \<in> set [CHR '','', CHR '';'', CHR 0x0A, CHR 0x0D, CHR 0x09]) [] raw"

section \<open>Overrides\<close>

text \<open>An override is a step that may fail; the steps run in order.\<close>

type_synonym override = "Config \<Rightarrow> cfg_error + Config"

fun run_overrides :: "override list \<Rightarrow> override" where
  "run_overrides [] c = Inr c"
| "run_overrides (f # fs) c = (case f c of Inl err \<Rightarrow> Inl err | Inr c \<Rightarrow> run_overrides fs c)"

definition set_if :: "'a option \<Rightarrow> ('a \<Rightarrow> Config \<Rightarrow> Config) \<Rightarrow> override" where
  "set_if v upd c = Inr (case v of None \<Rightarrow> c | Some x \<Rightarrow> upd x c)"

definition try_set :: "cfg_error + 'a option \<Rightarrow> ('a \<Rightarrow> Config \<Rightarrow> Config) \<Rightarrow> override" where
  "try_set r upd c = (case r of Inl err \<Rightarrow> Inl err | Inr v \<Rightarrow> set_if v upd c)"

abbreviation on_server :: "(ServerConfig \<Rightarrow> ServerConfig) \<Rightarrow> Config \<Rightarrow> Config" where
  "on_server f c \<equiv> c\<lparr>cf_Server := f (cf_Server c)\<rparr>"

abbreviation on_tls :: "(TLSConfig \<Rightarrow> TLSConfig) \<Rightarrow> Config \<Rightarrow> Config" where
  "on_tls f \<equiv> on_server (\<lambda>s. s\<lparr>sv_TLS := f (sv_TLS s)\<rparr>)"

abbreviation on_admin :: "(AdminConfig \<Rightarrow> AdminConfig) \<Rightarrow> Config \<Rightarrow> Config" where
  "on_admin f c \<equiv> c\<lparr>cf_Admin := f (cf_Admin c)\<rparr>"

abbreviation on_cs :: "(ConfigStoreConfig \<Rightarrow> ConfigStoreConfig) \<Rightarrow> Config \<Rightarrow> Config" where
  "on_cs f c \<equiv> c\<lparr>cf_Storage := (cf_Storage c)\<lparr>st_Config := f (st_Config (cf_Storage c))\<rparr>\<rparr>"

abbreviation on_us :: "(UpstreamKeyStoreConfig \<Rightarrow> UpstreamKeyStoreConfig) \<Rightarrow> Config \<Rightarrow> Config" where
  "on_us f c \<equiv> c\<lparr>cf_Storage := (cf_Storage c)\<lparr>st_UpstreamKeys := f (st_UpstreamKeys (cf_Storage c))\<rparr>\<rparr>"

abbreviation on_cp :: "(ConfigStorePGSQLConfig \<Rightarrow> ConfigStorePGSQLConfig) \<Rightarrow> Config \<Rightarrow> Config" where
  "on_cp f \<equiv> on_cs (\<lambda>s. s\<lparr>cs_PGSQL := f (cs_PGSQL s)\<rparr>)"

abbreviation on_kp :: "(UpstreamKeyStorePGSQLConfig \<Rightarrow> UpstreamKeyStorePGSQLConfig) \<Rightarrow> Config \<Rightarrow> Config" where
  "on_kp f \<equiv> on_us (\<lambda>s. s\<lparr>us_PGSQL := f (us_PGSQL s)\<rparr>)"

definition server_overrides :: "envLookup \<Rightarrow> override list" where
  "server_overrides lookup =
     [try_set (lookupListenOverride lookup) (\<lambda>x. on_server (\<lambda>s. s\<lparr>sv_Listen := x\<rparr>)),
      set_if (lookupEnvValue lookup [''JC_PROXY_SERVER_TLS_CERT_FILE'']) (\<lambda>x. on_tls (\<lambda>t. t\<lparr>tls_CertFile := x\<rparr>)),
      set_if (lookupEnvValue lookup [''JC_PROXY_SERVER_TLS_KEY_FILE'']) (\<lambda>x. on_tls (\<lambda>t. t\<lparr>tls_KeyFile := x\<rparr>)),
      set_if (lookupEnvValue lookup [''JC_PROXY_SERVER_TLS_MIN_VERSION'']) (\<lambda>x. on_tls (\<lambda>t. t\<lparr>tls_MinVersion := x\<rparr>))]"

definition credential_override :: "envLookup \<Rightarrow> AdminConfig \<Rightarrow> AdminConfig" where
  "credential_override lookup a =
     (if HasCredentials a then a
      else
        let a = (case lookupEnvValue lookup [''JC_PROXY_ADMIN_PASSWORD''] of
                   None \<Rightarrow> a | Some p \<Rightarrow> a\<lparr>am_Password := p, am_PasswordHash := []\<rparr>)
        in (case lookupEnvValue lookup [''JC_PROXY_ADMIN_PASSWORD_HASH''] of
              None \<Rightarrow> a | Some h \<Rightarrow> a\<lparr>am_PasswordHash := h, am_Password := []\<rparr>))"

definition admin_overrides :: "cfg_env \<Rightarrow> envLookup \<Rightarrow> override list" where
  "admin_overrides env lookup =
     [try_set (lookupEnvBool lookup ''JC_PROXY_ADMIN_ENABLED'') (\<lambda>x. on_admin (\<lambda>a. a\<lparr>am_Enabled := x\<rparr>)),
      set_if (lookupEnvValue lookup [''JC_PROXY_ADMIN_USERNAME''])
        (\<lambda>x. on_admin (\<lambda>a. if trim_space (am_Username a) = [] then a\<lparr>am_Username := x\<rparr> else a)),
      (\<lambda>c. Inr (on_admin (credential_override lookup) c)),
      try_set (lookupEnvDuration env lookup ''JC_PROXY_ADMIN_SESSION_TTL'') (\<lambda>x. on_admin (\<lambda>a. a\<lparr>am_SessionTTL := x\<rparr>)),
      set_if (lookupEnvValue lookup [''JC_PROXY_ADMIN_AUDIT_LOG_PATH'']) (\<lambda>x. on_admin (\<lambda>a. a\<lparr>am_AuditLogPath := x\<rparr>)),
      set_if (lookupEnvValue lookup [''JC_PROXY_ADMIN_ALLOWED_CIDRS'']) (\<lambda>x. on_admin (\<lambda>a. a\<lparr>am_AllowedCIDRs := splitEnvList x\<rparr>)),
      set_if (lookupEnvValue lookup [''JC_PROXY_ADMIN_TRUSTED_PROXY_CIDRS''])
        (\<lambda>x. on_admin (\<lambda>a. a\<lparr>am_TrustedProxyCIDRs := splitEnvList x\<rparr>))]"

definition shared_storage_overrides :: "cfg_env \<Rightarrow> envLookup \<Rightarrow> override list" where
  "shared_storage_overrides env lookup =
     [set_if (lookupEnvValue lookup [''JC_PROXY_STORAGE_MODE''])
        (\<lambda>x c. on_us (\<lambda>s. s\<lparr>us_Driver := x\<rparr>) (on_cs (\<lambda>s. s\<lparr>cs_Driver := x\<rparr>) c)),
      set_if (lookupEnvValue lookup [''JC_PROXY_STORAGE_CONFIG_DRIVER'']) (\<lambda>x. on_cs (\<lambda>s. s\<lparr>cs_Driver := x\<rparr>)),
      set_if (lookupEnvValue lookup [''JC_PROXY_STORAGE_UPSTREAM_KEYS_DRIVER'']) (\<lambda>x. on_us (\<lambda>s. s\<lparr>us_Driver := x\<rparr>)),
      set_if (lookupEnvValue lookup [''JC_PROXY_STORAGE_PGSQL_DSN'', ''DATABASE_URL''])
        (\<lambda>x c. on_kp (\<lambda>p. p\<lparr>kp_DSN := x\<rparr>) (on_cp (\<lambda>p. p\<lparr>cp_DSN := x\<rparr>) c)),
      try_set (lookupEnvInt lookup ''JC_PROXY_STORAGE_PGSQL_MAX_OPEN_CONNS'')
        (\<lambda>x c. on_kp (\<lambda>p. p\<lparr>kp_MaxOpenConns := x\<rparr>) (on_cp (\<lambda>p. p\<lparr>cp_MaxOpenConns := x\<rparr>) c)),
      try_set (lookupEnvInt lookup ''JC_PROXY_STORAGE_PGSQL_MAX_IDLE_CONNS'')
        (\<lambda>x c. on_kp (\<lambda>p. p\<lparr>kp_MaxIdleConns := x\<rparr>) (on_cp (\<lambda>p. p\<lparr>cp_MaxIdleConns := x\<rparr>) c)),
      try_set (lookupEnvDuration env lookup ''JC_PROXY_STORAGE_PGSQL_CONN_MAX_LIFETIME'')
        (\<lambda>x c. on_kp (\<lambda>p. p\<lparr>kp_ConnMaxLifetime := x\<rparr>) (on_cp (\<lambda>p. p\<lparr>cp_ConnMaxLifetime := x\<rparr>) c))]"

definition config_store_overrides :: "cfg_env \<Rightarrow> envLookup \<Rightarrow> override list" where
  "config_store_overrides env lookup =
     [set_if (lookupEnvValue lookup [''JC_PROXY_STORAGE_CONFIG_PGSQL_DSN'']) (\<lambda>x. on_cp (\<lambda>p. p\<lparr>cp_DSN := x\<rparr>)),
      set_if (lookupEnvValue lookup [''JC_PROXY_STORAGE_CONFIG_PGSQL_TABLE'']) (\<lambda>x. on_cp (\<lambda>p. p\<lparr>cp_Table := x\<rparr>)),
      set_if (lookupEnvValue lookup [''JC_PROXY_STORAGE_CONFIG_PGSQL_RECORD_KEY'']) (\<lambda>x. on_cp (\<lambda>p. p\<lparr>cp_RecordKey := x\<rparr>)),
      try_set (lookupEnvInt lookup ''JC_PROXY_STORAGE_CONFIG_PGSQL_MAX_OPEN_CONNS'') (\<lambda>x. on_cp (\<lambda>p. p\<lparr>cp_MaxOpenConns := x\<rparr>)),
      try_set (lookupEnvInt lookup ''JC_PROXY_STORAGE_CONFIG_PGSQL_MAX_IDLE_CONNS'') (\<lambda>x. on_cp (\<lambda>p. p\<lparr>cp_MaxIdleConns := x\<rparr>)),
      try_set (lookupEnvDuration env lookup ''JC_PROXY_STORAGE_CONFIG_PGSQL_CONN_MAX_LIFETIME'')
        (\<lambda>x. on_cp (\<lambda>p. p\<lparr>cp_ConnMaxLifetime := x\<rparr>))]"

definition key_store_overrides :: "cfg_env \<Rightarrow> envLookup \<Rightarrow> override list" where
  "key_store_overrides env lookup =
     [set_if (lookupEnvValue lookup [''JC_PROXY_STORAGE_UPSTREAM_KEYS_FILE_PATH'']) (\<lambda>x. on_us (\<lambda>s. s\<lparr>us_FilePath := x\<rparr>)),
      set_if (lookupEnvValue lookup [''JC_PROXY_STORAGE_UPSTREAM_KEYS_PGSQL_DSN'']) (\<lambda>x. on_kp (\<lambda>p. p\<lparr>kp_DSN := x\<rparr>)),
      set_if (lookupEnvValue lookup [''JC_PROXY_STORAGE_UPSTREAM_KEYS_PGSQL_TABLE'']) (\<lambda>x. on_kp (\<lambda>p. p\<lparr>kp_Table := x\<rparr>)),
      try_set (lookupEnvInt lookup ''JC_PROXY_STORAGE_UPSTREAM_KEYS_PGSQL_MAX_OPEN_CONNS'') (\<lambda>x. on_kp (\<lambda>p. p\<lparr>kp_MaxOpenConns := x\<rparr>)),
      try_set (lookupEnvInt lookup ''JC_PROXY_STORAGE_UPSTREAM_KEYS_PGSQL_MAX_IDLE_CONNS'') (\<lambda>x. on_kp (\<lambda>p. p\<lparr>kp_MaxIdleConns := x\<rparr>)),
      try_set (lookupEnvDuration env lookup ''JC_PROXY_STORAGE_UPSTREAM_KEYS_PGSQL_CONN_MAX_LIFETIME'')
        (\<lambda>x. on_kp (\<lambda>p. p\<lparr>kp_ConnMaxLifetime := x\<rparr>))]"

definition ApplyCriticalEnvOverrides :: "cfg_env \<Rightarrow> envLookup option \<Rightarrow> Config \<Rightarrow> cfg_error + Config" where
  "ApplyCriticalEnvOverrides env lookup c = (case lookup of
      None \<Rightarrow> Inr c
    | Some lookup \<Rightarrow> run_overrides (server_overrides lookup @ admin_overrides env lookup @ shared_storage_overrides env lookup @
        config_store_overrides env lookup @ key_store_overrides env lookup) c)"

section \<open>Loading and copying\<close>

text \<open>The YAML package: the schema version a payload names, the decoded configuration and storage section,
  and what a marshalled configuration decodes to.  \<open>yl_zero\<close> is the zero \<open>Config\<close>.\<close>

record yaml_lib =
  yl_probe :: "string \<Rightarrow> cfg_error + int option"
  yl_decode :: "string \<Rightarrow> cfg_error + Config"
  yl_storage :: "string \<Rightarrow> cfg_error + StorageConfig"
  yl_encode :: "Config \<Rightarrow> cfg_error + string"
  yl_zero :: Config

abbreviation LegacySchemaVersion_no :: int where
  "LegacySchemaVersion_no \<equiv> 1"

definition DetectSchemaVersion :: "yaml_lib \<Rightarrow> string \<Rightarrow> cfg_error + int" where
  "DetectSchemaVersion yl payload =
     (if payload = [] then Inr CurrentSchemaVersion
      else case yl_probe yl payload of
        Inl err \<Rightarrow> Inl (Wrapf ''probe config schema version: %w'' [] err)
      | Inr None \<Rightarrow> Inr LegacySchemaVersion_no
      | Inr (Some v) \<Rightarrow> Inr v)"

definition CheckSchemaVersion :: "yaml_lib \<Rightarrow> string \<Rightarrow> string \<Rightarrow> cfg_error option" where
  "CheckSchemaVersion yl source payload = (case DetectSchemaVersion yl payload of
      Inl err \<Rightarrow> Some err
    | Inr found \<Rightarrow> check (found \<noteq> CurrentSchemaVersion) (NewSchemaVersionError source found))"

definition loadBytes ::
  "cfg_env \<Rightarrow> yaml_lib \<Rightarrow> (nat \<Rightarrow> nat list option) \<Rightarrow> string \<Rightarrow> bool \<Rightarrow> envLookup option \<Rightarrow> cfg_error + Config" where
  "loadBytes env yl rand b bootstrap lookup =
     (case (if b = [] then Inr (yl_zero yl)
            else case CheckSchemaVersion yl ''config'' b of
              Some err \<Rightarrow> Inl err
            | None \<Rightarrow> (case yl_decode yl b of Inl err \<Rightarrow> Inl (Wrapf ''parse config yaml: %w'' [] err) | Inr c \<Rightarrow> Inr c)) of
        Inl err \<Rightarrow> Inl err
      | Inr c \<Rightarrow>
          (case ApplyCriticalEnvOverrides env lookup c of
             Inl err \<Rightarrow> Inl err
           | Inr c \<Rightarrow> prepare env rand (\<not> bootstrap) c))"

definition LoadBootstrap :: "cfg_env \<Rightarrow> yaml_lib \<Rightarrow> (nat \<Rightarrow> nat list option) \<Rightarrow> envLookup \<Rightarrow> cfg_error + Config" where
  "LoadBootstrap env yl rand lookup = (case loadBytes env yl rand [] True (Some lookup) of
      Inl err \<Rightarrow> Inl err
    | Inr c \<Rightarrow> if cs_Driver (st_Config (cf_Storage c)) \<noteq> ''pgsql''
        then Inl (Errorf ''bootstrap without config file requires storage.config.driver=pgsql'' []) else Inr c)"

definition LoadStorageOnly :: "cfg_env \<Rightarrow> yaml_lib \<Rightarrow> string \<Rightarrow> envLookup \<Rightarrow> cfg_error + StorageConfig" where
  "LoadStorageOnly env yl payload lookup =
     (case (if payload = [] then Inr (cf_Storage (yl_zero yl))
            else case yl_storage yl payload of Inl err \<Rightarrow> Inl (Wrapf ''parse storage config: %w'' [] err) | Inr s \<Rightarrow> Inr s) of
        Inl err \<Rightarrow> Inl err
      | Inr s \<Rightarrow>
          (case ApplyCriticalEnvOverrides env (Some lookup) ((yl_zero yl)\<lparr>cf_Storage := applyStorageDefaults s\<rparr>) of
             Inl err \<Rightarrow> Inl err
           | Inr c \<Rightarrow> Inr (applyStorageDefaults (cf_Storage c))))"

definition Clone :: "cfg_env \<Rightarrow> yaml_lib \<Rightarrow> (nat \<Rightarrow> nat list option) \<Rightarrow> Config \<Rightarrow> cfg_error + Config" where
  "Clone env yl rand c = (case yl_encode yl c of
      Inl err \<Rightarrow> Inl (Wrapf ''marshal config: %w'' [] err)
    | Inr b \<Rightarrow> (case yl_decode yl b of
        Inl err \<Rightarrow> Inl (Wrapf ''unmarshal config clone: %w'' [] err)
      | Inr out \<Rightarrow> PrepareBootstrap env rand out))"

definition EncodeYAML :: "cfg_env \<Rightarrow> yaml_lib \<Rightarrow> (nat \<Rightarrow> nat list option) \<Rightarrow> Config \<Rightarrow> cfg_error + string" where
  "EncodeYAML env yl rand c = (case Clone env yl rand c of Inl err \<Rightarrow> Inl err | Inr c \<Rightarrow> yl_encode yl c)"

section \<open>What a copy keeps\<close>

text \<open>Marshalling drops a slice of \<open>auto_disable\<close> that is empty (\<open>omitempty\<close>), and the unexported mark of
  minted ids; everything else comes back as it was.\<close>

definition yaml_vendor :: "VendorEntry \<Rightarrow> VendorEntry" where
  "yaml_vendor e = (let v = ve_Config e; a = ep_AutoDisable (vc_ErrorPolicy v) in
     e\<lparr>ve_Config := v\<lparr>vc_CodesNil := (ad_StatusCodes a = []), vc_KeywordsNil := (ad_Keywords a = [])\<rparr>\<rparr>)"

definition yaml_image :: "Config \<Rightarrow> Config" where
  "yaml_image c = c\<lparr>cf_Vendors := map yaml_vendor (cf_Vendors c), cf_mintedVendorIDs := False\<rparr>"

definition yaml_keeps :: "yaml_lib \<Rightarrow> Config \<Rightarrow> bool" where
  "yaml_keeps yl c = (case yl_encode yl c of Inl _ \<Rightarrow> False | Inr b \<Rightarrow> b \<noteq> [] \<and> yl_decode yl b = Inr (yaml_image c))"

definition empty_auto_disable :: "VendorConfig \<Rightarrow> bool" where
  "empty_auto_disable v = (ad_StatusCodes (ep_AutoDisable (vc_ErrorPolicy v)) = [] \<and> ad_Keywords (ep_AutoDisable (vc_ErrorPolicy v)) = [])"

definition refilled :: "VendorEntry \<Rightarrow> VendorEntry" where
  "refilled e =
     (let v = ve_Config e; p = vc_ErrorPolicy v; a = ep_AutoDisable p in
      if vc_Provider v \<noteq> ''aggregate'' \<and> empty_auto_disable v
      then e\<lparr>ve_Config := v\<lparr>vc_ErrorPolicy := p\<lparr>ep_AutoDisable := a\<lparr>ad_StatusCodes := [401],
             ad_Keywords := [''incorrect_api_key'', ''invalid_api_key'']\<rparr>\<rparr>, vc_CodesNil := False, vc_KeywordsNil := False\<rparr>\<rparr>
      else yaml_vendor e)"

definition clone_image :: "Config \<Rightarrow> Config" where
  "clone_image c = c\<lparr>cf_Vendors := map refilled (cf_Vendors c), cf_mintedVendorIDs := False\<rparr>"

lemma upstream_defaults_flags:
  assumes "upstream_defaults v = v"
  shows "upstream_defaults (v\<lparr>vc_CodesNil := a, vc_KeywordsNil := b\<rparr>) =
    (if a \<and> b then v\<lparr>vc_ErrorPolicy := (vc_ErrorPolicy v)\<lparr>ep_AutoDisable := (ep_AutoDisable (vc_ErrorPolicy v))\<lparr>ad_StatusCodes := [401],
         ad_Keywords := [''incorrect_api_key'', ''invalid_api_key'']\<rparr>\<rparr>, vc_CodesNil := False, vc_KeywordsNil := False\<rparr>
     else v\<lparr>vc_CodesNil := a, vc_KeywordsNil := b\<rparr>)"
proof -
  have nil: "(vc_CodesNil v \<and> vc_KeywordsNil v) = False" using upstream_default_fields(7) [OF assms] by simp
  show ?thesis
  proof (cases "a \<and> b")
    case True
    have "upstream_defaults (v\<lparr>vc_CodesNil := True, vc_KeywordsNil := True\<rparr>) =
      (upstream_defaults v)\<lparr>vc_ErrorPolicy := (vc_ErrorPolicy (upstream_defaults v))\<lparr>ep_AutoDisable := (ep_AutoDisable (vc_ErrorPolicy (upstream_defaults v)))
         \<lparr>ad_StatusCodes := [401], ad_Keywords := [''incorrect_api_key'', ''invalid_api_key'']\<rparr>\<rparr>, vc_CodesNil := False, vc_KeywordsNil := False\<rparr>"
      by (simp add: upstream_defaults_def Let_def applyErrorPolicyDefaults_def auto_disable_defaults_def nil)
    thus ?thesis using True assms by simp
  next
    case False
    hence ab: "(a \<and> b) = False" by simp
    have "upstream_defaults (v\<lparr>vc_CodesNil := a, vc_KeywordsNil := b\<rparr>) = (upstream_defaults v)\<lparr>vc_CodesNil := a, vc_KeywordsNil := b\<rparr>"
      by (simp add: upstream_defaults_def Let_def nil ab del: de_Morgan_conj)
    thus ?thesis using False unfolding assms by (simp only: if_False)
  qed
qed

lemma common_flags:
  "common_defaults n (v\<lparr>vc_CodesNil := a, vc_KeywordsNil := b\<rparr>) = (common_defaults n v)\<lparr>vc_CodesNil := a, vc_KeywordsNil := b\<rparr>"
  by (simp add: common_defaults_def)

lemma aggregate_flags:
  "aggregate_defaults (v\<lparr>vc_CodesNil := a, vc_KeywordsNil := b\<rparr>) = (aggregate_defaults v)\<lparr>vc_CodesNil := a, vc_KeywordsNil := b\<rparr>"
  by (simp add: aggregate_defaults_def)

lemma vendor_defaults_yaml:
  assumes "vendor_defaults e = e"
  shows "vendor_defaults (yaml_vendor e) = refilled e"
proof -
  note fixed = fixed_vendor [OF assms]
  have name: "trim_space (ve_Name e) = ve_Name e"
    using arg_cong [OF assms, of ve_Name] by (simp add: vendor_defaults_def Let_def)
  show ?thesis
  proof (cases "vc_Provider (ve_Config e) = ''aggregate''")
    case True
    thus ?thesis
      using fixed name by (simp add: vendor_defaults_def yaml_vendor_def refilled_def Let_def common_flags aggregate_flags)
  next
    case False
    hence "upstream_defaults (ve_Config e) = ve_Config e" using fixed(3) by simp
    thus ?thesis
      using fixed name False
      by (simp add: vendor_defaults_def yaml_vendor_def refilled_def Let_def common_flags upstream_defaults_flags empty_auto_disable_def)
  qed
qed

lemma applyDefaults_yaml:
  assumes "applyDefaults c = c"
  shows "applyDefaults (yaml_image c) = clone_image c"
proof -
  have "map vendor_defaults (map yaml_vendor (cf_Vendors c)) = map refilled (cf_Vendors c)"
    using vendor_defaults_yaml [OF defaults_fixed_vendor [OF assms]] by simp
  moreover have "applyDefaults (c\<lparr>cf_Vendors := vs, cf_mintedVendorIDs := m\<rparr>) =
      (applyDefaults c)\<lparr>cf_Vendors := map vendor_defaults vs, cf_mintedVendorIDs := m\<rparr>" for vs m
    by (simp add: applyDefaults_def Let_def)
  ultimately show ?thesis using assms by (simp add: yaml_image_def clone_image_def)
qed

text \<open>Validation does not see the difference between a vendor and its refilled copy.\<close>

lemma refilled_fields [simp]:
  "ve_ID (refilled e) = ve_ID e" "ve_Name (refilled e) = ve_Name e"
  "vc_Provider (ve_Config (refilled e)) = vc_Provider (ve_Config e)"
  "vc_UpstreamAuth (ve_Config (refilled e)) = vc_UpstreamAuth (ve_Config e)"
  "vc_Aggregate (ve_Config (refilled e)) = vc_Aggregate (ve_Config e)"
  "vc_LoadBalance (ve_Config (refilled e)) = vc_LoadBalance (ve_Config e)"
  "vc_ClientAuth (ve_Config (refilled e)) = vc_ClientAuth (ve_Config e)"
  "vc_MaxUpstreamAttempts (ve_Config (refilled e)) = vc_MaxUpstreamAttempts (ve_Config e)"
  "vc_Upstream (ve_Config (refilled e)) = vc_Upstream (ve_Config e)"
  "vc_ClientHeaders (ve_Config (refilled e)) = vc_ClientHeaders (ve_Config e)"
  "vc_Resin (ve_Config (refilled e)) = vc_Resin (ve_Config e)"
  by (simp_all add: refilled_def yaml_vendor_def Let_def)

lemma index_where_map: "index_where p (map f xs) = index_where (p \<circ> f) xs"
  by (induction xs) auto

lemma VendorByID_clone: "VendorByID (clone_image c) ident = map_option refilled (VendorByID c ident)"
proof -
  have "VendorIndexByID (clone_image c) ident = VendorIndexByID c ident"
    by (simp add: VendorIndexByID_def clone_image_def index_where_map comp_def Let_def)
  moreover have "VendorIndexByID c ident = Some i \<Longrightarrow> i < length (cf_Vendors c)" for i
    by (auto simp: VendorIndexByID_def Let_def split: if_splits dest: index_where_Some)
  ultimately show ?thesis
    by (cases "VendorIndexByID c ident") (auto simp: VendorByID_def clone_image_def)
qed

lemma validate_child_clone: "validate_child (clone_image c) (refilled e) child = validate_child c e child"
  by (cases "VendorByID c (ac_VendorID child)") (simp_all add: validate_child_def VendorByID_clone Let_def)

lemma validateErrorPolicy_refilled:
  assumes "validateErrorPolicy env (vc_ErrorPolicy (ve_Config e)) = None"
  shows "validateErrorPolicy env (vc_ErrorPolicy (ve_Config (refilled e))) = None"
  using assms by (auto simp: refilled_def yaml_vendor_def validateErrorPolicy_def Let_def)

lemma validate_vendor_clone:
  assumes "validate_vendor env c e = None"
  shows "validate_vendor env (clone_image c) (refilled e) = None"
proof -
  have "validate_aggregate (clone_image c) (refilled e) = validate_aggregate c e"
    by (simp add: validate_aggregate_def Let_def validate_child_clone [abs_def])
  moreover have "validate_upstream env e = None \<Longrightarrow> validate_upstream env (refilled e) = None"
    using validateErrorPolicy_refilled [of env e] by (auto simp: validate_upstream_def Let_def)
  ultimately show ?thesis using assms by (auto simp: validate_vendor_def Let_def split: if_splits)
qed

lemma validate_entries_map:
  "(\<And>e. ve_ID (f e) = ve_ID e) \<Longrightarrow> (\<And>e. ve_Name (f e) = ve_Name e) \<Longrightarrow>
   validate_entries i seen (map f es) = validate_entries i seen es"
  by (induction i seen es rule: validate_entries.induct) (auto split: option.splits)

lemma validate_clone:
  assumes "validate env req c = None"
  shows "validate env False (clone_image c) = None"
  using assms validate_vendor_clone
  by (auto simp: validate_def clone_image_def validate_entries_map)

lemma ensure_ids_yaml:
  assumes "config_ok c" "applyDefaults c = c"
  shows "ensureVendorIDs rand (yaml_image c) = Inr (yaml_image c)"
proof -
  have "\<forall>e \<in> set (map yaml_vendor (cf_Vendors c)). trim_space (ve_ID e) = ve_ID e \<and> ve_ID e \<noteq> []"
    using assms(1) fixed_vendor(1) [OF defaults_fixed_vendor [OF assms(2)]] by (auto simp: config_ok_def yaml_vendor_def Let_def)
  thus ?thesis by (simp add: ensureVendorIDs_def yaml_image_def ensure_ids_fixed)
qed

lemma Clone_image:
  assumes "applyDefaults c = c" "validate env req c = None" "yaml_keeps yl c"
  shows "Clone env yl rand c = Inr (clone_image c)"
  using assms ensure_ids_yaml [OF validate_config_ok [OF assms(1,2)] assms(1)] validate_clone [OF assms(2)] applyDefaults_yaml [OF assms(1)]
  by (auto simp: Clone_def yaml_keeps_def prepare_def Let_def split: sum.splits)

text \<open>The values of a configuration, nil and empty slices not told apart.\<close>

definition content :: "Config \<Rightarrow> Config" where
  "content c = c\<lparr>cf_Vendors := map (\<lambda>e. e\<lparr>ve_Config := (ve_Config e)\<lparr>vc_CodesNil := False, vc_KeywordsNil := False\<rparr>\<rparr>) (cf_Vendors c),
     cf_mintedVendorIDs := False\<rparr>"

lemma content_refilled:
  "(refilled e)\<lparr>ve_Config := (ve_Config (refilled e))\<lparr>vc_CodesNil := False, vc_KeywordsNil := False\<rparr>\<rparr> =
   e\<lparr>ve_Config := (ve_Config e)\<lparr>vc_CodesNil := False, vc_KeywordsNil := False\<rparr>\<rparr> \<longleftrightarrow>
   vc_Provider (ve_Config e) = ''aggregate'' \<or> \<not> empty_auto_disable (ve_Config e)" (is "?l = ?r \<longleftrightarrow> ?ok")
proof (cases ?ok)
  case True
  thus ?thesis by (auto simp: refilled_def yaml_vendor_def Let_def)
next
  case False
  hence "ad_StatusCodes (ep_AutoDisable (vc_ErrorPolicy (ve_Config ?l))) = [401]"
    and "ad_StatusCodes (ep_AutoDisable (vc_ErrorPolicy (ve_Config ?r))) = []"
    by (auto simp: refilled_def Let_def empty_auto_disable_def)
  hence "?l \<noteq> ?r" by (metis list.distinct(1))
  thus ?thesis using False by simp
qed

text \<open>C31: Copying an accepted configuration through YAML, which every read and every save does, always succeeds and
  keeps everything, with one exception: a vendor whose two \<open>auto_disable\<close> lists had both been emptied
  gets the default rules back (status 401 and the two keywords), so the copy is the same configuration
  exactly when there is no such vendor.\<close>

theorem clone_keeps_config:
  assumes "prepare env rand req c = Inr c'" "yaml_keeps yl c'"
  shows "Clone env yl rand' c' = Inr (clone_image c') \<and>
    (content (clone_image c') = content c' \<longleftrightarrow>
       list_all (\<lambda>e. vc_Provider (ve_Config e) = ''aggregate'' \<or> \<not> empty_auto_disable (ve_Config e)) (cf_Vendors c'))"
proof
  show "Clone env yl rand' c' = Inr (clone_image c')" by (rule Clone_image [OF prepare_Inr [OF assms(1)] assms(2)])
  have "content (clone_image c') = content c' \<longleftrightarrow>
      map (\<lambda>e. e\<lparr>ve_Config := (ve_Config e)\<lparr>vc_CodesNil := False, vc_KeywordsNil := False\<rparr>\<rparr>) (map refilled (cf_Vendors c')) =
      map (\<lambda>e. e\<lparr>ve_Config := (ve_Config e)\<lparr>vc_CodesNil := False, vc_KeywordsNil := False\<rparr>\<rparr>) (cf_Vendors c')" (is "_ \<longleftrightarrow> ?m")
  proof
    assume "content (clone_image c') = content c'"
    from arg_cong [OF this, of cf_Vendors] show ?m by (simp add: content_def clone_image_def)
  next
    assume ?m
    thus "content (clone_image c') = content c'" by (simp add: content_def clone_image_def)
  qed
  thus "content (clone_image c') = content c' \<longleftrightarrow>
       list_all (\<lambda>e. vc_Provider (ve_Config e) = ''aggregate'' \<or> \<not> empty_auto_disable (ve_Config e)) (cf_Vendors c')"
    by (simp add: content_refilled list_all_iff)
qed

definition cleared_config :: Config where
  "cleared_config = sample_config\<lparr>cf_Vendors :=
     [\<lparr>ve_ID = ''v_1'', ve_Name = ''up'', ve_Config = sample_vendor_config\<lparr>vc_CodesNil := False, vc_KeywordsNil := False\<rparr>\<rparr>]\<rparr>"

definition cleared_accepted :: Config where
  "cleared_accepted = (case prepare sample_env (\<lambda>_. None) True cleared_config of Inr c \<Rightarrow> c | Inl _ \<Rightarrow> cleared_config)"

definition sample_yaml :: yaml_lib where
  "sample_yaml = \<lparr>yl_probe = (\<lambda>_. Inr (Some 3)), yl_decode = (\<lambda>_. Inr (yaml_image cleared_accepted)),
     yl_storage = (\<lambda>_. Inr (cf_Storage cleared_accepted)), yl_encode = (\<lambda>_. Inr ''x''), yl_zero = sample_config\<rparr>"

theorem clone_keeps_config_witness:
  "Clone sample_env sample_yaml (\<lambda>_. None) cleared_accepted = Inr (clone_image cleared_accepted) \<and>
   content (clone_image cleared_accepted) \<noteq> content cleared_accepted"
proof -
  have prep: "prepare sample_env (\<lambda>_. None) True cleared_config = Inr cleared_accepted" by code_simp
  have yaml: "yaml_keeps sample_yaml cleared_accepted" by (simp add: yaml_keeps_def sample_yaml_def)
  have "\<not> list_all (\<lambda>e. vc_Provider (ve_Config e) = ''aggregate'' \<or> \<not> empty_auto_disable (ve_Config e)) (cf_Vendors cleared_accepted)"
    by code_simp
  with clone_keeps_config [OF prep yaml, of "\<lambda>_. None"] show ?thesis by simp
qed

section \<open>What the environment may change\<close>

lemma run_overrides_append: "run_overrides (fs @ gs) c = (case run_overrides fs c of Inl err \<Rightarrow> Inl err | Inr c \<Rightarrow> run_overrides gs c)"
  by (induction fs arbitrary: c) (auto split: sum.splits)

text \<open>A step keeps a view of the configuration when its result, if any, has the same view.\<close>

definition keeps :: "(Config \<Rightarrow> 'v) \<Rightarrow> override \<Rightarrow> bool" where
  "keeps view f = (\<forall>c c'. f c = Inr c' \<longrightarrow> view c' = view c)"

lemma keeps_run: "list_all (keeps view) fs \<Longrightarrow> run_overrides fs c = Inr c' \<Longrightarrow> view c' = view c"
  by (induction fs arbitrary: c) (auto simp: keeps_def split: sum.splits)

lemma keeps_set_if [intro]: "(\<And>x c. view (upd x c) = view c) \<Longrightarrow> keeps view (set_if v upd)"
  by (auto simp: keeps_def set_if_def split: option.splits)

lemma keeps_try_set [intro]: "(\<And>x c. view (upd x c) = view c) \<Longrightarrow> keeps view (try_set r upd)"
  by (auto simp: keeps_def try_set_def set_if_def split: option.splits sum.splits)

lemmas override_defs = server_overrides_def admin_overrides_def shared_storage_overrides_def config_store_overrides_def key_store_overrides_def

abbreviation credentials :: "AdminConfig \<Rightarrow> string \<times> string" where
  "credentials a \<equiv> (am_Password a, am_PasswordHash a)"

lemma overrides_vendors:
  "list_all (keeps cf_Vendors) (server_overrides l @ admin_overrides env l @ shared_storage_overrides env l @
     config_store_overrides env l @ key_store_overrides env l)"
  by (simp add: override_defs keeps_set_if keeps_try_set) (simp add: keeps_def)

lemma overrides_credentials_before:
  "list_all (keeps (\<lambda>c. credentials (cf_Admin c))) (server_overrides l @ take 2 (admin_overrides env l))"
  by (simp add: override_defs keeps_set_if keeps_try_set)

lemma overrides_credentials_after:
  "list_all (keeps (\<lambda>c. credentials (cf_Admin c))) (drop 3 (admin_overrides env l) @ shared_storage_overrides env l @
     config_store_overrides env l @ key_store_overrides env l)"
  by (simp add: override_defs keeps_set_if keeps_try_set)

lemma overrides_config_dsn:
  "list_all (keeps (\<lambda>c. cp_DSN (cs_PGSQL (st_Config (cf_Storage c))))) (tl (config_store_overrides env l) @ key_store_overrides env l)"
  by (simp add: override_defs keeps_set_if keeps_try_set)

lemma HasCredentials_credentials: "credentials a = credentials b \<Longrightarrow> HasCredentials a = HasCredentials b"
  by (simp add: HasCredentials_def)

lemma credential_override_credentials:
  "credentials a = credentials b \<Longrightarrow> credentials (credential_override l a) = credentials (credential_override l b)"
  by (auto simp: credential_override_def HasCredentials_def Let_def split: option.splits)

text \<open>Environment variables never replace what an operator has configured where they only seed: the vendors stay as
  they are, an administrator password or hash that is set is kept, and when none is set the hash variable
  wins over the password variable.  A variable for the configuration store alone wins over the one for
  both stores.\<close>

theorem env_overrides_precedence:
  assumes "ApplyCriticalEnvOverrides env (Some lookup) c = Inr c'"
  shows "cf_Vendors c' = cf_Vendors c \<and>
    credentials (cf_Admin c') = credentials (credential_override lookup (cf_Admin c)) \<and>
    (HasCredentials (cf_Admin c) \<longrightarrow> credentials (cf_Admin c') = credentials (cf_Admin c)) \<and>
    (lookupEnvValue lookup [''JC_PROXY_STORAGE_CONFIG_PGSQL_DSN''] = Some dsn \<longrightarrow>
       cp_DSN (cs_PGSQL (st_Config (cf_Storage c'))) = dsn)"
proof -
  define before where "before = server_overrides lookup @ take 2 (admin_overrides env lookup)"
  define after where "after = drop 3 (admin_overrides env lookup) @ shared_storage_overrides env lookup @
     config_store_overrides env lookup @ key_store_overrides env lookup"
  let ?cred = "\<lambda>c. Inr (on_admin (credential_override lookup) c)"
  have "server_overrides lookup @ admin_overrides env lookup @ shared_storage_overrides env lookup @
     config_store_overrides env lookup @ key_store_overrides env lookup = before @ ?cred # after"
    by (simp add: before_def after_def admin_overrides_def)
  hence run: "run_overrides (before @ ?cred # after) c = Inr c'"
    using assms by (simp add: ApplyCriticalEnvOverrides_def)
  then obtain c1 where c1: "run_overrides before c = Inr c1" and c2: "run_overrides after (on_admin (credential_override lookup) c1) = Inr c'"
    by (auto simp: run_overrides_append split: sum.splits)
  have "credentials (cf_Admin c1) = credentials (cf_Admin c)"
    using keeps_run [OF overrides_credentials_before, of lookup env c c1] c1 by (simp add: before_def)
  moreover have "credentials (cf_Admin c') = credentials (credential_override lookup (cf_Admin c1))"
    using keeps_run [OF overrides_credentials_after, of env lookup _ c'] c2 by (simp add: after_def)
  ultimately have cred: "credentials (cf_Admin c') = credentials (credential_override lookup (cf_Admin c))"
    using credential_override_credentials by metis
  have vendors: "cf_Vendors c' = cf_Vendors c"
    using keeps_run [OF overrides_vendors, of lookup env c c'] assms by (simp add: ApplyCriticalEnvOverrides_def)
  have "cp_DSN (cs_PGSQL (st_Config (cf_Storage c'))) = dsn"
    if dsn: "lookupEnvValue lookup [''JC_PROXY_STORAGE_CONFIG_PGSQL_DSN''] = Some dsn"
  proof -
    define pre where "pre = server_overrides lookup @ admin_overrides env lookup @ shared_storage_overrides env lookup"
    have "run_overrides (pre @ config_store_overrides env lookup @ key_store_overrides env lookup) c = Inr c'"
      using assms by (simp add: ApplyCriticalEnvOverrides_def pre_def)
    then obtain c3 where "run_overrides (config_store_overrides env lookup @ key_store_overrides env lookup) c3 = Inr c'"
      by (auto simp: run_overrides_append split: sum.splits)
    hence "run_overrides (tl (config_store_overrides env lookup) @ key_store_overrides env lookup) (on_cp (\<lambda>p. p\<lparr>cp_DSN := dsn\<rparr>) c3) = Inr c'"
      by (simp add: config_store_overrides_def set_if_def dsn)
    from keeps_run [OF overrides_config_dsn this] show ?thesis by simp
  qed
  thus ?thesis using cred vendors by (auto simp: credential_override_def)
qed

definition sample_lookup :: envLookup where
  "sample_lookup key = (if key = ''JC_PROXY_ADMIN_PASSWORD'' then Some ''pw'' else if key = ''JC_PROXY_ADMIN_PASSWORD_HASH'' then Some ''h''
     else if key = ''DATABASE_URL'' then Some ''pg://shared'' else if key = ''JC_PROXY_STORAGE_CONFIG_PGSQL_DSN'' then Some ''pg://cfg''
     else if key = ''PORT'' then Some ''80'' else None)"

definition sample_overridden :: Config where
  "sample_overridden = (case ApplyCriticalEnvOverrides sample_env (Some sample_lookup) sample_config of Inr c \<Rightarrow> c | Inl _ \<Rightarrow> sample_config)"

theorem env_overrides_precedence_witness:
  "ApplyCriticalEnvOverrides sample_env (Some sample_lookup) sample_config = Inr sample_overridden \<and>
   credentials (cf_Admin sample_overridden) = ([], ''h'') \<and>
   cp_DSN (cs_PGSQL (st_Config (cf_Storage sample_overridden))) = ''pg://cfg''"
proof -
  have ok: "ApplyCriticalEnvOverrides sample_env (Some sample_lookup) sample_config = Inr sample_overridden" by code_simp
  have dsn: "lookupEnvValue sample_lookup [''JC_PROXY_STORAGE_CONFIG_PGSQL_DSN''] = Some ''pg://cfg''" by code_simp
  have "credentials (credential_override sample_lookup (cf_Admin sample_config)) = ([], ''h'')" by code_simp
  with env_overrides_precedence [OF ok, of "''pg://cfg''"] ok dsn show ?thesis by simp
qed

end
