(* ===== verification/RouterBuild.thy ===== *)
theory RouterBuild
  imports ConfigLoad UrlPath StatsPersist PoolShare
begin

text \<open>
  The construction of a router from a configuration and the stored keys (\<open>internal/gateway/gateway.go\<close>), the
  transports it shares (\<open>transport_manager.go\<close>), and the run-time that swaps routers while requests are
  in flight (\<open>runtime.go\<close>).  A map from ids or names is an association list in configuration order; the key
  pools and aggregate pools of the gateways are kept by vendor id, as the request path reads them.
\<close>

section \<open>Structures\<close>

record base_url =
  bu_Scheme :: string
  bu_Host :: string
  bu_Fragment :: string
  bu_url :: go_url

text \<open>\<open>url.Parse\<close>, its use by \<open>internal/resin\<close>, and the digest of \<open>KeyID\<close>.\<close>

record build_env =
  be_cfg :: cfg_env
  be_parseBase :: "string \<Rightarrow> cfg_error + base_url"
  be_parse :: "string \<Rightarrow> string + parsed_url"
  be_sha256 :: "string \<Rightarrow> nat list"

definition KeyID :: "(string \<Rightarrow> nat list) \<Rightarrow> string \<Rightarrow> string" where
  "KeyID sha256 key = (let key = trim_space key in if key = [] then [] else hex_bytes (take 16 (sha256 key)))"

text \<open>What a gateway needs to reach its upstream, beside the settings of \<^typ>\<open>vendorGateway\<close>.\<close>

record upstream_target =
  ut_baseURL :: go_url
  ut_baseURLPrefix :: string
  ut_rewrites :: rewriteMatcher
  ut_resin :: "RuntimeConfig option"
  ut_uploadTimeout :: duration
  ut_bodyTimeout :: duration
  ut_interimInterval :: duration
  ut_transport :: nat

record Router =
  ro_vendors :: "(string \<times> vendorGateway) list"
  ro_vendorsByID :: "(string \<times> vendorGateway) list"
  ro_pools :: "(string \<times> Pool) list"
  ro_aggs :: "(string \<times> aggregatePool) list"
  ro_targets :: "(string \<times> upstream_target) list"
  ro_consoleEnabled :: bool
  ro_adminCIDRs :: "prefix list"
  ro_adminTrustedProxyCIDRs :: "prefix list"

section \<open>Transports\<close>

text \<open>The transports by their response header timeout; \<open>tm_next\<close> is the next object.\<close>

record transportManager =
  tm_transports :: "(duration \<times> nat) list"
  tm_next :: nat

definition upstreamResponseHeaderTimeout :: "UpstreamConfig \<Rightarrow> duration" where
  "upstreamResponseHeaderTimeout u = (case up_ResponseHeaderTimeout u of None \<Rightarrow> 0 | Some d \<Rightarrow> d)"

definition upstreamInterimInterval :: "UpstreamConfig \<Rightarrow> duration" where
  "upstreamInterimInterval u = (case up_InterimResponseInterval u of None \<Rightarrow> 0 | Some d \<Rightarrow> d)"

definition Transport :: "UpstreamConfig \<Rightarrow> transportManager \<Rightarrow> nat \<times> transportManager" where
  "Transport u m =
     (let key = upstreamResponseHeaderTimeout u in
      case map_of (tm_transports m) key of
        Some t \<Rightarrow> (t, m)
      | None \<Rightarrow> (tm_next m, m\<lparr>tm_transports := AList.update key (tm_next m) (tm_transports m), tm_next := tm_next m + 1\<rparr>))"

definition Retain :: "nat set \<Rightarrow> transportManager \<Rightarrow> transportManager" where
  "Retain active m = m\<lparr>tm_transports := filter (\<lambda>(key, t). t \<in> active) (tm_transports m)\<rparr>"

definition upstreamTransports :: "Router \<Rightarrow> nat set" where
  "upstreamTransports r = (\<lambda>(v, t). ut_transport t) ` set (ro_targets r)"

section \<open>Vendor gateways\<close>

text \<open>What building changes: the statistics registry, the shared objects and the transports.\<close>

record build_state =
  bs_registry :: registry
  bs_heap :: heap
  bs_transports :: transportManager

fun key_configs :: "string \<Rightarrow> key_record list \<Rightarrow> build_state \<Rightarrow> KeyConfig list \<times> build_state" where
  "key_configs vendorID [] bs = ([], bs)"
| "key_configs vendorID (rec # recs) bs =
     (let (a, r, hp) = reg_Handle vendorID (rec_Key rec) (rec_Stats rec) (bs_registry bs, bs_heap bs);
          (rest, bs) = key_configs vendorID recs (bs\<lparr>bs_registry := r, bs_heap := hp\<rparr>)
      in (\<lparr>kc_Key = rec_Key rec, kc_Status = rec_Status rec, kc_DisableReason = rec_DisableReason rec,
           kc_DisabledAt = rec_DisabledAt rec, kc_DisabledBy = rec_DisabledBy rec, kc_RuntimeStats = rec_Stats rec,
           kc_Version = rec_Version rec, kc_Stats = Some a\<rparr> # rest, bs))"

definition client_auth_set :: "ClientAuthConfig \<Rightarrow> string list" where
  "client_auth_set ca = (if ca_Enabled ca then ca_Keys ca else [])"

definition base_error :: "build_env \<Rightarrow> VendorEntry \<Rightarrow> cfg_error + base_url" where
  "base_error env entry = (case be_parseBase env (trim_space (up_BaseURL (vc_Upstream (ve_Config entry)))) of
      Inl err \<Rightarrow> Inl (Wrapf ''vendor %s parse upstream base_url: %w'' [ve_Name entry] err)
    | Inr u \<Rightarrow> if (bu_Scheme u \<noteq> ''http'' \<and> bu_Scheme u \<noteq> ''https'') \<or> bu_Host u = [] \<or> bu_Fragment u \<noteq> []
        then Inl (Errorf ''vendor %s invalid upstream base_url (requires HTTP(S) without a fragment)'' [ve_Name entry]) else Inr u)"

definition resin_runtime :: "build_env \<Rightarrow> VendorEntry \<Rightarrow> cfg_error + RuntimeConfig option" where
  "resin_runtime env entry =
     (let r = vc_Resin (ve_Config entry) in
      if \<not> rs_Enabled r then Inr None
      else case ParseRuntime (be_parse env) (rs_URL r) (rs_Platform r) of
        Inl e \<Rightarrow> Inl (Wrapf ''vendor %s parse resin: %w'' [ve_Name entry] (Errorf e []))
      | Inr rc \<Rightarrow> Inr rc)"

definition zero_retry :: AggregateRetryConfig where
  "zero_retry = \<lparr>rc_Enabled = None, rc_MaxAttempts = 0, rc_RateLimit = None, rc_ServerError = None, rc_NetworkError = None,
     rc_StatusCodes = []\<rparr>"

text \<open>The upload timeout is a pointer the code dereferences; it is set once the defaults are filled in.\<close>

definition buildVendorGateway ::
  "build_env \<Rightarrow> time \<Rightarrow> VendorEntry \<Rightarrow> record_map \<Rightarrow> build_state \<Rightarrow>
     (cfg_error + (vendorGateway \<times> Pool \<times> upstream_target)) \<times> build_state" where
  "buildVendorGateway env now entry upstreamKeys bs =
     (let name = ve_Name entry; vendorID = ve_ID entry; vendor = ve_Config entry in
      case base_error env entry of
        Inl err \<Rightarrow> (Inl err, bs)
      | Inr u \<Rightarrow>
          let (keyConfigs, bs) = key_configs vendorID (vendor_records upstreamKeys vendorID) bs in
          case NewPoolWithConfigs now (vc_LoadBalance vendor) keyConfigs (bs_heap bs) of
            (None, hp) \<Rightarrow> (Inl (Errorf ''vendor %s init key pool: %w'' [name]), bs\<lparr>bs_heap := hp\<rparr>)
          | (Some pool, hp) \<Rightarrow>
              let (transport, tm) = Transport (vc_Upstream vendor) (bs_transports bs);
                  bs = bs\<lparr>bs_heap := hp, bs_transports := tm\<rparr> in
              case resin_runtime env entry of
                Inl err \<Rightarrow> (Inl err, bs)
              | Inr rr \<Rightarrow>
                  (Inr (\<lparr>vg_id = vendorID, vg_name = name, vg_provider = NormalizeProvider (vc_Provider vendor) name,
                         vg_managedKeyCount = int (length keyConfigs), vg_clientAuth = client_auth_set (vc_ClientAuth vendor),
                         vg_allowlist = headerNameSet (ResolveClientHeaderAllowlist (vc_ClientHeaders vendor)),
                         vg_dropHeaders = headerNameSet (ResolveClientHeaderDropList (vc_ClientHeaders vendor)),
                         vg_injectHeaders = vc_InjectedHeader vendor, vg_upstreamAuth = vc_UpstreamAuth vendor,
                         vg_errorPolicy = vc_ErrorPolicy vendor, vg_maxAttemptsBudget = vc_MaxUpstreamAttempts vendor,
                         vg_resin = (rr \<noteq> None), vg_isAggregate = False, vg_aggRetry = zero_retry\<rparr>,
                        pool,
                        \<lparr>ut_baseURL = bu_url u, ut_baseURLPrefix = url_String (bu_url u),
                         ut_rewrites = newRewriteMatcher (vc_PathRewrites vendor), ut_resin = rr,
                         ut_uploadTimeout = (case up_UploadTimeout (vc_Upstream vendor) of None \<Rightarrow> 0 | Some d \<Rightarrow> d),
                         ut_bodyTimeout = up_BodyTimeout (vc_Upstream vendor),
                         ut_interimInterval = upstreamInterimInterval (vc_Upstream vendor), ut_transport = transport\<rparr>), bs))"

section \<open>Router\<close>

definition is_aggregate :: "VendorEntry \<Rightarrow> bool" where
  "is_aggregate e = (NormalizeProvider (vc_Provider (ve_Config e)) (ve_Name e) = ''aggregate'')"

fun first_pass ::
  "build_env \<Rightarrow> time \<Rightarrow> record_map \<Rightarrow> VendorEntry list \<Rightarrow> Router \<Rightarrow> build_state \<Rightarrow> (cfg_error + Router) \<times> build_state" where
  "first_pass env now keys [] r bs = (Inr r, bs)"
| "first_pass env now keys (e # es) r bs =
     (if is_aggregate e then first_pass env now keys es r bs
      else case buildVendorGateway env now e keys bs of
        (Inl err, bs) \<Rightarrow> (Inl err, bs)
      | (Inr (vg, pool, target), bs) \<Rightarrow>
          first_pass env now keys es
            (r\<lparr>ro_vendors := AList.update (ve_Name e) vg (ro_vendors r), ro_vendorsByID := AList.update (ve_ID e) vg (ro_vendorsByID r),
               ro_pools := AList.update (ve_ID e) pool (ro_pools r), ro_targets := AList.update (ve_ID e) target (ro_targets r)\<rparr>) bs)"

definition allowed_indexes :: "build_env \<Rightarrow> string list \<Rightarrow> Pool \<Rightarrow> heap \<Rightarrow> int list" where
  "allowed_indexes env keyIDs pool hp =
     map (\<lambda>(i, st). int i) (filter (\<lambda>(i, st). KeyID (be_sha256 env) (ks_Key st) \<in> set keyIDs) (List.enumerate 0 (Snapshot pool hp)))"

definition child_entry :: "build_env \<Rightarrow> heap \<Rightarrow> Router \<Rightarrow> string \<Rightarrow> nat \<Rightarrow> AggregateChild \<Rightarrow> cfg_error + aggregateChildEntry" where
  "child_entry env hp r name i child =
     (case map_of (ro_vendorsByID r) (ac_VendorID child) of
        None \<Rightarrow> Inl (Errorf ''vendor %s aggregate child %q not found'' [name, ac_VendorID child])
      | Some childVG \<Rightarrow>
          Inr \<lparr>ce_id = ac_VendorID child @ ''#'' @ itoa (int i), ce_vendorID = ac_VendorID child, ce_name = vg_name childVG,
               ce_vendor = Some childVG, ce_weight = ac_Weight child, ce_priority = ac_Priority child,
               ce_keyIdxs = (if ac_KeyIDs child = [] then None
                 else map_option (\<lambda>pool. allowed_indexes env (ac_KeyIDs child) pool hp) (map_of (ro_pools r) (ac_VendorID child)))\<rparr>)"

fun sequence_sum :: "('e + 'a) list \<Rightarrow> 'e + 'a list" where
  "sequence_sum [] = Inr []"
| "sequence_sum (x # xs) = (case x of Inl e \<Rightarrow> Inl e | Inr y \<Rightarrow> (case sequence_sum xs of Inl e \<Rightarrow> Inl e | Inr ys \<Rightarrow> Inr (y # ys)))"

definition empty_policy :: ErrorPolicyConfig where
  "empty_policy =
     (let rule = \<lparr>cr_Enabled = None, cr_Duration = 0\<rparr> in
      \<lparr>ep_AutoDisable = \<lparr>ad_Enabled = None, ad_StatusCodes = [], ad_Keywords = []\<rparr>,
       ep_Cooldown = \<lparr>cd_RequestError = rule, cd_Unauthorized = rule, cd_PaymentRequired = rule, cd_Forbidden = rule,
         cd_RateLimit = rule, cd_ServerError = rule, cd_OpenAISlowDown = rule, cd_NoDefaultBackoff = False, cd_ResponseRules = []\<rparr>,
       ep_Failover = \<lparr>fo_RequestError = None, fo_Unauthorized = None, fo_PaymentRequired = None, fo_Forbidden = None,
         fo_RateLimit = None, fo_ServerError = None, fo_ResponseStatusCodes = [], fo_MaxAttempts = 0\<rparr>,
       ep_Masking = \<lparr>mk_Enabled = None, mk_Rules = []\<rparr>\<rparr>)"

definition aggregate_gateway :: "VendorEntry \<Rightarrow> vendorGateway" where
  "aggregate_gateway e =
     (let vendor = ve_Config e in
      \<lparr>vg_id = ve_ID e, vg_name = ve_Name e, vg_provider = ''aggregate'', vg_managedKeyCount = 0,
       vg_clientAuth = client_auth_set (vc_ClientAuth vendor), vg_allowlist = [], vg_dropHeaders = [], vg_injectHeaders = [],
       vg_upstreamAuth = \<lparr>ua_Mode = [], ua_Header = [], ua_Prefix = []\<rparr>, vg_errorPolicy = empty_policy,
       vg_maxAttemptsBudget = vc_MaxUpstreamAttempts vendor, vg_resin = False, vg_isAggregate = True,
       vg_aggRetry = gc_Retry (vc_Aggregate vendor)\<rparr>)"

fun second_pass :: "build_env \<Rightarrow> heap \<Rightarrow> VendorEntry list \<Rightarrow> Router \<Rightarrow> cfg_error + Router" where
  "second_pass env hp [] r = Inr r"
| "second_pass env hp (e # es) r =
     (if \<not> is_aggregate e then second_pass env hp es r
      else case sequence_sum (map (\<lambda>(i, child). child_entry env hp r (ve_Name e) i child)
                 (List.enumerate 0 (gc_Children (vc_Aggregate (ve_Config e))))) of
        Inl err \<Rightarrow> Inl err
      | Inr entries \<Rightarrow>
          second_pass env hp es
            (r\<lparr>ro_vendors := AList.update (ve_Name e) (aggregate_gateway e) (ro_vendors r),
               ro_vendorsByID := AList.update (ve_ID e) (aggregate_gateway e) (ro_vendorsByID r),
               ro_aggs := AList.update (ve_ID e) (newAggregatePool (vc_LoadBalance (ve_Config e)) entries) (ro_aggs r)\<rparr>))"

definition newRouterWithUpstreamKeyRecords ::
  "build_env \<Rightarrow> time \<Rightarrow> (nat \<Rightarrow> nat list option) \<Rightarrow> Config \<Rightarrow> record_map \<Rightarrow> build_state \<Rightarrow> (cfg_error + Router) \<times> build_state" where
  "newRouterWithUpstreamKeyRecords env now rand cfg upstreamKeys bs =
     (case PrepareBootstrap (be_cfg env) rand cfg of
        Inl err \<Rightarrow> (Inl err, bs)
      | Inr cfg \<Rightarrow>
          (case parseCIDRs (ce_net (be_cfg env)) (am_AllowedCIDRs (cf_Admin cfg)) of
             Inl txt \<Rightarrow> (Inl (Wrapf ''parse admin allowed cidrs: %w'' [] (Errorf ''parse %q: %w'' [txt])), bs)
           | Inr adminCIDRs \<Rightarrow>
               (case parseCIDRs (ce_net (be_cfg env)) (am_TrustedProxyCIDRs (cf_Admin cfg)) of
                  Inl txt \<Rightarrow> (Inl (Wrapf ''parse admin trusted proxy cidrs: %w'' [] (Errorf ''parse %q: %w'' [txt])), bs)
                | Inr trusted \<Rightarrow>
                    (case first_pass env now upstreamKeys (cf_Vendors cfg)
                       \<lparr>ro_vendors = [], ro_vendorsByID = [], ro_pools = [], ro_aggs = [], ro_targets = [],
                        ro_consoleEnabled = am_Enabled (cf_Admin cfg), ro_adminCIDRs = adminCIDRs,
                        ro_adminTrustedProxyCIDRs = trusted\<rparr> bs of
                       (Inl err, bs) \<Rightarrow> (Inl err, bs)
                     | (Inr r, bs) \<Rightarrow> (second_pass env (bs_heap bs) (cf_Vendors cfg) r, bs)))))"

definition VendorStateSnapshots :: "Router \<Rightarrow> heap \<Rightarrow> (string \<times> KeyState list) list" where
  "VendorStateSnapshots r hp = map (\<lambda>(v, pool). (v, Snapshot pool hp)) (ro_pools r)"

fun share_pools :: "(string \<times> Pool) list \<Rightarrow> (string \<times> Pool) list \<Rightarrow> heap \<Rightarrow> (string \<times> Pool) list \<times> heap" where
  "share_pools prev [] hp = ([], hp)"
| "share_pools prev ((v, pool) # ps) hp =
     (let (pool, hp) = ShareRuntimeStateFrom (map_of prev v) pool hp; (ps, hp) = share_pools prev ps hp in ((v, pool) # ps, hp))"

definition retire_pools :: "(string \<times> vendorGateway) list \<Rightarrow> (string \<times> Pool) list \<Rightarrow> heap \<Rightarrow> heap" where
  "retire_pools vendorsByID prev hp = fold (\<lambda>(v, pool) hp. if map_of vendorsByID v = None then Retire pool hp else hp) prev hp"

definition router_ShareRuntimeStateFrom :: "Router \<Rightarrow> Router \<Rightarrow> heap \<Rightarrow> Router \<times> heap" where
  "router_ShareRuntimeStateFrom prev r hp =
     (let (pools, hp) = share_pools (ro_pools prev) (ro_pools r) hp
      in (r\<lparr>ro_pools := pools\<rparr>, retire_pools (ro_vendorsByID r) (ro_pools prev) hp))"

definition router_RecoverUpstreamKey :: "string \<Rightarrow> string \<Rightarrow> Router \<Rightarrow> heap \<Rightarrow> bool \<times> heap" where
  "router_RecoverUpstreamKey vendorID key r hp = (case map_of (ro_pools r) (trim_space vendorID) of
      None \<Rightarrow> (False, hp) | Some pool \<Rightarrow> RecoverKey key pool hp)"

section \<open>Run-time\<close>

record Runtime =
  rn_router :: Router
  rn_cfg :: Config
  rn_build :: build_state

text \<open>\<open>ListAll\<close> of the key source: an error or the records.\<close>

definition buildRouter ::
  "build_env \<Rightarrow> time \<Rightarrow> (nat \<Rightarrow> nat list option) \<Rightarrow> cfg_error + record_map \<Rightarrow> Config \<Rightarrow> build_state \<Rightarrow> (cfg_error + Router) \<times> build_state" where
  "buildRouter env now rand listAll cfg bs = (case listAll of
      Inl err \<Rightarrow> (Inl (Wrapf ''load upstream keys: %w'' [] err), bs)
    | Inr keys \<Rightarrow> newRouterWithUpstreamKeyRecords env now rand cfg keys bs)"

definition updateLocked ::
  "build_env \<Rightarrow> yaml_lib \<Rightarrow> time \<Rightarrow> (nat \<Rightarrow> nat list option) \<Rightarrow> cfg_error + record_map \<Rightarrow> Config \<Rightarrow> (Config \<Rightarrow> 'p \<Rightarrow> cfg_error option \<times> 'p) \<Rightarrow>
     'p \<times> Runtime \<Rightarrow> cfg_error option \<times> 'p \<times> Runtime" where
  "updateLocked env yl now rand listAll cfg persist st =
     (let (p, rt) = st in
      case Clone (be_cfg env) yl rand cfg of
        Inl err \<Rightarrow> (Some err, p, rt)
      | Inr cloned \<Rightarrow>
          let prev = rn_router rt; keep = (\<lambda>bs. bs\<lparr>bs_transports := Retain (upstreamTransports prev) (bs_transports bs)\<rparr>) in
          (case buildRouter env now rand listAll cloned (rn_build rt) of
             (Inl err, bs) \<Rightarrow> (Some (Wrapf ''rebuild router: %w'' [] err), p, rt\<lparr>rn_build := keep bs\<rparr>)
           | (Inr r, bs) \<Rightarrow>
               (case persist cloned p of
                  (Some err, p) \<Rightarrow> (Some err, p, rt\<lparr>rn_build := keep bs\<rparr>)
                | (None, p) \<Rightarrow>
                    let (r, hp) = router_ShareRuntimeStateFrom prev r (bs_heap bs);
                        bs = bs\<lparr>bs_heap := hp, bs_transports := Retain (upstreamTransports r) (bs_transports bs)\<rparr>
                    in (None, p, \<lparr>rn_router = r, rn_cfg = cloned, rn_build = bs\<rparr>))))"

abbreviation no_persist :: "Config \<Rightarrow> 'p \<Rightarrow> cfg_error option \<times> 'p" where
  "no_persist \<equiv> \<lambda>_ p. (None, p)"

definition RefreshKeys ::
  "build_env \<Rightarrow> yaml_lib \<Rightarrow> time \<Rightarrow> (nat \<Rightarrow> nat list option) \<Rightarrow> cfg_error + record_map \<Rightarrow> Runtime \<Rightarrow> cfg_error option \<times> Runtime" where
  "RefreshKeys env yl now rand listAll rt =
     (case updateLocked env yl now rand listAll (rn_cfg rt) no_persist ((), rt) of (e, u, rt) \<Rightarrow> (e, rt))"

definition NewRuntime ::
  "build_env \<Rightarrow> yaml_lib \<Rightarrow> time \<Rightarrow> (nat \<Rightarrow> nat list option) \<Rightarrow> cfg_error + record_map \<Rightarrow> Config \<Rightarrow> heap \<Rightarrow> cfg_error + Runtime" where
  "NewRuntime env yl now rand listAll cfg hp = (case Clone (be_cfg env) yl rand cfg of
      Inl err \<Rightarrow> Inl err
    | Inr cloned \<Rightarrow>
        (case buildRouter env now rand listAll cloned
           \<lparr>bs_registry = [], bs_heap = hp, bs_transports = \<lparr>tm_transports = [], tm_next = 0\<rparr>\<rparr> of
           (Inl err, bs) \<Rightarrow> Inl err
         | (Inr r, bs) \<Rightarrow> Inr \<lparr>rn_router = r, rn_cfg = cloned,
             rn_build = bs\<lparr>bs_transports := Retain (upstreamTransports r) (bs_transports bs)\<rparr>\<rparr>))"

end
