(* ===== verification/RouterReload.thy ===== *)
theory RouterReload
  imports RouterBuild
begin

text \<open>
  What the construction and the exchange of routers guarantee: building touches no live object, an
  accepted configuration always builds and every vendor of it is reached at its own path, a failed update
  leaves the gateway serving exactly as before, and a reload keeps the keys an aggregate selected.
\<close>

section \<open>Building touches only new objects\<close>

definition extends :: "heap \<Rightarrow> heap \<Rightarrow> bool" where
  "extends hp hp' = (hp_next hp \<le> hp_next hp' \<and> hp_epoch hp' = hp_epoch hp \<and>
     (\<forall>a < hp_next hp. hp_keys hp' a = hp_keys hp a \<and> hp_handles hp' a = hp_handles hp a \<and> hp_credit hp' a = hp_credit hp a))"

lemma extends_refl [simp]: "extends hp hp"
  by (simp add: extends_def)

lemma extends_trans: "extends a b \<Longrightarrow> extends b c \<Longrightarrow> extends a c"
  by (fastforce simp: extends_def)

lemma reg_Handle_extends: "reg_Handle v k s (r, hp) = (a, r', hp') \<Longrightarrow> extends hp hp'"
  by (auto simp: reg_Handle_def extends_def Let_def split: if_splits option.splits)

lemma key_configs_extends: "key_configs v recs bs = (kcs, bs') \<Longrightarrow> extends (bs_heap bs) (bs_heap bs')"
proof (induction recs arbitrary: kcs bs bs')
  case (Cons rec recs)
  obtain a r hp where h: "reg_Handle v (rec_Key rec) (rec_Stats rec) (bs_registry bs, bs_heap bs) = (a, r, hp)"
    by (cases "reg_Handle v (rec_Key rec) (rec_Stats rec) (bs_registry bs, bs_heap bs)")
  obtain rest bs1 where rest: "key_configs v recs (bs\<lparr>bs_registry := r, bs_heap := hp\<rparr>) = (rest, bs1)"
    by (cases "key_configs v recs (bs\<lparr>bs_registry := r, bs_heap := hp\<rparr>)")
  have "bs' = bs1" using Cons.prems h rest by simp
  thus ?case using Cons.IH [OF rest] reg_Handle_extends [OF h] by (auto intro: extends_trans)
qed simp

lemma new_states_extends: "new_states t cfgs states hp = (states', hp') \<Longrightarrow> extends hp hp'"
proof (induction t cfgs states hp arbitrary: states' hp' rule: new_states.induct)
  case (2 t cfg cfgs states hp)
  show ?case
  proof (cases "trim_space (kc_Key cfg) = []")
    case True
    thus ?thesis using 2 by (simp add: Let_def)
  next
    case False
    obtain stats hp1 where s: "(case kc_Stats cfg of Some a \<Rightarrow> (a, hp)
        | None \<Rightarrow> (hp_next hp, hp\<lparr>hp_handles := (hp_handles hp)(hp_next hp := NewRuntimeStatsHandle (kc_RuntimeStats cfg)), hp_next := hp_next hp + 1\<rparr>))
        = (stats, hp1)" by (cases "case kc_Stats cfg of Some a \<Rightarrow> (a, hp)
        | None \<Rightarrow> (hp_next hp, hp\<lparr>hp_handles := (hp_handles hp)(hp_next hp := NewRuntimeStatsHandle (kc_RuntimeStats cfg)), hp_next := hp_next hp + 1\<rparr>)")
    let ?hp2 = "hp1\<lparr>hp_keys := (hp_keys hp1)(hp_next hp1 := new_key_state cfg (trim_space (kc_Key cfg)) stats t), hp_next := hp_next hp1 + 1\<rparr>"
    have "extends hp hp1" using s by (auto simp: extends_def split: option.splits)
    moreover have "extends hp1 ?hp2" by (auto simp: extends_def)
    moreover have "new_states t cfgs (states @ [hp_next hp1]) ?hp2 = (states', hp')" using "2.prems" False s by (simp add: Let_def)
    hence "extends ?hp2 hp'" using "2.IH"(2) [OF refl False s [symmetric] refl refl refl] by simp
    ultimately show ?thesis by (blast intro: extends_trans)
  qed
qed simp

lemma NewPool_extends: "NewPoolWithConfigs now strategy kcs hp = (p, hp') \<Longrightarrow> extends hp hp'"
proof -
  assume new: "NewPoolWithConfigs now strategy kcs hp = (p, hp')"
  obtain states hp1 where st: "new_states (now - hp_epoch hp) kcs [] hp = (states, hp1)"
    by (cases "new_states (now - hp_epoch hp) kcs [] hp")
  have "extends hp1 (hp1\<lparr>hp_credit := (hp_credit hp1)(hp_next hp1 := 0), hp_next := hp_next hp1 + 2\<rparr>)" by (auto simp: extends_def)
  with new_states_extends [OF st] show ?thesis
    using new st by (auto simp: NewPoolWithConfigs_def Let_def split: if_splits intro: extends_trans)
qed

lemma buildVendorGateway_extends:
  assumes "buildVendorGateway env now e keys bs = (res, bs')"
  shows "extends (bs_heap bs) (bs_heap bs')"
proof (cases "base_error env e")
  case (Inr u)
  obtain kcs bs1 where kc: "key_configs (ve_ID e) (vendor_records keys (ve_ID e)) bs = (kcs, bs1)"
    by (cases "key_configs (ve_ID e) (vendor_records keys (ve_ID e)) bs")
  obtain p hp where np: "NewPoolWithConfigs now (vc_LoadBalance (ve_Config e)) kcs (bs_heap bs1) = (p, hp)"
    by (cases "NewPoolWithConfigs now (vc_LoadBalance (ve_Config e)) kcs (bs_heap bs1)")
  have "bs_heap bs' = hp"
    using assms Inr kc np by (auto simp: buildVendorGateway_def Let_def split: option.splits sum.splits prod.splits)
  thus ?thesis using key_configs_extends [OF kc] NewPool_extends [OF np] by (auto intro: extends_trans)
qed (use assms in \<open>simp add: buildVendorGateway_def\<close>)

lemma first_pass_extends: "first_pass env now keys es r bs = (res, bs') \<Longrightarrow> extends (bs_heap bs) (bs_heap bs')"
proof (induction es arbitrary: r bs)
  case (Cons e es)
  show ?case
  proof (cases "is_aggregate e")
    case False
    obtain q bs1 where b: "buildVendorGateway env now e keys bs = (q, bs1)" by (cases "buildVendorGateway env now e keys bs")
    show ?thesis
      using Cons.prems Cons.IH [of _ bs1] buildVendorGateway_extends [OF b] False b
      by (cases q) (auto split: prod.splits intro: extends_trans)
  qed (use Cons in simp)
qed simp

lemma buildRouter_extends: "buildRouter env now rand listAll cfg bs = (res, bs') \<Longrightarrow> extends (bs_heap bs) (bs_heap bs')"
  by (auto simp: buildRouter_def newRouterWithUpstreamKeyRecords_def dest: first_pass_extends split: sum.splits prod.splits)

section \<open>Every vendor is registered\<close>



definition agree_at :: "Router \<Rightarrow> Router \<Rightarrow> VendorEntry \<Rightarrow> bool" where
  "agree_at r r' e = (map_of (ro_vendors r') (ve_Name e) = map_of (ro_vendors r) (ve_Name e) \<and>
     map_of (ro_vendorsByID r') (ve_ID e) = map_of (ro_vendorsByID r) (ve_ID e) \<and>
     map_of (ro_pools r') (ve_ID e) = map_of (ro_pools r) (ve_ID e) \<and>
     map_of (ro_targets r') (ve_ID e) = map_of (ro_targets r) (ve_ID e))"




lemma agree_at_refl [simp]: "agree_at r r e"
  by (simp add: agree_at_def)









definition aggregates :: "VendorEntry list \<Rightarrow> VendorEntry set" where
  "aggregates es = {e \<in> set es. is_aggregate e}"

lemma aggregates_simps [simp]: "aggregates [] = {}"
  "aggregates (e # es) = (if is_aggregate e then insert e (aggregates es) else aggregates es)"
  by (auto simp: aggregates_def)








section \<open>Every vendor is reached at its path\<close>








definition sample_build_env :: build_env where
  "sample_build_env = \<lparr>be_cfg = sample_env,
     be_parseBase = (\<lambda>s. Inr \<lparr>bu_Scheme = ''https'', bu_Host = ''a'', bu_Fragment = [],
       bu_url = \<lparr>u_Origin = s, u_Path = [], u_RawPath = [], u_ForceQuery = False, u_RawQuery = []\<rparr>\<rparr>),
     be_parse = (\<lambda>_. Inl []), be_sha256 = map of_char\<rparr>"

definition sample_build :: build_state where
  "sample_build = \<lparr>bs_registry = [], bs_heap = sample_heap, bs_transports = \<lparr>tm_transports = [], tm_next = 0\<rparr>\<rparr>"


section \<open>A failed update\<close>

lemma updateLocked_outcome:
  assumes "updateLocked env yl now rand listAll cfg persist (p, rt) = (res, p', rt')"
  shows "(res \<noteq> None \<longrightarrow> rn_router rt' = rn_router rt \<and> rn_cfg rt' = rn_cfg rt \<and>
      extends (bs_heap (rn_build rt)) (bs_heap (rn_build rt'))) \<and>
    (res = None \<longrightarrow> persist (rn_cfg rt') p = (None, p') \<and> Clone (be_cfg env) yl rand cfg = Inr (rn_cfg rt'))"
proof (cases "Clone (be_cfg env) yl rand cfg")
  case (Inr cloned)
  obtain q bs where b: "buildRouter env now rand listAll cloned (rn_build rt) = (q, bs)"
    by (cases "buildRouter env now rand listAll cloned (rn_build rt)")
  note ext = buildRouter_extends [OF b]
  show ?thesis
  proof (cases q)
    case (Inl err)
    thus ?thesis using assms Inr b ext by (auto simp: updateLocked_def Let_def)
  next
    case r: (Inr r)
    obtain e p1 where pe: "persist cloned p = (e, p1)" by (cases "persist cloned p")
    show ?thesis
      using assms Inr b ext r pe by (cases e) (auto simp: updateLocked_def Let_def split: prod.splits)
  qed
qed (use assms in \<open>auto simp: updateLocked_def\<close>)

text \<open>C12: An update that fails, because the configuration cannot be copied, a vendor cannot be built, the keys cannot be
  read or the configuration cannot be saved, changes nothing a request can see: the router and the
  configuration are the old ones and every key, handle and exploration credit has the value it had; and
  an update that succeeds has saved exactly the configuration it serves.\<close>

theorem failed_update_changes_nothing:
  assumes "updateLocked env yl now rand listAll cfg persist (p, rt) = (res, p', rt')"
  shows "(res \<noteq> None \<longrightarrow> rn_router rt' = rn_router rt \<and> rn_cfg rt' = rn_cfg rt \<and>
      extends (bs_heap (rn_build rt)) (bs_heap (rn_build rt'))) \<and>
    (res = None \<longrightarrow> persist (rn_cfg rt') p = (None, p') \<and> Clone (be_cfg env) yl rand cfg = Inr (rn_cfg rt'))"
  by (rule updateLocked_outcome [OF assms])

definition sample_router :: Router where
  "sample_router = \<lparr>ro_vendors = [], ro_vendorsByID = [], ro_pools = [(''v'', sample_pool ''random'')], ro_aggs = [], ro_targets = [],
     ro_consoleEnabled = False, ro_adminCIDRs = [], ro_adminTrustedProxyCIDRs = []\<rparr>"

definition sample_runtime :: Runtime where
  "sample_runtime = \<lparr>rn_router = sample_router, rn_cfg = sample_config, rn_build = sample_build\<rparr>"

theorem failed_update_changes_nothing_witness:
  "\<exists>p' rt'. updateLocked sample_build_env sample_yaml 0 (\<lambda>_. None) (Inl (Errorf ''disk'' [])) cleared_accepted no_persist ((), sample_runtime) =
     (Some (Wrapf ''rebuild router: %w'' [] (Wrapf ''load upstream keys: %w'' [] (Errorf ''disk'' []))), p', rt') \<and>
     rn_router rt' = rn_router sample_runtime \<and> rn_cfg rt' = rn_cfg sample_runtime"
proof -
  let ?u = "updateLocked sample_build_env sample_yaml 0 (\<lambda>_. None) (Inl (Errorf ''disk'' [])) cleared_accepted no_persist ((), sample_runtime)"
  obtain res p' rt' where u: "?u = (res, p', rt')" by (metis prod_cases3)
  have "case Clone sample_env sample_yaml (\<lambda>_. None) cleared_accepted of Inl e \<Rightarrow> False | Inr c \<Rightarrow> True" by code_simp
  then obtain c where "Clone sample_env sample_yaml (\<lambda>_. None) cleared_accepted = Inr c" by (auto split: sum.splits)
  hence "res = Some (Wrapf ''rebuild router: %w'' [] (Wrapf ''load upstream keys: %w'' [] (Errorf ''disk'' [])))"
    using u by (auto simp: updateLocked_def buildRouter_def sample_build_env_def Let_def)
  thus ?thesis using failed_update_changes_nothing [OF u] u by simp
qed

section \<open>Key selections across a reload\<close>

abbreviation key_text :: "heap \<Rightarrow> nat \<Rightarrow> string" where
  "key_text hp a \<equiv> ks_Key (hp_keys hp a)"

definition same_texts :: "heap \<Rightarrow> heap \<Rightarrow> bool" where
  "same_texts hp hp' = (\<forall>a. key_text hp' a = key_text hp a)"

lemma same_texts_trans: "same_texts a b \<Longrightarrow> same_texts b c \<Longrightarrow> same_texts a c"
  by (simp add: same_texts_def)

lemma share_version_texts: "same_texts hp (share_version incoming a hp)"
  by (simp add: same_texts_def share_version_def Let_def)

lemma retire_keys_texts: "same_texts hp (retire_keys R hp)"
  by (simp add: same_texts_def)

definition text_index :: "heap \<Rightarrow> (string \<rightharpoonup> nat) \<Rightarrow> bool" where
  "text_index hp index = (\<forall>k a. index k = Some a \<longrightarrow> key_text hp a = k)"

lemma share_keys_texts:
  "share_keys out index bs hp = (out', index', hp') \<Longrightarrow> text_index hp index \<Longrightarrow>
   same_texts hp hp' \<and> map (key_text hp) out' = map (key_text hp) (out @ bs)"
proof (induction bs arbitrary: out index hp)
  case (Cons b bs)
  show ?case
  proof (cases "index (key_text hp b)")
    case None
    thus ?thesis using Cons.IH [of "out @ [b]" index hp] Cons.prems by simp
  next
    case (Some a)
    let ?hp = "share_version (hp_keys hp b) a hp" and ?ix = "index(key_text hp b := None)"
    have texts: "key_text ?hp = key_text hp" using share_version_texts [of hp "hp_keys hp b" a] by (auto simp: same_texts_def)
    have "text_index ?hp ?ix" using Cons.prems(2) by (simp add: text_index_def texts)
    moreover have "share_keys (out @ [a]) ?ix bs ?hp = (out', index', hp')" using Cons.prems(1) Some by (simp add: Let_def)
    ultimately have "same_texts ?hp hp' \<and> map (key_text ?hp) out' = map (key_text ?hp) ((out @ [a]) @ bs)" using Cons.IH by blast
    moreover have "key_text hp a = key_text hp b" using Cons.prems(2) Some by (simp add: text_index_def)
    ultimately show ?thesis using share_version_texts [of hp "hp_keys hp b" a] unfolding texts by (auto intro: same_texts_trans)
  qed
qed (simp add: same_texts_def)

lemma key_index_text: "text_index hp (key_index hp as)"
proof -
  have "text_index hp m \<Longrightarrow> text_index hp (m(key_text hp a \<mapsto> a))" for m a
    unfolding text_index_def fun_upd_apply by (metis option.inject)
  hence "text_index hp m \<Longrightarrow> text_index hp (fold (\<lambda>a m. m(key_text hp a \<mapsto> a)) as m)" for m
    by (induction as arbitrary: m) simp_all
  moreover have "text_index hp Map.empty" by (simp add: text_index_def)
  ultimately show ?thesis unfolding key_index_def by blast
qed

lemma ShareRuntimeStateFrom_texts:
  assumes "ShareRuntimeStateFrom prev p hp = (p', hp')"
  shows "same_texts hp hp' \<and> map (key_text hp) (pl_keys p') = map (key_text hp) (pl_keys p)"
proof (cases prev)
  case None
  thus ?thesis using assms by (simp add: ShareRuntimeStateFrom_def same_texts_def)
next
  case (Some q)
  obtain keys index hp1 where sk: "share_keys [] (key_index hp (pl_keys q)) (pl_keys p) hp = (keys, index, hp1)"
    by (cases "share_keys [] (key_index hp (pl_keys q)) (pl_keys p) hp")
  have "same_texts hp hp'" using assms Some sk share_keys_texts [OF sk key_index_text] retire_keys_texts [of hp1]
    by (auto simp: ShareRuntimeStateFrom_def intro: same_texts_trans)
  thus ?thesis using assms Some sk share_keys_texts [OF sk key_index_text] by (auto simp: ShareRuntimeStateFrom_def)
qed

lemma share_pools_texts:
  "share_pools prev ps hp = (ps', hp') \<Longrightarrow> same_texts hp hp' \<and>
   map_of ps' v = map_option (\<lambda>p. the (map_of ps' v)) (map_of ps v) \<and>
   (\<forall>p. map_of ps v = Some p \<longrightarrow> (\<exists>p'. map_of ps' v = Some p' \<and> map (key_text hp) (pl_keys p') = map (key_text hp) (pl_keys p)))"
proof (induction ps arbitrary: hp ps')
  case (Cons x ps)
  obtain w p where x: "x = (w, p)" by (cases x)
  obtain p1 hp1 where s: "ShareRuntimeStateFrom (map_of prev w) p hp = (p1, hp1)" by (cases "ShareRuntimeStateFrom (map_of prev w) p hp")
  obtain ps1 hp2 where r: "share_pools prev ps hp1 = (ps1, hp2)" by (cases "share_pools prev ps hp1")
  have eq: "ps' = (w, p1) # ps1" "hp' = hp2" using Cons.prems x s r by simp_all
  note t = ShareRuntimeStateFrom_texts [OF s]
  have "same_texts hp1 hp2 \<and> map_of ps1 v = map_option (\<lambda>p. the (map_of ps1 v)) (map_of ps v) \<and>
     (\<forall>p. map_of ps v = Some p \<longrightarrow> (\<exists>p'. map_of ps1 v = Some p' \<and> map (key_text hp1) (pl_keys p') = map (key_text hp1) (pl_keys p)))"
    using Cons.IH [of hp1 ps1] r eq(2) by simp
  thus ?case using t x eq by (auto simp: same_texts_def)
qed (simp add: same_texts_def)

lemma retire_pools_texts: "same_texts hp (retire_pools vs ps hp)"
proof (induction ps arbitrary: hp)
  case (Cons x ps)
  have "same_texts hp (Retire p hp)" for p by (simp add: Retire_def retire_keys_texts)
  thus ?case using Cons by (cases x) (auto simp: retire_pools_def intro: same_texts_trans)
qed (simp add: retire_pools_def same_texts_def)

lemma allowed_indexes_iff:
  "int i \<in> set (allowed_indexes env ids p hp) \<longleftrightarrow> i < length (pl_keys p) \<and> KeyID (be_sha256 env) (key_text hp (pl_keys p ! i)) \<in> set ids"
  by (force simp: allowed_indexes_def Snapshot_def in_set_enumerate_eq)

text \<open>C32: The key indexes an aggregate child selected while a router was built, before the live states of the
  previous router were handed over, still denote exactly the keys whose identity the configuration names
  once the router is published: the hand-over replaces the state of a key but never the position of it.\<close>

theorem selected_keys_survive_reload:
  assumes "router_ShareRuntimeStateFrom prev r hp = (r', hp')" and "map_of (ro_pools r) v = Some p"
  shows "\<exists>p'. map_of (ro_pools r') v = Some p' \<and> length (pl_keys p') = length (pl_keys p) \<and>
    (\<forall>i. int i \<in> set (allowed_indexes env ids p hp) \<longleftrightarrow>
       i < length (pl_keys p') \<and> KeyID (be_sha256 env) (key_text hp' (pl_keys p' ! i)) \<in> set ids)"
proof -
  obtain pools hp1 where s: "share_pools (ro_pools prev) (ro_pools r) hp = (pools, hp1)" by (cases "share_pools (ro_pools prev) (ro_pools r) hp")
  have r': "ro_pools r' = pools" "same_texts hp1 hp'"
    using assms(1) s retire_pools_texts [of hp1 "ro_vendorsByID r" "ro_pools prev"] by (auto simp: router_ShareRuntimeStateFrom_def)
  obtain p' where p': "map_of pools v = Some p'" "map (key_text hp) (pl_keys p') = map (key_text hp) (pl_keys p)" "same_texts hp hp1"
    using share_pools_texts [OF s, of v] assms(2) by auto
  have texts: "same_texts hp hp'" using same_texts_trans [OF p'(3) r'(2)] .
  have len: "length (pl_keys p') = length (pl_keys p)" using arg_cong [OF p'(2), of length] by simp
  have "key_text hp (pl_keys p' ! i) = key_text hp (pl_keys p ! i)" if "i < length (pl_keys p)" for i
    using arg_cong [OF p'(2), of "\<lambda>xs. xs ! i"] that len by simp
  thus ?thesis using p'(1) r'(1) len texts by (auto simp: allowed_indexes_iff same_texts_def)
qed

definition next_router :: Router where
  "next_router = sample_router\<lparr>ro_pools := [(''v'', \<lparr>pl_strategy = ''random'', pl_keys = [12, 2], pl_rrIdx = 0, pl_exploration = 14, pl_mu = 15\<rparr>)]\<rparr>"

theorem selected_keys_survive_reload_witness:
  "\<exists>p'. map_of (ro_pools (fst (router_ShareRuntimeStateFrom sample_router next_router sample_heap))) ''v'' = Some p' \<and>
     length (pl_keys p') = 2 \<and> pl_keys p' ! 0 \<noteq> 12 \<and>
     KeyID (be_sha256 sample_build_env) (key_text (snd (router_ShareRuntimeStateFrom sample_router next_router sample_heap)) (pl_keys p' ! 0)) =
       KeyID (be_sha256 sample_build_env) ''k3''"
proof (cases "router_ShareRuntimeStateFrom sample_router next_router sample_heap")
  case (Pair r' hp')
  let ?p = "\<lparr>pl_strategy = ''random'', pl_keys = [12, 2], pl_rrIdx = 0, pl_exploration = 14, pl_mu = 15\<rparr>"
  let ?ids = "[KeyID (be_sha256 sample_build_env) ''k3'']"
  have p: "map_of (ro_pools next_router) ''v'' = Some ?p" by (simp add: next_router_def)
  have key: "key_text sample_heap 12 = ''k3''" by (simp add: sample_heap_def new_key_state_def)
  have sel: "int 0 \<in> set (allowed_indexes sample_build_env ?ids ?p sample_heap)" unfolding allowed_indexes_iff by (simp add: key)
  have pool_keys: "pl_keys ?p = [12, 2]" by simp
  obtain p' where p': "map_of (ro_pools r') ''v'' = Some p'" "length (pl_keys p') = 2"
    "KeyID (be_sha256 sample_build_env) (key_text hp' (pl_keys p' ! 0)) \<in> set ?ids"
    using selected_keys_survive_reload [OF Pair p, of sample_build_env ?ids] sel by (metis (no_types, lifting) length_Cons list.size(3) numeral_2_eq_2 pool_keys)
  moreover have "map (\<lambda>(v, p). (v, pl_keys p)) (ro_pools (fst (router_ShareRuntimeStateFrom sample_router next_router sample_heap))) = [(''v'', [3, 2])]"
    by (simp add: router_ShareRuntimeStateFrom_def sample_router_def next_router_def ShareRuntimeStateFrom_def key_index_def sample_pool_def
        sample_heap_def new_key_state_def share_version_def Let_def)
  ultimately show ?thesis using Pair by auto
qed

end
