(* ===== verification/AdminStore.thy ===== *)
theory AdminStore
  imports RouterReload
begin

text \<open>
  Where the administration keeps its configuration and its password: \<open>internal/admin/password.go\<close>, \<open>store.go\<close> and
  \<open>store_pgsql.go\<close>.  The PostgreSQL table is the payload of its one row, the local file its content; the
  outcome of every system call and statement is an argument.  The digests and \<open>encoding/base64\<close> are
  arguments; the hexadecimal code is written out.
\<close>

section \<open>Passwords\<close>

record crypto_lib =
  cl_pbkdf2 :: "string \<Rightarrow> nat list \<Rightarrow> int \<Rightarrow> nat \<Rightarrow> nat list"
  cl_b64_std :: "nat list \<Rightarrow> string"
  cl_b64_std_decode :: "string \<Rightarrow> nat list option"
  cl_b64_url :: "nat list \<Rightarrow> string"
  cl_sha256 :: "nat list \<Rightarrow> nat list"

abbreviation defaultIter :: int where
  "defaultIter \<equiv> 120000"

abbreviation keyLen :: nat where
  "keyLen \<equiv> 32"

text \<open>\<open>strings.Split\<close> at one byte and \<open>hex.DecodeString\<close>.\<close>

fun split_char :: "char \<Rightarrow> string \<Rightarrow> string list" where
  "split_char sep [] = [[]]"
| "split_char sep (c # s) = (if c = sep then [] # split_char sep s
     else case split_char sep s of [] \<Rightarrow> [[c]] | p # ps \<Rightarrow> (c # p) # ps)"

fun hex_decode :: "string \<Rightarrow> nat list option" where
  "hex_decode [] = Some []"
| "hex_decode [c] = None"
| "hex_decode (a # b # s) = (case (unhex a, unhex b, hex_decode s) of
     (Some x, Some y, Some bs) \<Rightarrow> Some ((16 * x + y) # bs) | _ \<Rightarrow> None)"

text \<open>\<open>salt\<close> is the outcome of \<open>rand.Read\<close>.\<close>

definition HashPassword :: "crypto_lib \<Rightarrow> nat list option \<Rightarrow> string \<Rightarrow> cfg_error + string" where
  "HashPassword cl salt password =
     (if trim_space password = [] then Inl (Errorf ''empty password'' [])
      else case salt of
        None \<Rightarrow> Inl (Errorf ''rand'' [])
      | Some salt \<Rightarrow> Inr (''pbkdf2$'' @ itoa defaultIter @ ''$'' @ cl_b64_std cl salt @ ''$'' @
          hex_bytes (cl_pbkdf2 cl password salt defaultIter keyLen)))"

definition GenerateRandomPassword :: "crypto_lib \<Rightarrow> nat list option \<Rightarrow> cfg_error + string" where
  "GenerateRandomPassword cl raw = (case raw of None \<Rightarrow> Inl (Errorf ''rand'' []) | Some raw \<Rightarrow> Inr (cl_b64_url cl raw))"

definition VerifyPassword :: "crypto_lib \<Rightarrow> string \<Rightarrow> string \<Rightarrow> bool" where
  "VerifyPassword cl password encoded =
     (if trim_space encoded = [] then False
      else case split_char (CHR ''$'') encoded of
        [p0, p1, p2, p3] \<Rightarrow>
          p0 = ''pbkdf2'' \<and>
          (case atoi p1 of
             None \<Rightarrow> False
           | Some iter \<Rightarrow> iter > 0 \<and>
               (case cl_b64_std_decode cl p2 of
                  None \<Rightarrow> False
                | Some salt \<Rightarrow>
                    (case hex_decode p3 of
                       None \<Rightarrow> False
                     | Some expected \<Rightarrow> cl_pbkdf2 cl password salt iter (length expected) = expected)))
      | _ \<Rightarrow> False)"

section \<open>The PostgreSQL backend\<close>

definition ident_ok :: "string \<Rightarrow> bool" where
  "ident_ok s = (case s of [] \<Rightarrow> False
     | c # r \<Rightarrow> (alnum c \<and> \<not> is_digit c \<or> c = CHR ''_'') \<and> list_all (\<lambda>c. alnum c \<or> c = CHR ''_'') r)"

definition quoteConfigIdentifier :: "string \<Rightarrow> cfg_error + string" where
  "quoteConfigIdentifier name =
     (let name = trim_space name in
      if name = [] then Inl (Errorf ''identifier is empty'' [])
      else let parts = map trim_space (split_char (CHR ''.'') name) in
        case find (\<lambda>p. \<not> ident_ok p) parts of
          Some part \<Rightarrow> Inl (Errorf ''invalid identifier segment %q'' [part])
        | None \<Rightarrow> Inr (join ''.'' (map (\<lambda>p. [CHR 0x22] @ p @ [CHR 0x22]) parts)))"

record AdminCredentialLayer =
  al_Username :: "string option"
  al_Password :: "string option"
  al_PasswordHash :: "string option"

record loadedConfig =
  lc_cfg :: Config
  lc_adminLayer :: AdminCredentialLayer

text \<open>The libraries and the environment a store uses; \<open>ae_layer\<close> is the decoding of the credential layer.\<close>

record admin_env =
  ae_build :: build_env
  ae_yaml :: yaml_lib
  ae_layer :: "string \<Rightarrow> cfg_error + AdminCredentialLayer"
  ae_getenv :: envLookup
  ae_crypto :: crypto_lib

abbreviation ae_cfg :: "admin_env \<Rightarrow> cfg_env" where
  "ae_cfg ae \<equiv> be_cfg (ae_build ae)"

text \<open>Which statements of the database succeed.\<close>

record db_outcome =
  db_open :: bool
  db_init :: bool
  db_load :: bool
  db_save :: bool

definition newPGConfigBackend :: "db_outcome \<Rightarrow> ConfigStorePGSQLConfig \<Rightarrow> cfg_error option" where
  "newPGConfigBackend db cfg =
     (if trim_space (cp_DSN cfg) = [] then Some (Errorf ''config pgsql dsn is required'' [])
      else case quoteConfigIdentifier (cp_Table cfg) of
        Inl err \<Rightarrow> Some (Wrapf ''invalid config pgsql table: %w'' [] err)
      | Inr _ \<Rightarrow>
          if \<not> db_open db then Some (Errorf ''open config pgsql: %w'' [])
          else if \<not> db_init db then Some (Errorf ''init config pgsql table: %w'' []) else None)"

definition ParseAdminCredentialLayerYAML :: "admin_env \<Rightarrow> string \<Rightarrow> cfg_error + AdminCredentialLayer" where
  "ParseAdminCredentialLayerYAML ae b =
     (if b = [] then Inr \<lparr>al_Username = None, al_Password = None, al_PasswordHash = None\<rparr>
      else case ae_layer ae b of Inl err \<Rightarrow> Inl (Wrapf ''parse admin credential layer yaml: %w'' [] err) | Inr l \<Rightarrow> Inr l)"

definition pg_Load ::
  "admin_env \<Rightarrow> (nat \<Rightarrow> nat list option) \<Rightarrow> db_outcome \<Rightarrow> string option \<Rightarrow> cfg_error + loadedConfig option" where
  "pg_Load ae rand db row =
     (if \<not> db_load db then Inl (Errorf ''load config from pgsql: %w'' [])
      else case row of
        None \<Rightarrow> Inr None
      | Some payload \<Rightarrow>
          (case ParseAdminCredentialLayerYAML ae payload of
             Inl err \<Rightarrow> Inl (Wrapf ''parse admin credential layer from pgsql: %w'' [] err)
           | Inr layer \<Rightarrow>
               (case loadBytes (ae_cfg ae) (ae_yaml ae) rand payload True None of
                  Inl err \<Rightarrow> Inl (Wrapf ''parse config from pgsql: %w'' [] err)
                | Inr cfg \<Rightarrow> Inr (Some \<lparr>lc_cfg = cfg, lc_adminLayer = layer\<rparr>))))"

definition pg_Save ::
  "admin_env \<Rightarrow> (nat \<Rightarrow> nat list option) \<Rightarrow> db_outcome \<Rightarrow> Config \<Rightarrow> string option \<Rightarrow> cfg_error option \<times> string option" where
  "pg_Save ae rand db cfg row = (case EncodeYAML (ae_cfg ae) (ae_yaml ae) rand cfg of
      Inl err \<Rightarrow> (Some err, row)
    | Inr payload \<Rightarrow> if db_save db then (None, Some payload) else (Some (Errorf ''save config to pgsql: %w'' []), row))"

section \<open>The store\<close>

datatype file_step = MkdirStep | CreateStep | WriteStep | SyncStep | CloseStep | RenameStep

fun step_text :: "file_step \<Rightarrow> string" where
  "step_text MkdirStep = ''mkdir config dir: %w''"
| "step_text CreateStep = ''create tmp config: %w''"
| "step_text WriteStep = ''write tmp config: %w''"
| "step_text SyncStep = ''sync tmp config: %w''"
| "step_text CloseStep = ''close tmp config: %w''"
| "step_text RenameStep = ''replace config: %w''"

text \<open>\<open>io\<close> is the first step that fails, if one does; the file changes with the rename, at once.\<close>

definition writeConfigFile ::
  "admin_env \<Rightarrow> (nat \<Rightarrow> nat list option) \<Rightarrow> file_step option \<Rightarrow> Config \<Rightarrow> string option \<Rightarrow> cfg_error option \<times> string option" where
  "writeConfigFile ae rand io cfg file = (case EncodeYAML (ae_cfg ae) (ae_yaml ae) rand cfg of
      Inl err \<Rightarrow> (Some err, file)
    | Inr data \<Rightarrow> (case io of None \<Rightarrow> (None, Some data) | Some step \<Rightarrow> (Some (Errorf (step_text step) []), file)))"

text \<open>The media a store writes, and the store in memory.\<close>

record media =
  md_file :: "string option"
  md_row :: "string option"

record Store =
  as_path :: string
  as_useRemote :: bool
  as_bootstrap :: StorageConfig
  as_initAdminPassword :: string
  as_cfg :: Config

definition sanitizeConfigForStore ::
  "admin_env \<Rightarrow> (nat \<Rightarrow> nat list option) \<Rightarrow> Config \<Rightarrow> StorageConfig \<Rightarrow> cfg_error + Config" where
  "sanitizeConfigForStore ae rand n storage = (case Clone (ae_cfg ae) (ae_yaml ae) rand n of
      Inl err \<Rightarrow> Inl err | Inr cloned \<Rightarrow> Inr (cloned\<lparr>cf_Storage := storage\<rparr>))"

definition given :: "string option \<Rightarrow> bool" where
  "given v = (case v of None \<Rightarrow> False | Some s \<Rightarrow> trim_space s \<noteq> [])"

definition mergeAdminCredentials :: "AdminConfig \<Rightarrow> AdminConfig \<Rightarrow> AdminCredentialLayer \<Rightarrow> AdminConfig" where
  "mergeAdminCredentials dst fallback layer =
     (let dst = (if \<not> given (al_Username layer) then dst\<lparr>am_Username := am_Username fallback\<rparr> else dst);
          hasPassword = given (al_Password layer); hasPasswordHash = given (al_PasswordHash layer)
      in if \<not> hasPassword \<and> \<not> hasPasswordHash
         then dst\<lparr>am_Password := am_Password fallback, am_PasswordHash := am_PasswordHash fallback\<rparr>
         else if hasPasswordHash then dst\<lparr>am_Password := []\<rparr> else dst\<lparr>am_PasswordHash := []\<rparr>)"

definition mergeLoadedConfig ::
  "admin_env \<Rightarrow> (nat \<Rightarrow> nat list option) \<Rightarrow> Config \<Rightarrow> loadedConfig \<Rightarrow> cfg_error + Config" where
  "mergeLoadedConfig ae rand base loaded = (case Clone (ae_cfg ae) (ae_yaml ae) rand (lc_cfg loaded) of
      Inl err \<Rightarrow> Inl err
    | Inr merged \<Rightarrow>
        ApplyCriticalEnvOverrides (ae_cfg ae) (Some (ae_getenv ae))
          (merged\<lparr>cf_Storage := cf_Storage base,
             cf_Admin := mergeAdminCredentials (cf_Admin merged) (cf_Admin base) (lc_adminLayer loaded)\<rparr>))"

text \<open>The outcomes of the two reads of random bytes: the password and the salt.\<close>

definition ensureBootstrapAdminPassword ::
  "admin_env \<Rightarrow> nat list option \<times> nat list option \<Rightarrow> Config \<Rightarrow> cfg_error + (Config \<times> string)" where
  "ensureBootstrapAdminPassword ae pw cfg =
     (if \<not> NeedsBootstrapAdminPassword cfg then Inr (cfg, [])
      else case GenerateRandomPassword (ae_crypto ae) (fst pw) of
        Inl err \<Rightarrow> Inl (Wrapf ''generate bootstrap admin password: %w'' [] err)
      | Inr password \<Rightarrow>
          (case HashPassword (ae_crypto ae) (snd pw) password of
             Inl err \<Rightarrow> Inl (Wrapf ''hash bootstrap admin password: %w'' [] err)
           | Inr hash \<Rightarrow> Inr (cfg\<lparr>cf_Admin := (cf_Admin cfg)\<lparr>am_Password := [], am_PasswordHash := hash\<rparr>\<rparr>, password)))"

text \<open>The configuration a store starts from: the copy of the bootstrap configuration, or the remote one over it,
  with the marks whether the remote row has to be seeded and whether vendor ids were minted.\<close>

definition effective_config ::
  "admin_env \<Rightarrow> (nat \<Rightarrow> nat \<Rightarrow> nat list option) \<Rightarrow> db_outcome \<Rightarrow> Config \<Rightarrow> string option \<Rightarrow> cfg_error + (Config \<times> bool \<times> bool)" where
  "effective_config ae rands db bootstrap row = (case Clone (ae_cfg ae) (ae_yaml ae) (rands 0) bootstrap of
      Inl err \<Rightarrow> Inl err
    | Inr effective \<Rightarrow>
        if cs_Driver (st_Config (cf_Storage bootstrap)) \<noteq> ''pgsql'' then Inr (effective, False, cf_mintedVendorIDs bootstrap)
        else case newPGConfigBackend db (cs_PGSQL (st_Config (cf_Storage bootstrap))) of
          Some err \<Rightarrow> Inl err
        | None \<Rightarrow>
            (case pg_Load ae (rands 1) db row of
               Inl err \<Rightarrow> Inl err
             | Inr None \<Rightarrow> Inr (effective, True, cf_mintedVendorIDs bootstrap)
             | Inr (Some loaded) \<Rightarrow>
                 (case mergeLoadedConfig ae (rands 2) effective loaded of
                    Inl err \<Rightarrow> Inl err
                  | Inr merged \<Rightarrow> Inr (merged, False, cf_mintedVendorIDs (lc_cfg loaded)))))"

definition NewStore ::
  "admin_env \<Rightarrow> (nat \<Rightarrow> nat \<Rightarrow> nat list option) \<Rightarrow> nat list option \<times> nat list option \<Rightarrow> db_outcome \<Rightarrow> file_step option \<Rightarrow>
     string \<Rightarrow> Config \<Rightarrow> media \<Rightarrow> (cfg_error + Store) \<times> media" where
  "NewStore ae rands pw db io configPath bootstrap md =
     (let path = trim_space configPath; useRemote = (cs_Driver (st_Config (cf_Storage bootstrap)) = ''pgsql'') in
      case effective_config ae rands db bootstrap (md_row md) of
        Inl err \<Rightarrow> (Inl err, md)
      | Inr (effective, seedRemote, mintedIDs) \<Rightarrow>
          (case ensureBootstrapAdminPassword ae pw effective of
             Inl err \<Rightarrow> (Inl err, md)
           | Inr (effective, initPassword) \<Rightarrow>
               (case sanitizeConfigForStore ae (rands 3) effective (cf_Storage bootstrap) of
                  Inl err \<Rightarrow> (Inl err, md)
                | Inr cfg \<Rightarrow>
                    let s = \<lparr>as_path = path, as_useRemote = useRemote, as_bootstrap = cf_Storage bootstrap,
                             as_initAdminPassword = initPassword, as_cfg = cfg\<rparr>;
                        (saved, row) = (if useRemote \<and> (seedRemote \<or> mintedIDs \<or> initPassword \<noteq> [])
                          then pg_Save ae (rands 4) db cfg (md_row md) else (None, md_row md));
                        md = md\<lparr>md_row := row\<rparr>
                    in case saved of
                      Some err \<Rightarrow> (Inl err, md)
                    | None \<Rightarrow>
                        let writeLocal = (initPassword \<noteq> [] \<or> (\<not> useRemote \<and> mintedIDs));
                            (written, file) = (if writeLocal \<and> path \<noteq> [] then writeConfigFile ae (rands 5) io cfg (md_file md)
                              else (None, md_file md))
                        in (case written of Some err \<Rightarrow> Inl err | None \<Rightarrow> Inr s, md\<lparr>md_file := file\<rparr>))))"

definition GetConfig :: "admin_env \<Rightarrow> (nat \<Rightarrow> nat list option) \<Rightarrow> Store \<Rightarrow> cfg_error + Config" where
  "GetConfig ae rand s = Clone (ae_cfg ae) (ae_yaml ae) rand (as_cfg s)"

definition UpdateConfig ::
  "admin_env \<Rightarrow> (nat \<Rightarrow> nat list option) \<Rightarrow> db_outcome \<Rightarrow> file_step option \<Rightarrow> Config \<Rightarrow> Store \<times> media \<Rightarrow>
     cfg_error option \<times> Store \<times> media" where
  "UpdateConfig ae rand db io n st =
     (let (s, md) = st in
      case sanitizeConfigForStore ae rand n (as_bootstrap s) of
        Inl err \<Rightarrow> (Some err, s, md)
      | Inr sanitized \<Rightarrow>
          let (saved, row) = (if as_useRemote s then pg_Save ae rand db sanitized (md_row md) else (None, md_row md));
              md = md\<lparr>md_row := row\<rparr>
          in case saved of
            Some err \<Rightarrow> (Some err, s, md)
          | None \<Rightarrow>
              let (written, file) = (if \<not> as_useRemote s \<and> as_path s \<noteq> [] then writeConfigFile ae rand io sanitized (md_file md)
                    else (None, md_file md));
                  md = md\<lparr>md_file := file\<rparr>
              in case written of Some err \<Rightarrow> (Some err, s, md) | None \<Rightarrow> (None, s\<lparr>as_cfg := sanitized\<rparr>, md))"

definition mask_text :: "string \<Rightarrow> string" where
  "mask_text s = (if length s \<le> 8 then ''****'' else take 4 s @ ''...'' @ drop (length s - 4) s)"

definition mask_clients :: "bool \<Rightarrow> VendorEntry \<Rightarrow> VendorEntry" where
  "mask_clients all e =
     (let v = ve_Config e; ca = vc_ClientAuth v in
      if all \<or> ca_Enabled ca then e\<lparr>ve_Config := v\<lparr>vc_ClientAuth := ca\<lparr>ca_Keys := map mask_text (ca_Keys ca)\<rparr>\<rparr>\<rparr> else e)"

text \<open>The configuration \<open>SnapshotJSON\<close> marshals, and the one \<open>GetConfigMasked\<close> of the service returns.\<close>

definition SnapshotJSON :: "admin_env \<Rightarrow> (nat \<Rightarrow> nat list option) \<Rightarrow> bool \<Rightarrow> Store \<Rightarrow> cfg_error + Config" where
  "SnapshotJSON ae rand maskSecrets s = (case GetConfig ae rand s of
      Inl err \<Rightarrow> Inl err
    | Inr cfg \<Rightarrow> Inr (if maskSecrets
        then cfg\<lparr>cf_Vendors := map (mask_clients False) (cf_Vendors cfg), cf_Admin := (cf_Admin cfg)\<lparr>am_Password := ''******''\<rparr>\<rparr>
        else cfg))"

definition GetConfigMasked :: "admin_env \<Rightarrow> (nat \<Rightarrow> nat list option) \<Rightarrow> Store \<Rightarrow> cfg_error + Config" where
  "GetConfigMasked ae rand s = (case GetConfig ae rand s of
      Inl err \<Rightarrow> Inl err
    | Inr cfg \<Rightarrow>
        let am = (cf_Admin cfg)\<lparr>am_Password := ''******''\<rparr>;
            am = (if am_PasswordHash am \<noteq> [] then am\<lparr>am_PasswordHash := ''******''\<rparr> else am)
        in Inr (cfg\<lparr>cf_Admin := am, cf_Vendors := map (mask_clients True) (cf_Vendors cfg)\<rparr>))"

section \<open>Passwords verify\<close>

lemma split_char_append: "sep \<notin> set a \<Longrightarrow> split_char sep (a @ sep # b) = a # split_char sep b"
  by (induction a) auto

lemma split_char_whole: "sep \<notin> set a \<Longrightarrow> split_char sep a = [a]"
  by (induction a) auto

lemma unhex_hex_digit: "n < 16 \<Longrightarrow> unhex (hex_digit n) = Some n \<and> CHR ''$'' \<noteq> hex_digit n"
proof -
  assume n: "n < 16"
  have un: "unhex (hex_digit n) = Some n" using n by (auto simp: unhex_def hex_digit_def Let_def of_char_of)
  moreover have "unhex (CHR ''$'') = None" by (simp add: unhex_def)
  ultimately show ?thesis by (metis option.distinct(1))
qed

lemma hex_decode_bytes: "\<forall>b \<in> set bs. b < 256 \<Longrightarrow> hex_decode (hex_bytes bs) = Some bs \<and> CHR ''$'' \<notin> set (hex_bytes bs)"
proof (induction bs)
  case (Cons b bs)
  have "b div 16 < 16" "b mod 16 < 16" using Cons.prems by auto
  note digits = unhex_hex_digit [OF this(1)] unhex_hex_digit [OF this(2)]
  have cons: "hex_bytes (b # bs) = hex_digit (b div 16) # hex_digit (b mod 16) # hex_bytes bs" by (simp add: hex_bytes_def)
  have "hex_decode (hex_bytes bs) = Some bs \<and> CHR ''$'' \<notin> set (hex_bytes bs)" using Cons by simp
  thus ?case unfolding cons using digits by (simp add: mult_div_mod_eq)
qed (simp add: hex_bytes_def)

lemma trim_with_removed: "set s \<subseteq> set (concat es) \<union> set (trim_with es s)"
proof (induction es s rule: trim_with.induct)
  case (1 es s)
  show ?case
  proof (cases "first_strip es s")
    case None
    thus ?thesis by (simp add: trim_with_None)
  next
    case (Some r)
    have "set s \<subseteq> set (concat es) \<union> set r"
      using Some by (induction es) (auto simp: strip_prefix_Some_iff split: option.splits)
    thus ?thesis using Some 1 by (auto simp: trim_with.simps [of es s] split: if_splits)
  qed
qed

lemma trim_space_blank: "trim_space s = [] \<Longrightarrow> set s \<subseteq> set (concat space_encodings)"
proof -
  assume blank: "trim_space s = []"
  let ?t = "trim_with space_encodings s"
  have "set (concat (map rev space_encodings)) = set (concat space_encodings)" by auto
  moreover have "trim_with (map rev space_encodings) (rev ?t) = []" using blank by (simp add: trim_space_def trim_right_space_def)
  ultimately have "set ?t \<subseteq> set (concat space_encodings)" using trim_with_removed [of "rev ?t" "map rev space_encodings"] by simp
  thus ?thesis using trim_with_removed [of s space_encodings] by blast
qed

text \<open>What the two libraries document: a derived key has the length asked for and consists of bytes, and decoding
  inverts encoding, whose alphabet has no dollar sign.\<close>

definition crypto_ok :: "crypto_lib \<Rightarrow> bool" where
  "crypto_ok cl = ((\<forall>p salt iter n. length (cl_pbkdf2 cl p salt iter n) = n \<and> (\<forall>b \<in> set (cl_pbkdf2 cl p salt iter n). b < 256)) \<and>
     (\<forall>bs. cl_b64_std_decode cl (cl_b64_std cl bs) = Some bs \<and> CHR ''$'' \<notin> set (cl_b64_std cl bs)))"

text \<open>A stored password hash accepts exactly the passwords that derive the same key from its salt: the password it
  was made from, and no other one unless the key derivation collides.\<close>

theorem password_round_trip:
  assumes "crypto_ok cl" and "HashPassword cl (Some salt) password = Inr encoded"
  shows "VerifyPassword cl password encoded \<and>
    (VerifyPassword cl candidate encoded \<longleftrightarrow>
       cl_pbkdf2 cl candidate salt defaultIter keyLen = cl_pbkdf2 cl password salt defaultIter keyLen)"
proof -
  let ?key = "\<lambda>p. cl_pbkdf2 cl p salt defaultIter keyLen"
  have enc: "encoded = ''pbkdf2'' @ CHR ''$'' # itoa defaultIter @ CHR ''$'' # cl_b64_std cl salt @ CHR ''$'' # hex_bytes (?key password)"
    using assms(2) by (auto simp: HashPassword_def split: if_splits)
  have key: "length (?key p) = keyLen" "hex_decode (hex_bytes (?key p)) = Some (?key p)" "CHR ''$'' \<notin> set (hex_bytes (?key p))" for p
    using assms(1) hex_decode_bytes [of "?key p"] by (simp_all add: crypto_ok_def)
  have iter: "atoi (itoa defaultIter) = Some defaultIter" by (rule atoi_itoa) simp_all
  have "list_all is_digit (itoa defaultIter)" using nat_text_digits by (simp add: itoa_def)
  hence digits: "CHR ''$'' \<notin> set (itoa defaultIter)" by (auto simp: list_all_iff is_digit_def)
  have b64: "cl_b64_std_decode cl (cl_b64_std cl salt) = Some salt" "CHR ''$'' \<notin> set (cl_b64_std cl salt)"
    using assms(1) by (simp_all add: crypto_ok_def)
  have parts: "split_char (CHR ''$'') encoded = [''pbkdf2'', itoa defaultIter, cl_b64_std cl salt, hex_bytes (?key password)]"
    unfolding enc using digits b64(2) key(3) split_char_append [of "CHR ''$''" "''pbkdf2''"] by (simp add: split_char_append split_char_whole)
  have "CHR ''p'' \<notin> set (concat space_encodings)" by code_simp
  hence ne: "trim_space encoded \<noteq> []" using trim_space_blank [of encoded] enc by auto
  have "VerifyPassword cl p encoded \<longleftrightarrow> ?key p = ?key password" for p
    unfolding VerifyPassword_def parts using ne iter b64(1) key(1,2) [of password] by simp
  thus ?thesis by simp
qed

section \<open>Saving\<close>

text \<open>Saving a configuration is all or nothing: when it fails, the configuration in memory, the file and the
  database row are the ones before; when it succeeds, the configuration in memory is the copy of the new
  one with the storage settings of the start, and the medium that counts, the row in remote mode and else
  the file, holds its encoding while the other one is untouched.\<close>

theorem store_update_atomic:
  assumes "UpdateConfig ae rand db io n (s, md) = (res, s', md')"
  shows "(res \<noteq> None \<longrightarrow> s' = s \<and> md' = md) \<and>
    (res = None \<longrightarrow> (\<exists>c. Clone (ae_cfg ae) (ae_yaml ae) rand n = Inr c \<and> s' = s\<lparr>as_cfg := c\<lparr>cf_Storage := as_bootstrap s\<rparr>\<rparr>) \<and>
       (if as_useRemote s then md_file md' = md_file md \<and> (\<exists>b. md_row md' = Some b \<and> EncodeYAML (ae_cfg ae) (ae_yaml ae) rand (as_cfg s') = Inr b)
        else md_row md' = md_row md \<and>
          (as_path s \<noteq> [] \<longrightarrow> (\<exists>b. md_file md' = Some b \<and> EncodeYAML (ae_cfg ae) (ae_yaml ae) rand (as_cfg s') = Inr b))))"
  using assms
  by (auto simp: UpdateConfig_def sanitizeConfigForStore_def pg_Save_def writeConfigFile_def Let_def
      split: sum.splits if_splits option.splits)

section \<open>Restarting\<close>

definition identity :: "Config \<Rightarrow> (string \<times> string) list" where
  "identity c = map (\<lambda>e. (ve_ID e, ve_Name e)) (cf_Vendors c)"

text \<open>The law of the YAML library: what it managed to write it reads back, the version included.\<close>

definition yaml_faithful :: "yaml_lib \<Rightarrow> bool" where
  "yaml_faithful yl = (\<forall>c b. yl_encode yl c = Inr b \<longrightarrow>
     b \<noteq> [] \<and> yl_decode yl b = Inr (yaml_image c) \<and> yl_probe yl b = Inr (Some (cf_SchemaVersion c)))"

lemma Clone_faithful:
  assumes "yaml_faithful yl" "applyDefaults c = c" "validate env req c = None" "Clone env yl rand c = Inr c'"
  shows "c' = clone_image c"
proof -
  have "yaml_keeps yl c" using assms(1,4) by (auto simp: yaml_keeps_def yaml_faithful_def Clone_def split: sum.splits)
  from Clone_image [OF assms(2,3) this] assms(4) show ?thesis by simp
qed

lemma Clone_prepared: "Clone env yl rand c = Inr c' \<Longrightarrow> applyDefaults c' = c' \<and> validate env False c' = None"
  by (auto simp: Clone_def split: sum.splits dest: prepare_Inr)

lemma identity_clone [simp]: "identity (clone_image c) = identity c"
  by (auto simp: identity_def clone_image_def refilled_def yaml_vendor_def Let_def)

lemma prepared_storage:
  assumes "applyDefaults c = c" "validate env False c = None" "applyDefaults d = d" "validate env False d = None"
  shows "applyDefaults (c\<lparr>cf_Storage := cf_Storage d\<rparr>) = c\<lparr>cf_Storage := cf_Storage d\<rparr>" "validate env False (c\<lparr>cf_Storage := cf_Storage d\<rparr>) = None"
proof -
  have "applyStorageDefaults (cf_Storage d) = cf_Storage d" using arg_cong [OF assms(3), of cf_Storage] by (simp add: applyDefaults_def Let_def)
  moreover have "applyDefaults (c\<lparr>cf_Storage := s\<rparr>) = (applyDefaults c)\<lparr>cf_Storage := applyStorageDefaults s\<rparr>" for s
    by (simp add: applyDefaults_def Let_def)
  ultimately show "applyDefaults (c\<lparr>cf_Storage := cf_Storage d\<rparr>) = c\<lparr>cf_Storage := cf_Storage d\<rparr>" using assms(1) by simp
  have byid: "VendorByID (c\<lparr>cf_Storage := s\<rparr>) = VendorByID c" for s by (intro ext) (simp add: VendorByID_def VendorIndexByID_def Let_def)
  have child: "validate_child (c\<lparr>cf_Storage := s\<rparr>) = validate_child c" for s by (intro ext) (unfold validate_child_def byid, rule refl)
  have same: "validate_vendor env (c\<lparr>cf_Storage := s\<rparr>) = validate_vendor env c" for s
    by (intro ext) (unfold validate_vendor_def validate_aggregate_def child, rule refl)
  show "validate env False (c\<lparr>cf_Storage := cf_Storage d\<rparr>) = None" using assms(2,4) by (simp add: validate_def same)
qed

lemma saved_config_reloads:
  assumes "yaml_faithful (ae_yaml ae)" "applyDefaults c = c" "validate (ae_cfg ae) False c = None"
    and "EncodeYAML (ae_cfg ae) (ae_yaml ae) rand c = Inr b"
  shows "\<exists>c'. loadBytes (ae_cfg ae) (ae_yaml ae) rand' b True None = Inr c' \<and> identity c' = identity c"
proof -
  obtain c1 where clone: "Clone (ae_cfg ae) (ae_yaml ae) rand c = Inr c1" and enc: "yl_encode (ae_yaml ae) c1 = Inr b"
    using assms(4) by (auto simp: EncodeYAML_def split: sum.splits)
  have c1: "c1 = clone_image c" using Clone_faithful [OF assms(1-3) clone] .
  note fixed = conjunct1 [OF Clone_prepared [OF clone]] conjunct2 [OF Clone_prepared [OF clone]]
  have b: "b \<noteq> []" "yl_decode (ae_yaml ae) b = Inr (yaml_image c1)" "yl_probe (ae_yaml ae) b = Inr (Some (cf_SchemaVersion c1))"
    using assms(1) enc by (auto simp: yaml_faithful_def)
  have "Clone (ae_cfg ae) (ae_yaml ae) rand' c1 = Inr (clone_image c1)"
    using Clone_image [OF fixed] enc b by (simp add: yaml_keeps_def)
  hence "prepare (ae_cfg ae) rand' False (yaml_image c1) = Inr (clone_image c1)" using enc b by (simp add: Clone_def)
  moreover have "cf_SchemaVersion c1 = CurrentSchemaVersion" using validate_config_ok [OF fixed] by (simp add: config_ok_def)
  ultimately have "loadBytes (ae_cfg ae) (ae_yaml ae) rand' b True None = Inr (clone_image c1)"
    using b by (simp add: loadBytes_def CheckSchemaVersion_def DetectSchemaVersion_def check_def ApplyCriticalEnvOverrides_def)
  thus ?thesis using c1 by simp
qed

text \<open>C20: Vendor ids survive a restart.  When a store with a local configuration file starts on a configuration
  whose vendors had no ids, or generates the administrator's password, the file it leaves behind loads
  again with exactly the vendor ids and names the store works with, whatever random numbers the next
  start draws; otherwise the file is not touched.\<close>

theorem restart_keeps_identity:
  assumes "NewStore ae rands pw db io path bootstrap md = (Inr s, md')"
    and "PrepareBootstrap (ae_cfg ae) rand0 c0 = Inr bootstrap"
    and "\<not> as_useRemote s" "trim_space path \<noteq> []"
    and "yaml_faithful (ae_yaml ae)"
  shows "if cf_mintedVendorIDs bootstrap \<or> as_initAdminPassword s \<noteq> []
    then \<exists>b c'. md_file md' = Some b \<and> loadBytes (ae_cfg ae) (ae_yaml ae) rand' b True None = Inr c' \<and> identity c' = identity (as_cfg s)
    else md' = md"
proof -
  obtain effective seed minted where eff: "effective_config ae rands db bootstrap (md_row md) = Inr (effective, seed, minted)"
    using assms(1) by (auto simp: NewStore_def Let_def split: sum.splits prod.splits)
  obtain eff' initp where pw: "ensureBootstrapAdminPassword ae pw effective = Inr (eff', initp)"
    using assms(1) eff by (auto simp: NewStore_def Let_def split: sum.splits prod.splits)
  obtain c where c: "Clone (ae_cfg ae) (ae_yaml ae) (rands 3) eff' = Inr c"
    using assms(1) eff pw by (auto simp: NewStore_def sanitizeConfigForStore_def Let_def split: sum.splits prod.splits)
  let ?cfg = "c\<lparr>cf_Storage := cf_Storage bootstrap\<rparr>"
  have "as_useRemote s = (cs_Driver (st_Config (cf_Storage bootstrap)) = ''pgsql'')"
    using assms(1) eff pw c by (auto simp: NewStore_def sanitizeConfigForStore_def Let_def split: option.splits prod.splits)
  hence local: "cs_Driver (st_Config (cf_Storage bootstrap)) \<noteq> ''pgsql''" using assms(3) by simp
  hence minted: "minted = cf_mintedVendorIDs bootstrap" using eff by (auto simp: effective_config_def split: sum.splits if_splits)
  have new: "NewStore ae rands pw db io path bootstrap md =
      (let (written, file) = (if initp \<noteq> [] \<or> minted then writeConfigFile ae (rands 5) io ?cfg (md_file md) else (None, md_file md))
       in (case written of Some err \<Rightarrow> Inl err
           | None \<Rightarrow> Inr \<lparr>as_path = trim_space path, as_useRemote = False, as_bootstrap = cf_Storage bootstrap,
               as_initAdminPassword = initp, as_cfg = ?cfg\<rparr>, md\<lparr>md_file := file\<rparr>))"
    using eff pw c local assms(4) by (simp add: NewStore_def sanitizeConfigForStore_def Let_def)
  have s: "as_cfg s = ?cfg" "as_initAdminPassword s = initp"
    using assms(1) unfolding new by (auto simp: Let_def split: option.splits prod.splits)
  show ?thesis
  proof (cases "cf_mintedVendorIDs bootstrap \<or> initp \<noteq> []")
    case True
    then obtain b where b: "EncodeYAML (ae_cfg ae) (ae_yaml ae) (rands 5) ?cfg = Inr b" "md_file md' = Some b"
      using assms(1,4) local unfolding new by (auto simp: Let_def writeConfigFile_def minted split: option.splits sum.splits prod.splits if_splits)
    note ok = prepared_storage [OF conjunct1 [OF Clone_prepared [OF c]] conjunct2 [OF Clone_prepared [OF c]] prepare_Inr [OF assms(2)]]
    show ?thesis using saved_config_reloads [OF assms(5) ok b(1)] b(2) True s by auto
  next
    case False
    thus ?thesis using assms(1) local s(2) unfolding new by (auto simp: Let_def minted)
  qed
qed

section \<open>Examples\<close>

text \<open>A key derivation that keeps the password apart, and an encoding of bytes by letters.\<close>

definition toy_crypto :: crypto_lib where
  "toy_crypto = \<lparr>cl_pbkdf2 = (\<lambda>p salt iter n. map (\<lambda>i. if i < length p then of_char (p ! i) else 0) [0..<n]),
     cl_b64_std = (\<lambda>bs. concat (map (\<lambda>b. replicate b (CHR ''A'') @ ''B'') bs)),
     cl_b64_std_decode = (\<lambda>s. Some (map length (butlast (split_char (CHR ''B'') s)))),
     cl_b64_url = (\<lambda>bs. ''secret''), cl_sha256 = (\<lambda>bs. bs)\<rparr>"

lemma toy_b64: "split_char (CHR ''B'') (concat (map (\<lambda>b. replicate b (CHR ''A'') @ ''B'') bs)) = map (\<lambda>b. replicate b (CHR ''A'')) bs @ [[]]"
proof (induction bs)
  case (Cons b bs)
  thus ?case using split_char_append [of "CHR ''B''" "replicate b (CHR ''A'')"] by simp
qed simp

lemma toy_crypto_ok: "crypto_ok toy_crypto"
  by (auto simp: crypto_ok_def toy_crypto_def toy_b64 of_char_less_256 comp_def)

theorem password_round_trip_witness:
  "\<exists>encoded. HashPassword toy_crypto (Some [3, 5]) ''abc'' = Inr encoded \<and> VerifyPassword toy_crypto ''abc'' encoded \<and>
     \<not> VerifyPassword toy_crypto ''abd'' encoded"
proof -
  have "trim_space ''abc'' \<noteq> []" by code_simp
  then obtain encoded where h: "HashPassword toy_crypto (Some [3, 5]) ''abc'' = Inr encoded" by (simp add: HashPassword_def)
  have "cl_pbkdf2 toy_crypto ''abd'' [3, 5] defaultIter keyLen ! 2 \<noteq> cl_pbkdf2 toy_crypto ''abc'' [3, 5] defaultIter keyLen ! 2"
    by (simp add: toy_crypto_def nth_Cons')
  thus ?thesis using password_round_trip [OF toy_crypto_ok h, of "''abd''"] h by metis
qed

definition sample_admin_env :: admin_env where
  "sample_admin_env = \<lparr>ae_build = sample_build_env,
     ae_yaml = \<lparr>yl_probe = (\<lambda>_. Inr (Some 3)), yl_decode = (\<lambda>_. Inr (yaml_image sample_accepted)), yl_storage = (\<lambda>_. Inr (cf_Storage sample_accepted)),
       yl_encode = (\<lambda>c. if yaml_image c = yaml_image sample_accepted \<and> cf_SchemaVersion c = 3 then Inr ''x'' else Inl (Errorf [] [])),
       yl_zero = sample_config\<rparr>,
     ae_layer = (\<lambda>_. Inl (Errorf [] [])), ae_getenv = (\<lambda>_. None), ae_crypto = toy_crypto\<rparr>"

lemma sample_faithful: "yaml_faithful (ae_yaml sample_admin_env)"
  by (auto simp: yaml_faithful_def sample_admin_env_def split: if_splits)

definition all_up :: db_outcome where
  "all_up = \<lparr>db_open = True, db_init = True, db_load = True, db_save = True\<rparr>"

definition sample_store :: Store where
  "sample_store = \<lparr>as_path = ''c.yaml'', as_useRemote = False, as_bootstrap = cf_Storage sample_accepted, as_initAdminPassword = [],
     as_cfg = sample_config\<rparr>"

theorem store_update_atomic_witness:
  "\<exists>s' md'. UpdateConfig sample_admin_env (\<lambda>_. None) all_up (Some SyncStep) sample_accepted (sample_store, \<lparr>md_file = Some ''old'', md_row = None\<rparr>) =
     (Some (Errorf ''sync tmp config: %w'' []), s', md') \<and> s' = sample_store \<and> md_file md' = Some ''old''"
proof -
  let ?u = "UpdateConfig sample_admin_env (\<lambda>_. None) all_up (Some SyncStep) sample_accepted (sample_store, \<lparr>md_file = Some ''old'', md_row = None\<rparr>)"
  obtain res s' md' where u: "?u = (res, s', md')" by (metis prod_cases3)
  have "fst ?u = Some (Errorf ''sync tmp config: %w'' [])" by code_simp
  hence "res = Some (Errorf ''sync tmp config: %w'' [])" using u by simp
  thus ?thesis using store_update_atomic [OF u] u by simp
qed

definition sample_started :: Store where
  "sample_started = (case fst (NewStore sample_admin_env (\<lambda>_ _. None) (None, None) all_up None ''c.yaml'' sample_accepted
     \<lparr>md_file = Some ''old'', md_row = None\<rparr>) of Inr s \<Rightarrow> s | Inl _ \<Rightarrow> sample_store)"

lemma sample_starts:
  "(case NewStore sample_admin_env (\<lambda>_ _. None) (None, None) all_up None ''c.yaml'' sample_accepted \<lparr>md_file = Some ''old'', md_row = None\<rparr> of
      (Inr s, md) \<Rightarrow> md = \<lparr>md_file = Some ''x'', md_row = None\<rparr> \<and> \<not> as_useRemote s \<and> cf_mintedVendorIDs sample_accepted \<and>
         identity (as_cfg s) = [(''v_01'', ''up''), (''v_all'', ''all'')]
    | (Inl err, md) \<Rightarrow> False)"
  by code_simp

theorem restart_keeps_identity_witness:
  "identity (as_cfg sample_started) = [(''v_01'', ''up''), (''v_all'', ''all'')] \<and>
   (\<exists>c'. loadBytes (ae_cfg sample_admin_env) (ae_yaml sample_admin_env) (\<lambda>_. Some [9]) ''x'' True None = Inr c' \<and>
      identity c' = identity (as_cfg sample_started))"
proof -
  let ?md = "\<lparr>md_file = Some ''old'', md_row = None\<rparr>"
  obtain s md where new: "NewStore sample_admin_env (\<lambda>_ _. None) (None, None) all_up None ''c.yaml'' sample_accepted ?md = (Inr s, md)"
    using sample_starts by (auto split: prod.splits sum.splits)
  hence s: "sample_started = s" by (simp add: sample_started_def)
  note facts = sample_starts [unfolded new prod.case sum.case]
  have prep: "PrepareBootstrap (ae_cfg sample_admin_env) (\<lambda>_. Some [1]) sample_config = Inr sample_accepted" by code_simp
  have path: "trim_space ''c.yaml'' \<noteq> []" by code_simp
  have "\<not> as_useRemote s" using facts by simp
  from restart_keeps_identity [OF new prep this path sample_faithful, of "\<lambda>_. Some [9]"] show ?thesis using facts s by auto
qed

end
