(* ===== verification/AdminService.thy ===== *)
theory AdminService
  imports AdminStore
begin

text \<open>
  The administration service (\<open>internal/admin/service.go\<close>, \<open>stats_reset.go\<close>), the sessions (\<open>auth.go\<close>), the audit log
  (\<open>audit.go\<close>) and the authenticated entry of the HTTP handler (\<open>handler.go\<close>).  Every operation is a function on
  the state of the whole administration: the configuration store and its media, the run-time of the gateway,
  the key store behind its interface, the sessions and the audit log.
\<close>

section \<open>Sessions\<close>

record Session =
  sn_Username :: string
  sn_ExpiresAt :: time

record SessionManager =
  sm_ttl :: duration
  sm_sessions :: "(string \<times> Session) list"

definition NewSessionManager :: "duration \<Rightarrow> SessionManager" where
  "NewSessionManager ttl = \<lparr>sm_ttl = (if ttl \<le> 0 then 12 * hour else ttl), sm_sessions = []\<rparr>"

text \<open>\<open>raw\<close> is the buffer after \<open>rand.Read\<close>, whose error the code ignores.\<close>

definition session_token :: "crypto_lib \<Rightarrow> nat list \<Rightarrow> string" where
  "session_token cl raw = cl_b64_url cl raw @ ''.'' @ hex_bytes (take 8 (cl_sha256 cl raw))"

definition sess_Create :: "crypto_lib \<Rightarrow> nat list \<Rightarrow> time \<Rightarrow> string \<Rightarrow> SessionManager \<Rightarrow> (string \<times> time) \<times> SessionManager" where
  "sess_Create cl raw now username m =
     (let token = session_token cl raw; expiresAt = now + sm_ttl m in
      ((token, expiresAt),
       m\<lparr>sm_sessions := AList.update token \<lparr>sn_Username = username, sn_ExpiresAt = expiresAt\<rparr> (sm_sessions m)\<rparr>))"

definition sess_Validate :: "time \<Rightarrow> string \<Rightarrow> SessionManager \<Rightarrow> Session option \<times> SessionManager" where
  "sess_Validate now token m = (case map_of (sm_sessions m) token of
      None \<Rightarrow> (None, m)
    | Some s \<Rightarrow> if now > sn_ExpiresAt s then (None, m\<lparr>sm_sessions := AList.delete token (sm_sessions m)\<rparr>) else (Some s, m))"

definition sess_Delete :: "string \<Rightarrow> SessionManager \<Rightarrow> SessionManager" where
  "sess_Delete token m = m\<lparr>sm_sessions := AList.delete token (sm_sessions m)\<rparr>"

definition sess_DeleteAll :: "SessionManager \<Rightarrow> SessionManager" where
  "sess_DeleteAll m = m\<lparr>sm_sessions := []\<rparr>"

section \<open>State and interfaces\<close>

text \<open>The key store behind \<open>keystore.Store\<close>; \<open>SetRemark\<close> is the optional interface.\<close>

record 'k key_ops =
  ko_ListAll :: "'k \<Rightarrow> cfg_error + record_map"
  ko_List :: "string \<Rightarrow> 'k \<Rightarrow> cfg_error + key_record list"
  ko_Append :: "string \<Rightarrow> string list \<Rightarrow> 'k \<Rightarrow> (cfg_error + int) \<times> 'k"
  ko_Delete :: "string \<Rightarrow> string list \<Rightarrow> 'k \<Rightarrow> (cfg_error + int) \<times> 'k"
  ko_Replace :: "string \<Rightarrow> string list \<Rightarrow> 'k \<Rightarrow> cfg_error option \<times> 'k"
  ko_SetStatus :: "string \<Rightarrow> string \<Rightarrow> string \<Rightarrow> string \<Rightarrow> string \<Rightarrow> 'k \<Rightarrow> cfg_error option \<times> 'k"
  ko_SetRemark :: "(string \<Rightarrow> string \<Rightarrow> string \<Rightarrow> 'k \<Rightarrow> cfg_error option \<times> 'k) option"
  ko_DeleteVendor :: "string \<Rightarrow> 'k \<Rightarrow> cfg_error option \<times> 'k"

record 'k Service =
  ay_store :: Store
  ay_media :: media
  ay_runtime :: Runtime
  ay_keys :: 'k
  ay_sessions :: SessionManager
  ay_auditPath :: string
  ay_audit :: "(string \<times> string) list"

text \<open>The outcome of everything outside the process during one operation: random bytes by call, statements,
  system calls, the salt, the clock, and whether the audit file opens.\<close>

record op_cx =
  cx_rands :: "nat \<Rightarrow> nat \<Rightarrow> nat list option"
  cx_db :: db_outcome
  cx_io :: "file_step option"
  cx_salt :: "nat list option"
  cx_raw :: "nat list"
  cx_now :: time
  cx_auditOpens :: bool

definition audit_Log :: "op_cx \<Rightarrow> string \<Rightarrow> string \<Rightarrow> 'k Service \<Rightarrow> 'k Service" where
  "audit_Log cx actor action s =
     (if ay_auditPath s = [] \<or> \<not> cx_auditOpens cx then s else s\<lparr>ay_audit := ay_audit s @ [(actor, action)]\<rparr>)"

abbreviation current :: "admin_env \<Rightarrow> op_cx \<Rightarrow> 'k Service \<Rightarrow> cfg_error + Config" where
  "current ae cx s \<equiv> GetConfig ae (cx_rands cx 0) (ay_store s)"

definition svc_RefreshKeys :: "admin_env \<Rightarrow> 'k key_ops \<Rightarrow> op_cx \<Rightarrow> 'k Service \<Rightarrow> cfg_error option \<times> 'k Service" where
  "svc_RefreshKeys ae ops cx s =
     (case RefreshKeys (ae_build ae) (ae_yaml ae) (cx_now cx) (cx_rands cx 9) (ko_ListAll ops (ay_keys s)) (ay_runtime s) of
        (e, rt) \<Rightarrow> (e, s\<lparr>ay_runtime := rt\<rparr>))"

section \<open>Signing in\<close>

text \<open>\<open>Login\<close> checks the credentials against a copy of the configuration and creates the session afterwards, without
  holding the mutex of the changes in between; the two parts are definitions of their own.\<close>

definition login_check :: "admin_env \<Rightarrow> op_cx \<Rightarrow> string \<Rightarrow> string \<Rightarrow> 'k Service \<Rightarrow> cfg_error option" where
  "login_check ae cx username password s = (case current ae cx s of
      Inl err \<Rightarrow> Some err
    | Inr cfg \<Rightarrow>
        let am = cf_Admin cfg in
        if \<not> am_Enabled am then Some (Errorf ''admin disabled'' [])
        else if username \<noteq> am_Username am then Some (Errorf ''invalid username or password'' [])
        else if \<not> HasCredentials am then Some (Errorf ''admin credentials not initialized'' [])
        else let ok = (if trim_space (am_PasswordHash am) \<noteq> [] then VerifyPassword (ae_crypto ae) password (am_PasswordHash am)
                       else password = am_Password am)
          in check (\<not> ok) (Errorf ''invalid username or password'' []))"

definition login_create :: "admin_env \<Rightarrow> op_cx \<Rightarrow> string \<Rightarrow> 'k Service \<Rightarrow> (string \<times> time) \<times> 'k Service" where
  "login_create ae cx username s =
     (let (t, m) = sess_Create (ae_crypto ae) (cx_raw cx) (cx_now cx) username (ay_sessions s)
      in (t, audit_Log cx username ''admin.login'' (s\<lparr>ay_sessions := m\<rparr>)))"

definition Login ::
  "admin_env \<Rightarrow> op_cx \<Rightarrow> string \<Rightarrow> string \<Rightarrow> 'k Service \<Rightarrow> (cfg_error + (string \<times> time)) \<times> 'k Service" where
  "Login ae cx username password s = (case login_check ae cx username password s of
      Some err \<Rightarrow> (Inl err, s)
    | None \<Rightarrow> (case login_create ae cx username s of (t, s) \<Rightarrow> (Inr t, s)))"

definition Logout :: "op_cx \<Rightarrow> string \<Rightarrow> string \<Rightarrow> 'k Service \<Rightarrow> 'k Service" where
  "Logout cx token actor s = audit_Log cx actor ''admin.logout'' (s\<lparr>ay_sessions := sess_Delete token (ay_sessions s)\<rparr>)"

definition svc_AdminAccess :: "admin_env \<Rightarrow> op_cx \<Rightarrow> 'k Service \<Rightarrow> cfg_error + (prefix list \<times> prefix list) option" where
  "svc_AdminAccess ae cx s = (case current ae cx s of
      Inl err \<Rightarrow> Inl err
    | Inr cfg \<Rightarrow>
        if \<not> am_Enabled (cf_Admin cfg) then Inr None
        else case parseCIDRs (ce_net (ae_cfg ae)) (am_AllowedCIDRs (cf_Admin cfg)) of
          Inl txt \<Rightarrow> Inl (Errorf ''parse %q: %w'' [txt])
        | Inr allowed \<Rightarrow>
            (case parseCIDRs (ce_net (ae_cfg ae)) (am_TrustedProxyCIDRs (cf_Admin cfg)) of
               Inl txt \<Rightarrow> Inl (Errorf ''parse %q: %w'' [txt])
             | Inr trusted \<Rightarrow> Inr (Some (allowed, trusted))))"

section \<open>Changing the configuration\<close>

definition normalizeAdminCredentials :: "AdminConfig \<Rightarrow> AdminConfig \<Rightarrow> AdminConfig" where
  "normalizeAdminCredentials n prev =
     (let n = (if am_Password n = ''******'' then n\<lparr>am_Password := am_Password prev\<rparr> else n);
          n = (if am_PasswordHash n = ''******'' then n\<lparr>am_PasswordHash := am_PasswordHash prev\<rparr> else n)
      in if trim_space (am_PasswordHash n) \<noteq> [] then n\<lparr>am_Password := []\<rparr>
         else if trim_space (am_Password n) \<noteq> [] then n\<lparr>am_PasswordHash := []\<rparr>
         else n\<lparr>am_Password := am_Password prev, am_PasswordHash := am_PasswordHash prev\<rparr>)"

definition adminSessionsNeedReset :: "AdminConfig \<Rightarrow> AdminConfig \<Rightarrow> bool" where
  "adminSessionsNeedReset prev n = (am_Enabled prev \<noteq> am_Enabled n \<or> am_Username prev \<noteq> am_Username n \<or>
     am_Password prev \<noteq> am_Password n \<or> am_PasswordHash prev \<noteq> am_PasswordHash n)"

text \<open>The configuration to publish: the copy of the new one with the credentials and the storage settings of the
  current one, prepared.\<close>

definition next_config :: "admin_env \<Rightarrow> op_cx \<Rightarrow> Config \<Rightarrow> 'k Service \<Rightarrow> cfg_error + (Config \<times> Config)" where
  "next_config ae cx n s = (case Clone (ae_cfg ae) (ae_yaml ae) (cx_rands cx 1) n of
      Inl err \<Rightarrow> Inl err
    | Inr n \<Rightarrow>
        (case GetConfig ae (cx_rands cx 2) (ay_store s) of
           Inl err \<Rightarrow> Inl err
         | Inr prev \<Rightarrow>
             let n = n\<lparr>cf_Admin := normalizeAdminCredentials (cf_Admin n) (cf_Admin prev), cf_Storage := cf_Storage prev\<rparr> in
             (case PrepareAndValidate (ae_cfg ae) (cx_rands cx 3) n of Inl err \<Rightarrow> Inl err | Inr n \<Rightarrow> Inr (prev, n))))"

definition updateConfigLocked ::
  "admin_env \<Rightarrow> 'k key_ops \<Rightarrow> op_cx \<Rightarrow> string \<Rightarrow> Config \<Rightarrow> 'k Service \<Rightarrow> cfg_error option \<times> 'k Service" where
  "updateConfigLocked ae ops cx actor n s = (case next_config ae cx n s of
      Inl err \<Rightarrow> (Some err, s)
    | Inr (prev, n) \<Rightarrow>
        (case updateLocked (ae_build ae) (ae_yaml ae) (cx_now cx) (cx_rands cx 4) (ko_ListAll ops (ay_keys s)) n
           (UpdateConfig ae (cx_rands cx 5) (cx_db cx) (cx_io cx)) ((ay_store s, ay_media s), ay_runtime s) of
           (e, (store, md), rt) \<Rightarrow>
             let s = s\<lparr>ay_store := store, ay_media := md, ay_runtime := rt\<rparr> in
             (case e of
                Some err \<Rightarrow> (Some err, s)
              | None \<Rightarrow>
                  let s = (if adminSessionsNeedReset (cf_Admin prev) (cf_Admin n)
                           then s\<lparr>ay_sessions := sess_DeleteAll (ay_sessions s)\<rparr> else s)
                  in (None, audit_Log cx actor ''config.update'' s))))"

abbreviation svc_UpdateConfig ::
  "admin_env \<Rightarrow> 'k key_ops \<Rightarrow> op_cx \<Rightarrow> string \<Rightarrow> Config \<Rightarrow> 'k Service \<Rightarrow> cfg_error option \<times> 'k Service" where
  "svc_UpdateConfig \<equiv> updateConfigLocked"

text \<open>Publish a configuration and log the action.\<close>

definition publish_log ::
  "admin_env \<Rightarrow> 'k key_ops \<Rightarrow> op_cx \<Rightarrow> string \<Rightarrow> string \<Rightarrow> Config \<Rightarrow> 'k Service \<Rightarrow> cfg_error option \<times> 'k Service" where
  "publish_log ae ops cx actor action cfg s = (case updateConfigLocked ae ops cx actor cfg s of
      (Some err, s) \<Rightarrow> (Some err, s) | (None, s) \<Rightarrow> (None, audit_Log cx actor action s))"

definition RotatePassword ::
  "admin_env \<Rightarrow> 'k key_ops \<Rightarrow> op_cx \<Rightarrow> string \<Rightarrow> string \<Rightarrow> 'k Service \<Rightarrow> cfg_error option \<times> 'k Service" where
  "RotatePassword ae ops cx actor plaintext s = (case current ae cx s of
      Inl err \<Rightarrow> (Some err, s)
    | Inr cfg \<Rightarrow>
        (case HashPassword (ae_crypto ae) (cx_salt cx) plaintext of
           Inl err \<Rightarrow> (Some err, s)
         | Inr hash \<Rightarrow> publish_log ae ops cx actor ''admin.password.rotate''
             (cfg\<lparr>cf_Admin := (cf_Admin cfg)\<lparr>am_PasswordHash := hash, am_Password := []\<rparr>\<rparr>) s))"

definition CreateVendor ::
  "admin_env \<Rightarrow> 'k key_ops \<Rightarrow> op_cx \<Rightarrow> string \<Rightarrow> string \<Rightarrow> VendorConfig \<Rightarrow> 'k Service \<Rightarrow> (cfg_error + string) \<times> 'k Service" where
  "CreateVendor ae ops cx actor name vc s =
     (let name = trim_space name in
      case ValidateVendorName name of
        Some err \<Rightarrow> (Inl err, s)
      | None \<Rightarrow>
          (case current ae cx s of
             Inl err \<Rightarrow> (Inl err, s)
           | Inr cfg \<Rightarrow>
               if VendorByName cfg name \<noteq> None then (Inl (Errorf ''vendor name %q already exists'' [name]), s)
               else case NewVendorID (cx_rands cx 6 0) of
                 Inl err \<Rightarrow> (Inl err, s)
               | Inr vid \<Rightarrow>
                   (case publish_log ae ops cx actor ''vendor.create''
                        (cfg\<lparr>cf_Vendors := cf_Vendors cfg @ [\<lparr>ve_ID = vid, ve_Name = name, ve_Config = vc\<rparr>]\<rparr>) s of
                      (Some err, s) \<Rightarrow> (Inl err, s) | (None, s) \<Rightarrow> (Inr vid, s))))"

section \<open>Merging a partial vendor\<close>

definition mergeBoolPtrForAdminUpsert :: "bool option \<Rightarrow> bool option \<Rightarrow> bool option" where
  "mergeBoolPtrForAdminUpsert prev n = (case n of None \<Rightarrow> prev | Some _ \<Rightarrow> n)"

definition mergeCooldownRuleForAdminUpsert :: "ErrorCooldownRule \<Rightarrow> ErrorCooldownRule \<Rightarrow> ErrorCooldownRule" where
  "mergeCooldownRuleForAdminUpsert prev n = (if cr_Enabled n \<noteq> None \<or> cr_Duration n \<noteq> 0 then n else prev)"

text \<open>The two flags say that the submitted slices of \<open>auto_disable\<close> are nil.\<close>

definition mergeErrorPolicyForAdminUpsert :: "bool \<Rightarrow> bool \<Rightarrow> ErrorPolicyConfig \<Rightarrow> ErrorPolicyConfig \<Rightarrow> ErrorPolicyConfig" where
  "mergeErrorPolicyForAdminUpsert codesNil keywordsNil prev n =
     (let pa = ep_AutoDisable prev; na = ep_AutoDisable n; pc = ep_Cooldown prev; nc = ep_Cooldown n;
          pf = ep_Failover prev; nf = ep_Failover n in
      \<lparr>ep_AutoDisable = \<lparr>ad_Enabled = mergeBoolPtrForAdminUpsert (ad_Enabled pa) (ad_Enabled na),
         ad_StatusCodes = (if codesNil then ad_StatusCodes pa else ad_StatusCodes na),
         ad_Keywords = (if keywordsNil then ad_Keywords pa else ad_Keywords na)\<rparr>,
       ep_Cooldown = nc\<lparr>
         cd_RequestError := mergeCooldownRuleForAdminUpsert (cd_RequestError pc) (cd_RequestError nc),
         cd_Unauthorized := mergeCooldownRuleForAdminUpsert (cd_Unauthorized pc) (cd_Unauthorized nc),
         cd_PaymentRequired := mergeCooldownRuleForAdminUpsert (cd_PaymentRequired pc) (cd_PaymentRequired nc),
         cd_Forbidden := mergeCooldownRuleForAdminUpsert (cd_Forbidden pc) (cd_Forbidden nc),
         cd_RateLimit := mergeCooldownRuleForAdminUpsert (cd_RateLimit pc) (cd_RateLimit nc),
         cd_ServerError := mergeCooldownRuleForAdminUpsert (cd_ServerError pc) (cd_ServerError nc),
         cd_OpenAISlowDown := mergeCooldownRuleForAdminUpsert (cd_OpenAISlowDown pc) (cd_OpenAISlowDown nc)\<rparr>,
       ep_Failover = nf\<lparr>
         fo_Unauthorized := mergeBoolPtrForAdminUpsert (fo_Unauthorized pf) (fo_Unauthorized nf),
         fo_PaymentRequired := mergeBoolPtrForAdminUpsert (fo_PaymentRequired pf) (fo_PaymentRequired nf),
         fo_Forbidden := mergeBoolPtrForAdminUpsert (fo_Forbidden pf) (fo_Forbidden nf),
         fo_RateLimit := mergeBoolPtrForAdminUpsert (fo_RateLimit pf) (fo_RateLimit nf),
         fo_ServerError := mergeBoolPtrForAdminUpsert (fo_ServerError pf) (fo_ServerError nf)\<rparr>,
       ep_Masking = (if mk_Enabled (ep_Masking n) = None \<and> mk_Rules (ep_Masking n) = [] then ep_Masking prev else ep_Masking n)\<rparr>)"

definition mergeVendorConfigForAdminUpsert :: "VendorConfig \<Rightarrow> VendorConfig \<Rightarrow> VendorConfig" where
  "mergeVendorConfigForAdminUpsert prev n =
     n\<lparr>vc_ErrorPolicy := mergeErrorPolicyForAdminUpsert (vc_CodesNil n) (vc_KeywordsNil n) (vc_ErrorPolicy prev) (vc_ErrorPolicy n),
       vc_CodesNil := (vc_CodesNil n \<and> vc_CodesNil prev), vc_KeywordsNil := (vc_KeywordsNil n \<and> vc_KeywordsNil prev)\<rparr>"

definition UpdateVendor ::
  "admin_env \<Rightarrow> 'k key_ops \<Rightarrow> op_cx \<Rightarrow> string \<Rightarrow> string \<Rightarrow> VendorConfig \<Rightarrow> 'k Service \<Rightarrow> cfg_error option \<times> 'k Service" where
  "UpdateVendor ae ops cx actor vendorID vc s =
     (let vendorID = trim_space vendorID in
      if vendorID = [] then (Some (Errorf ''vendor id is required'' []), s)
      else case current ae cx s of
        Inl err \<Rightarrow> (Some err, s)
      | Inr cfg \<Rightarrow>
          (case VendorIndexByID cfg vendorID of
             None \<Rightarrow> (Some (Errorf ''vendor %q not found'' [vendorID]), s)
           | Some idx \<Rightarrow>
               let prev = cf_Vendors cfg ! idx;
                   entry = \<lparr>ve_ID = ve_ID prev, ve_Name = ve_Name prev, ve_Config = mergeVendorConfigForAdminUpsert (ve_Config prev) vc\<rparr>
               in publish_log ae ops cx actor ''vendor.update'' (cfg\<lparr>cf_Vendors := (cf_Vendors cfg)[idx := entry]\<rparr>) s))"

definition RenameVendor ::
  "admin_env \<Rightarrow> 'k key_ops \<Rightarrow> op_cx \<Rightarrow> string \<Rightarrow> string \<Rightarrow> string \<Rightarrow> 'k Service \<Rightarrow> cfg_error option \<times> 'k Service" where
  "RenameVendor ae ops cx actor vendorID newName s =
     (let vendorID = trim_space vendorID; newName = trim_space newName in
      if vendorID = [] then (Some (Errorf ''vendor id is required'' []), s)
      else case ValidateVendorName newName of
        Some err \<Rightarrow> (Some err, s)
      | None \<Rightarrow>
          (case current ae cx s of
             Inl err \<Rightarrow> (Some err, s)
           | Inr cfg \<Rightarrow>
               (case VendorIndexByID cfg vendorID of
                  None \<Rightarrow> (Some (Errorf ''vendor %q not found'' [vendorID]), s)
                | Some idx \<Rightarrow>
                    let entry = cf_Vendors cfg ! idx in
                    if ve_Name entry = newName then (None, s)
                    else if VendorIndexByName cfg newName \<noteq> None
                    then (Some (Errorf ''vendor name %q already used by another vendor'' [newName]), s)
                    else publish_log ae ops cx actor ''vendor.rename''
                      (cfg\<lparr>cf_Vendors := (cf_Vendors cfg)[idx := entry\<lparr>ve_Name := newName\<rparr>]\<rparr>) s)))"

definition DeleteVendor ::
  "admin_env \<Rightarrow> 'k key_ops \<Rightarrow> op_cx \<Rightarrow> string \<Rightarrow> string \<Rightarrow> 'k Service \<Rightarrow> cfg_error option \<times> 'k Service" where
  "DeleteVendor ae ops cx actor vendorID s = (case current ae cx s of
      Inl err \<Rightarrow> (Some err, s)
    | Inr cfg \<Rightarrow>
        (case VendorByID cfg vendorID of
           None \<Rightarrow> (Some (Errorf ''vendor %q not found'' [vendorID]), s)
         | Some entry \<Rightarrow>
             (case find (\<lambda>e. ve_ID e \<noteq> ve_ID entry \<and> ve_ID entry \<in> ac_VendorID ` set (gc_Children (vc_Aggregate (ve_Config e)))) (cf_Vendors cfg) of
                Some e \<Rightarrow> (Some (Errorf ''vendor %q is still referenced by aggregate vendor %q'' [ve_Name entry, ve_Name e]), s)
              | None \<Rightarrow>
                  (case updateConfigLocked ae ops cx actor (snd (DeleteVendorByID (ve_ID entry) cfg)) s of
                     (Some err, s) \<Rightarrow> (Some err, s)
                   | (None, s) \<Rightarrow>
                       (case ko_DeleteVendor ops (ve_ID entry) (ay_keys s) of
                          (Some err, k) \<Rightarrow> (Some err, s\<lparr>ay_keys := k\<rparr>)
                        | (None, k) \<Rightarrow>
                            (case svc_RefreshKeys ae ops cx (s\<lparr>ay_keys := k\<rparr>) of
                               (Some err, s) \<Rightarrow> (Some err, s)
                             | (None, s) \<Rightarrow> (None, audit_Log cx actor ''vendor.delete'' s)))))))"

definition AddClientKey ::
  "admin_env \<Rightarrow> 'k key_ops \<Rightarrow> op_cx \<Rightarrow> string \<Rightarrow> string \<Rightarrow> string \<Rightarrow> 'k Service \<Rightarrow> cfg_error option \<times> 'k Service" where
  "AddClientKey ae ops cx actor vendorID key s = (case current ae cx s of
      Inl err \<Rightarrow> (Some err, s)
    | Inr cfg \<Rightarrow>
        (case VendorIndexByID cfg vendorID of
           None \<Rightarrow> (Some (Errorf ''vendor %q not found'' [vendorID]), s)
         | Some idx \<Rightarrow>
             let e = cf_Vendors cfg ! idx; v = ve_Config e; ca = vc_ClientAuth v in
             if trim_space key = [] then (Some (Errorf ''key is empty'' []), s)
             else if key \<in> set (ca_Keys ca) then (Some (Errorf ''duplicate key'' []), s)
             else publish_log ae ops cx actor ''client_key.add''
               (cfg\<lparr>cf_Vendors := (cf_Vendors cfg)[idx := e\<lparr>ve_Config := v\<lparr>vc_ClientAuth :=
                  \<lparr>ca_Enabled = True, ca_Keys = ca_Keys ca @ [key]\<rparr>\<rparr>\<rparr>]\<rparr>) s))"

definition DeleteClientKey ::
  "admin_env \<Rightarrow> 'k key_ops \<Rightarrow> op_cx \<Rightarrow> string \<Rightarrow> string \<Rightarrow> string \<Rightarrow> 'k Service \<Rightarrow> cfg_error option \<times> 'k Service" where
  "DeleteClientKey ae ops cx actor vendorID key s = (case current ae cx s of
      Inl err \<Rightarrow> (Some err, s)
    | Inr cfg \<Rightarrow>
        (case VendorIndexByID cfg vendorID of
           None \<Rightarrow> (Some (Errorf ''vendor %q not found'' [vendorID]), s)
         | Some idx \<Rightarrow>
             let e = cf_Vendors cfg ! idx; v = ve_Config e; ca = vc_ClientAuth v; rest = filter (\<lambda>k. k \<noteq> key) (ca_Keys ca) in
             if key \<notin> set (ca_Keys ca) then (Some (Errorf ''key not found'' []), s)
             else publish_log ae ops cx actor ''client_key.delete''
               (cfg\<lparr>cf_Vendors := (cf_Vendors cfg)[idx := e\<lparr>ve_Config := v\<lparr>vc_ClientAuth :=
                  \<lparr>ca_Enabled = (if rest = [] then False else ca_Enabled ca), ca_Keys = rest\<rparr>\<rparr>\<rparr>]\<rparr>) s))"

end
