(* ===== verification/AdminKeys.thy ===== *)
theory AdminKeys
  imports AdminService
begin

text \<open>
  The part of the administration service that manages upstream keys and reads statistics
  (\<open>internal/admin/service.go\<close>, \<open>stats_reset.go\<close>, \<open>Stats\<close> of \<open>internal/balancer/pool.go\<close>): every change goes to the key
  store first and is then published by rebuilding the router.
\<close>

section \<open>Changing keys\<close>

definition requireVendor :: "admin_env \<Rightarrow> op_cx \<Rightarrow> string \<Rightarrow> 'k Service \<Rightarrow> cfg_error option" where
  "requireVendor ae cx vendorID s = (case current ae cx s of
      Inl err \<Rightarrow> Some err
    | Inr cfg \<Rightarrow> check (VendorByID cfg vendorID = None) (Errorf ''vendor %q not found'' [vendorID]))"

text \<open>Rebuild the router after a change of the store, then log.\<close>

definition refresh_log ::
  "admin_env \<Rightarrow> 'k key_ops \<Rightarrow> op_cx \<Rightarrow> string \<Rightarrow> string \<Rightarrow> 'k Service \<Rightarrow> cfg_error option \<times> 'k Service" where
  "refresh_log ae ops cx actor action s = (case svc_RefreshKeys ae ops cx s of
      (Some err, s) \<Rightarrow> (Some err, s) | (None, s) \<Rightarrow> (None, audit_Log cx actor action s))"

definition AddUpstreamKeys ::
  "admin_env \<Rightarrow> 'k key_ops \<Rightarrow> op_cx \<Rightarrow> string \<Rightarrow> string \<Rightarrow> string list \<Rightarrow> 'k Service \<Rightarrow> cfg_error option \<times> 'k Service" where
  "AddUpstreamKeys ae ops cx actor vendor keys s = (case requireVendor ae cx vendor s of
      Some err \<Rightarrow> (Some err, s)
    | None \<Rightarrow>
        let keys = NormalizeKeys keys in
        if keys = [] then (Some (Errorf ''key is empty'' []), s)
        else case ko_Append ops vendor keys (ay_keys s) of
          (Inl err, k) \<Rightarrow> (Some err, s\<lparr>ay_keys := k\<rparr>)
        | (Inr added, k) \<Rightarrow>
            if added = 0 then (Some (Errorf ''duplicate key'' []), s\<lparr>ay_keys := k\<rparr>)
            else refresh_log ae ops cx actor ''upstream_key.add'' (s\<lparr>ay_keys := k\<rparr>))"

definition AddUpstreamKey ::
  "admin_env \<Rightarrow> 'k key_ops \<Rightarrow> op_cx \<Rightarrow> string \<Rightarrow> string \<Rightarrow> string \<Rightarrow> 'k Service \<Rightarrow> cfg_error option \<times> 'k Service" where
  "AddUpstreamKey ae ops cx actor vendor key s =
     (let key = trim_space key in
      if key = [] then (Some (Errorf ''key is empty'' []), s) else AddUpstreamKeys ae ops cx actor vendor [key] s)"

definition DeleteUpstreamKeys ::
  "admin_env \<Rightarrow> 'k key_ops \<Rightarrow> op_cx \<Rightarrow> string \<Rightarrow> string \<Rightarrow> string list \<Rightarrow> 'k Service \<Rightarrow> cfg_error option \<times> 'k Service" where
  "DeleteUpstreamKeys ae ops cx actor vendor keys s = (case requireVendor ae cx vendor s of
      Some err \<Rightarrow> (Some err, s)
    | None \<Rightarrow>
        let keys = NormalizeKeys keys in
        if keys = [] then (Some (Errorf ''key is empty'' []), s)
        else case ko_Delete ops vendor keys (ay_keys s) of
          (Inl err, k) \<Rightarrow> (Some err, s\<lparr>ay_keys := k\<rparr>)
        | (Inr removed, k) \<Rightarrow>
            if removed = 0 then (Some (Errorf ''key not found'' []), s\<lparr>ay_keys := k\<rparr>)
            else refresh_log ae ops cx actor ''upstream_key.delete'' (s\<lparr>ay_keys := k\<rparr>))"

definition DeleteUpstreamKey ::
  "admin_env \<Rightarrow> 'k key_ops \<Rightarrow> op_cx \<Rightarrow> string \<Rightarrow> string \<Rightarrow> string \<Rightarrow> 'k Service \<Rightarrow> cfg_error option \<times> 'k Service" where
  "DeleteUpstreamKey ae ops cx actor vendor key s =
     (let key = trim_space key in
      if key = [] then (Some (Errorf ''key is empty'' []), s) else DeleteUpstreamKeys ae ops cx actor vendor [key] s)"

definition ReplaceUpstreamKeys ::
  "admin_env \<Rightarrow> 'k key_ops \<Rightarrow> op_cx \<Rightarrow> string \<Rightarrow> string \<Rightarrow> string list \<Rightarrow> 'k Service \<Rightarrow> cfg_error option \<times> 'k Service" where
  "ReplaceUpstreamKeys ae ops cx actor vendor keys s = (case requireVendor ae cx vendor s of
      Some err \<Rightarrow> (Some err, s)
    | None \<Rightarrow>
        (case ko_Replace ops vendor (NormalizeKeys keys) (ay_keys s) of
           (Some err, k) \<Rightarrow> (Some err, s\<lparr>ay_keys := k\<rparr>)
         | (None, k) \<Rightarrow> refresh_log ae ops cx actor ''upstream_key.replace'' (s\<lparr>ay_keys := k\<rparr>)))"

text \<open>The loop that sets the status of one key after the other and stops at the first error.\<close>

fun set_statuses ::
  "'k key_ops \<Rightarrow> string \<Rightarrow> string \<Rightarrow> string \<Rightarrow> string \<Rightarrow> string list \<Rightarrow> 'k \<Rightarrow> cfg_error option \<times> 'k" where
  "set_statuses ops vendor status reason actor [] k = (None, k)"
| "set_statuses ops vendor status reason actor (key # keys) k = (case ko_SetStatus ops vendor key status reason actor k of
     (Some err, k) \<Rightarrow> (Some err, k) | (None, k) \<Rightarrow> set_statuses ops vendor status reason actor keys k)"

definition SetUpstreamKeyStatus ::
  "admin_env \<Rightarrow> 'k key_ops \<Rightarrow> op_cx \<Rightarrow> string \<Rightarrow> string \<Rightarrow> string list \<Rightarrow> string \<Rightarrow> string \<Rightarrow> 'k Service \<Rightarrow> cfg_error option \<times> 'k Service" where
  "SetUpstreamKeyStatus ae ops cx actor vendor keys status reason s = (case requireVendor ae cx vendor s of
      Some err \<Rightarrow> (Some err, s)
    | None \<Rightarrow>
        let keys = NormalizeKeys keys in
        if keys = [] then (Some (Errorf ''key is empty'' []), s)
        else
          let status = NormalizeStatus status; reason = (if status = KeyStatusActive then [] else reason) in
          (case set_statuses ops vendor status reason actor keys (ay_keys s) of
             (Some err, k) \<Rightarrow> (Some err, s\<lparr>ay_keys := k\<rparr>)
           | (None, k) \<Rightarrow>
               refresh_log ae ops cx actor (if IsActiveStatus status then ''upstream_key.enable'' else ''upstream_key.disable'') (s\<lparr>ay_keys := k\<rparr>)))"

definition DisableUpstreamKey ::
  "admin_env \<Rightarrow> 'k key_ops \<Rightarrow> op_cx \<Rightarrow> string \<Rightarrow> string \<Rightarrow> string \<Rightarrow> string \<Rightarrow> string \<Rightarrow> 'k Service \<Rightarrow> cfg_error option \<times> 'k Service" where
  "DisableUpstreamKey ae ops cx actor vendor key reason status s =
     (let key = trim_space key in
      if key = [] then (Some (Errorf ''key is empty'' []), s) else SetUpstreamKeyStatus ae ops cx actor vendor [key] status reason s)"

definition EnableUpstreamKey ::
  "admin_env \<Rightarrow> 'k key_ops \<Rightarrow> op_cx \<Rightarrow> string \<Rightarrow> string \<Rightarrow> string \<Rightarrow> 'k Service \<Rightarrow> cfg_error option \<times> 'k Service" where
  "EnableUpstreamKey ae ops cx actor vendor key s =
     (let key = trim_space key in
      if key = [] then (Some (Errorf ''key is empty'' []), s) else SetUpstreamKeyStatus ae ops cx actor vendor [key] KeyStatusActive [] s)"

definition recover_keys :: "string \<Rightarrow> string list \<Rightarrow> Runtime \<Rightarrow> Runtime" where
  "recover_keys vendor keys rt =
     (let hp = fold (\<lambda>key hp. snd (router_RecoverUpstreamKey vendor key (rn_router rt) hp)) keys (bs_heap (rn_build rt))
      in rt\<lparr>rn_build := (rn_build rt)\<lparr>bs_heap := hp\<rparr>\<rparr>)"

definition RecoverUpstreamKeys ::
  "admin_env \<Rightarrow> 'k key_ops \<Rightarrow> op_cx \<Rightarrow> string \<Rightarrow> string \<Rightarrow> string list \<Rightarrow> 'k Service \<Rightarrow> cfg_error option \<times> 'k Service" where
  "RecoverUpstreamKeys ae ops cx actor vendor keys s = (case requireVendor ae cx vendor s of
      Some err \<Rightarrow> (Some err, s)
    | None \<Rightarrow>
        let keys = NormalizeKeys keys in
        if keys = [] then (Some (Errorf ''key is empty'' []), s)
        else case set_statuses ops vendor KeyStatusActive [] actor keys (ay_keys s) of
          (Some err, k) \<Rightarrow> (Some err, s\<lparr>ay_keys := k\<rparr>)
        | (None, k) \<Rightarrow>
            (case svc_RefreshKeys ae ops cx (s\<lparr>ay_keys := k\<rparr>) of
               (Some err, s) \<Rightarrow> (Some err, s)
             | (None, s) \<Rightarrow> (None, audit_Log cx actor ''upstream_key.recover'' (s\<lparr>ay_runtime := recover_keys vendor keys (ay_runtime s)\<rparr>))))"

definition SetUpstreamKeyRemark ::
  "admin_env \<Rightarrow> 'k key_ops \<Rightarrow> op_cx \<Rightarrow> string \<Rightarrow> string \<Rightarrow> string \<Rightarrow> string \<Rightarrow> 'k Service \<Rightarrow> cfg_error option \<times> 'k Service" where
  "SetUpstreamKeyRemark ae ops cx actor vendor key remark s =
     (let vendor = trim_space vendor; key = trim_space key; remark = trim_space remark in
      case requireVendor ae cx vendor s of
        Some err \<Rightarrow> (Some err, s)
      | None \<Rightarrow>
          if key = [] then (Some (Errorf ''key is required'' []), s)
          else if length (to_runes remark) > 500 then (Some (Errorf ''remark must not exceed 500 characters'' []), s)
          else case ko_SetRemark ops of
            None \<Rightarrow> (Some (Errorf ''upstream key store does not support remarks'' []), s)
          | Some setRemark \<Rightarrow>
              (case setRemark vendor key remark (ay_keys s) of
                 (Some err, k) \<Rightarrow> (Some err, s\<lparr>ay_keys := k\<rparr>)
               | (None, k) \<Rightarrow> (None, audit_Log cx actor ''upstream_key.remark'' (s\<lparr>ay_keys := k\<rparr>))))"

section \<open>Listing keys\<close>

text \<open>The items show the record itself and its masked key; the formatted times are the record's.\<close>

record UpstreamKeyRecordResponse =
  kr_record :: key_record
  kr_KeyID :: string
  kr_Masked :: string

record UpstreamKeyVendorSummary =
  vs_VendorID :: string
  vs_Vendor :: string
  vs_Count :: int
  vs_ActiveCount :: int
  vs_DisabledCount :: int
  vs_Configured :: bool

definition vendor_name :: "Config \<Rightarrow> string \<Rightarrow> string option" where
  "vendor_name cfg vid = map_of (rev (map (\<lambda>e. (ve_ID e, ve_Name e)) (cf_Vendors cfg))) vid"

definition listed_vendors :: "Config \<Rightarrow> record_map \<Rightarrow> string list" where
  "listed_vendors cfg all =
     (let ids = remdups (map ve_ID (cf_Vendors cfg) @ map fst all); name = (\<lambda>vid. case vendor_name cfg vid of None \<Rightarrow> [] | Some n \<Rightarrow> n)
      in sort_key name (sort ids))"

definition key_items :: "build_env \<Rightarrow> key_record list \<Rightarrow> UpstreamKeyRecordResponse list" where
  "key_items env records = map (\<lambda>r. \<lparr>kr_record = r, kr_KeyID = KeyID (be_sha256 env) (rec_Key r), kr_Masked = mask_text (rec_Key r)\<rparr>)
     (sort_key rec_Key records)"

definition vendor_summary :: "Config \<Rightarrow> string \<Rightarrow> key_record list \<Rightarrow> UpstreamKeyVendorSummary" where
  "vendor_summary cfg vid records =
     \<lparr>vs_VendorID = vid, vs_Vendor = (case vendor_name cfg vid of None \<Rightarrow> vid | Some n \<Rightarrow> n), vs_Count = int (length records),
      vs_ActiveCount = int (length (filter (\<lambda>r. IsActiveStatus (rec_Status r)) records)),
      vs_DisabledCount = int (length (filter (\<lambda>r. \<not> IsActiveStatus (rec_Status r)) records)),
      vs_Configured = (vendor_name cfg vid \<noteq> None)\<rparr>"

definition ListUpstreamKeys ::
  "admin_env \<Rightarrow> 'k key_ops \<Rightarrow> op_cx \<Rightarrow> 'k Service \<Rightarrow>
     cfg_error + (UpstreamKeyVendorSummary list \<times> (string \<times> UpstreamKeyRecordResponse list) list)" where
  "ListUpstreamKeys ae ops cx s = (case current ae cx s of
      Inl err \<Rightarrow> Inl err
    | Inr cfg \<Rightarrow>
        (case ko_ListAll ops (ay_keys s) of
           Inl err \<Rightarrow> Inl err
         | Inr all \<Rightarrow>
             let vendors = listed_vendors cfg all in
             Inr (map (\<lambda>v. vendor_summary cfg v (vendor_records all v)) vendors,
                  map (\<lambda>v. (v, key_items (ae_build ae) (vendor_records all v))) vendors)))"

definition firstAvailableUpstreamKey :: "'k key_ops \<Rightarrow> string \<Rightarrow> 'k \<Rightarrow> cfg_error + string" where
  "firstAvailableUpstreamKey ops vendorID k = (case ko_List ops vendorID k of
      Inl err \<Rightarrow> Inl err
    | Inr records \<Rightarrow> Inr (case find (\<lambda>r. IsActiveStatus (rec_Status r)) records of None \<Rightarrow> [] | Some r \<Rightarrow> rec_Key r))"

section \<open>Statistics\<close>

text \<open>The entries of \<open>Pool.Stats\<close> that the service reads.  A remaining cooldown is a number of whole seconds.\<close>

record stats_item =
  si_key_id :: string
  si_key_masked :: string
  si_status :: string
  si_disable_reason :: string
  si_disabled_by :: string
  si_last_error :: string
  si_inflight :: int
  si_failures :: int
  si_backoff :: int
  si_stats :: runtime_stats

definition pool_Stats :: "build_env \<Rightarrow> time \<Rightarrow> Pool \<Rightarrow> heap \<Rightarrow> stats_item list" where
  "pool_Stats env now p hp =
     map (\<lambda>ks. \<lparr>si_key_id = KeyID (be_sha256 env) (ks_Key ks), si_key_masked = maskKey (ks_Key ks), si_status = ks_Status ks,
            si_disable_reason = ks_DisableReason ks, si_disabled_by = ks_DisabledBy ks, si_last_error = LastError (ks_RuntimeStats ks),
            si_inflight = ks_Inflight ks, si_failures = ks_Failures ks,
            si_backoff = (if ks_CooldownUntil ks > now then (ks_CooldownUntil ks - now) div second else 0),
            si_stats = ks_RuntimeStats ks\<rparr>) (Snapshot p hp)"

definition VendorStats :: "build_env \<Rightarrow> time \<Rightarrow> Router \<Rightarrow> heap \<Rightarrow> (string \<times> stats_item list) list" where
  "VendorStats env now r hp = map (\<lambda>(v, p). (v, pool_Stats env now p hp)) (ro_pools r)"

record RuntimeStatsQuery =
  sq_VendorID :: string
  sq_Filter :: string
  sq_Q :: string
  sq_Page :: int
  sq_PageSize :: int

record RuntimeStatsMeta =
  mt_VendorID :: string
  mt_Filter :: string
  mt_Q :: string
  mt_Page :: int
  mt_PageSize :: int
  mt_Total :: int

definition normalizeRuntimeStatsFilter :: "string \<Rightarrow> string" where
  "normalizeRuntimeStatsFilter f =
     (let f = trim_space (to_lower f) in if f \<in> set [''active'', ''disabled'', ''backoff'', ''issues'', ''inflight''] then f else ''all'')"

definition normalizeRuntimeStatsPage :: "int \<Rightarrow> int" where
  "normalizeRuntimeStatsPage page = (if page \<le> 0 then 1 else page)"

definition normalizeRuntimeStatsPageSize :: "int \<Rightarrow> int" where
  "normalizeRuntimeStatsPageSize n = (if n \<le> 0 then 50 else if n > 200 then 200 else n)"

definition matchesRuntimeStatsFilter :: "string \<Rightarrow> stats_item \<Rightarrow> bool" where
  "matchesRuntimeStatsFilter f item =
     (let status = trim_space (si_status item); st = si_stats item;
          hasError = (trim_space (si_disable_reason item) \<noteq> [] \<or> trim_space (si_last_error item) \<noteq> []);
          hasIssue = ((status \<noteq> [] \<and> status \<noteq> KeyStatusActive) \<or> si_backoff item > 0 \<or> si_failures item > 0 \<or>
            UnauthorizedCount st > 0 \<or> ForbiddenCount st > 0 \<or> RateLimitCount st > 0 \<or> OtherErrorCount st > 0 \<or> hasError)
      in if f = ''active'' then status = KeyStatusActive
         else if f = ''disabled'' then status = KeyStatusDisabledAuto \<or> status = KeyStatusDisabledManual
         else if f = ''backoff'' then si_backoff item > 0
         else if f = ''issues'' then hasIssue
         else if f = ''inflight'' then si_inflight item > 0
         else True)"

definition matchesRuntimeStatsKeyword :: "string \<Rightarrow> stats_item \<Rightarrow> bool" where
  "matchesRuntimeStatsKeyword keyword item =
     contains (to_lower (join '' '' [si_key_masked item, si_status item, si_disable_reason item, si_disabled_by item, si_last_error item])) keyword"

definition filterRuntimeStatsItems :: "string \<Rightarrow> string \<Rightarrow> stats_item list \<Rightarrow> stats_item list" where
  "filterRuntimeStatsItems f keyword items =
     filter (\<lambda>item. matchesRuntimeStatsFilter f item \<and> (keyword = [] \<or> matchesRuntimeStatsKeyword keyword item)) items"

text \<open>Go divides integers towards zero; here both operands are positive.\<close>

definition buildRuntimeStatsResponse ::
  "(string \<times> stats_item list) list \<Rightarrow> RuntimeStatsQuery \<Rightarrow> (string \<times> stats_item list) list \<times> RuntimeStatsMeta" where
  "buildRuntimeStatsResponse vendors q =
     (let vendorID = trim_space (sq_VendorID q); f = normalizeRuntimeStatsFilter (sq_Filter q);
          keyword = to_lower (trim_space (sq_Q q)); page = normalizeRuntimeStatsPage (sq_Page q);
          pageSize = normalizeRuntimeStatsPageSize (sq_PageSize q) in
      if vendorID = []
      then (map (\<lambda>(v, items). (v, filterRuntimeStatsItems f keyword items)) vendors,
            \<lparr>mt_VendorID = [], mt_Filter = f, mt_Q = trim_space (sq_Q q), mt_Page = 1, mt_PageSize = pageSize, mt_Total = 0\<rparr>)
      else
        let items = filterRuntimeStatsItems f keyword (case map_of vendors vendorID of None \<Rightarrow> [] | Some items \<Rightarrow> items);
            n = int (length items);
            page = (if n = 0 then 1 else min page ((n - 1) div pageSize + 1));
            start = min ((page - 1) * pageSize) n;
            stop = min (start + pageSize) n
        in ([(vendorID, drop (nat start) (take (nat stop) items))],
            \<lparr>mt_VendorID = vendorID, mt_Filter = f, mt_Q = trim_space (sq_Q q), mt_Page = page, mt_PageSize = pageSize, mt_Total = n\<rparr>))"

definition svc_Stats :: "admin_env \<Rightarrow> op_cx \<Rightarrow> RuntimeStatsQuery \<Rightarrow> 'k Service \<Rightarrow> (string \<times> stats_item list) list \<times> RuntimeStatsMeta" where
  "svc_Stats ae cx q s =
     buildRuntimeStatsResponse (VendorStats (ae_build ae) (cx_now cx) (rn_router (ay_runtime s)) (bs_heap (rn_build (ay_runtime s)))) q"

record RuntimeStatsResetRequest =
  rq_Scope :: string
  rq_VendorID :: string
  rq_Confirmation :: string

text \<open>\<open>reset\<close> is \<open>Reset\<close> of the statistics persister, or none when there is no persister: it works on the key store and
  the statistics handles.\<close>

definition reset_request_error :: "RuntimeStatsResetRequest \<Rightarrow> cfg_error option" where
  "reset_request_error req =
     (let vendorID = trim_space (rq_VendorID req); invalid = (\<lambda>text. Some (Wrapf text [] (Errorf ''invalid statistics reset'' []))) in
      if rq_Confirmation req \<noteq> ''RESET'' then invalid ''%w: confirmation must be RESET''
      else if rq_Scope req = ''all'' then (if vendorID \<noteq> [] then invalid ''%w: all scope must not include vendor_id'' else None)
      else if rq_Scope req = ''vendor'' then (if vendorID = [] then invalid ''%w: vendor_id is required'' else None)
      else invalid ''%w: scope must be vendor or all'')"

definition reset_target_error :: "admin_env \<Rightarrow> 'k key_ops \<Rightarrow> op_cx \<Rightarrow> string \<Rightarrow> 'k Service \<Rightarrow> cfg_error option" where
  "reset_target_error ae ops cx vendorID s = (case current ae cx s of
      Inl err \<Rightarrow> Some err
    | Inr cfg \<Rightarrow>
        let invalid = (\<lambda>text. Some (Wrapf text [] (Errorf ''invalid statistics reset'' []))) in
        (case VendorByID cfg vendorID of
           Some entry \<Rightarrow> if vc_Provider (ve_Config entry) = ''aggregate''
             then invalid ''%w: reset the aggregate's child vendors or use all scope'' else None
         | None \<Rightarrow>
             (case ko_List ops vendorID (ay_keys s) of
                Inl err \<Rightarrow> Some err
              | Inr records \<Rightarrow> if records = [] then invalid ''%w: unknown vendor_id'' else None)))"

definition svc_ResetRuntimeStats ::
  "admin_env \<Rightarrow> 'k key_ops \<Rightarrow> op_cx \<Rightarrow> (string \<Rightarrow> 'k \<times> heap \<Rightarrow> (cfg_error + int) \<times> 'k \<times> heap) option \<Rightarrow> string \<Rightarrow>
     RuntimeStatsResetRequest \<Rightarrow> 'k Service \<Rightarrow> (cfg_error + int) \<times> 'k Service" where
  "svc_ResetRuntimeStats ae ops cx reset actor req s =
     (let vendorID = trim_space (rq_VendorID req) in
      case reset_request_error req of
        Some err \<Rightarrow> (Inl err, s)
      | None \<Rightarrow>
          (case (if rq_Scope req = ''vendor'' then reset_target_error ae ops cx vendorID s else None) of
             Some err \<Rightarrow> (Inl err, s)
           | None \<Rightarrow>
               (case reset of
                  None \<Rightarrow> (Inl (Errorf ''runtime stats reset is unavailable'' []), s)
                | Some reset \<Rightarrow>
                    let rt = ay_runtime s; (res, k, hp) = reset vendorID (ay_keys s, bs_heap (rn_build rt));
                        s = s\<lparr>ay_keys := k, ay_runtime := rt\<lparr>rn_build := (rn_build rt)\<lparr>bs_heap := hp\<rparr>\<rparr>\<rparr>
                    in (res, audit_Log cx actor (if isl res then ''runtime_stats.reset_failed'' else ''runtime_stats.reset'') s))))"

end
