(* ===== verification/VendorTesting.thy ===== *)
theory VendorTesting
  imports AdminKeys
begin

text \<open>
  Testing a vendor from the administration (\<open>internal/gateway/vendor_testing.go\<close> and its use in
  \<open>internal/admin/service.go\<close>): one request to the upstream of a vendor with a chosen key.  The response of the
  upstream, the parser of URLs and the construction of the request are arguments.  A call that dereferences a nil
  pointer is an outcome of its own.
\<close>

section \<open>Data\<close>

record VendorTestPreset =
  tp_Label :: string
  tp_Method :: string
  tp_Endpoint :: string
  tp_Body :: string

record VendorTestMeta =
  vm_VendorID :: string
  vm_Vendor :: string
  vm_Provider :: string
  vm_BaseURL :: string
  vm_ModelEndpoints :: "string list"
  vm_RequestPresets :: "VendorTestPreset list"

record VendorTestRequest =
  tq_BaseURL :: string
  tq_Method :: string
  tq_Endpoint :: string
  tq_Headers :: "(string \<times> string) list"
  tq_Body :: string
  tq_Key :: string

record VendorTestResult =
  tr_Provider :: string
  tr_BaseURL :: string
  tr_Endpoint :: string
  tr_ResolvedURL :: string
  tr_Method :: string
  tr_StatusCode :: int
  tr_Headers :: header
  tr_Body :: string
  tr_Truncated :: bool
  tr_DurationMS :: int

text \<open>\<open>url.Parse\<close> of an endpoint: the parts the code reads.\<close>

record endpoint_url =
  eu_Abs :: bool
  eu_Host :: string
  eu_Fragment :: string
  eu_Path :: string
  eu_EscapedPath :: string
  eu_RawQuery :: string

text \<open>The response of an upstream: status, headers, the bytes of its body and the error that ends it, if not the
  end of the stream.\<close>

record test_response =
  ts_StatusCode :: int
  ts_Header :: header
  ts_body :: string
  ts_end :: "cfg_error option"

record test_env =
  te_build :: build_env
  te_parseEndpoint :: "string \<Rightarrow> cfg_error + endpoint_url"
  te_sum64 :: "string \<Rightarrow> nat"
  te_newRequest :: "string \<Rightarrow> string \<Rightarrow> cfg_error option"
  te_do :: "string \<Rightarrow> string \<Rightarrow> header \<Rightarrow> string \<Rightarrow> cfg_error + test_response"
  te_elapsed :: int

datatype 'a outcome = Panic | Done 'a

section \<open>Operations\<close>

definition lookupVendorByID :: "Router \<Rightarrow> string \<Rightarrow> cfg_error + vendorGateway" where
  "lookupVendorByID r vendorID =
     (let vid = trim_space vendorID in
      if vid = [] then Inl (Errorf ''vendor id is required'' [])
      else case map_of (ro_vendorsByID r) vid of None \<Rightarrow> Inl (Errorf ''vendor %q not found'' [vid]) | Some vg \<Rightarrow> Inr vg)"

text \<open>The target of a gateway: an aggregate has none.  The target holds the base URL and the client.\<close>

definition own_target :: "Router \<Rightarrow> vendorGateway \<Rightarrow> upstream_target option" where
  "own_target r v = (if vg_isAggregate v then None else map_of (ro_targets r) (vg_id v))"

definition requireOwnBaseURL :: "Router \<Rightarrow> vendorGateway \<Rightarrow> cfg_error + go_url" where
  "requireOwnBaseURL r v = (case own_target r v of
      Some t \<Rightarrow> Inr (ut_baseURL t)
    | None \<Rightarrow> Inl (Errorf ''vendor %q has no upstream base_url of its own; aggregate vendors must be tested through a child vendor or an explicit base_url''
        [if vg_name v \<noteq> [] then vg_name v else ''vendor'']))"

definition isModelListEndpoint :: "string \<Rightarrow> bool" where
  "isModelListEndpoint path =
     (let p = NormalizePath path in has_suffix p ''/models'' \<or> has_suffix p ''/v1/models'' \<or> has_suffix p ''/v1beta/models'')"

definition suggestedModelEndpoints :: "string \<Rightarrow> string list" where
  "suggestedModelEndpoints provider =
     (if provider = ''gemini'' then [''/v1beta/models'', ''/v1/models''] else [''/v1/models'', ''/models''])"

text \<open>The lines of a body; a grave accent stands for the quotation mark.\<close>

definition preset_body :: "string list \<Rightarrow> string" where
  "preset_body ls = map (\<lambda>c. if c = CHR 0x60 then CHR 0x22 else c) (join [CHR 10] ls)"

definition suggestedRequestPresets :: "string \<Rightarrow> VendorTestPreset list" where
  "suggestedRequestPresets provider =
     (if provider = ''anthropic'' then
        [\<lparr>tp_Label = ''Messages'', tp_Method = ''POST'', tp_Endpoint = ''/v1/messages'',
          tp_Body = preset_body [''{'', ''  `model`: `{model}`,'', ''  `max_tokens`: 64,'', ''  `messages`: ['', ''    {'', ''      `role`: `user`,'',
            ''      `content`: `ping`'', ''    }'', ''  ]'', ''}'']\<rparr>]
      else if provider = ''gemini'' then
        [\<lparr>tp_Label = ''Generate Content'', tp_Method = ''POST'', tp_Endpoint = ''/v1beta/models/{model}:generateContent'',
          tp_Body = preset_body [''{'', ''  `contents`: ['', ''    {'', ''      `role`: `user`,'', ''      `parts`: ['', ''        {'',
            ''          `text`: `ping`'', ''        }'', ''      ]'', ''    }'', ''  ]'', ''}'']\<rparr>]
      else
        [\<lparr>tp_Label = ''Chat Completions'', tp_Method = ''POST'', tp_Endpoint = ''/v1/chat/completions'',
          tp_Body = preset_body [''{'', ''  `model`: `{model}`,'', ''  `messages`: ['', ''    {'', ''      `role`: `user`,'', ''      `content`: `ping`'',
            ''    }'', ''  ],'', ''  `stream`: false'', ''}'']\<rparr>])"

definition router_VendorTestMeta :: "Router \<Rightarrow> string \<Rightarrow> cfg_error + VendorTestMeta" where
  "router_VendorTestMeta r vendorID = (case lookupVendorByID r vendorID of
      Inl err \<Rightarrow> Inl err
    | Inr vg \<Rightarrow>
        (case requireOwnBaseURL r vg of
           Inl err \<Rightarrow> Inl err
         | Inr u \<Rightarrow> Inr \<lparr>vm_VendorID = vg_id vg, vm_Vendor = vg_name vg, vm_Provider = vg_provider vg, vm_BaseURL = url_String u,
             vm_ModelEndpoints = suggestedModelEndpoints (vg_provider vg), vm_RequestPresets = suggestedRequestPresets (vg_provider vg)\<rparr>))"

definition resolveVendorTestBaseURL :: "test_env \<Rightarrow> string \<Rightarrow> go_url option \<Rightarrow> cfg_error + go_url" where
  "resolveVendorTestBaseURL te raw fallback =
     (if trim_space raw = []
      then (case fallback of None \<Rightarrow> Inl (Errorf ''base_url is required'' []) | Some u \<Rightarrow> Inr u)
      else case be_parseBase (te_build te) (trim_space raw) of
        Inl err \<Rightarrow> Inl (Wrapf ''parse base_url: %w'' [] err)
      | Inr u \<Rightarrow>
          if (bu_Scheme u \<noteq> ''http'' \<and> bu_Scheme u \<noteq> ''https'') \<or> bu_Host u = [] \<or> bu_Fragment u \<noteq> []
          then Inl (Errorf ''invalid base_url (requires HTTP(S) without a fragment)'' []) else Inr (bu_url u))"

definition resolveVendorTestEndpoint :: "test_env \<Rightarrow> string \<Rightarrow> cfg_error + (routedPath \<times> string \<times> string)" where
  "resolveVendorTestEndpoint te raw =
     (let original = trim_space raw in
      if original = [] then Inl (Errorf ''endpoint is required'' [])
      else case te_parseEndpoint te original of
        Inl err \<Rightarrow> Inl (Wrapf ''parse endpoint: %w'' [] err)
      | Inr u \<Rightarrow>
          if eu_Abs u \<or> eu_Host u \<noteq> [] \<or> eu_Fragment u \<noteq> []
          then Inl (Errorf ''endpoint must be a relative path without a fragment'' [])
          else
            let p = NormalizePath (eu_Path u); rp = NormalizePath (eu_EscapedPath u)
            in Inr (\<lparr>rp_path = p, rp_rawPath = (if rp = p then [] else rp)\<rparr>, eu_RawQuery u, original))"

text \<open>A header of the request: the name canonical, hop headers left out.\<close>

definition extra_header :: "string \<times> string \<Rightarrow> header \<Rightarrow> header" where
  "extra_header = (\<lambda>(key, value) headers.
     let canon = CanonicalMIMEHeaderKey (trim_space key)
     in if canon = [] \<or> isHopHeader canon then headers else header_set canon (trim_space value) headers)"

definition default_header :: "string \<Rightarrow> string \<Rightarrow> header \<Rightarrow> header" where
  "default_header name v headers = (if header_get headers name = [] then header_set name v headers else headers)"

definition buildTestHeaders :: "(string \<Rightarrow> nat) \<Rightarrow> vendorGateway \<Rightarrow> (string \<times> string) list \<Rightarrow> string \<Rightarrow> bool \<Rightarrow> header" where
  "buildTestHeaders sum64 v extra selectedKey hasBody =
     (let headers = fold extra_header extra [];
          headers = (if hasBody then default_header ''Content-Type'' ''application/json'' headers else headers);
          headers = default_header ''Accept'' ''application/json'' headers;
          headers = default_header ''User-Agent'' ''JCProxy-Admin-Test'' headers;
          headers = inject_headers v selectedKey headers;
          headers = (if (ua_Mode (vg_upstreamAuth v) = ''bearer'' \<or> ua_Mode (vg_upstreamAuth v) = ''header'') \<and> selectedKey \<noteq> []
            then header_set (CanonicalMIMEHeaderKey (ua_Header (vg_upstreamAuth v))) (ua_Prefix (vg_upstreamAuth v) @ selectedKey) headers
            else headers);
          headers = (if vg_resin v \<and> selectedKey \<noteq> []
            then header_set ''X-Resin-Account'' (BuildAccount sum64 (vg_provider v) selectedKey) headers else headers)
      in AList.delete ''Host'' headers)"

text \<open>The limited reader stops one byte after the limit, so an error of the stream behind that byte is not seen.\<close>

definition readVendorTestBody :: "test_response \<Rightarrow> nat \<Rightarrow> cfg_error + (string \<times> bool)" where
  "readVendorTestBody resp maxBytes =
     (if length (ts_body resp) > maxBytes then Inr (take maxBytes (ts_body resp), True)
      else case ts_end resp of Some err \<Rightarrow> Inl err | None \<Rightarrow> Inr (ts_body resp, False))"

definition test_limit :: "string \<Rightarrow> nat" where
  "test_limit path = (if isModelListEndpoint path then 2 * 1024 * 1024 else 256 * 1024)"

definition test_method :: "VendorTestRequest \<Rightarrow> string" where
  "test_method req =
     (let m = to_upper (trim_space (tq_Method req)) in
      if m \<noteq> [] then m else if trim_space (tq_Body req) \<noteq> [] then ''POST'' else ''GET'')"

text \<open>The request that is about to be sent: method, target URL, headers, and what the result repeats.\<close>

record prepared_test =
  pt_base :: go_url
  pt_url :: string
  pt_method :: string
  pt_headers :: header
  pt_endpoint :: string
  pt_path :: string

definition prepare_test :: "test_env \<Rightarrow> Router \<Rightarrow> vendorGateway \<Rightarrow> VendorTestRequest \<Rightarrow> cfg_error + prepared_test" where
  "prepare_test te r v req =
     (case (if trim_space (tq_BaseURL req) = [] then (case requireOwnBaseURL r v of Inl err \<Rightarrow> Some err | Inr _ \<Rightarrow> None) else None) of
        Some err \<Rightarrow> Inl err
      | None \<Rightarrow>
          (case resolveVendorTestBaseURL te (tq_BaseURL req) (map_option ut_baseURL (own_target r v)) of
             Inl err \<Rightarrow> Inl err
           | Inr base \<Rightarrow>
               (case resolveVendorTestEndpoint te (tq_Endpoint req) of
                  Inl err \<Rightarrow> Inl err
                | Inr (endpoint, rawQuery, original) \<Rightarrow>
                    let method = test_method req;
                        rewrites = (case own_target r v of None \<Rightarrow> newRewriteMatcher [] | Some t \<Rightarrow> ut_rewrites t);
                        resin = (case own_target r v of None \<Rightarrow> None | Some t \<Rightarrow> ut_resin t);
                        resolved = applyPath rewrites endpoint in
                    (case buildTargetURLFromBase (be_parse (te_build te)) (Some base) (rp_path resolved) rawQuery resin (rp_rawPath resolved) of
                       Inl e \<Rightarrow> Inl (Errorf e [])
                     | Inr target \<Rightarrow>
                         (case te_newRequest te method target of
                            Some err \<Rightarrow> Inl (Wrapf ''build upstream request failed: %w'' [] err)
                          | None \<Rightarrow> Inr \<lparr>pt_base = base, pt_url = target, pt_method = method,
                              pt_headers = buildTestHeaders (te_sum64 te) v (tq_Headers req) (trim_space (tq_Key req)) (tq_Body req \<noteq> []),
                              pt_endpoint = original, pt_path = rp_path endpoint\<rparr>)))))"

text \<open>\<open>Do\<close> of a nil client panics.\<close>

definition executeTest ::
  "test_env \<Rightarrow> Router \<Rightarrow> vendorGateway \<Rightarrow> VendorTestRequest \<Rightarrow> (cfg_error + VendorTestResult) outcome" where
  "executeTest te r v req = (case prepare_test te r v req of
      Inl err \<Rightarrow> Done (Inl err)
    | Inr pt \<Rightarrow>
        if own_target r v = None then Panic
        else case te_do te (pt_method pt) (pt_url pt) (pt_headers pt) (tq_Body req) of
          Inl err \<Rightarrow> Done (Inl (Wrapf ''upstream request failed: %w'' [] err))
        | Inr resp \<Rightarrow>
            (case readVendorTestBody resp (test_limit (pt_path pt)) of
               Inl err \<Rightarrow> Done (Inl (Wrapf ''read upstream response failed: %w'' [] err))
             | Inr (body, truncated) \<Rightarrow>
                 Done (Inr \<lparr>tr_Provider = vg_provider v, tr_BaseURL = url_String (pt_base pt), tr_Endpoint = pt_endpoint pt,
                   tr_ResolvedURL = pt_url pt, tr_Method = pt_method pt, tr_StatusCode = ts_StatusCode resp, tr_Headers = ts_Header resp,
                   tr_Body = body, tr_Truncated = truncated, tr_DurationMS = te_elapsed te\<rparr>)))"

definition ExecuteVendorTest ::
  "test_env \<Rightarrow> Router \<Rightarrow> string \<Rightarrow> VendorTestRequest \<Rightarrow> (cfg_error + VendorTestResult) outcome" where
  "ExecuteVendorTest te r vendorID req = (case lookupVendorByID r vendorID of
      Inl err \<Rightarrow> Done (Inl err) | Inr vg \<Rightarrow> executeTest te r vg req)"

section \<open>In the service\<close>

record VendorTestMetaResponse =
  vr_meta :: VendorTestMeta
  vr_DefaultKeyMasked :: string
  vr_DefaultKeyAvailable :: bool

definition svc_VendorTestMeta ::
  "admin_env \<Rightarrow> 'k key_ops \<Rightarrow> op_cx \<Rightarrow> string \<Rightarrow> 'k Service \<Rightarrow> cfg_error + VendorTestMetaResponse" where
  "svc_VendorTestMeta ae ops cx vendorID s = (case requireVendor ae cx vendorID s of
      Some err \<Rightarrow> Inl err
    | None \<Rightarrow>
        (case router_VendorTestMeta (rn_router (ay_runtime s)) vendorID of
           Inl err \<Rightarrow> Inl err
         | Inr meta \<Rightarrow>
             (case firstAvailableUpstreamKey ops vendorID (ay_keys s) of
                Inl err \<Rightarrow> Inl err
              | Inr key \<Rightarrow> Inr \<lparr>vr_meta = meta, vr_DefaultKeyMasked = (if key \<noteq> [] then mask_text key else []),
                  vr_DefaultKeyAvailable = (key \<noteq> [])\<rparr>)))"

text \<open>The body of a test: rows of headers, of which a later one with the same trimmed name wins.\<close>

record VendorTestBody =
  vb_BaseURL :: string
  vb_Method :: string
  vb_Endpoint :: string
  vb_Body :: string
  vb_Key :: string
  vb_Headers :: "(string \<times> string) list"

definition test_rows :: "(string \<times> string) list \<Rightarrow> (string \<times> string) list" where
  "test_rows rows = fold (\<lambda>(k, v) m. let key = trim_space k in if key = [] then m else AList.update key v m) rows []"

text \<open>The key of a test and where it comes from.\<close>

definition test_key :: "'k key_ops \<Rightarrow> string \<Rightarrow> VendorTestBody \<Rightarrow> 'k \<Rightarrow> cfg_error + (string \<times> string)" where
  "test_key ops vendorID body k =
     (if trim_space (vb_Key body) \<noteq> [] then Inr (trim_space (vb_Key body), ''manual'')
      else case firstAvailableUpstreamKey ops vendorID k of
        Inl err \<Rightarrow> Inl err
      | Inr key \<Rightarrow> Inr (key, if key = [] then ''none'' else ''default''))"

record VendorTestResponse =
  vt_VendorID :: string
  vt_Vendor :: string
  vt_result :: VendorTestResult
  vt_UsedKeyMasked :: string
  vt_UsedKeySource :: string

definition RunVendorTest ::
  "admin_env \<Rightarrow> test_env \<Rightarrow> 'k key_ops \<Rightarrow> op_cx \<Rightarrow> string \<Rightarrow> VendorTestBody \<Rightarrow> 'k Service \<Rightarrow> (cfg_error + VendorTestResponse) outcome" where
  "RunVendorTest ae te ops cx vendorID body s = (case requireVendor ae cx vendorID s of
      Some err \<Rightarrow> Done (Inl err)
    | None \<Rightarrow>
        (case GetConfig ae (cx_rands cx 1) (ay_store s) of
           Inl err \<Rightarrow> Done (Inl err)
         | Inr cfg \<Rightarrow>
             (case test_key ops vendorID body (ay_keys s) of
                Inl err \<Rightarrow> Done (Inl err)
              | Inr (key, source) \<Rightarrow>
                  (case ExecuteVendorTest te (rn_router (ay_runtime s)) vendorID
                      \<lparr>tq_BaseURL = vb_BaseURL body, tq_Method = vb_Method body, tq_Endpoint = vb_Endpoint body,
                       tq_Headers = test_rows (vb_Headers body), tq_Body = vb_Body body, tq_Key = key\<rparr> of
                     Panic \<Rightarrow> Panic
                   | Done (Inl err) \<Rightarrow> Done (Inl err)
                   | Done (Inr result) \<Rightarrow>
                       Done (Inr \<lparr>vt_VendorID = vendorID,
                         vt_Vendor = (case VendorNameByID cfg vendorID of None \<Rightarrow> [] | Some n \<Rightarrow> n), vt_result = result,
                         vt_UsedKeyMasked = (if key \<noteq> [] then mask_text key else []), vt_UsedKeySource = source\<rparr>)))))"

section \<open>Properties\<close>



lemma inject_headers_set:
  assumes "n \<in> injected_names v"
  shows "map_of (inject_headers v key h) n = map_of (inject_headers v key h') n"
proof -
  have "map_of (fold (inject_header v key) xs h) n = map_of (fold (inject_header v key) xs h') n"
    if "n \<in> (CanonicalMIMEHeaderKey \<circ> fst) ` set xs" for xs h h'
    using that
  proof (induction xs arbitrary: h h')
    case (Cons x xs)
    show ?case
    proof (cases "n \<in> (CanonicalMIMEHeaderKey \<circ> fst) ` set xs")
      case True
      thus ?thesis using Cons.IH [OF True] by simp
    next
      case False
      hence "n = CanonicalMIMEHeaderKey (fst x)" using Cons.prems by auto
      hence "map_of (inject_header v key x h) n = map_of (inject_header v key x h') n" by (simp add: inject_header_map)
      from inject_headers_cong [OF this, of "v\<lparr>vg_injectHeaders := xs\<rparr>" key]
      show ?thesis by (simp add: inject_headers_def inject_header_def)
    qed
  qed simp
  thus ?thesis using assms by (simp add: inject_headers_def injected_names_def)
qed

text \<open>A test speaks to the upstream with the credentials of the gateway: every header the gateway sets itself, the
  injected ones, the one that carries the key and the resin account, has in the test of a key exactly the value it has
  in a request that is forwarded with that key, whatever headers the administrator and the client add.\<close>

theorem test_headers_as_forwarded:
  assumes "n \<in> gateway_names v" and "n = ''X-Resin-Account'' \<longrightarrow> vg_resin v \<or> n \<in> injected_names v" and "key \<noteq> []"
  shows "header_values (buildTestHeaders sum64 v extra key hasBody) n = header_values (forwardHeaders sum64 v src key) n"
proof -
  have "n \<in> injected_names v \<or> (n = ''X-Resin-Account'' \<and> vg_resin v) \<or>
      (ua_Mode (vg_upstreamAuth v) \<in> {''bearer'', ''header''} \<and> n = CanonicalMIMEHeaderKey (ua_Header (vg_upstreamAuth v)))"
    using assms(1,2) by (auto simp: gateway_names_def split: if_splits)
  then consider "n \<in> injected_names v" | "n = ''X-Resin-Account''" "vg_resin v" |
      "ua_Mode (vg_upstreamAuth v) \<in> {''bearer'', ''header''}" "n = CanonicalMIMEHeaderKey (ua_Header (vg_upstreamAuth v))"
    by blast
  thus ?thesis
  proof cases
    case 1
    then obtain c where c: "\<And>h. map_of (inject_headers v key h) n = c" using inject_headers_set by metis
    have "map_of (inject_headers v key h) m = c" if "m = n" for m h using c that by simp
    thus ?thesis
      using assms(3) by (auto simp: header_values_def buildTestHeaders_def forwardHeaders_def Let_def map_of_delete map_of_header_set)
  qed (use assms(3) in \<open>auto simp: header_values_def buildTestHeaders_def forwardHeaders_def Let_def map_of_delete map_of_header_set\<close>)
qed

theorem test_headers_as_forwarded_witness:
  "header_values (buildTestHeaders (\<lambda>_. 0) sample_vendor [(''authorization'', ''mine''), (''Connection'', ''close'')] ''k1'' True) ''Authorization'' =
     header_values (forwardHeaders (\<lambda>_. 0) sample_vendor [(''Authorization'', [''Bearer secret''])] ''k1'') ''Authorization'' \<and>
   buildTestHeaders (\<lambda>_. 0) sample_vendor [(''authorization'', ''mine''), (''Connection'', ''close'')] ''k1'' True =
     [(''Authorization'', [''Bearer k1'']), (''Content-Type'', [''application/json'']), (''Accept'', [''application/json'']),
      (''User-Agent'', [''JCProxy-Admin-Test''])]"
proof
  have g: "''Authorization'' \<in> gateway_names sample_vendor"
  proof -
    have "CanonicalMIMEHeaderKey ''Authorization'' = ''Authorization''" by code_simp
    thus ?thesis by (simp add: gateway_names_def sample_vendor_def)
  qed
  show "header_values (buildTestHeaders (\<lambda>_. 0) sample_vendor [(''authorization'', ''mine''), (''Connection'', ''close'')] ''k1'' True) ''Authorization'' =
     header_values (forwardHeaders (\<lambda>_. 0) sample_vendor [(''Authorization'', [''Bearer secret''])] ''k1'') ''Authorization''"
    by (rule test_headers_as_forwarded [OF g]) simp_all
qed code_simp

end
