(* ===== verification/AdminHandler.thy ===== *)
theory AdminHandler
  imports VendorTesting
begin

text \<open>
  The HTTP interface of the administration (\<open>internal/admin/handler.go\<close>, \<open>models.go\<close>, \<open>handleStatsReset\<close> of
  \<open>stats_reset.go\<close>): the check of the address, the sessions, the routes and one handler per route.  The decoders of the
  request bodies are arguments, a decoding that fails is none.  A handler works on the whole state of the
  administration.
\<close>

section \<open>Requests and responses\<close>

record UpstreamKeyStatusRequest =
  ks_ReqKey :: string
  ks_ReqKeys :: "string list"
  ks_ReqReason :: string
  ks_ReqRemark :: string

text \<open>The decoders by request type; the one of a reset also says whether the body ends after the request.\<close>

record json_lib =
  jl_Login :: "string \<Rightarrow> (string \<times> string) option"
  jl_Config :: "string \<Rightarrow> Config option"
  jl_KeysReplace :: "string \<Rightarrow> string list option"
  jl_KeysBatch :: "string \<Rightarrow> (string \<times> string list) option"
  jl_KeyStatus :: "string \<Rightarrow> UpstreamKeyStatusRequest option"
  jl_Password :: "string \<Rightarrow> string option"
  jl_VendorCreate :: "string \<Rightarrow> (string \<times> VendorConfig) option"
  jl_VendorUpdate :: "string \<Rightarrow> VendorConfig option"
  jl_VendorRename :: "string \<Rightarrow> string option"
  jl_Key :: "string \<Rightarrow> string option"
  jl_Test :: "string \<Rightarrow> VendorTestBody option"
  jl_Reset :: "string \<Rightarrow> (RuntimeStatsResetRequest \<times> bool) option"

record admin_request =
  aq_Method :: string
  aq_Path :: string
  aq_Query :: "string \<Rightarrow> string"
  aq_Header :: header
  aq_RemoteAddr :: string
  aq_Body :: string

datatype reply = RError string | RFail cfg_error | RNotFound | ROk | RLogin string time string | RUser string
  | RConfig Config | RVendors "VendorEntry list" | RVendorID string string
  | RStats "(string \<times> stats_item list) list \<times> RuntimeStatsMeta"
  | RKeys "UpstreamKeyVendorSummary list \<times> (string \<times> UpstreamKeyRecordResponse list) list"
  | RTestMeta VendorTestMetaResponse | RTest VendorTestResponse | RCount int

text \<open>A panic ends the connection without a response.\<close>

datatype response = Reply int reply | Aborted

record 'k handler_env =
  he_admin :: admin_env
  he_test :: test_env
  he_json :: json_lib
  he_ops :: "'k key_ops"
  he_reset :: "(string \<Rightarrow> 'k \<times> heap \<Rightarrow> (cfg_error + int) \<times> 'k \<times> heap) option"
  he_addrText :: "addr \<Rightarrow> string"

record 'k Handler =
  hd_service :: "'k Service"
  hd_loginGuard :: LoginGuard

definition writeError :: "int \<Rightarrow> string \<Rightarrow> response" where
  "writeError status msg = Reply status (RError (if msg = [] then StatusText status else msg))"

definition method_not_allowed :: response where
  "method_not_allowed = writeError 405 ''method not allowed''"

text \<open>The end of most handlers: a failure is a bad request.\<close>

definition ok_or_bad :: "cfg_error option \<times> 'k Service \<Rightarrow> response \<times> 'k Service" where
  "ok_or_bad r = (case r of (Some err, s) \<Rightarrow> (Reply 400 (RFail err), s) | (None, s) \<Rightarrow> (Reply 200 ROk, s))"

section \<open>Access\<close>

definition extractToken :: "header \<Rightarrow> string" where
  "extractToken h =
     (let auth = trim_space (header_get h ''Authorization'') in
      if has_prefix (to_lower auth) ''bearer '' then trim_space (drop 7 auth) else trim_space (header_get h ''X-Admin-Token''))"

definition allowRequest :: "'k handler_env \<Rightarrow> op_cx \<Rightarrow> admin_request \<Rightarrow> 'k Service \<Rightarrow> response + addr" where
  "allowRequest he cx r s = (case svc_AdminAccess (he_admin he) cx s of
      Inl err \<Rightarrow> Inl (Reply 500 (RFail err))
    | Inr None \<Rightarrow> Inl (Reply 404 RNotFound)
    | Inr (Some (allowed, trusted)) \<Rightarrow>
        (case ResolveRequestAddr (ce_net (ae_cfg (he_admin he))) (aq_RemoteAddr r) (aq_Header r) trusted of
           None \<Rightarrow> Inl (Reply 404 RNotFound)
         | Some a \<Rightarrow> if AddrAllowed a allowed then Inr a else Inl (Reply 404 RNotFound)))"

definition withAuth ::
  "'k handler_env \<Rightarrow> op_cx \<Rightarrow> (admin_request \<Rightarrow> 'k Service \<Rightarrow> response \<times> 'k Service) \<Rightarrow> admin_request \<Rightarrow> 'k Service \<Rightarrow> response \<times> 'k Service" where
  "withAuth he cx handle r s = (case allowRequest he cx r s of
      Inl resp \<Rightarrow> (resp, s)
    | Inr a \<Rightarrow>
        let token = extractToken (aq_Header r) in
        if token = [] then (writeError 401 ''missing admin token'', s)
        else case sess_Validate (cx_now cx) token (ay_sessions s) of
          (None, m) \<Rightarrow> (writeError 401 ''invalid or expired admin token'', s\<lparr>ay_sessions := m\<rparr>)
        | (Some sn, m) \<Rightarrow> handle (r\<lparr>aq_Header := header_set ''X-Admin-User'' (sn_Username sn) (aq_Header r)\<rparr>) (s\<lparr>ay_sessions := m\<rparr>))"

abbreviation actor_of :: "admin_request \<Rightarrow> string" where
  "actor_of r \<equiv> header_get (aq_Header r) ''X-Admin-User''"

section \<open>Signing in and out\<close>

text \<open>The seconds of a positive wait, rounded to the nearest.\<close>

definition wait_seconds :: "duration \<Rightarrow> int" where
  "wait_seconds wait = (wait + second div 2) div second"

definition rateLimitMessage :: "duration \<Rightarrow> string" where
  "rateLimitMessage wait = ''too many login attempts, retry in '' @ itoa (max 1 (wait_seconds wait)) @ ''s''"

definition auditLoginEvent :: "op_cx \<Rightarrow> string \<Rightarrow> string \<Rightarrow> 'k Service \<Rightarrow> 'k Service" where
  "auditLoginEvent cx actor action s =
     (let actor = trim_space actor in audit_Log cx (if actor = [] then ''anonymous'' else actor) action s)"

definition handleLogin :: "'k handler_env \<Rightarrow> op_cx \<Rightarrow> admin_request \<Rightarrow> 'k Handler \<Rightarrow> response \<times> 'k Handler" where
  "handleLogin he cx r h = (case allowRequest he cx r (hd_service h) of
      Inl resp \<Rightarrow> (resp, h)
    | Inr clientAddr \<Rightarrow>
        if aq_Method r \<noteq> ''POST'' then (method_not_allowed, h)
        else case jl_Login (he_json he) (aq_Body r) of
          None \<Rightarrow> (writeError 400 ''invalid json body'', h)
        | Some (username, password) \<Rightarrow>
            let clientKey = he_addrText he clientAddr in
            (case Blocked (cx_now cx) clientKey (hd_loginGuard h) of
               ((wait, True), g) \<Rightarrow>
                 (writeError 429 (rateLimitMessage wait),
                  h\<lparr>hd_service := auditLoginEvent cx username ''admin.login.rate_limited'' (hd_service h), hd_loginGuard := g\<rparr>)
             | ((wait, False), g) \<Rightarrow>
                 (case Login (he_admin he) cx username password (hd_service h) of
                    (Inl err, s) \<Rightarrow>
                      (case Failed (cx_now cx) clientKey g of
                         (wait, g) \<Rightarrow>
                           if wait > 0
                           then (writeError 429 (rateLimitMessage wait),
                                 h\<lparr>hd_service := auditLoginEvent cx username ''admin.login.rate_limited'' s, hd_loginGuard := g\<rparr>)
                           else (Reply 401 (RFail err), h\<lparr>hd_service := auditLoginEvent cx username ''admin.login.failed'' s, hd_loginGuard := g\<rparr>))
                  | (Inr (token, expires), s) \<Rightarrow>
                      (Reply 200 (RLogin token expires username), h\<lparr>hd_service := s, hd_loginGuard := Succeeded clientKey g\<rparr>))))"

definition handleLogout :: "op_cx \<Rightarrow> admin_request \<Rightarrow> 'k Service \<Rightarrow> response \<times> 'k Service" where
  "handleLogout cx r s =
     (if aq_Method r \<noteq> ''POST'' then (method_not_allowed, s)
      else (Reply 200 ROk, Logout cx (extractToken (aq_Header r)) (actor_of r) s))"

definition handleMe :: "admin_request \<Rightarrow> 'k Service \<Rightarrow> response \<times> 'k Service" where
  "handleMe r s = (if aq_Method r \<noteq> ''GET'' then method_not_allowed else Reply 200 (RUser (actor_of r)), s)"

section \<open>Configuration and statistics\<close>

definition handleConfig :: "'k handler_env \<Rightarrow> op_cx \<Rightarrow> admin_request \<Rightarrow> 'k Service \<Rightarrow> response \<times> 'k Service" where
  "handleConfig he cx r s =
     (if aq_Method r = ''GET''
      then (case GetConfigMasked (he_admin he) (cx_rands cx 0) (ay_store s) of
              Inl err \<Rightarrow> (Reply 500 (RFail err), s) | Inr cfg \<Rightarrow> (Reply 200 (RConfig cfg), s))
      else if aq_Method r = ''PUT''
      then (case jl_Config (he_json he) (aq_Body r) of
              None \<Rightarrow> (writeError 400 ''invalid config json'', s)
            | Some n \<Rightarrow> ok_or_bad (svc_UpdateConfig (he_admin he) (he_ops he) cx (actor_of r) n s))
      else (method_not_allowed, s))"

definition handleConfigRaw :: "'k handler_env \<Rightarrow> op_cx \<Rightarrow> admin_request \<Rightarrow> 'k Service \<Rightarrow> response \<times> 'k Service" where
  "handleConfigRaw he cx r s =
     (if aq_Method r \<noteq> ''GET'' then (method_not_allowed, s)
      else case current (he_admin he) cx s of Inl err \<Rightarrow> (Reply 500 (RFail err), s) | Inr cfg \<Rightarrow> (Reply 200 (RConfig cfg), s))"

text \<open>\<open>strconv.Atoi\<close> with its error ignored: zero for a text that is no number, the nearest value for one out of range.\<close>

definition atoi_value :: "string \<Rightarrow> int" where
  "atoi_value s =
     (let neg = (s \<noteq> [] \<and> hd s = CHR ''-'');
          ds = (if s \<noteq> [] \<and> (hd s = CHR ''-'' \<or> hd s = CHR ''+'') then tl s else s)
      in if ds = [] \<or> \<not> list_all is_digit ds then 0
         else max min_int64 (min max_int64 (if neg then - digits_value ds else digits_value ds)))"

definition handleStats :: "'k handler_env \<Rightarrow> op_cx \<Rightarrow> admin_request \<Rightarrow> 'k Service \<Rightarrow> response \<times> 'k Service" where
  "handleStats he cx r s =
     (if aq_Method r \<noteq> ''GET'' then (method_not_allowed, s)
      else (Reply 200 (RStats (svc_Stats (he_admin he) cx
        \<lparr>sq_VendorID = trim_space (aq_Query r ''vendor_id''), sq_Filter = trim_space (aq_Query r ''filter''), sq_Q = trim_space (aq_Query r ''q''),
         sq_Page = atoi_value (trim_space (aq_Query r ''page'')), sq_PageSize = atoi_value (trim_space (aq_Query r ''page_size''))\<rparr> s)), s))"

fun is_invalid_reset :: "cfg_error \<Rightarrow> bool" where
  "is_invalid_reset (Errorf t ts) = (t = ''invalid statistics reset'')"
| "is_invalid_reset (Wrapf t ts err) = is_invalid_reset err"

definition handleStatsReset :: "'k handler_env \<Rightarrow> op_cx \<Rightarrow> admin_request \<Rightarrow> 'k Service \<Rightarrow> response \<times> 'k Service" where
  "handleStatsReset he cx r s =
     (if aq_Method r \<noteq> ''POST'' then (method_not_allowed, s)
      else case jl_Reset (he_json he) (take 4096 (aq_Body r)) of
        None \<Rightarrow> (writeError 400 ''invalid reset json body'', s)
      | Some (req, ends) \<Rightarrow>
          if \<not> ends \<or> length (aq_Body r) > 4096 then (writeError 400 ''expected one reset request'', s)
          else case svc_ResetRuntimeStats (he_admin he) (he_ops he) cx (he_reset he) (actor_of r) req s of
            (Inl err, s) \<Rightarrow> (Reply (if is_invalid_reset err then 400 else 500) (RFail err), s)
          | (Inr n, s) \<Rightarrow> (Reply 200 (RCount n), s))"

definition handlePasswordRotate :: "'k handler_env \<Rightarrow> op_cx \<Rightarrow> admin_request \<Rightarrow> 'k Service \<Rightarrow> response \<times> 'k Service" where
  "handlePasswordRotate he cx r s =
     (if aq_Method r \<noteq> ''POST'' then (method_not_allowed, s)
      else case jl_Password (he_json he) (aq_Body r) of
        None \<Rightarrow> (writeError 400 ''invalid json body'', s)
      | Some password \<Rightarrow> ok_or_bad (RotatePassword (he_admin he) (he_ops he) cx (actor_of r) password s))"

section \<open>Upstream keys\<close>

definition handleUpstreamKeyIndex :: "'k handler_env \<Rightarrow> op_cx \<Rightarrow> admin_request \<Rightarrow> 'k Service \<Rightarrow> response \<times> 'k Service" where
  "handleUpstreamKeyIndex he cx r s =
     (if aq_Method r \<noteq> ''GET'' then (method_not_allowed, s)
      else case ListUpstreamKeys (he_admin he) (he_ops he) cx s of
        Inl err \<Rightarrow> (Reply 500 (RFail err), s) | Inr resp \<Rightarrow> (Reply 200 (RKeys resp), s))"

definition decodeKeysPayload :: "json_lib \<Rightarrow> string \<Rightarrow> string + string list" where
  "decodeKeysPayload jl body = (case jl_KeysBatch jl body of
      None \<Rightarrow> Inl ''invalid json body''
    | Some (key, keys) \<Rightarrow>
        if keys \<noteq> [] then Inr keys else if trim_space key \<noteq> [] then Inr [key] else Inl ''key or keys is required'')"

definition handleUpstreamKeyStatusAction ::
  "'k handler_env \<Rightarrow> op_cx \<Rightarrow> string \<Rightarrow> string \<Rightarrow> admin_request \<Rightarrow> 'k Service \<Rightarrow> response \<times> 'k Service" where
  "handleUpstreamKeyStatusAction he cx vendor action r s =
     (if aq_Method r \<noteq> ''POST'' then (method_not_allowed, s)
      else case jl_KeyStatus (he_json he) (aq_Body r) of
        None \<Rightarrow> (writeError 400 ''invalid json body'', s)
      | Some req \<Rightarrow>
          let actor = actor_of r;
              keys = (if ks_ReqKeys req = [] \<and> trim_space (ks_ReqKey req) \<noteq> [] then [ks_ReqKey req] else ks_ReqKeys req) in
          if action = ''remark'' then ok_or_bad (SetUpstreamKeyRemark (he_admin he) (he_ops he) cx actor vendor (ks_ReqKey req) (ks_ReqRemark req) s)
          else if action = ''enable'' then ok_or_bad (SetUpstreamKeyStatus (he_admin he) (he_ops he) cx actor vendor keys KeyStatusActive [] s)
          else if action = ''recover'' then ok_or_bad (RecoverUpstreamKeys (he_admin he) (he_ops he) cx actor vendor keys s)
          else if action = ''disable''
          then ok_or_bad (SetUpstreamKeyStatus (he_admin he) (he_ops he) cx actor vendor keys KeyStatusDisabledManual (ks_ReqReason req) s)
          else (writeError 404 ''unknown upstream key action'', s))"

definition trim_slashes :: "string \<Rightarrow> string" where
  "trim_slashes s = rev (dropWhile (\<lambda>c. c = CHR ''/'') (rev (dropWhile (\<lambda>c. c = CHR ''/'') s)))"

definition handleUpstreamKeyVendor :: "'k handler_env \<Rightarrow> op_cx \<Rightarrow> admin_request \<Rightarrow> 'k Service \<Rightarrow> response \<times> 'k Service" where
  "handleUpstreamKeyVendor he cx r s =
     (let trimmed = trim_slashes (trim_prefix (aq_Path r) ''/admin/upstream-keys/'') in
      if trimmed = [] then (writeError 400 ''vendor path required'', s)
      else
        let parts = split_byte (CHR ''/'') trimmed; vendor = trim_space (hd parts);
            action = (if length parts > 1 then trim_space (parts ! 1) else []) in
        if vendor = [] then (writeError 400 ''vendor path required'', s)
        else if action \<noteq> [] then handleUpstreamKeyStatusAction he cx vendor action r s
        else if aq_Method r = ''PUT''
        then (case jl_KeysReplace (he_json he) (aq_Body r) of
                None \<Rightarrow> (writeError 400 ''invalid json body'', s)
              | Some keys \<Rightarrow> ok_or_bad (ReplaceUpstreamKeys (he_admin he) (he_ops he) cx (actor_of r) vendor keys s))
        else if aq_Method r = ''POST''
        then (case decodeKeysPayload (he_json he) (aq_Body r) of
                Inl msg \<Rightarrow> (writeError 400 msg, s)
              | Inr keys \<Rightarrow> ok_or_bad (AddUpstreamKeys (he_admin he) (he_ops he) cx (actor_of r) vendor keys s))
        else if aq_Method r = ''DELETE''
        then (case decodeKeysPayload (he_json he) (aq_Body r) of
                Inl msg \<Rightarrow> (writeError 400 msg, s)
              | Inr keys \<Rightarrow> ok_or_bad (DeleteUpstreamKeys (he_admin he) (he_ops he) cx (actor_of r) vendor keys s))
        else (method_not_allowed, s))"

section \<open>Vendors\<close>

definition handleVendors :: "'k handler_env \<Rightarrow> op_cx \<Rightarrow> admin_request \<Rightarrow> 'k Service \<Rightarrow> response \<times> 'k Service" where
  "handleVendors he cx r s =
     (if aq_Method r = ''GET''
      then (case GetConfigMasked (he_admin he) (cx_rands cx 0) (ay_store s) of
              Inl err \<Rightarrow> (Reply 500 (RFail err), s) | Inr cfg \<Rightarrow> (Reply 200 (RVendors (cf_Vendors cfg)), s))
      else if aq_Method r = ''POST''
      then (case jl_VendorCreate (he_json he) (aq_Body r) of
              None \<Rightarrow> (writeError 400 ''invalid json body'', s)
            | Some (name, vc) \<Rightarrow>
                (case CreateVendor (he_admin he) (he_ops he) cx (actor_of r) name vc s of
                   (Inl err, s) \<Rightarrow> (Reply 400 (RFail err), s)
                 | (Inr vid, s) \<Rightarrow> (Reply 200 (RVendorID vid (trim_space name)), s)))
      else (method_not_allowed, s))"

definition handleVendorRename :: "'k handler_env \<Rightarrow> op_cx \<Rightarrow> string \<Rightarrow> admin_request \<Rightarrow> 'k Service \<Rightarrow> response \<times> 'k Service" where
  "handleVendorRename he cx vendorID r s =
     (if aq_Method r \<noteq> ''POST'' \<and> aq_Method r \<noteq> ''PUT'' then (method_not_allowed, s)
      else case jl_VendorRename (he_json he) (aq_Body r) of
        None \<Rightarrow> (writeError 400 ''invalid json body'', s)
      | Some name \<Rightarrow> ok_or_bad (RenameVendor (he_admin he) (he_ops he) cx (actor_of r) vendorID name s))"

definition handleUpstreamKeys :: "'k handler_env \<Rightarrow> op_cx \<Rightarrow> string \<Rightarrow> admin_request \<Rightarrow> 'k Service \<Rightarrow> response \<times> 'k Service" where
  "handleUpstreamKeys he cx vendor r s =
     (if aq_Method r = ''POST'' \<or> aq_Method r = ''DELETE''
      then (case jl_Key (he_json he) (aq_Body r) of
              None \<Rightarrow> (writeError 400 ''invalid json body'', s)
            | Some key \<Rightarrow> ok_or_bad ((if aq_Method r = ''POST'' then AddUpstreamKey else DeleteUpstreamKey)
                (he_admin he) (he_ops he) cx (actor_of r) vendor key s))
      else (method_not_allowed, s))"

definition handleClientKeys :: "'k handler_env \<Rightarrow> op_cx \<Rightarrow> string \<Rightarrow> admin_request \<Rightarrow> 'k Service \<Rightarrow> response \<times> 'k Service" where
  "handleClientKeys he cx vendor r s =
     (if aq_Method r = ''POST'' \<or> aq_Method r = ''DELETE''
      then (case jl_Key (he_json he) (aq_Body r) of
              None \<Rightarrow> (writeError 400 ''invalid json body'', s)
            | Some key \<Rightarrow> ok_or_bad ((if aq_Method r = ''POST'' then AddClientKey else DeleteClientKey)
                (he_admin he) (he_ops he) cx (actor_of r) vendor key s))
      else (method_not_allowed, s))"

definition handleVendorTestMeta :: "'k handler_env \<Rightarrow> op_cx \<Rightarrow> string \<Rightarrow> admin_request \<Rightarrow> 'k Service \<Rightarrow> response \<times> 'k Service" where
  "handleVendorTestMeta he cx vendor r s =
     (if aq_Method r \<noteq> ''GET'' then (method_not_allowed, s)
      else case svc_VendorTestMeta (he_admin he) (he_ops he) cx vendor s of
        Inl err \<Rightarrow> (Reply 400 (RFail err), s) | Inr resp \<Rightarrow> (Reply 200 (RTestMeta resp), s))"

definition handleVendorTest :: "'k handler_env \<Rightarrow> op_cx \<Rightarrow> string \<Rightarrow> admin_request \<Rightarrow> 'k Service \<Rightarrow> response \<times> 'k Service" where
  "handleVendorTest he cx vendor r s =
     (if aq_Method r \<noteq> ''POST'' then (method_not_allowed, s)
      else case jl_Test (he_json he) (aq_Body r) of
        None \<Rightarrow> (writeError 400 ''invalid json body'', s)
      | Some body \<Rightarrow>
          (case RunVendorTest (he_admin he) (he_test he) (he_ops he) cx vendor body s of
             Panic \<Rightarrow> (Aborted, s)
           | Done (Inl err) \<Rightarrow> (Reply 400 (RFail err), s)
           | Done (Inr resp) \<Rightarrow> (Reply 200 (RTest resp), s)))"

definition handleVendorByPath :: "'k handler_env \<Rightarrow> op_cx \<Rightarrow> admin_request \<Rightarrow> 'k Service \<Rightarrow> response \<times> 'k Service" where
  "handleVendorByPath he cx r s =
     (let parts = split_byte (CHR ''/'') (trim_prefix (aq_Path r) ''/admin/vendors/''); vendorID = hd parts in
      if trim_space vendorID = [] then (writeError 400 ''vendor id required'', s)
      else if length parts = 1 then
        (if aq_Method r = ''PUT'' \<or> aq_Method r = ''PATCH''
         then (case jl_VendorUpdate (he_json he) (aq_Body r) of
                 None \<Rightarrow> (writeError 400 ''invalid json body'', s)
               | Some vc \<Rightarrow> ok_or_bad (UpdateVendor (he_admin he) (he_ops he) cx (actor_of r) vendorID vc s))
         else if aq_Method r = ''DELETE'' then ok_or_bad (DeleteVendor (he_admin he) (he_ops he) cx (actor_of r) vendorID s)
         else (method_not_allowed, s))
      else
        let resource = parts ! 1 in
        if resource = ''rename'' then handleVendorRename he cx vendorID r s
        else if resource = ''keys'' then handleUpstreamKeys he cx vendorID r s
        else if resource = ''client-keys'' then handleClientKeys he cx vendorID r s
        else if resource = ''test-meta'' then handleVendorTestMeta he cx vendorID r s
        else if resource = ''test'' then handleVendorTest he cx vendorID r s
        else (writeError 404 ''unknown vendor resource'', s))"

section \<open>Routes\<close>

text \<open>The handler behind the session check for a path, as \<open>Register\<close> installs them; a pattern that ends in a slash
  covers the paths below it.\<close>

definition admin_route :: "'k handler_env \<Rightarrow> op_cx \<Rightarrow> string \<Rightarrow> (admin_request \<Rightarrow> 'k Service \<Rightarrow> response \<times> 'k Service) option" where
  "admin_route he cx path =
     (if path = ''/admin/logout'' then Some (handleLogout cx)
      else if path = ''/admin/me'' then Some handleMe
      else if path = ''/admin/config'' then Some (handleConfig he cx)
      else if path = ''/admin/config/raw'' then Some (handleConfigRaw he cx)
      else if path = ''/admin/stats'' then Some (handleStats he cx)
      else if path = ''/admin/stats/reset'' then Some (handleStatsReset he cx)
      else if path = ''/admin/upstream-keys'' then Some (handleUpstreamKeyIndex he cx)
      else if has_prefix path ''/admin/upstream-keys/'' then Some (handleUpstreamKeyVendor he cx)
      else if path = ''/admin/password'' then Some (handlePasswordRotate he cx)
      else if path = ''/admin/vendors'' then Some (handleVendors he cx)
      else if has_prefix path ''/admin/vendors/'' then Some (handleVendorByPath he cx)
      else None)"

text \<open>A request to the administration; none for a path that is not one of its routes.\<close>

definition serve_admin :: "'k handler_env \<Rightarrow> op_cx \<Rightarrow> admin_request \<Rightarrow> 'k Handler \<Rightarrow> (response \<times> 'k Handler) option" where
  "serve_admin he cx r h =
     (if aq_Path r = ''/admin/login'' then Some (handleLogin he cx r h)
      else case admin_route he cx (aq_Path r) of
        None \<Rightarrow> None
      | Some handle \<Rightarrow> (case withAuth he cx handle r (hd_service h) of (resp, s) \<Rightarrow> Some (resp, h\<lparr>hd_service := s\<rparr>)))"

end
