(* ===== verification/AdminSafety.thy ===== *)
theory AdminSafety
  imports AdminHandler
begin

text \<open>
  Properties of the administration as a whole: what a request can change, and that the configuration that is saved and
  the one that is served stay the same.
\<close>

section \<open>Copies of prepared configurations\<close>

definition prepared :: "cfg_env \<Rightarrow> Config \<Rightarrow> bool" where
  "prepared env c = (applyDefaults c = c \<and> validate env False c = None)"

lemma Clone_is_prepared: "Clone env yl rand c = Inr c' \<Longrightarrow> prepared env c'"
  using Clone_prepared by (auto simp: prepared_def)

lemma Clone_of_prepared: "yaml_faithful yl \<Longrightarrow> prepared env c \<Longrightarrow> Clone env yl rand c = Inr c' \<Longrightarrow> c' = clone_image c"
  using Clone_faithful [of yl c env False rand c'] by (simp add: prepared_def)

lemma refilled_idem [simp]: "refilled (refilled e) = refilled e"
  by (auto simp: refilled_def yaml_vendor_def empty_auto_disable_def Let_def)

lemma clone_image_idem [simp]: "clone_image (clone_image c) = clone_image c"
  by (simp add: clone_image_def comp_def)

lemma clone_image_storage: "clone_image (c\<lparr>cf_Storage := st\<rparr>) = (clone_image c)\<lparr>cf_Storage := st\<rparr>"
  by (simp add: clone_image_def)

section \<open>What is served and what is saved\<close>

text \<open>The configuration of the store is, up to a copy and its storage settings, the one the router was built from.\<close>

definition in_step :: "admin_env \<Rightarrow> 'k Service \<Rightarrow> bool" where
  "in_step ae s = (prepared (ae_cfg ae) (rn_cfg (ay_runtime s)) \<and>
     clone_image (as_cfg (ay_store s)) = (clone_image (rn_cfg (ay_runtime s)))\<lparr>cf_Storage := as_bootstrap (ay_store s)\<rparr>)"

text \<open>One step of the administration keeps that relation and issues no session.\<close>

definition evolves :: "admin_env \<Rightarrow> 'k Service \<Rightarrow> 'k Service \<Rightarrow> bool" where
  "evolves ae s s' = ((in_step ae s \<longrightarrow> in_step ae s') \<and> set (sm_sessions (ay_sessions s')) \<subseteq> set (sm_sessions (ay_sessions s)))"

lemma evolves_refl [simp]: "evolves ae s s"
  by (simp add: evolves_def)

lemma evolves_trans: "evolves ae s s1 \<Longrightarrow> evolves ae s1 s2 \<Longrightarrow> evolves ae s s2"
  by (auto simp: evolves_def)

lemma audit_Log_fields [simp]:
  "ay_store (audit_Log cx actor action s) = ay_store s" "ay_media (audit_Log cx actor action s) = ay_media s"
  "ay_runtime (audit_Log cx actor action s) = ay_runtime s" "ay_keys (audit_Log cx actor action s) = ay_keys s"
  "ay_sessions (audit_Log cx actor action s) = ay_sessions s"
  by (simp_all add: audit_Log_def)

lemma evolves_audit [simp]: "evolves ae s (audit_Log cx actor action s') = evolves ae s s'"
  by (simp add: evolves_def in_step_def)

lemma evolves_keys [simp]: "evolves ae s (s\<lparr>ay_keys := k\<rparr>)"
  by (simp add: evolves_def in_step_def)

lemma evolves_sessions: "set (sm_sessions m) \<subseteq> set (sm_sessions (ay_sessions s)) \<Longrightarrow> evolves ae s (s\<lparr>ay_sessions := m\<rparr>)"
  by (simp add: evolves_def in_step_def)

lemma evolves_heap [simp]: "evolves ae s (s\<lparr>ay_keys := k, ay_runtime := (ay_runtime s)\<lparr>rn_build := bs\<rparr>\<rparr>)"
  "evolves ae s (s\<lparr>ay_runtime := (ay_runtime s)\<lparr>rn_build := bs\<rparr>\<rparr>)"
  by (simp_all add: evolves_def in_step_def)

lemma evolves_recover [simp]: "evolves ae s (s\<lparr>ay_runtime := recover_keys v ks (ay_runtime s)\<rparr>)"
  by (simp add: recover_keys_def Let_def)

lemma updateLocked_fails:
  assumes "updateLocked env yl now rand listAll cfg persist (p, rt) = (Some err, p', rt')"
    and "\<And>c e q. persist c p = (Some e, q) \<Longrightarrow> q = p"
  shows "p' = p \<and> rn_router rt' = rn_router rt \<and> rn_cfg rt' = rn_cfg rt"
  using assms by (auto simp: updateLocked_def Let_def split: sum.splits prod.splits option.splits)

lemma UpdateConfig_fails: "UpdateConfig ae rand db io n st = (Some err, st') \<Longrightarrow> st' = st"
  by (cases st, cases st')
    (auto simp: UpdateConfig_def sanitizeConfigForStore_def pg_Save_def writeConfigFile_def Let_def split: sum.splits if_splits option.splits)

lemma UpdateConfig_saves:
  "UpdateConfig ae rand db io n (s, md) = (None, s', md') \<Longrightarrow>
   \<exists>c. Clone (ae_cfg ae) (ae_yaml ae) rand n = Inr c \<and> s' = s\<lparr>as_cfg := c\<lparr>cf_Storage := as_bootstrap s\<rparr>\<rparr>"
  by (auto simp: UpdateConfig_def sanitizeConfigForStore_def pg_Save_def writeConfigFile_def Let_def split: sum.splits if_splits option.splits)

lemma svc_RefreshKeys_evolves:
  assumes "yaml_faithful (ae_yaml ae)" "svc_RefreshKeys ae ops cx s = (res, s')"
  shows "evolves ae s s'"
proof -
  let ?rt = "ay_runtime s"
  obtain u rt where up: "updateLocked (ae_build ae) (ae_yaml ae) (cx_now cx) (cx_rands cx 9) (ko_ListAll ops (ay_keys s)) (rn_cfg ?rt) no_persist ((), ?rt) = (res, u, rt)"
    and s': "s' = s\<lparr>ay_runtime := rt\<rparr>"
    using assms(2) by (auto simp: svc_RefreshKeys_def RefreshKeys_def split: prod.splits)
  show ?thesis
  proof (cases res)
    case None
    hence c: "Clone (ae_cfg ae) (ae_yaml ae) (cx_rands cx 9) (rn_cfg ?rt) = Inr (rn_cfg rt)" using updateLocked_outcome [OF up] by simp
    have "in_step ae s \<Longrightarrow> in_step ae s'"
      using Clone_is_prepared [OF c] Clone_of_prepared [OF assms(1) _ c] by (auto simp: in_step_def s')
    thus ?thesis by (simp add: evolves_def s')
  next
    case (Some err)
    hence "rn_cfg rt = rn_cfg ?rt" using updateLocked_outcome [OF up] by simp
    thus ?thesis by (simp add: evolves_def in_step_def s')
  qed
qed

lemma updateConfigLocked_evolves:
  assumes "yaml_faithful (ae_yaml ae)" "updateConfigLocked ae ops cx actor n s = (res, s')"
  shows "evolves ae s s'"
proof (cases "next_config ae cx n s")
  case (Inl err)
  thus ?thesis using assms(2) by (simp add: updateConfigLocked_def)
next
  case (Inr pn)
  obtain prev c where pn: "pn = (prev, c)" by (cases pn)
  let ?persist = "UpdateConfig ae (cx_rands cx 5) (cx_db cx) (cx_io cx)"
  obtain e store md rt where up: "updateLocked (ae_build ae) (ae_yaml ae) (cx_now cx) (cx_rands cx 4) (ko_ListAll ops (ay_keys s)) c
      ?persist ((ay_store s, ay_media s), ay_runtime s) = (e, (store, md), rt)"
    by (metis prod.exhaust)
  show ?thesis
  proof (cases e)
    case None
    note out = updateLocked_outcome [OF up, unfolded None, simplified]
    from UpdateConfig_saves [OF conjunct1 [OF out]] obtain c' where c':
      "Clone (ae_cfg ae) (ae_yaml ae) (cx_rands cx 5) (rn_cfg rt) = Inr c'" "store = (ay_store s)\<lparr>as_cfg := c'\<lparr>cf_Storage := as_bootstrap (ay_store s)\<rparr>\<rparr>"
      by blast
    have p: "prepared (ae_cfg ae) (rn_cfg rt)" using Clone_is_prepared [OF conjunct2 [OF out]] .
    have "c' = clone_image (rn_cfg rt)" using Clone_of_prepared [OF assms(1) p c'(1)] .
    hence step: "in_step ae (s\<lparr>ay_store := store, ay_media := md, ay_runtime := rt\<rparr>)" using p c'(2) by (simp add: in_step_def clone_image_storage)
    hence "in_step ae (s\<lparr>ay_store := store, ay_media := md, ay_runtime := rt, ay_sessions := m\<rparr>)" for m by (simp add: in_step_def)
    hence "evolves ae s (s\<lparr>ay_store := store, ay_media := md, ay_runtime := rt\<rparr>)"
      "evolves ae s (s\<lparr>ay_store := store, ay_media := md, ay_runtime := rt, ay_sessions := sess_DeleteAll (ay_sessions s)\<rparr>)"
      using step by (simp_all add: evolves_def sess_DeleteAll_def)
    thus ?thesis using assms(2) Inr pn up None by (auto simp: updateConfigLocked_def Let_def split: if_splits)
  next
    case (Some err)
    have "(store, md) = (ay_store s, ay_media s) \<and> rn_router rt = rn_router (ay_runtime s) \<and> rn_cfg rt = rn_cfg (ay_runtime s)"
      by (rule updateLocked_fails [OF up [unfolded Some]]) (rule UpdateConfig_fails)
    thus ?thesis using assms(2) Inr pn up Some by (auto simp: updateConfigLocked_def Let_def evolves_def in_step_def)
  qed
qed

lemma publish_log_evolves:
  "yaml_faithful (ae_yaml ae) \<Longrightarrow> publish_log ae ops cx actor action cfg s = (res, s') \<Longrightarrow> evolves ae s s'"
  using updateConfigLocked_evolves [of ae ops cx actor cfg s]
  by (auto simp: publish_log_def split: prod.splits option.splits)

lemma refresh_log_evolves:
  assumes "yaml_faithful (ae_yaml ae)" "refresh_log ae ops cx actor action (s\<lparr>ay_keys := k\<rparr>) = (res, s')"
  shows "evolves ae s s'"
proof -
  have "evolves ae (s\<lparr>ay_keys := k\<rparr>) s'"
    using assms svc_RefreshKeys_evolves [OF assms(1), of ops cx "s\<lparr>ay_keys := k\<rparr>"] by (auto simp: refresh_log_def split: prod.splits option.splits)
  thus ?thesis by (rule evolves_trans [OF evolves_keys])
qed

lemmas evolves_publish = publish_log_evolves updateConfigLocked_evolves refresh_log_evolves

named_theorems evolving

lemma RotatePassword_evolves [evolving]:
  "yaml_faithful (ae_yaml ae) \<Longrightarrow> RotatePassword ae ops cx actor pw s = (res, s') \<Longrightarrow> evolves ae s s'"
  by (auto simp: RotatePassword_def split: sum.splits intro: evolves_publish)

lemma CreateVendor_evolves [evolving]:
  "yaml_faithful (ae_yaml ae) \<Longrightarrow> CreateVendor ae ops cx actor name vc s = (res, s') \<Longrightarrow> evolves ae s s'"
  by (auto simp: CreateVendor_def Let_def split: sum.splits option.splits if_splits prod.splits intro: evolves_publish)

lemma UpdateVendor_evolves [evolving]:
  "yaml_faithful (ae_yaml ae) \<Longrightarrow> UpdateVendor ae ops cx actor vid vc s = (res, s') \<Longrightarrow> evolves ae s s'"
  by (auto simp: UpdateVendor_def Let_def split: sum.splits option.splits if_splits intro: evolves_publish)

lemma RenameVendor_evolves [evolving]:
  "yaml_faithful (ae_yaml ae) \<Longrightarrow> RenameVendor ae ops cx actor vid name s = (res, s') \<Longrightarrow> evolves ae s s'"
  by (auto simp: RenameVendor_def Let_def split: sum.splits option.splits if_splits intro: evolves_publish)

lemma client_keys_evolve [evolving]:
  "yaml_faithful (ae_yaml ae) \<Longrightarrow> AddClientKey ae ops cx actor vid key s = (res, s') \<Longrightarrow> evolves ae s s'"
  "yaml_faithful (ae_yaml ae) \<Longrightarrow> DeleteClientKey ae ops cx actor vid key s = (res, s') \<Longrightarrow> evolves ae s s'"
  by (auto simp: AddClientKey_def DeleteClientKey_def Let_def split: sum.splits option.splits if_splits intro: evolves_publish)

lemma DeleteVendor_evolves [evolving]:
  assumes "yaml_faithful (ae_yaml ae)" "DeleteVendor ae ops cx actor vid s = (res, s')"
  shows "evolves ae s s'"
proof -
  have refresh: "evolves ae s s2"
    if "updateConfigLocked ae ops cx actor c s = (None, s1)" "svc_RefreshKeys ae ops cx (s1\<lparr>ay_keys := k\<rparr>) = (r, s2)" for c s1 s2 k r
    using updateConfigLocked_evolves [OF assms(1) that(1)]
      evolves_trans [OF evolves_keys svc_RefreshKeys_evolves [OF assms(1) that(2)]] by (rule evolves_trans)
  show ?thesis
    using assms(2)
    by (auto simp: DeleteVendor_def split: sum.splits option.splits prod.splits
        intro: updateConfigLocked_evolves [OF assms(1)] refresh evolves_trans [OF updateConfigLocked_evolves [OF assms(1)] evolves_keys])
qed

lemma upstream_keys_evolve [evolving]:
  "yaml_faithful (ae_yaml ae) \<Longrightarrow> AddUpstreamKeys ae ops cx actor v ks s = (res, s') \<Longrightarrow> evolves ae s s'"
  "yaml_faithful (ae_yaml ae) \<Longrightarrow> DeleteUpstreamKeys ae ops cx actor v ks s = (res, s') \<Longrightarrow> evolves ae s s'"
  "yaml_faithful (ae_yaml ae) \<Longrightarrow> ReplaceUpstreamKeys ae ops cx actor v ks s = (res, s') \<Longrightarrow> evolves ae s s'"
  "yaml_faithful (ae_yaml ae) \<Longrightarrow> SetUpstreamKeyStatus ae ops cx actor v ks status reason s = (res, s') \<Longrightarrow> evolves ae s s'"
  by (auto simp: AddUpstreamKeys_def DeleteUpstreamKeys_def ReplaceUpstreamKeys_def SetUpstreamKeyStatus_def Let_def
      split: sum.splits option.splits if_splits prod.splits intro: evolves_publish)

lemma upstream_key_evolves [evolving]:
  "yaml_faithful (ae_yaml ae) \<Longrightarrow> AddUpstreamKey ae ops cx actor v key s = (res, s') \<Longrightarrow> evolves ae s s'"
  "yaml_faithful (ae_yaml ae) \<Longrightarrow> DeleteUpstreamKey ae ops cx actor v key s = (res, s') \<Longrightarrow> evolves ae s s'"
  by (auto simp: AddUpstreamKey_def DeleteUpstreamKey_def Let_def split: if_splits intro: evolving)

lemma SetUpstreamKeyRemark_evolves [evolving]: "SetUpstreamKeyRemark ae ops cx actor v key remark s = (res, s') \<Longrightarrow> evolves ae s s'"
  by (auto simp: SetUpstreamKeyRemark_def Let_def split: if_splits option.splits prod.splits)

lemma RecoverUpstreamKeys_evolves [evolving]:
  assumes "yaml_faithful (ae_yaml ae)" "RecoverUpstreamKeys ae ops cx actor v ks s = (res, s')"
  shows "evolves ae s s'"
proof -
  have refresh: "evolves ae s s2" if "svc_RefreshKeys ae ops cx (s\<lparr>ay_keys := k\<rparr>) = (r, s2)" for s2 k r
    by (rule evolves_trans [OF evolves_keys svc_RefreshKeys_evolves [OF assms(1) that]])
  show ?thesis
    using assms(2)
    by (auto simp: RecoverUpstreamKeys_def Let_def split: if_splits option.splits prod.splits
        intro: refresh evolves_trans [OF refresh evolves_recover])
qed

lemma svc_ResetRuntimeStats_evolves [evolving]:
  "svc_ResetRuntimeStats ae ops cx reset actor req s = (res, s') \<Longrightarrow> evolves ae s s'"
  by (auto simp: svc_ResetRuntimeStats_def Let_def split: if_splits option.splits prod.splits)

section \<open>Requests\<close>

lemma ok_or_bad_evolves: "ok_or_bad r = (resp, s') \<Longrightarrow> (\<And>res t. r = (res, t) \<Longrightarrow> evolves ae s t) \<Longrightarrow> evolves ae s s'"
  by (auto simp: ok_or_bad_def split: prod.splits option.splits)

lemmas handler_splits = if_splits sum.splits option.splits prod.splits outcome.splits

lemma simple_handlers_evolve:
  "handleMe r s = (resp, s') \<Longrightarrow> evolves ae s s'"
  "handleConfigRaw he cx r s = (resp, s') \<Longrightarrow> evolves ae s s'"
  "handleStats he cx r s = (resp, s') \<Longrightarrow> evolves ae s s'"
  "handleUpstreamKeyIndex he cx r s = (resp, s') \<Longrightarrow> evolves ae s s'"
  "handleVendorTestMeta he cx vid r s = (resp, s') \<Longrightarrow> evolves ae s s'"
  "handleVendorTest he cx vid r s = (resp, s') \<Longrightarrow> evolves ae s s'"
  by (auto simp: handleMe_def handleConfigRaw_def handleStats_def handleUpstreamKeyIndex_def handleVendorTestMeta_def handleVendorTest_def
      split: handler_splits)

lemma handleLogout_evolves: "handleLogout cx r s = (resp, s') \<Longrightarrow> evolves ae s s'"
proof -
  have "evolves ae s (s\<lparr>ay_sessions := sess_Delete t (ay_sessions s)\<rparr>)" for t
    by (rule evolves_sessions) (simp add: sess_Delete_def AList.delete_eq)
  thus "handleLogout cx r s = (resp, s') \<Longrightarrow> ?thesis" by (auto simp: handleLogout_def Logout_def split: if_splits)
qed

lemma changing_handlers_evolve:
  assumes "yaml_faithful (ae_yaml (he_admin he))"
  shows "handleConfig he cx r s = (resp, s') \<Longrightarrow> evolves (he_admin he) s s'"
    and "handleStatsReset he cx r s = (resp, s') \<Longrightarrow> evolves (he_admin he) s s'"
    and "handlePasswordRotate he cx r s = (resp, s') \<Longrightarrow> evolves (he_admin he) s s'"
    and "handleVendors he cx r s = (resp, s') \<Longrightarrow> evolves (he_admin he) s s'"
    and "handleVendorRename he cx vid r s = (resp, s') \<Longrightarrow> evolves (he_admin he) s s'"
    and "handleUpstreamKeys he cx vid r s = (resp, s') \<Longrightarrow> evolves (he_admin he) s s'"
    and "handleClientKeys he cx vid r s = (resp, s') \<Longrightarrow> evolves (he_admin he) s s'"
    and "handleUpstreamKeyStatusAction he cx vid action r s = (resp, s') \<Longrightarrow> evolves (he_admin he) s s'"
  using assms
  by (auto simp: handleConfig_def handleStatsReset_def handlePasswordRotate_def handleVendors_def handleVendorRename_def handleUpstreamKeys_def
      handleClientKeys_def handleUpstreamKeyStatusAction_def Let_def split: handler_splits
      elim!: ok_or_bad_evolves intro: evolving updateConfigLocked_evolves)

lemma path_handlers_evolve:
  assumes "yaml_faithful (ae_yaml (he_admin he))"
  shows "handleUpstreamKeyVendor he cx r s = (resp, s') \<Longrightarrow> evolves (he_admin he) s s'"
    and "handleVendorByPath he cx r s = (resp, s') \<Longrightarrow> evolves (he_admin he) s s'"
  using assms
  by (auto simp: handleUpstreamKeyVendor_def handleVendorByPath_def Let_def split: handler_splits
      elim!: ok_or_bad_evolves intro: evolving changing_handlers_evolve simple_handlers_evolve)

lemma admin_route_evolves:
  assumes "yaml_faithful (ae_yaml (he_admin he))" "admin_route he cx path = Some handle" "handle r s = (resp, s')"
  shows "evolves (he_admin he) s s'"
  using assms(2,3)
  by (auto simp: admin_route_def split: if_splits
      intro: simple_handlers_evolve handleLogout_evolves changing_handlers_evolve [OF assms(1)] path_handlers_evolve [OF assms(1)])

text \<open>Whether a request comes from an allowed address with the token of a session that has not expired.\<close>

definition signed_in :: "'k handler_env \<Rightarrow> op_cx \<Rightarrow> admin_request \<Rightarrow> 'k Service \<Rightarrow> bool" where
  "signed_in he cx r s = (\<not> isl (allowRequest he cx r s) \<and> extractToken (aq_Header r) \<noteq> [] \<and>
     (\<exists>sn. map_of (sm_sessions (ay_sessions s)) (extractToken (aq_Header r)) = Some sn \<and> cx_now cx \<le> sn_ExpiresAt sn))"

lemma sess_Validate_sessions: "sess_Validate now token m = (res, m') \<Longrightarrow> set (sm_sessions m') \<subseteq> set (sm_sessions m)"
  by (auto simp: sess_Validate_def AList.delete_eq split: option.splits if_splits)

lemma withAuth_evolves:
  assumes "\<And>r t resp t'. handle r t = (resp, t') \<Longrightarrow> evolves ae t t'" and "withAuth he cx handle r s = (resp, s')"
  shows "evolves ae s s'"
proof -
  have "evolves ae s t" if "handle r' (s\<lparr>ay_sessions := m\<rparr>) = (resp', t)" "sess_Validate now token (ay_sessions s) = (res, m)" for r' resp' t m now token res
    by (rule evolves_trans [OF evolves_sessions [OF sess_Validate_sessions [OF that(2)]] assms(1) [OF that(1)]])
  moreover have "evolves ae s (s\<lparr>ay_sessions := m\<rparr>)" if "sess_Validate now token (ay_sessions s) = (res, m)" for now token res m
    by (rule evolves_sessions [OF sess_Validate_sessions [OF that]])
  ultimately show ?thesis using assms(2) by (auto simp: withAuth_def Let_def split: handler_splits)
qed

fun admin_run :: "'k handler_env \<Rightarrow> (op_cx \<times> admin_request) list \<Rightarrow> 'k Handler \<Rightarrow> 'k Handler" where
  "admin_run he [] h = h"
| "admin_run he ((cx, r) # rs) h = admin_run he rs (case serve_admin he cx r h of None \<Rightarrow> h | Some (resp, h') \<Rightarrow> h')"

text \<open>What signing in can change: the audit log, the guard, and, with the right credentials, one new session.\<close>

definition same_except_sessions :: "'k Service \<Rightarrow> 'k Service \<Rightarrow> bool" where
  "same_except_sessions s s' = (ay_store s' = ay_store s \<and> ay_media s' = ay_media s \<and> ay_runtime s' = ay_runtime s \<and> ay_keys s' = ay_keys s)"

definition logged_in :: "'k handler_env \<Rightarrow> op_cx \<Rightarrow> admin_request \<Rightarrow> string \<Rightarrow> 'k Service \<Rightarrow> bool" where
  "logged_in he cx r u s = (\<not> isl (allowRequest he cx r s) \<and> aq_Path r = ''/admin/login'' \<and>
     (\<exists>pw. jl_Login (he_json he) (aq_Body r) = Some (u, pw) \<and> login_check (he_admin he) cx u pw s = None))"

lemma handleLogin_outcome:
  assumes "handleLogin he cx r h = (resp, h')" "aq_Path r = ''/admin/login''"
  shows "same_except_sessions (hd_service h) (hd_service h')"
    and "ay_sessions (hd_service h') = ay_sessions (hd_service h) \<or>
      (\<exists>u. logged_in he cx r u (hd_service h) \<and>
         ay_sessions (hd_service h') = snd (sess_Create (ae_crypto (he_admin he)) (cx_raw cx) (cx_now cx) u (ay_sessions (hd_service h))))"
  using assms
  by (auto simp: handleLogin_def Login_def login_create_def auditLoginEvent_def same_except_sessions_def logged_in_def Let_def
      split: handler_splits bool.splits)


lemma serve_admin_cases:
  assumes "serve_admin he cx r h = Some (resp, h')"
  obtains (login) "aq_Path r = ''/admin/login''" "handleLogin he cx r h = (resp, h')"
  | (route) handle s where "aq_Path r \<noteq> ''/admin/login''" "admin_route he cx (aq_Path r) = Some handle"
      "withAuth he cx handle r (hd_service h) = (resp, s)" "h' = h\<lparr>hd_service := s\<rparr>"
  using assms by (auto simp: serve_admin_def split: handler_splits)



section \<open>Sessions\<close>

abbreviation sessions_of :: "'k Handler \<Rightarrow> (string \<times> Session) set" where
  "sessions_of h \<equiv> set (sm_sessions (ay_sessions (hd_service h)))"

lemma update_subset: "set (AList.update k v xs) \<subseteq> insert (k, v) (set xs)"
  by (induction xs) auto

lemma serve_admin_sessions:
  assumes "yaml_faithful (ae_yaml (he_admin he))" "serve_admin he cx r h = Some (resp, h')" "(token, sn) \<in> sessions_of h'"
  shows "(token, sn) \<in> sessions_of h \<or> logged_in he cx r (sn_Username sn) (hd_service h)"
  using assms(2)
proof (cases rule: serve_admin_cases)
  case login
  have "set (sm_sessions (snd (sess_Create cl raw now u m))) \<subseteq>
      insert (session_token cl raw, \<lparr>sn_Username = u, sn_ExpiresAt = now + sm_ttl m\<rparr>) (set (sm_sessions m))" for cl raw now u m
    using update_subset by (fastforce simp: sess_Create_def Let_def)
  thus ?thesis using handleLogin_outcome(2) [OF login(2,1)] assms(3) by fastforce
next
  case (route handle s)
  have "evolves (he_admin he) (hd_service h) s" using withAuth_evolves [OF admin_route_evolves [OF assms(1) route(2)] route(3)] .
  thus ?thesis using assms(3) route(4) by (auto simp: evolves_def)
qed

text \<open>C15: Every session stems from a checked sign-in: after any sequence of requests, a session that was not there at the
  start was issued by a request to the login route from an allowed address, whose user name is the one of the
  session and whose password the configuration of that moment accepts.\<close>

theorem sessions_only_by_login:
  assumes "yaml_faithful (ae_yaml (he_admin he))"
  shows "(token, sn) \<in> sessions_of (admin_run he rs h) - sessions_of h \<longrightarrow>
    (\<exists>rs1 cx r rs2. rs = rs1 @ (cx, r) # rs2 \<and> logged_in he cx r (sn_Username sn) (hd_service (admin_run he rs1 h)))"
proof (induction rs arbitrary: h)
  case (Cons cr rs)
  obtain cx r where cr: "cr = (cx, r)" by (cases cr)
  let ?h = "case serve_admin he cx r h of None \<Rightarrow> h | Some (resp, h') \<Rightarrow> h'"
  show ?case
  proof
    assume new: "(token, sn) \<in> sessions_of (admin_run he (cr # rs) h) - sessions_of h"
    show "\<exists>rs1 cx r rs2. cr # rs = rs1 @ (cx, r) # rs2 \<and> logged_in he cx r (sn_Username sn) (hd_service (admin_run he rs1 h))"
    proof (cases "(token, sn) \<in> sessions_of ?h")
      case True
      then obtain resp h' where s: "serve_admin he cx r h = Some (resp, h')" using new by (cases "serve_admin he cx r h") auto
      have "logged_in he cx r (sn_Username sn) (hd_service h)" using serve_admin_sessions [OF assms s] True s new by auto
      hence "cr # rs = [] @ (cx, r) # rs \<and> logged_in he cx r (sn_Username sn) (hd_service (admin_run he [] h))" by (simp add: cr)
      thus ?thesis by blast
    next
      case False
      then obtain rs1 cx' r' rs2 where "rs = rs1 @ (cx', r') # rs2" "logged_in he cx' r' (sn_Username sn) (hd_service (admin_run he rs1 ?h))"
        using Cons.IH [of ?h] new by (auto simp: cr)
      hence "cr # rs = (cr # rs1) @ (cx', r') # rs2 \<and> logged_in he cx' r' (sn_Username sn) (hd_service (admin_run he (cr # rs1) h))"
        by (simp add: cr)
      thus ?thesis by blast
    qed
  qed
qed simp

text \<open>C14: Without a session nothing happens: a request to any route but the login, from a foreign address or without the
  token of a session that has not expired, is answered with 404, 401 or the error of reading the configuration, and
  leaves the configuration, its media, the router, the keys, the audit log and the login guard as they are; at most
  the expired session of its token is forgotten.\<close>

theorem no_session_no_effect:
  assumes "serve_admin he cx r h = Some (resp, h')" and "aq_Path r \<noteq> ''/admin/login''" and "\<not> signed_in he cx r (hd_service h)"
  shows "(\<exists>st rep. resp = Reply st rep \<and> st \<in> {401, 404, 500}) \<and>
    (\<exists>m. h' = h\<lparr>hd_service := (hd_service h)\<lparr>ay_sessions := m\<rparr>\<rparr> \<and>
       (m = ay_sessions (hd_service h) \<or> m = sess_Delete (extractToken (aq_Header r)) (ay_sessions (hd_service h))))"
  using assms(1)
proof (cases rule: serve_admin_cases)
  case (route handle s)
  let ?s = "hd_service h" and ?token = "extractToken (aq_Header r)"
  have keep: "h = h\<lparr>hd_service := ?s\<lparr>ay_sessions := ay_sessions ?s\<rparr>\<rparr>" by simp
  show ?thesis
  proof (cases "allowRequest he cx r ?s")
    case (Inl e)
    hence "resp = e" "s = ?s" using route(3) by (simp_all add: withAuth_def)
    moreover have "\<exists>st rep. e = Reply st rep \<and> st \<in> {401, 404, 500}"
      using Inl by (auto simp: allowRequest_def split: handler_splits)
    moreover have "h' = h\<lparr>hd_service := ?s\<lparr>ay_sessions := ay_sessions ?s\<rparr>\<rparr>" using route(4) calculation(2) keep by simp
    ultimately show ?thesis by blast
  next
    case (Inr a)
    show ?thesis
    proof (cases "?token = []")
      case True
      hence "resp = writeError 401 ''missing admin token''" "s = ?s" using Inr route(3) by (simp_all add: withAuth_def)
      moreover have "h' = h\<lparr>hd_service := ?s\<lparr>ay_sessions := ay_sessions ?s\<rparr>\<rparr>" using route(4) calculation(2) keep by simp
      ultimately show ?thesis unfolding writeError_def by blast
    next
      case False
      hence "fst (sess_Validate (cx_now cx) ?token (ay_sessions ?s)) = None"
        using assms(3) Inr by (force simp: signed_in_def sess_Validate_def split: option.splits)
      then obtain m where v: "sess_Validate (cx_now cx) ?token (ay_sessions ?s) = (None, m)" by (metis prod.collapse)
      hence "resp = writeError 401 ''invalid or expired admin token''" "s = ?s\<lparr>ay_sessions := m\<rparr>"
        using Inr False route(3) by (simp_all add: withAuth_def)
      moreover have "m = ay_sessions ?s \<or> m = sess_Delete ?token (ay_sessions ?s)"
        using v by (auto simp: sess_Validate_def sess_Delete_def split: option.splits if_splits)
      ultimately show ?thesis using route(4) by (auto simp: writeError_def)
    qed
  qed
qed (use assms(2) in simp)

section \<open>Failures\<close>

text \<open>What is saved and what is served, with the keys apart.\<close>

definition spared :: "'k Service \<Rightarrow> 'k Service \<Rightarrow> bool" where
  "spared s s' = (ay_store s' = ay_store s \<and> ay_media s' = ay_media s \<and>
     rn_router (ay_runtime s') = rn_router (ay_runtime s) \<and> rn_cfg (ay_runtime s') = rn_cfg (ay_runtime s))"

definition spared_keys :: "'k Service \<Rightarrow> 'k Service \<Rightarrow> bool" where
  "spared_keys s s' = (spared s s' \<and> ay_keys s' = ay_keys s)"

lemma spared_simps [simp]: "spared s s" "spared_keys s s" "spared s (s\<lparr>ay_keys := k\<rparr>)" "spared_keys s (s\<lparr>ay_sessions := m\<rparr>)"
  "spared s (audit_Log cx actor action s') = spared s s'" "spared_keys s (audit_Log cx actor action s') = spared_keys s s'"
  "spared (s\<lparr>ay_keys := k\<rparr>) s' = spared s s'" "spared_keys (s\<lparr>ay_sessions := m\<rparr>) s' = spared_keys s s'"
  "spared (s\<lparr>ay_sessions := m\<rparr>) s' = spared s s'" "spared s (s\<lparr>ay_sessions := m\<rparr>)"
  by (simp_all add: spared_def spared_keys_def)

named_theorems sparing

lemma svc_RefreshKeys_fails: "svc_RefreshKeys ae ops cx s = (Some err, s') \<Longrightarrow> spared s s'"
proof -
  assume fail: "svc_RefreshKeys ae ops cx s = (Some err, s')"
  then obtain u rt where up: "updateLocked (ae_build ae) (ae_yaml ae) (cx_now cx) (cx_rands cx 9) (ko_ListAll ops (ay_keys s)) (rn_cfg (ay_runtime s))
      no_persist ((), ay_runtime s) = (Some err, u, rt)" and s': "s' = s\<lparr>ay_runtime := rt\<rparr>"
    by (auto simp: svc_RefreshKeys_def RefreshKeys_def split: prod.splits)
  thus ?thesis using updateLocked_outcome [OF up] by (simp add: spared_def)
qed

lemma updateConfigLocked_fails:
  assumes "updateConfigLocked ae ops cx actor n s = (Some err, s')"
  shows "spared_keys s s'"
proof (cases "next_config ae cx n s")
  case (Inr pn)
  obtain prev c where pn: "pn = (prev, c)" by (cases pn)
  obtain e store md rt where up: "updateLocked (ae_build ae) (ae_yaml ae) (cx_now cx) (cx_rands cx 4) (ko_ListAll ops (ay_keys s)) c
      (UpdateConfig ae (cx_rands cx 5) (cx_db cx) (cx_io cx)) ((ay_store s, ay_media s), ay_runtime s) = (e, (store, md), rt)"
    by (metis prod.exhaust)
  have e: "e = Some err" "s' = s\<lparr>ay_store := store, ay_media := md, ay_runtime := rt\<rparr>"
    using assms Inr pn up by (auto simp: updateConfigLocked_def Let_def split: option.splits)
  have "(store, md) = (ay_store s, ay_media s) \<and> rn_router rt = rn_router (ay_runtime s) \<and> rn_cfg rt = rn_cfg (ay_runtime s)"
    by (rule updateLocked_fails [OF up [unfolded e(1)]]) (rule UpdateConfig_fails)
  thus ?thesis using e(2) by (simp add: spared_keys_def spared_def)
qed (use assms in \<open>auto simp: updateConfigLocked_def\<close>)

lemma publish_log_fails: "publish_log ae ops cx actor action cfg s = (Some err, s') \<Longrightarrow> spared_keys s s'"
  using updateConfigLocked_fails [of ae ops cx actor cfg s] by (auto simp: publish_log_def split: prod.splits option.splits)

lemma refresh_log_fails: "refresh_log ae ops cx actor action (s\<lparr>ay_keys := k\<rparr>) = (Some err, s') \<Longrightarrow> spared s s'"
  using svc_RefreshKeys_fails [of ae ops cx "s\<lparr>ay_keys := k\<rparr>"] by (auto simp: refresh_log_def split: prod.splits option.splits)

lemma config_changes_fail [sparing]:
  "RotatePassword ae ops cx actor pw s = (Some err, s') \<Longrightarrow> spared_keys s s'"
  "UpdateVendor ae ops cx actor vid vc s = (Some err, s') \<Longrightarrow> spared_keys s s'"
  "RenameVendor ae ops cx actor vid name s = (Some err, s') \<Longrightarrow> spared_keys s s'"
  "AddClientKey ae ops cx actor vid key s = (Some err, s') \<Longrightarrow> spared_keys s s'"
  "DeleteClientKey ae ops cx actor vid key s = (Some err, s') \<Longrightarrow> spared_keys s s'"
  by (auto simp: RotatePassword_def UpdateVendor_def RenameVendor_def AddClientKey_def DeleteClientKey_def Let_def
      split: sum.splits option.splits if_splits intro: publish_log_fails)

lemma CreateVendor_fails [sparing]: "CreateVendor ae ops cx actor name vc s = (Inl err, s') \<Longrightarrow> spared_keys s s'"
  by (auto simp: CreateVendor_def Let_def split: sum.splits option.splits if_splits prod.splits intro: publish_log_fails)

lemma key_changes_fail [sparing]:
  "AddUpstreamKeys ae ops cx actor v ks s = (Some err, s') \<Longrightarrow> spared s s'"
  "DeleteUpstreamKeys ae ops cx actor v ks s = (Some err, s') \<Longrightarrow> spared s s'"
  "ReplaceUpstreamKeys ae ops cx actor v ks s = (Some err, s') \<Longrightarrow> spared s s'"
  "SetUpstreamKeyStatus ae ops cx actor v ks status reason s = (Some err, s') \<Longrightarrow> spared s s'"
  "SetUpstreamKeyRemark ae ops cx actor v key remark s = (Some err, s') \<Longrightarrow> spared s s'"
  by (auto simp: AddUpstreamKeys_def DeleteUpstreamKeys_def ReplaceUpstreamKeys_def SetUpstreamKeyStatus_def SetUpstreamKeyRemark_def Let_def
      split: sum.splits option.splits if_splits prod.splits intro: refresh_log_fails)

lemma key_change_fails [sparing]:
  "AddUpstreamKey ae ops cx actor v key s = (Some err, s') \<Longrightarrow> spared s s'"
  "DeleteUpstreamKey ae ops cx actor v key s = (Some err, s') \<Longrightarrow> spared s s'"
  by (auto simp: AddUpstreamKey_def DeleteUpstreamKey_def Let_def split: if_splits intro: sparing)

lemma RecoverUpstreamKeys_fails [sparing]: "RecoverUpstreamKeys ae ops cx actor v ks s = (Some err, s') \<Longrightarrow> spared s s'"
proof -
  have "spared s s2" if "svc_RefreshKeys ae ops cx (s\<lparr>ay_keys := k\<rparr>) = (Some e, s2)" for s2 k e
    using svc_RefreshKeys_fails [OF that] by simp
  thus "RecoverUpstreamKeys ae ops cx actor v ks s = (Some err, s') \<Longrightarrow> ?thesis"
    by (auto simp: RecoverUpstreamKeys_def Let_def split: if_splits option.splits prod.splits)
qed

lemma svc_ResetRuntimeStats_spares [sparing]: "svc_ResetRuntimeStats ae ops cx reset actor req s = (res, s') \<Longrightarrow> spared s s'"
  by (auto simp: svc_ResetRuntimeStats_def Let_def spared_def split: if_splits option.splits prod.splits)

definition succeeds :: "response \<Rightarrow> bool" where
  "succeeds resp = (case resp of Reply st rep \<Rightarrow> st = 200 | Aborted \<Rightarrow> False)"

lemma succeeds_simps [simp]: "succeeds (Reply st rep) = (st = 200)" "\<not> succeeds Aborted" "succeeds (writeError st msg) = (st = 200)"
  "\<not> succeeds method_not_allowed"
  by (simp_all add: succeeds_def writeError_def method_not_allowed_def)














end
