(* ===== verification/AdminEffects.thy ===== *)
theory AdminEffects
  imports AdminSafety
begin

text \<open>
  What single operations of the administration achieve: changing the password, updating a vendor from a partial
  description, and reading the statistics page by page.
\<close>

section \<open>Changing the password\<close>

definition admin_defaults :: "AdminConfig \<Rightarrow> AdminConfig" where
  "admin_defaults am = am\<lparr>am_Username := or_str (am_Username am) ''admin'', am_AuditLogPath := or_str (am_AuditLogPath am) ''./data/admin_audit.log'',
     am_SessionTTL := or_pos (am_SessionTTL am) (12 * hour)\<rparr>"

lemma admin_defaults_idem [simp]: "admin_defaults (admin_defaults am) = admin_defaults am"
  by (simp add: admin_defaults_def)

lemma admin_defaults_fields [simp]:
  "am_Password (admin_defaults am) = am_Password am" "am_PasswordHash (admin_defaults am) = am_PasswordHash am"
  "am_Enabled (admin_defaults am) = am_Enabled am"
  by (simp_all add: admin_defaults_def)

lemma admin_defaults_credentials:
  "admin_defaults (am\<lparr>am_Password := p\<rparr>) = (admin_defaults am)\<lparr>am_Password := p\<rparr>"
  "admin_defaults (am\<lparr>am_PasswordHash := h\<rparr>) = (admin_defaults am)\<lparr>am_PasswordHash := h\<rparr>"
  by (simp_all add: admin_defaults_def)

lemma prepare_admin: "prepare env rand req c = Inr c' \<Longrightarrow> cf_Admin c' = admin_defaults (cf_Admin c)"
proof -
  have "ensureVendorIDs rand c = Inr c1 \<Longrightarrow> cf_Admin c1 = cf_Admin c" for c1
    by (auto simp: ensureVendorIDs_def map_sum_def split: sum.splits)
  thus "prepare env rand req c = Inr c' \<Longrightarrow> ?thesis"
    by (auto simp: prepare_def Let_def applyDefaults_def admin_defaults_def split: sum.splits option.splits)
qed

lemma Clone_admin: "yaml_faithful yl \<Longrightarrow> Clone env yl rand c = Inr c' \<Longrightarrow> cf_Admin c' = admin_defaults (cf_Admin c)"
  by (auto simp: Clone_def yaml_faithful_def yaml_image_def dest: prepare_admin split: sum.splits)

lemma updateConfigLocked_admin:
  assumes "yaml_faithful (ae_yaml ae)" "updateConfigLocked ae ops cx actor n s = (None, s')"
    and "cf_Admin prev = admin_defaults (cf_Admin (as_cfg (ay_store s)))" "cf_Admin n = admin_defaults (cf_Admin n)"
  shows "admin_defaults (cf_Admin (as_cfg (ay_store s'))) = admin_defaults (normalizeAdminCredentials (cf_Admin n) (cf_Admin prev))"
    and "adminSessionsNeedReset (cf_Admin prev) (admin_defaults (normalizeAdminCredentials (cf_Admin n) (cf_Admin prev))) \<Longrightarrow> sm_sessions (ay_sessions s') = []"
proof -
  obtain p c where c: "next_config ae cx n s = Inr (p, c)" using assms(2) by (auto simp: updateConfigLocked_def split: sum.splits prod.splits)
  then obtain n1 where n1: "Clone (ae_cfg ae) (ae_yaml ae) (cx_rands cx 1) n = Inr n1" "GetConfig ae (cx_rands cx 2) (ay_store s) = Inr p"
    "PrepareAndValidate (ae_cfg ae) (cx_rands cx 3) (n1\<lparr>cf_Admin := normalizeAdminCredentials (cf_Admin n1) (cf_Admin p), cf_Storage := cf_Storage p\<rparr>) = Inr c"
    by (auto simp: next_config_def Let_def split: sum.splits)
  have p: "cf_Admin p = cf_Admin prev" using Clone_admin [OF assms(1) n1(2) [unfolded GetConfig_def]] assms(3) by simp
  have ca: "cf_Admin c = admin_defaults (normalizeAdminCredentials (cf_Admin n) (cf_Admin prev))"
    using prepare_admin [OF n1(3)] Clone_admin [OF assms(1) n1(1)] assms(4) p by simp
  obtain e store md rt where up: "updateLocked (ae_build ae) (ae_yaml ae) (cx_now cx) (cx_rands cx 4) (ko_ListAll ops (ay_keys s)) c
      (UpdateConfig ae (cx_rands cx 5) (cx_db cx) (cx_io cx)) ((ay_store s, ay_media s), ay_runtime s) = (e, (store, md), rt)"
    by (metis prod.exhaust)
  have e: "e = None" "ay_store s' = store" "adminSessionsNeedReset (cf_Admin p) (cf_Admin c) \<longrightarrow> sm_sessions (ay_sessions s') = []"
    using assms(2) c up by (auto simp: updateConfigLocked_def Let_def sess_DeleteAll_def split: option.splits if_splits)
  note out = updateLocked_outcome [OF up, unfolded e(1), simplified]
  from UpdateConfig_saves [OF conjunct1 [OF out]] obtain c' where c':
    "Clone (ae_cfg ae) (ae_yaml ae) (cx_rands cx 5) (rn_cfg rt) = Inr c'" "store = (ay_store s)\<lparr>as_cfg := c'\<lparr>cf_Storage := as_bootstrap (ay_store s)\<rparr>\<rparr>"
    by blast
  have "cf_Admin c' = admin_defaults (cf_Admin c)" using Clone_admin [OF assms(1) c'(1)] Clone_admin [OF assms(1) conjunct2 [OF out]] by simp
  thus "admin_defaults (cf_Admin (as_cfg (ay_store s'))) = admin_defaults (normalizeAdminCredentials (cf_Admin n) (cf_Admin prev))"
    using ca c'(2) e(2) by simp
  show "adminSessionsNeedReset (cf_Admin prev) (admin_defaults (normalizeAdminCredentials (cf_Admin n) (cf_Admin prev))) \<Longrightarrow> sm_sessions (ay_sessions s') = []"
    using e(3) ca p by simp
qed

lemma HashPassword_text:
  assumes "HashPassword cl salt pw = Inr hash"
  shows "trim_space hash \<noteq> []" and "hash \<noteq> ''******''"
proof -
  have p: "CHR ''p'' \<in> set hash" using assms by (auto simp: HashPassword_def split: if_splits option.splits)
  moreover have "CHR ''p'' \<notin> set (concat space_encodings)" by code_simp
  ultimately show "trim_space hash \<noteq> []" using trim_space_blank by blast
  show "hash \<noteq> ''******''" using p by auto
qed

text \<open>C18: Changing the password takes effect at once and for everybody: after a successful change, a sign-in succeeds
  exactly for the user of the configuration with a password that derives the same key as the new one, and no session
  of before is left, unless the new hash is the old one.\<close>

theorem password_rotation_effective:
  assumes "yaml_faithful (ae_yaml ae)" and "crypto_ok (ae_crypto ae)" and "cx_salt cx = Some salt"
    and "RotatePassword ae ops cx actor pw s = (None, s')" and "current ae cx s = Inr cfg" and "current ae cx' s' = Inr cfg'"
  shows "(login_check ae cx' u p s' = None \<longleftrightarrow> am_Enabled (cf_Admin cfg) \<and> u = am_Username (cf_Admin cfg) \<and>
      cl_pbkdf2 (ae_crypto ae) p salt defaultIter keyLen = cl_pbkdf2 (ae_crypto ae) pw salt defaultIter keyLen) \<and>
    (HashPassword (ae_crypto ae) (Some salt) pw \<noteq> Inr (am_PasswordHash (cf_Admin cfg)) \<longrightarrow> sm_sessions (ay_sessions s') = [])"
proof -
  let ?am = "cf_Admin cfg"
  obtain hash where hash: "HashPassword (ae_crypto ae) (Some salt) pw = Inr hash"
    using assms(3-5) by (auto simp: RotatePassword_def split: sum.splits)
  let ?n = "cfg\<lparr>cf_Admin := ?am\<lparr>am_PasswordHash := hash, am_Password := []\<rparr>\<rparr>"
  obtain s1 where up: "updateConfigLocked ae ops cx actor ?n s = (None, s1)" and same: "ay_store s' = ay_store s1" "ay_sessions s' = ay_sessions s1"
    using assms(3-5) hash by (auto simp: RotatePassword_def publish_log_def split: prod.splits option.splits)
  have am: "?am = admin_defaults (cf_Admin (as_cfg (ay_store s)))" using Clone_admin [OF assms(1) assms(5) [unfolded GetConfig_def]] .
  hence n: "cf_Admin ?n = admin_defaults (cf_Admin ?n)" by (simp add: admin_defaults_credentials)
  note admin = updateConfigLocked_admin [OF assms(1) up am n]
  have norm: "normalizeAdminCredentials (cf_Admin ?n) ?am = cf_Admin ?n"
    using HashPassword_text [OF hash] by (simp add: normalizeAdminCredentials_def Let_def)
  have new: "cf_Admin cfg' = cf_Admin ?n"
    using Clone_admin [OF assms(1) assms(6) [unfolded GetConfig_def]] admin(1) norm n same(1) by simp
  have "login_check ae cx' u p s' = None \<longleftrightarrow> am_Enabled ?am \<and> u = am_Username ?am \<and> VerifyPassword (ae_crypto ae) p hash"
    using assms(6) new HashPassword_text [OF hash] by (auto simp: login_check_def HasCredentials_def check_def Let_def)
  moreover have "am_PasswordHash ?am \<noteq> hash \<Longrightarrow> sm_sessions (ay_sessions s') = []"
    using admin(2) norm n same(2) by (auto simp: adminSessionsNeedReset_def)
  ultimately show ?thesis using password_round_trip [OF assms(2) hash] hash by auto
qed

section \<open>Pages of the statistics\<close>

definition filtered_items :: "(string \<times> stats_item list) list \<Rightarrow> RuntimeStatsQuery \<Rightarrow> stats_item list" where
  "filtered_items vendors q = filterRuntimeStatsItems (normalizeRuntimeStatsFilter (sq_Filter q)) (to_lower (trim_space (sq_Q q)))
     (case map_of vendors (trim_space (sq_VendorID q)) of None \<Rightarrow> [] | Some items \<Rightarrow> items)"

definition page_items :: "(string \<times> stats_item list) list \<Rightarrow> RuntimeStatsQuery \<Rightarrow> int \<Rightarrow> stats_item list" where
  "page_items vendors q page = snd (hd (fst (buildRuntimeStatsResponse vendors (q\<lparr>sq_Page := page\<rparr>))))"

definition page_count :: "(string \<times> stats_item list) list \<Rightarrow> RuntimeStatsQuery \<Rightarrow> int" where
  "page_count vendors q = (mt_Total (snd (buildRuntimeStatsResponse vendors q)) - 1) div mt_PageSize (snd (buildRuntimeStatsResponse vendors q)) + 1"

lemma chunks_concat:
  fixes n k :: nat
  assumes "0 < k"
  shows "concat (map (\<lambda>i. take k (drop (i * k) xs)) [0..<n]) = take (n * k) xs"
proof (induction n)
  case (Suc n)
  have "take (n * k) xs @ take k (drop (n * k) xs) = take (n * k + k) xs" by (simp add: take_add)
  thus ?case using Suc by (simp add: add.commute)
qed simp

definition shown_page :: "(string \<times> stats_item list) list \<Rightarrow> RuntimeStatsQuery \<Rightarrow> int" where
  "shown_page vendors q = (let n = int (length (filtered_items vendors q)) in
     if n = 0 then 1 else min (normalizeRuntimeStatsPage (sq_Page q)) ((n - 1) div normalizeRuntimeStatsPageSize (sq_PageSize q) + 1))"

lemma response_parts:
  assumes "trim_space (sq_VendorID q) \<noteq> []"
  shows "mt_Total (snd (buildRuntimeStatsResponse vendors q)) = int (length (filtered_items vendors q))"
    and "mt_PageSize (snd (buildRuntimeStatsResponse vendors q)) = normalizeRuntimeStatsPageSize (sq_PageSize q)"
    and "mt_Page (snd (buildRuntimeStatsResponse vendors q)) = shown_page vendors q"
    and "snd (hd (fst (buildRuntimeStatsResponse vendors q))) =
      (let n = int (length (filtered_items vendors q)); start = min ((shown_page vendors q - 1) * normalizeRuntimeStatsPageSize (sq_PageSize q)) n
       in drop (nat start) (take (nat (min (start + normalizeRuntimeStatsPageSize (sq_PageSize q)) n)) (filtered_items vendors q)))"
  unfolding buildRuntimeStatsResponse_def filtered_items_def [symmetric] shown_page_def Let_def
  by (simp_all only: assms if_False fst_conv snd_conv list.sel RuntimeStatsMeta.simps)

lemma filtered_page [simp]: "filtered_items vendors (q\<lparr>sq_Page := p\<rparr>) = filtered_items vendors q"
  by (simp add: filtered_items_def)

lemma page_slice: "drop a (take (min (a + k) (length xs)) xs) = take k (drop a xs)"
proof -
  have "take (min (a + k) (length xs)) xs = take (a + k) xs" by (simp add: min_def)
  thus ?thesis by (simp add: drop_take)
qed

lemma page_size_pos: "0 < normalizeRuntimeStatsPageSize n"
  by (simp add: normalizeRuntimeStatsPageSize_def)

lemma page_items_chunk:
  assumes vid: "trim_space (sq_VendorID q) \<noteq> []" and i: "i < nat ((int (length (filtered_items vendors q)) - 1) div normalizeRuntimeStatsPageSize (sq_PageSize q) + 1)"
  shows "page_items vendors q (int i + 1) =
    (let k = nat (normalizeRuntimeStatsPageSize (sq_PageSize q)) in take k (drop (i * k) (filtered_items vendors q)))"
proof -
  let ?xs = "filtered_items vendors q" and ?k = "normalizeRuntimeStatsPageSize (sq_PageSize q)"
  let ?n = "int (length ?xs)"
  have k: "0 < ?k" by (rule page_size_pos)
  have le: "int i \<le> (?n - 1) div ?k" using i by linarith
  hence "int i * ?k \<le> (?n - 1) div ?k * ?k" using k by (intro mult_right_mono) simp_all
  also have "\<dots> \<le> ?n - 1" using k minus_mod_eq_div_mult [of "?n - 1" ?k] pos_mod_sign [OF k, of "?n - 1"] by linarith
  finally have start: "int i * ?k < ?n" by simp
  hence ne: "?n \<noteq> 0" using k by (metis less_irrefl mult_nonneg_nonneg not_le of_nat_0_le_iff order_less_le)
  have "normalizeRuntimeStatsPage (int i + 1) = int i + 1" by (simp add: normalizeRuntimeStatsPage_def)
  hence page: "shown_page vendors (q\<lparr>sq_Page := int i + 1\<rparr>) = int i + 1" using le ne by (simp add: shown_page_def Let_def)
  have "trim_space (sq_VendorID (q\<lparr>sq_Page := int i + 1\<rparr>)) \<noteq> []" using vid by simp
  from response_parts(4) [OF this, of vendors]
  have "page_items vendors q (int i + 1) = drop (nat (int i * ?k)) (take (nat (min (int i * ?k + ?k) ?n)) ?xs)"
    using start by (simp add: page_items_def page Let_def min_absorb1 del: drop_take)
  also have "nat (int i * ?k) = i * nat ?k" using k by (simp add: nat_mult_distrib)
  also have "drop (i * nat ?k) (take (nat (min (int i * ?k + ?k) ?n)) ?xs) = take (nat ?k) (drop (i * nat ?k) ?xs)"
  proof -
    obtain m where m: "?k = int m" using k by (metis nonneg_int_cases less_imp_le)
    have "min (int i * ?k + ?k) ?n = int (min (i * m + m) (length ?xs))" by (simp add: m of_nat_min)
    hence "nat (min (int i * ?k + ?k) ?n) = min (i * nat ?k + nat ?k) (length ?xs)" using m by simp
    thus ?thesis by (simp only: page_slice)
  qed
  finally show ?thesis by (simp add: Let_def)
qed

text \<open>C38: Paging through the statistics of a vendor shows every matching key exactly once: the pages from the first to the
  last one, put together, are the filtered items in their order, no page is longer than the page size, which is between
  1 and 200, and whatever page is asked for, the one that is shown exists.\<close>

theorem stats_pages_partition:
  assumes "trim_space (sq_VendorID q) \<noteq> []"
  shows "concat (map (\<lambda>i. page_items vendors q (int i + 1)) [0..<nat (page_count vendors q)]) = filtered_items vendors q \<and>
    (\<forall>page. length (page_items vendors q page) \<le> nat (normalizeRuntimeStatsPageSize (sq_PageSize q)) \<and>
       (let shown = mt_Page (snd (buildRuntimeStatsResponse vendors (q\<lparr>sq_Page := page\<rparr>))) in 1 \<le> shown \<and> shown \<le> max 1 (page_count vendors q))) \<and>
    normalizeRuntimeStatsPageSize (sq_PageSize q) \<in> {1..200}"
proof -
  let ?xs = "filtered_items vendors q" and ?k = "normalizeRuntimeStatsPageSize (sq_PageSize q)"
  let ?n = "int (length ?xs)"
  have k: "0 < ?k" by (rule page_size_pos)
  have pages: "page_count vendors q = (?n - 1) div ?k + 1"
    by (simp add: page_count_def response_parts [OF assms])
  let ?c = "nat (page_count vendors q)"
  have pieces: "map (\<lambda>i. page_items vendors q (int i + 1)) [0..<?c] = map (\<lambda>i. take (nat ?k) (drop (i * nat ?k) ?xs)) [0..<?c]"
  proof (rule map_cong [OF refl])
    fix i
    assume "i \<in> set [0..<?c]"
    hence "i < nat ((?n - 1) div ?k + 1)" using pages by simp
    from page_items_chunk [OF assms this] show "page_items vendors q (int i + 1) = take (nat ?k) (drop (i * nat ?k) ?xs)" by (simp add: Let_def)
  qed
  have "concat (map (\<lambda>i. page_items vendors q (int i + 1)) [0..<?c]) = take (?c * nat ?k) ?xs"
    unfolding pieces by (rule chunks_concat) (use k in simp)
  moreover have "length ?xs \<le> ?c * nat ?k"
  proof -
    have "?n - 1 < ((?n - 1) div ?k + 1) * ?k" using k by (simp add: distrib_right) (metis add_less_cancel_left div_mult_mod_eq pos_mod_bound)
    hence n: "?n \<le> page_count vendors q * ?k" using pages by simp
    have "0 \<le> page_count vendors q"
      using pages k by (cases "?n = 0") (simp_all add: pos_imp_zdiv_nonneg_iff div_eq_minus1)
    hence "int (?c * nat ?k) = page_count vendors q * ?k" using k by simp
    thus ?thesis using n by linarith
  qed
  moreover have "length (page_items vendors q page) \<le> nat ?k" for page
  proof -
    have vid: "trim_space (sq_VendorID (q\<lparr>sq_Page := page\<rparr>)) \<noteq> []" using assms by simp
    show ?thesis using k by (simp add: page_items_def response_parts(4) [OF vid] Let_def)
  qed
  moreover have "1 \<le> mt_Page (snd (buildRuntimeStatsResponse vendors (q\<lparr>sq_Page := page\<rparr>))) \<and>
      mt_Page (snd (buildRuntimeStatsResponse vendors (q\<lparr>sq_Page := page\<rparr>))) \<le> max 1 (page_count vendors q)" for page
  proof -
    have vid: "trim_space (sq_VendorID (q\<lparr>sq_Page := page\<rparr>)) \<noteq> []" using assms by simp
    have "?n \<noteq> 0 \<Longrightarrow> 0 \<le> (?n - 1) div ?k" using k by (simp add: pos_imp_zdiv_nonneg_iff)
    thus ?thesis by (auto simp: response_parts(3) [OF vid] shown_page_def pages Let_def normalizeRuntimeStatsPage_def)
  qed
  moreover have "?k \<in> {1..200}" by (simp add: normalizeRuntimeStatsPageSize_def)
  ultimately show ?thesis by (simp add: Let_def)
qed

section \<open>Partial updates\<close>


end
