(* ===== verification/AdminExamples.thy ===== *)
theory AdminExamples
  imports AdminEffects
begin

text \<open>
  A small administration on which the properties of the administration are instantiated: two configurations, before
  and after a change of the password, a library that writes and reads exactly these, and a key store that is a map.
\<close>

definition live_crypto :: crypto_lib where
  "live_crypto = toy_crypto\<lparr>cl_pbkdf2 := (\<lambda>p salt iter n. replicate n (if p = ''new'' then 1 else 0))\<rparr>"

definition live_hash :: string where
  "live_hash = ''pbkdf2$120000$AAB$'' @ concat (replicate 32 ''01'')"

definition live_policy :: ErrorPolicyConfig where
  "live_policy =
     (let on = (\<lambda>d. \<lparr>cr_Enabled = Some True, cr_Duration = d\<rparr>) in
      \<lparr>ep_AutoDisable = \<lparr>ad_Enabled = Some True, ad_StatusCodes = [401], ad_Keywords = [''incorrect_api_key'', ''invalid_api_key'']\<rparr>,
       ep_Cooldown = \<lparr>cd_RequestError = on 2000000000, cd_Unauthorized = on 1800000000000, cd_PaymentRequired = on 10800000000000,
         cd_Forbidden = on 1800000000000, cd_RateLimit = on 5000000000, cd_ServerError = on 2000000000, cd_OpenAISlowDown = on 900000000000,
         cd_NoDefaultBackoff = False, cd_ResponseRules = []\<rparr>,
       ep_Failover = \<lparr>fo_RequestError = Some True, fo_Unauthorized = Some True, fo_PaymentRequired = Some True, fo_Forbidden = Some True,
         fo_RateLimit = Some True, fo_ServerError = Some True, fo_ResponseStatusCodes = [], fo_MaxAttempts = 5\<rparr>,
       ep_Masking = \<lparr>mk_Enabled = Some True, mk_Rules = []\<rparr>\<rparr>)"

definition live_vendor :: VendorConfig where
  "live_vendor =
     \<lparr>vc_Provider = ''openai'', vc_MaxUpstreamAttempts = 10,
      vc_Upstream = \<lparr>up_BaseURL = ''https://a'', up_UploadTimeout = Some 300000000000, up_ResponseHeaderTimeout = Some 300000000000,
        up_BodyTimeout = 300000000000, up_InterimResponseInterval = Some 30000000000\<rparr>,
      vc_Aggregate = \<lparr>gc_Children = [], gc_Retry = \<lparr>rc_Enabled = None, rc_MaxAttempts = 0, rc_RateLimit = None, rc_ServerError = None,
        rc_NetworkError = None, rc_StatusCodes = []\<rparr>\<rparr>,
      vc_LoadBalance = ''round_robin'', vc_UpstreamAuth = \<lparr>ua_Mode = ''bearer'', ua_Header = ''Authorization'', ua_Prefix = ''Bearer ''\<rparr>,
      vc_ClientAuth = \<lparr>ca_Enabled = False, ca_Keys = []\<rparr>, vc_ClientHeaders = \<lparr>ch_Preset = [], ch_Allowlist = [], ch_Drop = []\<rparr>,
      vc_InjectedHeader = [], vc_PathRewrites = [], vc_ErrorPolicy = live_policy, vc_CodesNil = False, vc_KeywordsNil = False,
      vc_Resin = \<lparr>rs_Enabled = False, rs_URL = [], rs_Platform = ''Default'', rs_Mode = ''reverse''\<rparr>\<rparr>"

definition live_config :: Config where
  "live_config =
     \<lparr>cf_SchemaVersion = 3,
      cf_Server = \<lparr>sv_Listen = '':8092'', sv_ReadTimeout = 30000000000, sv_WriteTimeout = 0, sv_IdleTimeout = 90000000000,
        sv_ShutdownTimeout = 10000000000, sv_TLS = \<lparr>tls_CertFile = [], tls_KeyFile = [], tls_MinVersion = []\<rparr>\<rparr>,
      cf_Admin = \<lparr>am_Enabled = True, am_Username = ''admin'', am_Password = ''old'', am_PasswordHash = [], am_SessionTTL = 43200000000000,
        am_AuditLogPath = ''./data/admin_audit.log'', am_AllowedCIDRs = [], am_TrustedProxyCIDRs = []\<rparr>,
      cf_Storage = \<lparr>st_Config = \<lparr>cs_Driver = ''file'', cs_PGSQL = \<lparr>cp_DSN = [], cp_Table = ''jc_proxy_configs'', cp_RecordKey = ''default'',
          cp_MaxOpenConns = 4, cp_MaxIdleConns = 2, cp_ConnMaxLifetime = 1800000000000\<rparr>\<rparr>,
        st_UpstreamKeys = \<lparr>us_Driver = ''file'', us_FilePath = ''./data/upstream_keys.json'',
          us_PGSQL = \<lparr>kp_DSN = [], kp_Table = ''jc_proxy_upstream_keys'', kp_MaxOpenConns = 4, kp_MaxIdleConns = 2,
            kp_ConnMaxLifetime = 1800000000000\<rparr>\<rparr>\<rparr>,
      cf_Vendors = [\<lparr>ve_ID = ''v1'', ve_Name = ''up'', ve_Config = live_vendor\<rparr>],
      cf_mintedVendorIDs = False\<rparr>"

definition rotated_config :: Config where
  "rotated_config = live_config\<lparr>cf_Admin := (cf_Admin live_config)\<lparr>am_PasswordHash := live_hash, am_Password := []\<rparr>\<rparr>"

definition live_yaml :: yaml_lib where
  "live_yaml = \<lparr>yl_probe = (\<lambda>_. Inr (Some 3)),
     yl_decode = (\<lambda>b. Inr (if b = ''old'' then live_config else rotated_config)),
     yl_storage = (\<lambda>_. Inr (cf_Storage live_config)),
     yl_encode = (\<lambda>c. if cf_SchemaVersion c \<noteq> 3 then Inl (Errorf [] [])
       else if yaml_image c = live_config then Inr ''old''
       else if yaml_image c = rotated_config then Inr ''new'' else Inl (Errorf [] [])),
     yl_zero = live_config\<rparr>"

definition live_admin :: admin_env where
  "live_admin = \<lparr>ae_build = sample_build_env, ae_yaml = live_yaml, ae_layer = (\<lambda>_. Inl (Errorf [] [])), ae_getenv = (\<lambda>_. None), ae_crypto = live_crypto\<rparr>"

lemma live_faithful: "yaml_faithful (ae_yaml live_admin)"
  by (auto simp: yaml_faithful_def live_admin_def live_yaml_def split: if_splits)

lemma live_crypto_ok: "crypto_ok (ae_crypto live_admin)"
  using toy_crypto_ok by (auto simp: crypto_ok_def live_crypto_def live_admin_def)

definition map_ops :: "record_map key_ops" where
  "map_ops = \<lparr>ko_ListAll = Inr, ko_List = (\<lambda>v k. Inr (vendor_records k v)), ko_Append = (\<lambda>v ks k. (Inr 0, k)), ko_Delete = (\<lambda>v ks k. (Inr 0, k)),
     ko_Replace = (\<lambda>v ks k. (None, k)), ko_SetStatus = (\<lambda>v key st re by k. (None, k)), ko_SetRemark = None, ko_DeleteVendor = (\<lambda>v k. (None, k))\<rparr>"

definition live_cx :: op_cx where
  "live_cx = \<lparr>cx_rands = (\<lambda>_ _. None), cx_db = all_up, cx_io = None, cx_salt = Some [2], cx_raw = [2, 3], cx_now = 5, cx_auditOpens = True\<rparr>"

definition live_router :: Router where
  "live_router = \<lparr>ro_vendors = [], ro_vendorsByID = [], ro_pools = [], ro_aggs = [], ro_targets = [], ro_consoleEnabled = True, ro_adminCIDRs = [],
     ro_adminTrustedProxyCIDRs = []\<rparr>"

text \<open>The heap is a parameter, so that an evaluation leaves it alone.\<close>

definition live_service :: "heap \<Rightarrow> record_map Service" where
  "live_service hp = \<lparr>ay_store = sample_store\<lparr>as_bootstrap := cf_Storage live_config, as_cfg := live_config\<rparr>, ay_media = \<lparr>md_file = Some ''old'', md_row = None\<rparr>,
     ay_runtime = \<lparr>rn_router = live_router, rn_cfg = live_config,
       rn_build = \<lparr>bs_registry = [], bs_heap = hp, bs_transports = \<lparr>tm_transports = [], tm_next = 0\<rparr>\<rparr>\<rparr>, ay_keys = [],
     ay_sessions = \<lparr>sm_ttl = 100, sm_sessions = [(''tok'', \<lparr>sn_Username = ''admin'', sn_ExpiresAt = 50\<rparr>)]\<rparr>, ay_auditPath = ''a'', ay_audit = []\<rparr>"

lemma live_fields [simp]:
  "ay_store (live_service hp) = sample_store\<lparr>as_bootstrap := cf_Storage live_config, as_cfg := live_config\<rparr>"
  "ay_keys (live_service hp) = []" "rn_router (ay_runtime (live_service hp)) = live_router"
  "rn_cfg (ay_runtime (live_service hp)) = live_config"
  "rn_build (ay_runtime (live_service hp)) = \<lparr>bs_registry = [], bs_heap = hp, bs_transports = \<lparr>tm_transports = [], tm_next = 0\<rparr>\<rparr>"
  "ay_sessions (live_service hp) = \<lparr>sm_ttl = 100, sm_sessions = [(''tok'', \<lparr>sn_Username = ''admin'', sn_ExpiresAt = 50\<rparr>)]\<rparr>"
  "cx_rands live_cx = (\<lambda>_ _. None)" "cx_io live_cx = None" "cx_now live_cx = 5" "cx_salt live_cx = Some [2]"
  "ko_ListAll map_ops = Inr"
  by (simp_all add: live_service_def live_cx_def map_ops_def)

lemma live_prepared: "prepared sample_env live_config \<and> prepared sample_env rotated_config \<and> clone_image live_config = live_config \<and> clone_image rotated_config = rotated_config"
  by code_simp


lemma live_hashed: "HashPassword (ae_crypto live_admin) (Some [2]) ''new'' = Inr live_hash"
proof -
  have "trim_space ''new'' \<noteq> []" by code_simp
  moreover have "itoa defaultIter = ''120000''" by (simp add: itoa_def nat_text.simps digit_char_def) code_simp
  moreover have "hex_bytes (replicate 32 1) = concat (replicate 32 ''01'')" by code_simp
  moreover have "cl_b64_std toy_crypto [2] = ''AAB''" by code_simp
  ultimately show ?thesis by (simp add: HashPassword_def live_admin_def live_crypto_def live_hash_def)
qed

lemma live_Clone:
  assumes "c = live_config \<or> c = rotated_config"
  shows "Clone sample_env live_yaml rand c = Inr c"
proof -
  have "yaml_image live_config = live_config \<and> yaml_image rotated_config = rotated_config \<and> cf_SchemaVersion live_config = 3 \<and>
      cf_SchemaVersion rotated_config = 3 \<and> live_config \<noteq> rotated_config" by code_simp
  hence "yaml_keeps live_yaml c" using assms by (auto simp: yaml_keeps_def live_yaml_def)
  from Clone_image [of c sample_env False, OF _ _ this] show ?thesis using live_prepared assms by (auto simp: prepared_def)
qed

lemma live_validated: "validate sample_env True rotated_config = None"
  by code_simp

lemma live_build:
  "(case newRouterWithUpstreamKeyRecords sample_build_env 5 (\<lambda>_. None) rotated_config []
      \<lparr>bs_registry = [], bs_heap = hp, bs_transports = \<lparr>tm_transports = [], tm_next = 0\<rparr>\<rparr> of (r, bs) \<Rightarrow> \<not> isl r)"
  by code_simp

lemma live_next: "next_config live_admin (live_cx\<lparr>cx_io := io\<rparr>) rotated_config (live_service hp) = Inr (live_config, rotated_config)"
proof -
  have "prepare sample_env rand True rotated_config = Inr rotated_config" for rand
    using prepare_fixed [of rotated_config sample_env True rand] live_prepared live_validated by (simp add: prepared_def)
  moreover have "rotated_config\<lparr>cf_Admin := normalizeAdminCredentials (cf_Admin rotated_config) (cf_Admin live_config),
      cf_Storage := cf_Storage live_config\<rparr> = rotated_config" by code_simp
  ultimately show ?thesis
    by (simp add: next_config_def GetConfig_def live_Clone live_admin_def live_service_def sample_build_env_def Let_def)
qed

lemma live_publish:
  "\<exists>s'. publish_log live_admin map_ops (live_cx\<lparr>cx_io := io\<rparr>) ''admin'' ''admin.password.rotate'' rotated_config (live_service hp) =
     (map_option (\<lambda>step. Errorf (step_text step) []) io, s') \<and> (io = None \<longrightarrow> as_cfg (ay_store s') = rotated_config)"
proof -
  let ?bs = "\<lparr>bs_registry = [], bs_heap = hp, bs_transports = \<lparr>tm_transports = [], tm_next = 0\<rparr>\<rparr>"
  obtain q bs where build: "newRouterWithUpstreamKeyRecords sample_build_env 5 (\<lambda>_. None) rotated_config [] ?bs = (q, bs)"
    by (cases "newRouterWithUpstreamKeyRecords sample_build_env 5 (\<lambda>_. None) rotated_config [] ?bs")
  then obtain r where q: "q = Inr r" using live_build [of hp] by (cases q) auto
  have store: "rotated_config\<lparr>cf_Storage := cf_Storage live_config\<rparr> = rotated_config" by (simp add: rotated_config_def)
  have enc: "EncodeYAML sample_env live_yaml rand rotated_config = Inr ''new''" for rand
  proof -
    have "yl_encode live_yaml rotated_config = Inr ''new''" by code_simp
    thus ?thesis by (simp add: EncodeYAML_def live_Clone)
  qed
  have env: "be_cfg (ae_build live_admin) = sample_env" "ae_yaml live_admin = live_yaml" "ae_build live_admin = sample_build_env"
    "be_cfg sample_build_env = sample_env"
    by (simp_all add: live_admin_def sample_build_env_def)
  obtain q' hp' where share: "router_ShareRuntimeStateFrom live_router r (bs_heap bs) = (q', hp')"
    by (cases "router_ShareRuntimeStateFrom live_router r (bs_heap bs)")
  show ?thesis
    using build q enc share store
    by (cases io) (simp_all add: publish_log_def updateConfigLocked_def live_next updateLocked_def buildRouter_def env live_Clone Let_def
        UpdateConfig_def sanitizeConfigForStore_def writeConfigFile_def sample_store_def)
qed

lemma live_current: "current live_admin cx (live_service hp) = Inr live_config"
  by (simp add: GetConfig_def live_service_def live_admin_def sample_build_env_def live_Clone)

lemma live_rotate:
  "\<exists>s'. RotatePassword live_admin map_ops (live_cx\<lparr>cx_io := io\<rparr>) ''admin'' ''new'' (live_service hp) =
     (map_option (\<lambda>step. Errorf (step_text step) []) io, s') \<and> (io = None \<longrightarrow> as_cfg (ay_store s') = rotated_config)"
proof -
  have salt: "cx_salt (live_cx\<lparr>cx_io := io\<rparr>) = Some [2]" by (simp add: live_cx_def)
  show ?thesis
    unfolding RotatePassword_def live_current sum.case salt live_hashed rotated_config_def [symmetric] by (rule live_publish)
qed

theorem password_rotation_effective_witness:
  "\<exists>s'. RotatePassword live_admin map_ops live_cx ''admin'' ''new'' (live_service sample_heap) = (None, s') \<and>
     login_check live_admin live_cx ''admin'' ''new'' s' = None \<and> login_check live_admin live_cx ''admin'' ''old'' s' \<noteq> None \<and>
     sm_sessions (ay_sessions s') = []"
proof -
  have io: "live_cx\<lparr>cx_io := None\<rparr> = live_cx" by (simp add: live_cx_def)
  obtain s' where s': "RotatePassword live_admin map_ops live_cx ''admin'' ''new'' (live_service sample_heap) = (None, s')"
    "as_cfg (ay_store s') = rotated_config" using live_rotate [of None sample_heap] unfolding io by auto
  have salt: "cx_salt live_cx = Some [2]" by (simp add: live_cx_def)
  have cur: "current live_admin live_cx s' = Inr rotated_config"
    using s'(2) by (simp add: GetConfig_def live_admin_def sample_build_env_def live_Clone)
  note rule = password_rotation_effective [OF live_faithful live_crypto_ok salt s'(1) live_current cur]
  have "am_Enabled (cf_Admin live_config)" "am_Username (cf_Admin live_config) = ''admin''" "am_PasswordHash (cf_Admin live_config) \<noteq> live_hash"
    by (simp_all add: live_config_def live_hash_def)
  moreover have "cl_pbkdf2 (ae_crypto live_admin) ''old'' [2] defaultIter keyLen \<noteq> cl_pbkdf2 (ae_crypto live_admin) ''new'' [2] defaultIter keyLen"
    by (simp add: live_admin_def live_crypto_def)
  ultimately show ?thesis using rule [of "''admin''" "''new''"] rule [of "''admin''" "''old''"] s'(1) live_hashed by auto
qed

section \<open>Requests\<close>

definition live_json :: json_lib where
  "live_json = \<lparr>jl_Login = (\<lambda>b. Some (''admin'', b)), jl_Config = (\<lambda>_. None), jl_KeysReplace = (\<lambda>_. None), jl_KeysBatch = (\<lambda>_. None),
     jl_KeyStatus = (\<lambda>_. None), jl_Password = Some, jl_VendorCreate = (\<lambda>_. None), jl_VendorUpdate = (\<lambda>_. None), jl_VendorRename = (\<lambda>_. None),
     jl_Key = (\<lambda>_. None), jl_Test = (\<lambda>_. None), jl_Reset = (\<lambda>_. None)\<rparr>"

definition live_test :: test_env where
  "live_test = \<lparr>te_build = sample_build_env, te_parseEndpoint = (\<lambda>_. Inl (Errorf [] [])), te_sum64 = (\<lambda>_. 0), te_newRequest = (\<lambda>_ _. None),
     te_do = (\<lambda>_ _ _ _. Inl (Errorf [] [])), te_elapsed = 0\<rparr>"

definition live_env :: "record_map handler_env" where
  "live_env = \<lparr>he_admin = live_admin, he_test = live_test, he_json = live_json, he_ops = map_ops, he_reset = None, he_addrText = (\<lambda>_. ''10.0.0.1'')\<rparr>"

definition live_handler :: "record_map Handler" where
  "live_handler = \<lparr>hd_service = live_service sample_heap, hd_loginGuard = NewLoginGuard\<rparr>"

definition live_request :: "string \<Rightarrow> header \<Rightarrow> string \<Rightarrow> admin_request" where
  "live_request path h body = \<lparr>aq_Method = ''POST'', aq_Path = path, aq_Query = (\<lambda>_. []), aq_Header = h, aq_RemoteAddr = ''10.0.0.1'', aq_Body = body\<rparr>"

lemma live_allowed:
  assumes "aq_RemoteAddr r = ''10.0.0.1''"
  shows "allowRequest live_env cx r (live_service hp) = Inr (Addr4 167772161)"
proof -
  have "svc_AdminAccess live_admin cx (live_service hp) = Inr (Some ([], []))"
    unfolding svc_AdminAccess_def live_current by (simp add: live_config_def parseCIDRs_def)
  moreover have "ParseRemoteAddr toy_net ''10.0.0.1'' = Some (Addr4 167772161)" by code_simp
  ultimately show ?thesis
    using assms by (simp add: allowRequest_def live_env_def live_admin_def sample_build_env_def sample_env_def ResolveRequestAddr_def AddrAllowed_def)
qed

theorem no_session_no_effect_witness:
  "\<exists>resp h'. serve_admin live_env live_cx (live_request ''/admin/password'' [(''Authorization'', [''Bearer nope''])] ''new'') live_handler = Some (resp, h') \<and>
     (\<exists>st rep. resp = Reply st rep \<and> st \<in> {401, 404, 500}) \<and> ay_store (hd_service h') = ay_store (hd_service live_handler)"
proof -
  let ?r = "live_request ''/admin/password'' [(''Authorization'', [''Bearer nope''])] ''new''"
  have token: "extractToken (aq_Header ?r) = ''nope''" by code_simp
  have path: "aq_Path ?r \<noteq> ''/admin/login''" "admin_route live_env live_cx (aq_Path ?r) = Some (handlePasswordRotate live_env live_cx)"
    by (simp_all add: live_request_def admin_route_def has_prefix_def)
  obtain resp s' where w: "withAuth live_env live_cx (handlePasswordRotate live_env live_cx) ?r (hd_service live_handler) = (resp, s')"
    by (cases "withAuth live_env live_cx (handlePasswordRotate live_env live_cx) ?r (hd_service live_handler)")
  have s: "serve_admin live_env live_cx ?r live_handler = Some (resp, live_handler\<lparr>hd_service := s'\<rparr>)"
    using path w by (simp add: serve_admin_def)
  have "\<not> signed_in live_env live_cx ?r (hd_service live_handler)"
    unfolding signed_in_def token by (simp add: live_handler_def)
  note rule = no_session_no_effect [OF s path(1) this]
  then obtain m where "live_handler\<lparr>hd_service := s'\<rparr> = live_handler\<lparr>hd_service := (hd_service live_handler)\<lparr>ay_sessions := m\<rparr>\<rparr>" by blast
  from arg_cong [OF this, of "\<lambda>h. ay_store (hd_service h)"] have "ay_store s' = ay_store (hd_service live_handler)" by simp
  thus ?thesis using conjunct1 [OF rule] s by simp
qed




theorem sessions_only_by_login_witness:
  "\<exists>sn rs1 cx r rs2. (session_token live_crypto [2, 3], sn) \<in> sessions_of (admin_run live_env [(live_cx, live_request ''/admin/login'' [] ''old'')] live_handler) \<and>
     [(live_cx, live_request ''/admin/login'' [] ''old'')] = rs1 @ (cx, r) # rs2 \<and>
     logged_in live_env cx r (sn_Username sn) (hd_service (admin_run live_env rs1 live_handler))"
proof -
  let ?r = "live_request ''/admin/login'' [] ''old''" and ?sn = "\<lparr>sn_Username = ''admin'', sn_ExpiresAt = 105\<rparr>"
  let ?token = "session_token live_crypto [2, 3]"
  have "login_check live_admin live_cx ''admin'' ''old'' (live_service sample_heap) = None"
  proof -
    have "trim_space ''old'' \<noteq> []" by code_simp
    moreover have "trim_space [] = []" by code_simp
    ultimately show ?thesis unfolding login_check_def live_current by (simp add: live_config_def HasCredentials_def check_def Let_def)
  qed
  moreover have "Blocked 5 ''10.0.0.1'' NewLoginGuard = ((0, False), NewLoginGuard)" by (simp add: Blocked_def NewLoginGuard_def)
  moreover have "allowRequest live_env live_cx ?r (live_service sample_heap) = Inr (Addr4 167772161)" by (rule live_allowed) (simp add: live_request_def)
  ultimately have "(?token, ?sn) \<in> sessions_of (admin_run live_env [(live_cx, ?r)] live_handler)"
    by (simp add: serve_admin_def live_request_def handleLogin_def live_handler_def live_env_def live_json_def Login_def login_create_def
        sess_Create_def Let_def live_cx_def live_admin_def)
  moreover have "?token \<noteq> ''tok''" by (simp add: session_token_def live_crypto_def toy_crypto_def)
  hence "(?token, ?sn) \<notin> sessions_of live_handler" by (simp add: live_handler_def)
  moreover have "yaml_faithful (ae_yaml (he_admin live_env))" using live_faithful by (simp add: live_env_def)
  ultimately show ?thesis using sessions_only_by_login [of live_env ?token ?sn "[(live_cx, ?r)]" live_handler] by blast
qed

section \<open>Statistics\<close>

definition idle_item :: stats_item where
  "idle_item = \<lparr>si_key_id = ''k'', si_key_masked = ''k'', si_status = ''active'', si_disable_reason = [], si_disabled_by = [], si_last_error = [],
     si_inflight = 0, si_failures = 0, si_backoff = 0, si_stats = zero_stats\<rparr>"

theorem stats_pages_partition_witness:
  "concat (map (\<lambda>i. page_items [(''v'', [idle_item, idle_item, idle_item])] \<lparr>sq_VendorID = ''v'', sq_Filter = [], sq_Q = [], sq_Page = 7, sq_PageSize = 2\<rparr> (int i + 1))
      [0..<nat (page_count [(''v'', [idle_item, idle_item, idle_item])] \<lparr>sq_VendorID = ''v'', sq_Filter = [], sq_Q = [], sq_Page = 7, sq_PageSize = 2\<rparr>)]) =
    [idle_item, idle_item, idle_item] \<and>
   page_count [(''v'', [idle_item, idle_item, idle_item])] \<lparr>sq_VendorID = ''v'', sq_Filter = [], sq_Q = [], sq_Page = 7, sq_PageSize = 2\<rparr> = 2"
proof -
  let ?q = "\<lparr>sq_VendorID = ''v'', sq_Filter = [], sq_Q = [], sq_Page = 7, sq_PageSize = 2\<rparr>" and ?v = "[(''v'', [idle_item, idle_item, idle_item])]"
  have "trim_space (sq_VendorID ?q) \<noteq> []" by code_simp
  from stats_pages_partition [OF this, of ?v] have "concat (map (\<lambda>i. page_items ?v ?q (int i + 1)) [0..<nat (page_count ?v ?q)]) = filtered_items ?v ?q"
    by (rule conjunct1)
  moreover have "filtered_items ?v ?q = [idle_item, idle_item, idle_item]" "page_count ?v ?q = 2" by code_simp+
  ultimately show ?thesis by simp
qed

end
