(* ===== verification/Spec2Isabelle.thy ===== *)
theory Spec2Isabelle
  imports AsyncStore PoolShare RequestSafety UrlPath StatsLedger RouterReload AdminExamples
begin

text \<open>
  A verification of the core of \<open>jc_proxy\<close>, a gateway that forwards client requests to the HTTP APIs of
  language-model vendors and schedules the API keys it uses there.

  \<^bold>\<open>The program.\<close>  A request names a vendor by the first segment of its path.  The router
  (\<open>internal/gateway/router.go\<close>) checks the client's credential, prepares the body
  (\<open>request_body.go\<close>), takes a key from the pool of the vendor (\<open>internal/balancer\<close>), sends the upstream
  request with the headers of \<open>headers.go\<close>, classifies the answer (\<open>key_policy.go\<close>, \<open>error_masking.go\<close>),
  settles the key with the pool, and either delivers the answer (\<open>response.go\<close>) or tries another key, or,
  for an aggregate vendor (\<open>gateway.go\<close>), another child.  A key that the upstream rejects is disabled in
  the pool at once and in the key store (\<open>internal/keystore\<close>) later, through an asynchronous store that
  overlays the pending changes over the persistent ones.  A change of the configuration builds a new
  router, which takes over the key states of the old one (\<open>gateway.go\<close>, \<open>runtime.go\<close>).  Every change comes
  through the administration (\<open>internal/admin\<close>): an HTTP interface with sessions and a login guard, a
  service that changes configuration, keys and password, and a store that saves the configuration, which
  \<open>internal/config\<close> loads, completes and validates.  Counted statistics are shipped to the key store by a
  persister (\<open>stats_persister.go\<close>).

  \<^bold>\<open>Conventions.\<close>  A Go string is a list of bytes (\<open>string\<close>).  A time or a duration is an \<open>int\<close> of
  nanoseconds, the zero time is \<open>0\<close>.  Machine integers are \<open>int\<close>, with \<open>wrap64\<close> where the code can
  overflow; \<open>float64\<close> is a rational with explicit rounding.  Structs are records whose fields carry a
  prefix, errors are values, a mutex-protected operation is one function on the state.  What the program
  cannot decide is an argument: clock readings, random choices, the outcome of system calls, the answers
  of upstreams, the actions of concurrent requests.  A Go map that the code ranges over is an association
  list, so its iteration order is an argument too.  The decoders of the standard library that the code
  only calls (JSON, MIME types, HTTP dates, durations, printability) are fields of the record \<open>std_lib\<close>.
  A clash with a name of the library is resolved with a prefix (\<open>fs_\<close>, \<open>as_\<close>, \<open>agg_\<close>, \<open>vg_\<close>, \<open>pool_\<close>).

  \<^bold>\<open>Theories.\<close>
  \<^item> \<open>Prelude\<close>, \<open>GoText\<close>, \<open>Float64\<close>, \<open>GoStd\<close>: strings, UTF-8, IEEE rounding and the parts of the Go
    library that the model computes.
  \<^item> \<open>KeyRecord\<close> (\<open>keystore/store.go\<close>, \<open>recent_stats.go\<close>): key records, their normal form, statistics
    deltas.
  \<^item> \<open>FileStore\<close> (\<open>keystore/file_store.go\<close>): the store over memory and disk, as a step relation; every
    reachable state reloads to itself, errors change nothing, conditional updates are a compare-and-swap.
  \<^item> \<open>AsyncStore\<close> (\<open>keystore/async_store.go\<close>): pending updates, their overlay and the retrying worker.  The
    contract of the store below is a locale, interpreted on the file store.
  \<^item> \<open>StatsHandle\<close> (\<open>balancer/runtime_stats.go\<close>, \<open>performance.go\<close>, \<open>stats_reset.go\<close>): counters, the ring
    of the latest samples, which refines a list, and the scheduling costs with their bounds.
  \<^item> \<open>Pool\<close>, \<open>PoolPick\<close>, \<open>PoolSettle\<close>, \<open>PoolShare\<close> (\<open>balancer/pool.go\<close>, \<open>performance.go\<close>,
    \<open>attempt_result.go\<close>): key pools over a heap of key states that generations of routers share.
    Selection is sound and complete for each strategy, settlement follows the version of the key, and in
    every reachable state the in-flight counters are exact.
  \<^item> \<open>ConfigTypes\<close>, \<open>ErrorPolicy\<close> (\<open>gateway/key_policy.go\<close>, \<open>error_masking.go\<close>): what an error means for a
    key, and what the client is shown instead of it.
  \<^item> \<open>VendorGateway\<close> (\<open>gateway/headers.go\<close>, parts of \<open>vendor_proxy.go\<close>, \<open>gateway.go\<close>, \<open>resin.go\<close>): client
    credentials and headers; with managed keys the client's credentials stay at the gateway.
  \<^item> \<open>AggregatePool\<close> (\<open>gateway/gateway.go\<close>): tiers and weighted strategies, with a locale for the contract
    of a strategy.
  \<^item> \<open>RequestBody\<close> (\<open>gateway/request_body.go\<close>): what is sent upstream and when it may be sent again.
  \<^item> \<open>ResponseStream\<close> (\<open>gateway/response.go\<close>): commitment and streaming of an answer.
  \<^item> \<open>RequestExec\<close> (\<open>gateway/router.go\<close>, \<open>attempt_timing.go\<close>, the attempts of \<open>vendor_proxy.go\<close>): the two
    nested retry loops.  The environment gives, for each upstream request, what happened around it.
  \<^item> \<open>RequestEffects\<close>, \<open>RequestSafety\<close>: what a request does to keys, upstreams and the client, for every
    environment; the contract of the hook between the loops is the locale \<open>retry_hook\<close>.

  \<^item> \<open>UrlPath\<close> (\<open>gateway/url_path.go\<close>, the URL part of \<open>vendor_proxy.go\<close>, \<open>ServeHTTP\<close> of \<open>router.go\<close>,
    \<open>resin/resin.go\<close>): the vendor of a path and the URL of the upstream request.  The decoded and the
    escaped form of a path stay in step.
  \<^item> \<open>ConfigModel\<close>, \<open>ConfigValidate\<close>, \<open>ConfigSound\<close>, \<open>ConfigLoad\<close> (\<open>internal/config\<close>): the structures,
    defaults, checks, the overrides from the environment and the copy through YAML.  An accepted
    configuration is well formed, and preparing it again changes nothing.
  \<^item> \<open>StatsPersist\<close>, \<open>StatsLedger\<close> (\<open>gateway/runtime_stats_registry.go\<close>, \<open>stats_persister.go\<close>): the
    registry of handles and the persister; over every run, what the store holds and what is still to be
    shipped is exactly what was counted.
  \<^item> \<open>RouterBuild\<close>, \<open>RouterReload\<close> (\<open>gateway/gateway.go\<close>, \<open>transport_manager.go\<close>, \<open>runtime.go\<close>): the
    construction and the exchange of routers.  A prepared configuration always builds, and a failed update
    leaves the gateway as it was.
  \<^item> \<open>AdminAccess\<close> (\<open>admin/login_guard.go\<close>, addresses in \<open>config.go\<close>): lock-out after failed logins, which
    refines an abstract specification, and the client's address behind trusted proxies.
  \<^item> \<open>AdminStore\<close> (\<open>admin/password.go\<close>, \<open>store.go\<close>, \<open>store_pgsql.go\<close>): password hashes and the two
    configuration stores.
  \<^item> \<open>AdminService\<close>, \<open>AdminKeys\<close> (\<open>admin/service.go\<close>, \<open>stats_reset.go\<close>, \<open>auth.go\<close>, \<open>audit.go\<close>): sessions
    and every operation of the service, as functions on the state of the whole administration.
  \<^item> \<open>VendorTesting\<close> (\<open>gateway/vendor_testing.go\<close>): the test requests; \<open>AdminHandler\<close> (\<open>admin/handler.go\<close>,
    \<open>models.go\<close>): the routes and their handlers.
  \<^item> \<open>AdminSafety\<close>, \<open>AdminEffects\<close>, \<open>AdminExamples\<close>: for every sequence of requests, the configuration that
    is served is the one that is saved, nothing changes without a session, only a login opens a session, and
    a failed request spares what it names; then the password change, partial updates and paging, with a
    sample administration on which the theorems are instantiated.

  \<^bold>\<open>Bounds.\<close>  No fuel is used: the failover loop terminates by the difference of its limit and its counter
  (\<open>serve_loop\<close>), the loop over the children by the number of child attempts left, the recursion of a
  JSON preview by the size of the value.  A response body is a finite sequence of reads; a body that
  never ends is not modelled.

  \<^bold>\<open>Not modelled.\<close>  The PostgreSQL key store (\<open>keystore/pgsql_store.go\<close>), whose behaviour is that of SQL
  statements; of the PostgreSQL configuration store, the texts of its statements.  The timers of request
  bodies, uploads and interim responses, which are goroutines around the modelled calls: a timeout appears
  as the error it causes.  The commands, among them the upgrade tool, the reading of \<open>.env\<close> files, the assets
  of the web console, and the free-form details of audit entries.  The codecs for JSON and YAML, the digests,
  and the HTTP client are arguments.  In \<open>RequestExec\<close>, the path of an upstream URL and the success of
  building the upstream request are arguments; \<open>UrlPath\<close> models them on their own.
\<close>

end
